(* ===== verification/Spdy_Prelude.thy ===== *)
theory Spdy_Prelude
  imports Main "HOL-Library.Word" "HOL-Library.Signed_Division"
begin

text \<open>
  Shared ground of the spdylay development: the machine types of the C code, the error
  codes of \<open>spdylay.h\<close>, the allocator that \<open>malloc\<close> consults, and the generic
  lemmas on lists and words that the components use.

  \<^item> \<open>u8\<close>, \<open>u16\<close> and \<open>u32\<close> are the unsigned C types. An \<open>int32_t\<close> is an
    \<open>i32\<close>: the same 32 bits, read with \<^const>\<open>sint\<close> where the C code compares or
    divides it as a signed value, so that conversions between the two are the identity and
    an overflow gives the two's complement result. An \<open>int\<close> that carries an error
    code or a priority is an \<^typ>\<open>int\<close>. A \<open>size_t\<close> is a \<^typ>\<open>nat\<close>, with
    \<open>size_sub\<close> for the subtractions that could wrap.
  \<^item> \<open>mem\<close> is the allocator: the answer of the next call to \<open>malloc\<close> and
    the bytes a fresh block holds before it is written.
  \<^item> A failed \<open>assert\<close> is the result \<open>None\<close> of an option-valued definition.
\<close>

unbundle bit_operations_syntax

section \<open>Machine types\<close>

type_synonym u8 = "8 word"
type_synonym u16 = "16 word"
type_synonym u32 = "32 word"
type_synonym i32 = "32 word"
type_synonym bytes = "8 word list"

text \<open>A C string: the bytes before the terminating NUL.\<close>

type_synonym cstr = "8 word list"

text \<open>A C string literal.\<close>

definition lit :: "string \<Rightarrow> cstr" where
  "lit s = map of_char s"

definition INT32_MAX :: int where
  [simp]: "INT32_MAX = 2147483647"

definition SIZE_MAX1 :: nat where
  "SIZE_MAX1 = 2 ^ 64"

text \<open>Subtraction on \<open>size_t\<close>: it wraps below zero.\<close>

definition size_sub :: "nat \<Rightarrow> nat \<Rightarrow> nat" where
  "size_sub a b = (if b \<le> a then a - b else a + SIZE_MAX1 - b)"

lemma size_sub_le [simp]: "b \<le> a \<Longrightarrow> size_sub a b = a - b"
  by (simp add: size_sub_def)

section \<open>Error codes\<close>

definition SPDYLAY_ERR_INVALID_ARGUMENT :: int where
  [simp]: "SPDYLAY_ERR_INVALID_ARGUMENT = -501"
definition SPDYLAY_ERR_ZLIB :: int where
  [simp]: "SPDYLAY_ERR_ZLIB = -502"
definition SPDYLAY_ERR_UNSUPPORTED_VERSION :: int where
  [simp]: "SPDYLAY_ERR_UNSUPPORTED_VERSION = -503"
definition SPDYLAY_ERR_WOULDBLOCK :: int where
  [simp]: "SPDYLAY_ERR_WOULDBLOCK = -504"
definition SPDYLAY_ERR_PROTO :: int where
  [simp]: "SPDYLAY_ERR_PROTO = -505"
definition SPDYLAY_ERR_INVALID_FRAME :: int where
  [simp]: "SPDYLAY_ERR_INVALID_FRAME = -506"
definition SPDYLAY_ERR_EOF :: int where
  [simp]: "SPDYLAY_ERR_EOF = -507"
definition SPDYLAY_ERR_DEFERRED :: int where
  [simp]: "SPDYLAY_ERR_DEFERRED = -508"
definition SPDYLAY_ERR_STREAM_ID_NOT_AVAILABLE :: int where
  [simp]: "SPDYLAY_ERR_STREAM_ID_NOT_AVAILABLE = -509"
definition SPDYLAY_ERR_STREAM_CLOSED :: int where
  [simp]: "SPDYLAY_ERR_STREAM_CLOSED = -510"
definition SPDYLAY_ERR_STREAM_CLOSING :: int where
  [simp]: "SPDYLAY_ERR_STREAM_CLOSING = -511"
definition SPDYLAY_ERR_STREAM_SHUT_WR :: int where
  [simp]: "SPDYLAY_ERR_STREAM_SHUT_WR = -512"
definition SPDYLAY_ERR_INVALID_STREAM_ID :: int where
  [simp]: "SPDYLAY_ERR_INVALID_STREAM_ID = -513"
definition SPDYLAY_ERR_INVALID_STREAM_STATE :: int where
  [simp]: "SPDYLAY_ERR_INVALID_STREAM_STATE = -514"
definition SPDYLAY_ERR_DEFERRED_DATA_EXIST :: int where
  [simp]: "SPDYLAY_ERR_DEFERRED_DATA_EXIST = -515"
definition SPDYLAY_ERR_SYN_STREAM_NOT_ALLOWED :: int where
  [simp]: "SPDYLAY_ERR_SYN_STREAM_NOT_ALLOWED = -516"
definition SPDYLAY_ERR_GOAWAY_ALREADY_SENT :: int where
  [simp]: "SPDYLAY_ERR_GOAWAY_ALREADY_SENT = -517"
definition SPDYLAY_ERR_INVALID_HEADER_BLOCK :: int where
  [simp]: "SPDYLAY_ERR_INVALID_HEADER_BLOCK = -518"
definition SPDYLAY_ERR_INVALID_STATE :: int where
  [simp]: "SPDYLAY_ERR_INVALID_STATE = -519"
definition SPDYLAY_ERR_GZIP :: int where
  [simp]: "SPDYLAY_ERR_GZIP = -520"
definition SPDYLAY_ERR_TEMPORAL_CALLBACK_FAILURE :: int where
  [simp]: "SPDYLAY_ERR_TEMPORAL_CALLBACK_FAILURE = -521"
definition SPDYLAY_ERR_FRAME_TOO_LARGE :: int where
  [simp]: "SPDYLAY_ERR_FRAME_TOO_LARGE = -522"
definition SPDYLAY_ERR_FATAL :: int where
  [simp]: "SPDYLAY_ERR_FATAL = -900"
definition SPDYLAY_ERR_NOMEM :: int where
  [simp]: "SPDYLAY_ERR_NOMEM = -901"
definition SPDYLAY_ERR_CALLBACK_FAILURE :: int where
  [simp]: "SPDYLAY_ERR_CALLBACK_FAILURE = -902"
definition SPDYLAY_ERR_CREDENTIAL_PENDING :: int where
  [simp]: "SPDYLAY_ERR_CREDENTIAL_PENDING = -101"

definition spdylay_is_non_fatal :: "int \<Rightarrow> bool" where
  "spdylay_is_non_fatal error \<longleftrightarrow> error < 0 \<and> error > SPDYLAY_ERR_FATAL"

definition spdylay_is_fatal :: "int \<Rightarrow> bool" where
  "spdylay_is_fatal error \<longleftrightarrow> error < SPDYLAY_ERR_FATAL"

section \<open>The allocator\<close>

text \<open>
  \<open>mem_next\<close> numbers the calls, \<open>mem_ok\<close> says which of them succeed and
  \<open>mem_junk\<close> what the bytes of a fresh block are.
\<close>

record mem =
  mem_next :: nat
  mem_ok :: "nat \<Rightarrow> bool"
  mem_junk :: "nat \<Rightarrow> nat \<Rightarrow> u8"

definition malloc :: "mem \<Rightarrow> bool \<times> mem" where
  "malloc m = (mem_ok m (mem_next m), m\<lparr>mem_next := Suc (mem_next m)\<rparr>)"

definition fresh_block :: "mem \<Rightarrow> nat \<Rightarrow> bytes" where
  "fresh_block m n = map (mem_junk m (mem_next m)) [0..<n]"

definition good_mem :: mem where
  "good_mem = \<lparr>mem_next = 0, mem_ok = (\<lambda>_. True), mem_junk = (\<lambda>_ _. 0)\<rparr>"

lemma length_fresh_block [simp]: "length (fresh_block m n) = n"
  by (simp add: fresh_block_def)

lemma malloc_keeps [simp]:
  "mem_ok (snd (malloc m)) = mem_ok m" "mem_junk (snd (malloc m)) = mem_junk m"
  by (simp_all add: malloc_def)

section \<open>Lists\<close>

text \<open>Writing a run of bytes into a buffer at an offset, as \<open>memcpy\<close> does.\<close>

definition memcpy_at :: "bytes \<Rightarrow> nat \<Rightarrow> bytes \<Rightarrow> bytes" where
  "memcpy_at buf off src = take off buf @ src @ drop (off + length src) buf"

lemma length_memcpy_at [simp]:
  "off + length src \<le> length buf \<Longrightarrow> length (memcpy_at buf off src) = length buf"
  by (simp add: memcpy_at_def)

lemma take_memcpy_at [simp]:
  "off + length src \<le> length buf \<Longrightarrow> n = off + length src \<Longrightarrow>
   take n (memcpy_at buf off src) = take off buf @ src"
  by (simp add: memcpy_at_def)

end
