(* ===== verification/Spdy_Helper.thy ===== *)
theory Spdy_Helper
  imports Spdy_Prelude
begin

text \<open>
  \<open>lib/spdylay_helper.c\<close>: integers in network byte order, the growth of a byte
  buffer, and the text of an error code. The round trips of the two integer encodings are
  instances of the interface \<open>byte_codec\<close>, which the frame formats use too.
\<close>

section \<open>Integers in network byte order\<close>

definition spdylay_put_uint16be :: "u16 \<Rightarrow> bytes" where
  "spdylay_put_uint16be n = [ucast (drop_bit 8 n), ucast n]"

definition spdylay_put_uint32be :: "u32 \<Rightarrow> bytes" where
  "spdylay_put_uint32be n =
     [ucast (drop_bit 24 n), ucast (drop_bit 16 n), ucast (drop_bit 8 n), ucast n]"

text \<open>The readers look at the first two or four bytes of \<open>data\<close>.\<close>

definition spdylay_get_uint16 :: "bytes \<Rightarrow> u16" where
  "spdylay_get_uint16 data = push_bit 8 (ucast (data ! 0)) OR ucast (data ! 1)"

definition spdylay_get_uint32 :: "bytes \<Rightarrow> u32" where
  "spdylay_get_uint32 data =
     push_bit 24 (ucast (data ! 0)) OR push_bit 16 (ucast (data ! 1)) OR
     push_bit 8 (ucast (data ! 2)) OR ucast (data ! 3)"

section \<open>Growing a buffer\<close>

text \<open>
  \<open>spdylay_reserve_buffer\<close> works on a buffer with its capacity; the old contents are not
  kept when it grows. The result is the return value, the buffer and the allocator.
\<close>

definition round_up_4096 :: "nat \<Rightarrow> nat" where
  "round_up_4096 n = (n + 4095) div 4096 * 4096"

definition spdylay_reserve_buffer :: "mem \<Rightarrow> bytes \<Rightarrow> nat \<Rightarrow> int \<times> bytes \<times> mem" where
  "spdylay_reserve_buffer m buf min_length =
     (if min_length > length buf then
        let n = round_up_4096 min_length; (ok, m') = malloc m in
        if \<not> ok then (SPDYLAY_ERR_NOMEM, buf, m')
        else (0, fresh_block m n, m')
      else (0, buf, m))"

section \<open>Error texts\<close>

definition spdylay_strerror :: "int \<Rightarrow> string" where
  "spdylay_strerror error_code =
     (if error_code = 0 then ''Success''
      else if error_code = SPDYLAY_ERR_INVALID_ARGUMENT then ''Invalid argument''
      else if error_code = SPDYLAY_ERR_ZLIB then ''Zlib error''
      else if error_code = SPDYLAY_ERR_UNSUPPORTED_VERSION then ''Unsupported SPDY version''
      else if error_code = SPDYLAY_ERR_WOULDBLOCK then ''Operation would block''
      else if error_code = SPDYLAY_ERR_PROTO then ''Protocol error''
      else if error_code = SPDYLAY_ERR_INVALID_FRAME then ''Invalid frame octets''
      else if error_code = SPDYLAY_ERR_EOF then ''EOF''
      else if error_code = SPDYLAY_ERR_DEFERRED then ''Data transfer deferred''
      else if error_code = SPDYLAY_ERR_STREAM_ID_NOT_AVAILABLE then
        ''No more Stream ID available''
      else if error_code = SPDYLAY_ERR_STREAM_CLOSED then
        ''Stream was already closed or invalid''
      else if error_code = SPDYLAY_ERR_STREAM_CLOSING then ''Stream is closing''
      else if error_code = SPDYLAY_ERR_STREAM_SHUT_WR then
        ''The transmission is not allowed for this stream''
      else if error_code = SPDYLAY_ERR_INVALID_STREAM_ID then ''Stream ID is invalid''
      else if error_code = SPDYLAY_ERR_INVALID_STREAM_STATE then ''Invalid stream state''
      else if error_code = SPDYLAY_ERR_DEFERRED_DATA_EXIST then
        ''Another DATA frame has already been deferred''
      else if error_code = SPDYLAY_ERR_SYN_STREAM_NOT_ALLOWED then
        ''SYN_STREAM is not allowed''
      else if error_code = SPDYLAY_ERR_GOAWAY_ALREADY_SENT then
        ''GOAWAY has already been sent''
      else if error_code = SPDYLAY_ERR_INVALID_HEADER_BLOCK then ''Invalid header block''
      else if error_code = SPDYLAY_ERR_INVALID_STATE then ''Invalid state''
      else if error_code = SPDYLAY_ERR_GZIP then ''Gzip error''
      else if error_code = SPDYLAY_ERR_TEMPORAL_CALLBACK_FAILURE then
        ''The user callback function failed due to the temporal error''
      else if error_code = SPDYLAY_ERR_FRAME_TOO_LARGE then
        ''The length of the frame is too large''
      else if error_code = SPDYLAY_ERR_NOMEM then ''Out of memory''
      else if error_code = SPDYLAY_ERR_CALLBACK_FAILURE then
        ''The user callback function failed''
      else ''Unknown error code'')"

section \<open>Byte codecs\<close>

text \<open>
  The interface of a fixed-width encoding: every value takes \<open>width\<close> bytes, decoding
  looks at no byte after them, and decoding inverts encoding.
\<close>

locale byte_codec =
  fixes enc :: "'a \<Rightarrow> bytes" and dec :: "bytes \<Rightarrow> 'a" and width :: nat
  assumes width_enc: "length (enc x) = width"
    and dec_enc: "dec (enc x) = x"
    and dec_prefix: "width \<le> length bs \<Longrightarrow> dec (bs @ rest) = dec bs"
begin

lemma dec_enc_append: "dec (enc x @ rest) = x"
  by (simp add: dec_enc dec_prefix width_enc)

lemma enc_inject: "enc x = enc y \<longleftrightarrow> x = y"
  by (metis dec_enc)

lemma dec_at: "dec (drop (length pre) (pre @ enc x @ rest)) = x"
  by (simp add: dec_enc_append)

end

lemma get_put_uint16_bits: "spdylay_get_uint16 (spdylay_put_uint16be n) = n"
  unfolding spdylay_get_uint16_def spdylay_put_uint16be_def
  by (rule bit_word_eqI) (auto simp: bit_simps)

lemma get_put_uint32_bits: "spdylay_get_uint32 (spdylay_put_uint32be n) = n"
proof (rule bit_word_eqI)
  fix i assume "i < LENGTH(32)"
  then consider "i < 8" | "8 \<le> i" "i < 16" | "16 \<le> i" "i < 24" | "24 \<le> i" "i < 32"
    by fastforce
  then show "bit (spdylay_get_uint32 (spdylay_put_uint32be n)) i \<longleftrightarrow> bit n i"
    by cases (auto simp: spdylay_get_uint32_def spdylay_put_uint32be_def bit_simps)
qed

interpretation u16be: byte_codec spdylay_put_uint16be spdylay_get_uint16 2
proof unfold_locales
  show "length (spdylay_put_uint16be x) = 2" for x
    by (simp add: spdylay_put_uint16be_def)
  show "2 \<le> length bs \<Longrightarrow> spdylay_get_uint16 (bs @ rest) = spdylay_get_uint16 bs" for bs rest
    by (cases bs) (auto simp: spdylay_get_uint16_def nth_append)
qed (rule get_put_uint16_bits)

interpretation u32be: byte_codec spdylay_put_uint32be spdylay_get_uint32 4
proof unfold_locales
  show "length (spdylay_put_uint32be x) = 4" for x
    by (simp add: spdylay_put_uint32be_def)
  show "4 \<le> length bs \<Longrightarrow> spdylay_get_uint32 (bs @ rest) = spdylay_get_uint32 bs" for bs rest
    by (cases bs) (auto simp: spdylay_get_uint32_def nth_append)
qed (rule get_put_uint32_bits)

lemmas put_uint_simps [simp] =
  u16be.width_enc u32be.width_enc u16be.dec_enc u32be.dec_enc
  u16be.dec_enc_append u32be.dec_enc_append

section \<open>The reserved buffer is large enough\<close>

lemma round_up_4096_ge: "n \<le> round_up_4096 n"
  unfolding round_up_4096_def by linarith

lemma round_up_4096_slack: "round_up_4096 n < n + 4096"
  unfolding round_up_4096_def by linarith

lemma reserve_buffer_cases:
  assumes "spdylay_reserve_buffer m buf n = (r, buf', m')"
  obtains (kept) "r = 0" "n \<le> length buf" "buf' = buf" "m' = m"
  | (grown) "r = 0" "length buf < n" "length buf' = round_up_4096 n" "m' = snd (malloc m)"
  | (nomem) "r = SPDYLAY_ERR_NOMEM" "buf' = buf" "length buf < n" "m' = snd (malloc m)"
  using assms
  by (auto simp: spdylay_reserve_buffer_def Let_def malloc_def split: if_splits)

end
