(* ===== verification/Spdy_Queue.thy ===== *)
theory Spdy_Queue
  imports Spdy_Prelude
begin

text \<open>
  \<open>lib/spdylay_queue.c\<close>: the singly linked queue, with its cells in an explicit store so
  that the aliasing of \<open>back\<close> with the last cell of the chain is part of the model. The
  addresses are the call numbers of the allocator. The interface \<open>fifo_queue\<close> is what a
  client may rely on; the interpretation proves it for the linked cells.
\<close>

section \<open>Cells and operations\<close>

record 'a spdylay_queue_cell =
  cell_data :: 'a
  cell_next :: "nat option"

record 'a spdylay_queue =
  q_cells :: "nat \<rightharpoonup> 'a spdylay_queue_cell"
  q_front :: "nat option"
  q_back :: "nat option"

definition spdylay_queue_init :: "'a spdylay_queue" where
  "spdylay_queue_init = \<lparr>q_cells = Map.empty, q_front = None, q_back = None\<rparr>"

text \<open>The loop of \<open>spdylay_queue_free\<close>: \<open>None\<close> when it reads a freed cell or never ends.\<close>

partial_function (option) queue_free_from ::
    "(nat \<rightharpoonup> 'a spdylay_queue_cell) \<Rightarrow> nat option \<Rightarrow> (nat \<rightharpoonup> 'a spdylay_queue_cell) option" where
  "queue_free_from cs p =
     (case p of None \<Rightarrow> Some cs
      | Some a \<Rightarrow>
          (case cs a of None \<Rightarrow> None
           | Some c \<Rightarrow> queue_free_from (cs(a := None)) (cell_next c)))"

definition spdylay_queue_free :: "'a spdylay_queue \<Rightarrow> (nat \<rightharpoonup> 'a spdylay_queue_cell) option" where
  "spdylay_queue_free queue = queue_free_from (q_cells queue) (q_front queue)"

definition spdylay_queue_push ::
    "mem \<Rightarrow> 'a spdylay_queue \<Rightarrow> 'a \<Rightarrow> int \<times> 'a spdylay_queue \<times> mem" where
  "spdylay_queue_push m queue d =
     (let new_cell = mem_next m; (ok, m') = malloc m in
      if \<not> ok then (SPDYLAY_ERR_NOMEM, queue, m')
      else
        let cs = (q_cells queue)(new_cell \<mapsto> \<lparr>cell_data = d, cell_next = None\<rparr>) in
        case q_back queue of
          Some b \<Rightarrow>
            (0, queue\<lparr>q_cells := cs(b := map_option (\<lambda>c. c\<lparr>cell_next := Some new_cell\<rparr>) (cs b)),
                      q_back := Some new_cell\<rparr>, m')
        | None \<Rightarrow>
            (0, queue\<lparr>q_cells := cs, q_front := Some new_cell, q_back := Some new_cell\<rparr>, m'))"

text \<open>\<open>assert\<close> on an empty queue, and the read of a cell that is not allocated, are \<open>None\<close>.\<close>

definition spdylay_queue_pop :: "'a spdylay_queue \<Rightarrow> 'a spdylay_queue option" where
  "spdylay_queue_pop queue =
     (case q_front queue of None \<Rightarrow> None
      | Some f \<Rightarrow>
          (case q_cells queue f of None \<Rightarrow> None
           | Some c \<Rightarrow>
               Some (queue\<lparr>q_cells := (q_cells queue)(f := None), q_front := cell_next c,
                           q_back := (if Some f = q_back queue then None else q_back queue)\<rparr>)))"

definition spdylay_queue_front :: "'a spdylay_queue \<Rightarrow> 'a option" where
  "spdylay_queue_front queue =
     (case q_front queue of None \<Rightarrow> None | Some f \<Rightarrow> map_option cell_data (q_cells queue f))"

definition spdylay_queue_back :: "'a spdylay_queue \<Rightarrow> 'a option" where
  "spdylay_queue_back queue =
     (case q_back queue of None \<Rightarrow> None | Some b \<Rightarrow> map_option cell_data (q_cells queue b))"

definition spdylay_queue_empty :: "'a spdylay_queue \<Rightarrow> bool" where
  "spdylay_queue_empty queue \<longleftrightarrow> q_front queue = None"

section \<open>The chain of cells\<close>

text \<open>\<open>chain cs p as xs\<close>: from \<open>p\<close> the cells at \<open>as\<close> hold \<open>xs\<close> and end in NULL.\<close>

fun chain :: "(nat \<rightharpoonup> 'a spdylay_queue_cell) \<Rightarrow> nat option \<Rightarrow> nat list \<Rightarrow> 'a list \<Rightarrow> bool" where
  "chain cs p [] [] \<longleftrightarrow> p = None"
| "chain cs p (a # as) (x # xs) \<longleftrightarrow>
     p = Some a \<and> (\<exists>n. cs a = Some \<lparr>cell_data = x, cell_next = n\<rparr> \<and> chain cs n as xs)"
| "chain cs p _ _ \<longleftrightarrow> False"

text \<open>
  \<open>queue_rep m q as xs\<close>: the queue holds \<open>xs\<close> in the cells \<open>as\<close>, allocates nothing
  else, and every cell is older than the next address the allocator hands out.
\<close>

definition queue_rep :: "mem \<Rightarrow> 'a spdylay_queue \<Rightarrow> nat list \<Rightarrow> 'a list \<Rightarrow> bool" where
  "queue_rep m q as xs \<longleftrightarrow>
     chain (q_cells q) (q_front q) as xs \<and> distinct as \<and> dom (q_cells q) = set as \<and>
     (\<forall>a\<in>set as. a < mem_next m) \<and> q_back q = (if as = [] then None else Some (last as))"

lemma chain_length: "chain cs p as xs \<Longrightarrow> length as = length xs"
  by (induction cs p as xs rule: chain.induct) auto

lemma chain_frame: "a \<notin> set as \<Longrightarrow> chain (cs(a := v)) p as xs = chain cs p as xs"
  by (induction cs p as xs rule: chain.induct) auto

lemma chain_snoc:
  assumes "chain cs p as xs" "as \<noteq> []" "distinct as" "a \<notin> set as"
    and "cs a = Some \<lparr>cell_data = x, cell_next = None\<rparr>"
  shows "chain (cs(last as := map_option (\<lambda>c. c\<lparr>cell_next := Some a\<rparr>) (cs (last as)))) p (as @ [a]) (xs @ [x])"
  using assms
proof (induction as arbitrary: p xs)
  case (Cons b as)
  then obtain y ys n where y: "xs = y # ys" "p = Some b" "cs b = Some \<lparr>cell_data = y, cell_next = n\<rparr>"
      "chain cs n as ys"
    by (cases xs) auto
  show ?case
  proof (cases "as = []")
    case True
    with Cons.prems y show ?thesis by (cases ys) auto
  next
    case False
    with Cons y have "last as \<noteq> b" by (auto dest: last_in_set)
    with False Cons y show ?thesis by auto
  qed
qed simp

section \<open>The abstract queue\<close>

text \<open>
  The contract of a queue with contents \<open>rep m q xs\<close>, where a push may fail for want
  of memory and then changes nothing.
\<close>

locale fifo_queue =
  fixes empty :: 'q
    and push :: "mem \<Rightarrow> 'q \<Rightarrow> 'a \<Rightarrow> int \<times> 'q \<times> mem"
    and pop :: "'q \<Rightarrow> 'q option"
    and first :: "'q \<Rightarrow> 'a option"
    and lst :: "'q \<Rightarrow> 'a option"
    and is_empty :: "'q \<Rightarrow> bool"
    and rep :: "mem \<Rightarrow> 'q \<Rightarrow> 'a list \<Rightarrow> bool"
  assumes rep_empty: "rep m empty []"
    and rep_push: "rep m q xs \<Longrightarrow> mem_ok m (mem_next m) \<Longrightarrow>
      \<exists>q' m'. push m q x = (0, q', m') \<and> rep m' q' (xs @ [x])"
    and rep_push_nomem: "rep m q xs \<Longrightarrow> \<not> mem_ok m (mem_next m) \<Longrightarrow>
      \<exists>m'. push m q x = (SPDYLAY_ERR_NOMEM, q, m') \<and> rep m' q xs"
    and rep_pop: "rep m q (x # xs) \<Longrightarrow> \<exists>q'. pop q = Some q' \<and> rep m q' xs"
    and rep_pop_empty: "rep m q [] \<Longrightarrow> pop q = None"
    and rep_first: "rep m q xs \<Longrightarrow> first q = (case xs of [] \<Rightarrow> None | x # _ \<Rightarrow> Some x)"
    and rep_last: "rep m q xs \<Longrightarrow> lst q = (if xs = [] then None else Some (last xs))"
    and rep_is_empty: "rep m q xs \<Longrightarrow> is_empty q \<longleftrightarrow> xs = []"
begin

text \<open>A client that pushes a list of items, stopping at the first failure.\<close>

fun push_all :: "mem \<Rightarrow> 'q \<Rightarrow> 'a list \<Rightarrow> int \<times> 'q \<times> mem" where
  "push_all m q [] = (0, q, m)"
| "push_all m q (x # xs) =
     (case push m q x of (r, q', m') \<Rightarrow> if r \<noteq> 0 then (r, q', m') else push_all m' q' xs)"

text \<open>A client that takes every item out, front first.\<close>

fun drain :: "nat \<Rightarrow> 'q \<Rightarrow> 'a list" where
  "drain 0 q = []"
| "drain (Suc n) q =
     (case first q of None \<Rightarrow> []
      | Some x \<Rightarrow> (case pop q of None \<Rightarrow> [] | Some q' \<Rightarrow> x # drain n q'))"

lemma drain_rep: "rep m q xs \<Longrightarrow> length xs \<le> n \<Longrightarrow> drain n q = xs"
proof (induction n arbitrary: q xs)
  case (Suc n)
  then show ?case
    using rep_pop [of m q] rep_first [of m q xs] by (cases xs) fastforce+
qed simp

lemma push_all_rep:
  "rep m q xs \<Longrightarrow> \<exists>q' m' ys. push_all m q zs = (if ys = zs then 0 else SPDYLAY_ERR_NOMEM, q', m') \<and>
     rep m' q' (xs @ ys) \<and> (\<exists>ws. zs = ys @ ws)"
proof (induction zs arbitrary: m q xs)
  case (Cons z zs)
  show ?case
  proof (cases "mem_ok m (mem_next m)")
    case True
    with rep_push [OF Cons.prems] obtain q' m' where
      p: "push m q z = (0, q', m')" "rep m' q' (xs @ [z])" by blast
    from Cons.IH [OF p(2)] obtain q'' m'' ys where
      ih: "push_all m' q' zs = (if ys = zs then 0 else SPDYLAY_ERR_NOMEM, q'', m'')"
      "rep m'' q'' ((xs @ [z]) @ ys)" "\<exists>ws. zs = ys @ ws" by blast
    have "push_all m q (z # zs) = (if z # ys = z # zs then 0 else SPDYLAY_ERR_NOMEM, q'', m'')"
      using p ih by simp
    then show ?thesis using ih by (intro exI [of _ q''] exI [of _ m''] exI [of _ "z # ys"]) auto
  next
    case False
    with rep_push_nomem [OF Cons.prems, of z] show ?thesis by fastforce
  qed
qed fastforce

end

section \<open>The linked cells are such a queue\<close>

definition queue_holds :: "mem \<Rightarrow> 'a spdylay_queue \<Rightarrow> 'a list \<Rightarrow> bool" where
  "queue_holds m q xs \<longleftrightarrow> (\<exists>as. queue_rep m q as xs)"

lemma queue_rep_push:
  assumes rep: "queue_rep m q as xs" and ok: "mem_ok m (mem_next m)"
  shows "\<exists>q' m'. spdylay_queue_push m q x = (0, q', m') \<and> queue_rep m' q' (as @ [mem_next m]) (xs @ [x])"
proof -
  let ?a = "mem_next m"
  let ?cs = "(q_cells q)(?a \<mapsto> \<lparr>cell_data = x, cell_next = None\<rparr>)"
  from rep have fresh: "?a \<notin> set as" and ch: "chain ?cs (q_front q) as xs"
    by (auto simp: queue_rep_def chain_frame)
  show ?thesis
  proof (cases "as = []")
    case True
    with rep have "xs = []" by (auto simp: queue_rep_def dest: chain_length)
    with True rep ok show ?thesis
      by (auto simp: queue_rep_def spdylay_queue_push_def malloc_def Let_def)
  next
    case False
    from False have "last as \<in> set as" by simp
    with rep fresh False have b: "q_back q = Some (last as)"
      and l: "last as \<in> dom (q_cells q)" "last as \<noteq> ?a"
      by (simp_all add: queue_rep_def) (metis \<open>last as \<in> set as\<close>)
    then obtain c where c: "q_cells q (last as) = Some c" by auto
    with l b ok False rep fresh chain_snoc [OF ch False _ fresh, of x] show ?thesis
      by (auto simp: queue_rep_def spdylay_queue_push_def malloc_def Let_def less_Suc_eq)
  qed
qed

lemma queue_rep_pop:
  assumes "queue_rep m q as (x # xs)"
  shows "\<exists>q' as'. spdylay_queue_pop q = Some q' \<and> queue_rep m q' as' xs"
proof -
  from assms obtain a as' n where as: "as = a # as'" "q_front q = Some a"
      "q_cells q a = Some \<lparr>cell_data = x, cell_next = n\<rparr>" "chain (q_cells q) n as' xs"
    by (cases as) (auto simp: queue_rep_def)
  with assms have "a \<notin> set as'" by (simp add: queue_rep_def)
  with as assms show ?thesis
    by (auto simp: queue_rep_def spdylay_queue_pop_def chain_frame intro!: exI [of _ as'])
qed

interpretation linked: fifo_queue spdylay_queue_init spdylay_queue_push spdylay_queue_pop
  spdylay_queue_front spdylay_queue_back spdylay_queue_empty queue_holds
proof (unfold_locales, goal_cases)
  case (1 m)
  have "queue_rep m spdylay_queue_init [] []" by (simp add: queue_rep_def spdylay_queue_init_def)
  then show ?case unfolding queue_holds_def by blast
next
  case (2 m q xs x)
  then show ?case using queue_rep_push unfolding queue_holds_def by metis
next
  case (3 m q xs x)
  let ?m' = "m\<lparr>mem_next := Suc (mem_next m)\<rparr>"
  from 3(1) obtain as where "queue_rep m q as xs" by (auto simp: queue_holds_def)
  then have "queue_rep ?m' q as xs" by (auto simp: queue_rep_def)
  moreover from 3(2) have "spdylay_queue_push m q x = (SPDYLAY_ERR_NOMEM, q, ?m')"
    by (simp add: spdylay_queue_push_def malloc_def Let_def)
  ultimately show ?case unfolding queue_holds_def by blast
next
  case (4 m q x xs)
  then show ?case using queue_rep_pop unfolding queue_holds_def by metis
next
  case (5 m q)
  then show ?case
    by (auto simp: queue_holds_def queue_rep_def spdylay_queue_pop_def elim: chain.elims)
next
  case (6 m q xs)
  then show ?case
    by (auto simp: queue_holds_def queue_rep_def spdylay_queue_front_def elim: chain.elims)
next
  case (7 m q xs)
  then obtain as where rep: "queue_rep m q as xs" by (auto simp: queue_holds_def)
  have "chain cs p as xs \<Longrightarrow> as \<noteq> [] \<Longrightarrow> map_option cell_data (cs (last as)) = Some (last xs)"
    for cs :: "nat \<rightharpoonup> 'a spdylay_queue_cell" and p as xs
    by (induction cs p as xs rule: chain.induct) (auto dest: chain_length split: if_splits)
  with rep show ?case
    by (auto simp: queue_rep_def spdylay_queue_back_def dest: chain_length)
next
  case (8 m q xs)
  then show ?case
    by (auto simp: queue_holds_def queue_rep_def spdylay_queue_empty_def elim: chain.elims)
qed

text \<open>Freeing a queue visits each cell once and leaves none allocated.\<close>

lemma queue_free_from_chain:
  "chain cs p as xs \<Longrightarrow> distinct as \<Longrightarrow>
   queue_free_from cs p = Some (cs |` (- set as))"
proof (induction as arbitrary: cs p xs)
  case Nil
  then show ?case by (cases xs) (auto simp: queue_free_from.simps)
next
  case (Cons a as)
  then obtain x ys n where x: "xs = x # ys" "p = Some a" "cs a = Some \<lparr>cell_data = x, cell_next = n\<rparr>"
      "chain cs n as ys"
    by (cases xs) auto
  then have "chain (cs(a := None)) n as ys" using Cons.prems by (simp add: chain_frame)
  moreover from Cons.prems have "distinct as" by simp
  ultimately have "queue_free_from (cs(a := None)) n = Some (cs(a := None) |` (- set as))"
    by (rule Cons.IH)
  moreover have "queue_free_from cs p = queue_free_from (cs(a := None)) n"
    by (subst queue_free_from.simps) (simp add: x)
  moreover have "cs(a := None) |` (- set as) = cs |` (- set (a # as))"
    by (auto simp: fun_eq_iff restrict_map_def)
  ultimately show ?case by simp
qed

section \<open>First in, first out\<close>

text \<open>
  The linked queue is first in, first out: pushing a list of values on an empty queue keeps the
  values that memory was found for, a prefix of the list and all of it when no push failed, and
  popping to the end gives them in the order in which they were pushed.
\<close>

theorem queue_fifo:
  "\<exists>q m' ys zs. xs = ys @ zs \<and> linked.push_all m spdylay_queue_init xs = (if zs = [] then 0 else SPDYLAY_ERR_NOMEM, q, m') \<and>
     linked.drain (length xs) q = ys"
proof -
  obtain q m' ys ws where r: "linked.push_all m spdylay_queue_init xs = (if ys = xs then 0 else SPDYLAY_ERR_NOMEM, q, m')"
    "queue_holds m' q ys" "xs = ys @ ws"
    using linked.push_all_rep [OF linked.rep_empty, of m xs] by auto
  then have "linked.drain (length xs) q = ys" by (intro linked.drain_rep) auto
  with r show ?thesis by (intro exI [of _ q] exI [of _ m'] exI [of _ ys] exI [of _ ws]) auto
qed

end
