(* ===== verification/Spdy_PQ.thy ===== *)
theory Spdy_PQ
  imports Spdy_Prelude "HOL-Library.Multiset"
begin

text \<open>
  \<open>lib/spdylay_pq.c\<close>: the binary heap that orders the outbound frames. \<open>pq_q\<close> holds the
  first \<open>pq->length\<close> slots of the array, \<open>pq_capacity\<close> the number of allocated ones. The
  heap order is stated for the comparison function stored in the queue; the interface
  \<open>compar_order\<close> is what that function has to satisfy, \<open>min_queue\<close> what a client of the
  queue may then rely on.
\<close>

section \<open>The array and its operations\<close>

record 'a spdylay_pq =
  pq_q :: "'a list"
  pq_capacity :: nat
  pq_compar :: "'a \<Rightarrow> 'a \<Rightarrow> int"

definition spdylay_pq_init :: "mem \<Rightarrow> ('a \<Rightarrow> 'a \<Rightarrow> int) \<Rightarrow> int \<times> 'a spdylay_pq option \<times> mem" where
  "spdylay_pq_init m compar =
     (let (ok, m') = malloc m in
      if \<not> ok then (SPDYLAY_ERR_NOMEM, None, m')
      else (0, Some \<lparr>pq_q = [], pq_capacity = 4096, pq_compar = compar\<rparr>, m'))"

definition swap :: "'a list \<Rightarrow> nat \<Rightarrow> nat \<Rightarrow> 'a list" where
  "swap q i j = q[i := q ! j, j := q ! i]"

fun bubble_up :: "('a \<Rightarrow> 'a \<Rightarrow> int) \<Rightarrow> 'a list \<Rightarrow> nat \<Rightarrow> 'a list" where
  "bubble_up compar q index =
     (if index = 0 then q
      else
        let parent = (index - 1) div 2 in
        if compar (q ! parent) (q ! index) > 0
        then bubble_up compar (swap q parent index) parent
        else q)"

declare bubble_up.simps [simp del]

definition spdylay_pq_push :: "mem \<Rightarrow> 'a spdylay_pq \<Rightarrow> 'a \<Rightarrow> int \<times> 'a spdylay_pq \<times> mem" where
  "spdylay_pq_push m pq item =
     (let (full, m', cap) =
        (if pq_capacity pq \<le> length (pq_q pq)
         then (\<not> fst (malloc m), snd (malloc m), pq_capacity pq * 2)
         else (False, m, pq_capacity pq)) in
      if full then (SPDYLAY_ERR_NOMEM, pq, m')
      else
        let q = pq_q pq @ [item] in
        (0, pq\<lparr>pq_q := bubble_up (pq_compar pq) q (length q - 1), pq_capacity := cap\<rparr>, m'))"

definition spdylay_pq_top :: "'a spdylay_pq \<Rightarrow> 'a option" where
  "spdylay_pq_top pq = (if length (pq_q pq) = 0 then None else Some (pq_q pq ! 0))"

text \<open>The loop of \<open>bubble_down\<close> over the two children, which picks \<open>minindex\<close>.\<close>

definition bubble_down_minindex :: "('a \<Rightarrow> 'a \<Rightarrow> int) \<Rightarrow> 'a list \<Rightarrow> nat \<Rightarrow> nat" where
  "bubble_down_minindex compar q index =
     (let lchild = index * 2 + 1;
          m1 = (if lchild < length q \<and> compar (q ! index) (q ! lchild) > 0 then lchild else index)
      in if lchild + 1 < length q \<and> compar (q ! m1) (q ! (lchild + 1)) > 0 then lchild + 1 else m1)"

lemma bubble_down_minindex_bounds:
  "bubble_down_minindex compar q i \<noteq> i \<Longrightarrow>
   i < bubble_down_minindex compar q i \<and> bubble_down_minindex compar q i < length q"
  by (auto simp: bubble_down_minindex_def Let_def split: if_splits)

function bubble_down :: "('a \<Rightarrow> 'a \<Rightarrow> int) \<Rightarrow> 'a list \<Rightarrow> nat \<Rightarrow> 'a list" where
  "bubble_down compar q index =
     (let minindex = bubble_down_minindex compar q index in
      if minindex \<noteq> index then bubble_down compar (swap q index minindex) minindex else q)"
  by pat_completeness auto
termination
  by (relation "measure (\<lambda>(compar, q, index). length q - index)")
    (auto simp: swap_def dest!: bubble_down_minindex_bounds)

declare bubble_down.simps [simp del]

definition spdylay_pq_pop :: "'a spdylay_pq \<Rightarrow> 'a spdylay_pq" where
  "spdylay_pq_pop pq =
     (let n = length (pq_q pq) in
      if n > 0 then
        pq\<lparr>pq_q := bubble_down (pq_compar pq) (take (n - 1) ((pq_q pq)[0 := pq_q pq ! (n - 1)])) 0\<rparr>
      else pq)"

definition spdylay_pq_empty :: "'a spdylay_pq \<Rightarrow> bool" where
  "spdylay_pq_empty pq \<longleftrightarrow> length (pq_q pq) = 0"

definition spdylay_pq_size :: "'a spdylay_pq \<Rightarrow> nat" where
  "spdylay_pq_size pq = length (pq_q pq)"

section \<open>Permutation\<close>

lemma length_swap [simp]: "length (swap q i j) = length q"
  by (simp add: swap_def)

lemma nth_swap:
  "i < length q \<Longrightarrow> j < length q \<Longrightarrow> k < length q \<Longrightarrow>
   swap q i j ! k = (if k = j then q ! i else if k = i then q ! j else q ! k)"
  by (auto simp: swap_def nth_list_update)

lemma mset_swap_pq: "i < length q \<Longrightarrow> j < length q \<Longrightarrow> mset (swap q i j) = mset q"
  by (simp add: swap_def mset_swap)

lemma mset_bubble_up: "k < length q \<Longrightarrow> mset (bubble_up compar q k) = mset q"
proof (induction compar q k rule: bubble_up.induct)
  case (1 compar q k)
  then show ?case
    by (auto simp: bubble_up.simps [of compar q k] Let_def mset_swap_pq)
qed

lemma mset_bubble_down: "mset (bubble_down compar q k) = mset q"
proof (induction compar q k rule: bubble_down.induct)
  case (1 compar q k)
  then show ?case
    using bubble_down_minindex_bounds [of compar q k]
    by (auto simp: bubble_down.simps [of compar q k] Let_def mset_swap_pq)
qed

section \<open>Comparison functions and heap order\<close>

locale compar_order =
  fixes cmp :: "'a \<Rightarrow> 'a \<Rightarrow> int"
  assumes cmp_flip: "cmp x y > 0 \<longleftrightarrow> cmp y x < 0"
    and cmp_trans: "cmp x y \<le> 0 \<Longrightarrow> cmp y z \<le> 0 \<Longrightarrow> cmp x z \<le> 0"
begin

lemma cmp_refl: "cmp x x = 0"
  using cmp_flip [of x x] by linarith

lemma cmp_total: "cmp x y \<le> 0 \<or> cmp y x \<le> 0"
  using cmp_flip [of x y] by linarith

lemma cmp_gt: "cmp x y > 0 \<Longrightarrow> cmp y x \<le> 0"
  using cmp_flip [of x y] by linarith

end

text \<open>The index of the parent, kept folded in the proofs.\<close>

definition pq_parent :: "nat \<Rightarrow> nat" where
  "pq_parent i = (i - 1) div 2"

lemma pq_parent_less: "0 < i \<Longrightarrow> pq_parent i < i"
  by (auto simp: pq_parent_def)

lemma pq_parent_bound [simp]: "i < n \<Longrightarrow> pq_parent i < n"
  by (auto simp: pq_parent_def)

lemma pq_parent_neq [simp]: "0 < i \<Longrightarrow> pq_parent i \<noteq> i"
  by (auto simp: pq_parent_def)

lemma pq_parent_iff: "0 < i \<Longrightarrow> pq_parent i = k \<longleftrightarrow> i = k * 2 + 1 \<or> i = k * 2 + 2"
  by (auto simp: pq_parent_def)

lemma minindex_parent:
  "bubble_down_minindex compar q k \<noteq> k \<Longrightarrow> pq_parent (bubble_down_minindex compar q k) = k"
  by (auto simp: bubble_down_minindex_def Let_def pq_parent_def split: if_splits)

definition pq_heap :: "('a \<Rightarrow> 'a \<Rightarrow> int) \<Rightarrow> 'a list \<Rightarrow> bool" where
  "pq_heap cmp q \<longleftrightarrow> (\<forall>i<length q. 0 < i \<longrightarrow> cmp (q ! pq_parent i) (q ! i) \<le> 0)"

text \<open>The parent of \<open>k\<close> is below the children of \<open>k\<close>: what both repairs keep.\<close>

definition heap_bridge :: "('a \<Rightarrow> 'a \<Rightarrow> int) \<Rightarrow> 'a list \<Rightarrow> nat \<Rightarrow> bool" where
  "heap_bridge cmp q k \<longleftrightarrow>
     (\<forall>i<length q. 0 < k \<longrightarrow> 0 < i \<longrightarrow> pq_parent i = k \<longrightarrow> cmp (q ! pq_parent k) (q ! i) \<le> 0)"

definition heap_but_up :: "('a \<Rightarrow> 'a \<Rightarrow> int) \<Rightarrow> 'a list \<Rightarrow> nat \<Rightarrow> bool" where
  "heap_but_up cmp q k \<longleftrightarrow> heap_bridge cmp q k \<and>
     (\<forall>i<length q. 0 < i \<longrightarrow> i \<noteq> k \<longrightarrow> cmp (q ! pq_parent i) (q ! i) \<le> 0)"

definition heap_but_down :: "('a \<Rightarrow> 'a \<Rightarrow> int) \<Rightarrow> 'a list \<Rightarrow> nat \<Rightarrow> bool" where
  "heap_but_down cmp q k \<longleftrightarrow> heap_bridge cmp q k \<and>
     (\<forall>i<length q. 0 < i \<longrightarrow> pq_parent i \<noteq> k \<longrightarrow> cmp (q ! pq_parent i) (q ! i) \<le> 0)"

context compar_order
begin

lemma up_step:
  assumes h: "heap_but_up cmp q k" and k: "k < length q" "0 < k"
    and p: "p = pq_parent k" and gt: "cmp (q ! p) (q ! k) > 0"
  shows "heap_but_up cmp (swap q p k) p"
proof -
  have pk: "p < k" "p < length q" using k by (auto simp: p pq_parent_less)
  have le: "cmp (q ! k) (q ! p) \<le> 0" using cmp_gt [OF gt] .
  have edge: "cmp (q ! pq_parent i) (q ! i) \<le> 0" if "i < length q" "0 < i" "i \<noteq> k" for i
    using h that by (simp add: heap_but_up_def)
  have bridge: "cmp (q ! p) (q ! i) \<le> 0" if "i < length q" "0 < i" "pq_parent i = k" for i
    using h that k by (simp add: heap_but_up_def heap_bridge_def p)
  have nth: "swap q p k ! i = (if i = k then q ! p else if i = p then q ! k else q ! i)"
    if "i < length q" for i
    using that pk k by (simp add: nth_swap)
  have "cmp (swap q p k ! pq_parent i) (swap q p k ! i) \<le> 0"
    if i: "i < length q" "0 < i" "i \<noteq> p" for i
  proof (cases "i = k")
    case True
    with i pk le show ?thesis by (simp add: nth p [symmetric])
  next
    case False
    with i edge [of i] bridge [of i] cmp_trans [OF le, of "q ! i"] show ?thesis
      by (auto simp: nth)
  qed
  moreover have "heap_bridge cmp (swap q p k) p"
    unfolding heap_bridge_def
  proof (intro allI impI)
    fix i assume i: "i < length (swap q p k)" "0 < p" "0 < i" "pq_parent i = p"
    have up: "cmp (q ! pq_parent p) (q ! p) \<le> 0" using edge [of p] i pk by simp
    have "i \<noteq> p" using i pq_parent_neq [of i] by metis
    moreover have "pq_parent p \<noteq> k" using pq_parent_less [of p] i(2) pk by linarith
    moreover have "i \<noteq> k \<Longrightarrow> cmp (q ! p) (q ! i) \<le> 0" using edge [of i] i by simp
    ultimately show "cmp (swap q p k ! pq_parent p) (swap q p k ! i) \<le> 0"
      using i pk up cmp_trans [OF up, of "q ! i"] by (auto simp: nth)
  qed
  ultimately show ?thesis by (simp add: heap_but_up_def)
qed

lemma bubble_up_heap: "heap_but_up cmp q k \<Longrightarrow> k < length q \<Longrightarrow> pq_heap cmp (bubble_up cmp q k)"
proof (induction k arbitrary: q rule: less_induct)
  case (less k)
  have unf: "bubble_up cmp q k = (if 0 < k \<and> cmp (q ! pq_parent k) (q ! k) > 0
      then bubble_up cmp (swap q (pq_parent k) k) (pq_parent k) else q)"
    by (simp add: bubble_up.simps [of cmp q k] pq_parent_def Let_def)
  show ?case
  proof (cases "0 < k \<and> cmp (q ! pq_parent k) (q ! k) > 0")
    case True
    then have "heap_but_up cmp (swap q (pq_parent k) k) (pq_parent k)"
      using up_step less.prems by blast
    with True less.prems show ?thesis
      by (simp add: unf less.IH pq_parent_less)
  next
    case False
    with less.prems have "pq_heap cmp q"
      by (auto simp: pq_heap_def heap_but_up_def)
    with False show ?thesis by (auto simp: unf)
  qed
qed

lemma minindex_self: "k < length q \<Longrightarrow> cmp (q ! bubble_down_minindex cmp q k) (q ! k) \<le> 0"
  using cmp_gt [of "q ! k" "q ! (k * 2 + 1)"] cmp_gt [of "q ! k" "q ! (k * 2 + 2)"]
    cmp_gt [of "q ! (k * 2 + 1)" "q ! (k * 2 + 2)"]
    cmp_trans [of "q ! (k * 2 + 2)" "q ! (k * 2 + 1)" "q ! k"]
  by (auto simp: bubble_down_minindex_def Let_def cmp_refl)

lemma minindex_le:
  assumes i: "i < length q" "0 < i" "pq_parent i = k"
  shows "cmp (q ! bubble_down_minindex cmp q k) (q ! i) \<le> 0"
proof -
  define l where "l = k * 2 + 1"
  define m1 where "m1 = (if l < length q \<and> cmp (q ! k) (q ! l) > 0 then l else k)"
  define m where "m = (if l + 1 < length q \<and> cmp (q ! m1) (q ! (l + 1)) > 0 then l + 1 else m1)"
  have m: "bubble_down_minindex cmp q k = m"
    by (simp add: bubble_down_minindex_def Let_def m_def m1_def l_def)
  have m1l: "cmp (q ! m1) (q ! l) \<le> 0" if "l < length q"
    using that by (auto simp: m1_def cmp_refl)
  have mm1: "cmp (q ! m) (q ! m1) \<le> 0"
    using cmp_gt [of "q ! m1" "q ! (l + 1)"] by (auto simp: m_def cmp_refl)
  have "i = l \<or> i = l + 1" using i by (auto simp: pq_parent_iff l_def)
  then show ?thesis
  proof
    assume "i = l"
    with m1l mm1 i show ?thesis by (simp add: m cmp_trans [OF mm1])
  next
    assume "i = l + 1"
    with i show ?thesis by (auto simp: m m_def cmp_refl)
  qed
qed

lemma down_step:
  assumes h: "heap_but_down cmp q k" and mi: "m = bubble_down_minindex cmp q k" and ne: "m \<noteq> k"
  shows "heap_but_down cmp (swap q k m) m"
proof -
  have m: "k < m" "m < length q" "pq_parent m = k"
    using bubble_down_minindex_bounds [of cmp q k] minindex_parent [of cmp q k] ne mi by auto
  then have k: "k < length q" by simp
  have le: "cmp (q ! m) (q ! k) \<le> 0" using minindex_self [OF k] by (simp add: mi)
  have child: "cmp (q ! m) (q ! i) \<le> 0" if "i < length q" "0 < i" "pq_parent i = k" for i
    using minindex_le that by (simp add: mi)
  have edge: "cmp (q ! pq_parent i) (q ! i) \<le> 0" if "i < length q" "0 < i" "pq_parent i \<noteq> k" for i
    using h that by (simp add: heap_but_down_def)
  have up: "cmp (q ! pq_parent k) (q ! m) \<le> 0" if "0 < k"
    using h m that by (simp add: heap_but_down_def heap_bridge_def)
  have nth: "swap q k m ! i = (if i = m then q ! k else if i = k then q ! m else q ! i)"
    if "i < length q" for i
    using that m k by (simp add: nth_swap)
  have "cmp (swap q k m ! pq_parent i) (swap q k m ! i) \<le> 0"
    if i: "i < length q" "0 < i" "pq_parent i \<noteq> m" for i
  proof -
    have par: "pq_parent i < length q" using i by simp
    consider "i = m" | "i = k" | "i \<noteq> m" "i \<noteq> k" by blast
    then show ?thesis
    proof cases
      case 1
      with m le par i show ?thesis by (simp add: nth)
    next
      case 2
      with i m up par show ?thesis by (auto simp: nth)
    next
      case 3
      with i edge [of i] child [of i] par m show ?thesis by (auto simp: nth)
    qed
  qed
  moreover have "heap_bridge cmp (swap q k m) m"
    unfolding heap_bridge_def
  proof (intro allI impI)
    fix i assume i: "i < length (swap q k m)" "0 < m" "0 < i" "pq_parent i = m"
    then have "m < i" using pq_parent_less [of i] by simp
    with i m k edge [of i] show "cmp (swap q k m ! pq_parent m) (swap q k m ! i) \<le> 0"
      by (simp add: nth)
  qed
  ultimately show ?thesis by (simp add: heap_but_down_def)
qed

lemma bubble_down_heap: "heap_but_down cmp q k \<Longrightarrow> pq_heap cmp (bubble_down cmp q k)"
proof (induction "length q - k" arbitrary: q k rule: less_induct)
  case less
  let ?m = "bubble_down_minindex cmp q k"
  show ?case
  proof (cases "?m = k")
    case True
    have "cmp (q ! pq_parent i) (q ! i) \<le> 0" if i: "i < length q" "0 < i" for i
      using less.prems i minindex_le [OF i] True
      by (cases "pq_parent i = k") (auto simp: heap_but_down_def)
    with True show ?thesis by (simp add: bubble_down.simps [of cmp q k] pq_heap_def)
  next
    case False
    have "pq_heap cmp (bubble_down cmp (swap q k ?m) ?m)"
      using bubble_down_minindex_bounds [OF False] down_step [OF less.prems refl False]
      by (intro less.hyps) auto
    with False show ?thesis by (simp add: bubble_down.simps [of cmp q k] Let_def)
  qed
qed

lemma heap_root_le: "pq_heap cmp q \<Longrightarrow> i < length q \<Longrightarrow> cmp (q ! 0) (q ! i) \<le> 0"
proof (induction i rule: less_induct)
  case (less i)
  show ?case
  proof (cases "i = 0")
    case False
    then have "pq_parent i < i" by (simp add: pq_parent_less)
    then have "cmp (q ! 0) (q ! pq_parent i) \<le> 0" using less by auto
    moreover have "cmp (q ! pq_parent i) (q ! i) \<le> 0" using less.prems False by (simp add: pq_heap_def)
    ultimately show ?thesis by (rule cmp_trans)
  qed (simp add: cmp_refl)
qed

lemma heap_snoc:
  assumes "pq_heap cmp q"
  shows "heap_but_up cmp (q @ [x]) (length q)"
proof -
  have "cmp ((q @ [x]) ! pq_parent i) ((q @ [x]) ! i) \<le> 0" if "i < length q" "0 < i" for i
    using assms that by (simp add: pq_heap_def nth_append)
  moreover have "\<not> (pq_parent i = length q \<and> 0 < i)" if "i < Suc (length q)" for i
    using that pq_parent_less [of i] by linarith
  ultimately show ?thesis
    by (auto simp: heap_but_up_def heap_bridge_def less_Suc_eq)
qed

lemma heap_drop_root:
  assumes "pq_heap cmp q"
  shows "heap_but_down cmp (take (length q - 1) (q[0 := q ! (length q - 1)])) 0"
proof -
  have "cmp (q[0 := y] ! pq_parent i) (q[0 := y] ! i) \<le> 0"
    if "i < length q" "0 < i" "pq_parent i \<noteq> 0" for i y
    using assms that by (simp add: pq_heap_def)
  then show ?thesis by (simp add: heap_but_down_def heap_bridge_def)
qed

end

section \<open>The interface of the queue\<close>

definition pq_inv :: "('a \<Rightarrow> 'a \<Rightarrow> int) \<Rightarrow> 'a spdylay_pq \<Rightarrow> bool" where
  "pq_inv cmp pq \<longleftrightarrow> pq_compar pq = cmp \<and> pq_heap cmp (pq_q pq) \<and>
     length (pq_q pq) \<le> pq_capacity pq \<and> 0 < pq_capacity pq"

text \<open>
  What a client relies on: a push adds one item or fails and changes nothing, the top is an
  item below all others, a pop takes exactly the top away.
\<close>

locale min_queue = compar_order cmp for cmp :: "'a \<Rightarrow> 'a \<Rightarrow> int" +
  fixes push :: "mem \<Rightarrow> 'q \<Rightarrow> 'a \<Rightarrow> int \<times> 'q \<times> mem"
    and top :: "'q \<Rightarrow> 'a option" and pop :: "'q \<Rightarrow> 'q"
    and items :: "'q \<Rightarrow> 'a multiset" and invar :: "'q \<Rightarrow> bool"
  assumes push_ok: "invar q \<Longrightarrow> push m q x = (0, q', m') \<Longrightarrow>
      invar q' \<and> items q' = add_mset x (items q)"
    and push_fail: "push m q x = (r, q', m') \<Longrightarrow> r = 0 \<or> r = SPDYLAY_ERR_NOMEM \<and> q' = q"
    and top_none: "top q = None \<longleftrightarrow> items q = {#}"
    and top_min: "invar q \<Longrightarrow> top q = Some x \<Longrightarrow> x \<in># items q \<and> (\<forall>y\<in>#items q. cmp x y \<le> 0)"
    and pop_top: "top q = Some x \<Longrightarrow> items (pop q) = items q - {#x#}"
    and pop_none: "top q = None \<Longrightarrow> pop q = q"
    and invar_pop: "invar q \<Longrightarrow> invar (pop q)"
begin

text \<open>Taking items out until the queue is empty, as the clients do when they flush it.\<close>

fun drain :: "nat \<Rightarrow> 'q \<Rightarrow> 'a list" where
  "drain 0 q = []"
| "drain (Suc n) q = (case top q of None \<Rightarrow> [] | Some x \<Rightarrow> x # drain n (pop q))"

lemma mset_drain: "invar q \<Longrightarrow> size (items q) \<le> n \<Longrightarrow> mset (drain n q) = items q"
proof (induction n arbitrary: q)
  case (Suc n)
  show ?case
  proof (cases "top q")
    case None
    then show ?thesis using top_none [of q] by simp
  next
    case (Some x)
    with Suc.prems have x: "x \<in># items q" "items (pop q) = items q - {#x#}"
      using top_min pop_top by blast+
    then have "size (items (pop q)) \<le> n" using Suc.prems by (simp add: size_Diff_singleton)
    with Suc x Some show ?thesis by (simp add: invar_pop)
  qed
qed simp

lemma sorted_drain: "invar q \<Longrightarrow> size (items q) \<le> n \<Longrightarrow> sorted_wrt (\<lambda>x y. cmp x y \<le> 0) (drain n q)"
proof (induction n arbitrary: q)
  case (Suc n)
  show ?case
  proof (cases "top q")
    case (Some x)
    with Suc.prems have x: "x \<in># items q" "\<forall>y\<in>#items q. cmp x y \<le> 0"
        "items (pop q) = items q - {#x#}"
      using top_min pop_top by blast+
    then have n: "size (items (pop q)) \<le> n" using Suc.prems by (simp add: size_Diff_singleton)
    have "set (drain n (pop q)) \<subseteq> set_mset (items q)"
      using mset_drain [OF invar_pop [OF Suc.prems(1)] n] x
      by (metis in_diffD set_mset_mset subsetI)
    with Suc n x Some show ?thesis by (auto simp: invar_pop)
  qed simp
qed simp

text \<open>Pushing items one by one; the first push without memory ends it.\<close>

fun push_all :: "mem \<Rightarrow> 'q \<Rightarrow> 'a list \<Rightarrow> int \<times> 'q \<times> mem" where
  "push_all m q [] = (0, q, m)"
| "push_all m q (x # xs) =
     (case push m q x of (r, q', m') \<Rightarrow> if r \<noteq> 0 then (r, q', m') else push_all m' q' xs)"

lemma push_all_items:
  "invar q \<Longrightarrow> push_all m q xs = (r, q', m') \<Longrightarrow>
   \<exists>ys zs. xs = ys @ zs \<and> invar q' \<and> items q' = items q + mset ys \<and> r = (if zs = [] then 0 else SPDYLAY_ERR_NOMEM)"
proof (induction xs arbitrary: q m)
  case (Cons x xs)
  obtain r1 q1 m1 where p: "push m q x = (r1, q1, m1)" by (metis prod_cases3)
  show ?case
  proof (cases "r1 = 0")
    case True
    with p push_ok [OF Cons.prems(1)] have q1: "invar q1" "items q1 = add_mset x (items q)" by auto
    moreover have "push_all m1 q1 xs = (r, q', m')" using Cons.prems(2) p True by simp
    ultimately obtain ys zs where "xs = ys @ zs" "invar q'" "items q' = items q1 + mset ys"
        "r = (if zs = [] then 0 else SPDYLAY_ERR_NOMEM)"
      using Cons.IH by blast
    with q1 show ?thesis by (intro exI [of _ "x # ys"] exI [of _ zs]) simp
  next
    case False
    with p push_fail [OF p] Cons.prems show ?thesis by (intro exI [of _ "[]"] exI [of _ "x # xs"]) auto
  qed
qed simp

lemma drain_order: "invar q \<Longrightarrow> drain (size (items q)) q = x # xs \<Longrightarrow> \<forall>y\<in>set xs. cmp x y \<le> 0"
  using sorted_drain by fastforce

end

lemma pq_pop_mset:
  "mset (pq_q (spdylay_pq_pop pq)) = (case pq_q pq of [] \<Rightarrow> {#} | x # _ \<Rightarrow> mset (pq_q pq) - {#x#})"
proof (cases "pq_q pq")
  case (Cons x xs)
  show ?thesis
  proof (cases xs rule: rev_exhaust)
    case (snoc ys y)
    with Cons show ?thesis
      by (simp add: spdylay_pq_pop_def mset_bubble_down nth_append)
  qed (simp add: Cons spdylay_pq_pop_def mset_bubble_down)
qed (simp add: spdylay_pq_pop_def)

lemma pq_pop_keeps [simp]:
  "pq_compar (spdylay_pq_pop pq) = pq_compar pq" "pq_capacity (spdylay_pq_pop pq) = pq_capacity pq"
  by (simp_all add: spdylay_pq_pop_def Let_def)

lemma length_bubble_up: "length (bubble_up cmp q k) = length q" if "k < length q"
  using mset_bubble_up [OF that] by (metis size_mset)

lemma pq_push_cases:
  assumes "spdylay_pq_push m pq x = (r, pq', m')"
  obtains (pushed) "r = 0" "pq_q pq' = bubble_up (pq_compar pq) (pq_q pq @ [x]) (length (pq_q pq))"
      "pq_compar pq' = pq_compar pq" "pq_capacity pq \<le> pq_capacity pq'"
      "length (pq_q pq) < pq_capacity pq \<or> pq_capacity pq' = 2 * pq_capacity pq"
  | (nomem) "r = SPDYLAY_ERR_NOMEM" "pq' = pq"
proof (cases "pq_capacity pq \<le> length (pq_q pq)")
  case True
  with assms show ?thesis
    by (cases "fst (malloc m)") (auto simp: spdylay_pq_push_def Let_def intro: pushed nomem)
next
  case False
  with assms show ?thesis by (intro pushed) (auto simp: spdylay_pq_push_def Let_def)
qed

context compar_order
begin

lemma pq_inv_push:
  assumes "pq_inv cmp pq" "spdylay_pq_push m pq x = (0, pq', m')"
  shows "pq_inv cmp pq' \<and> mset (pq_q pq') = add_mset x (mset (pq_q pq))"
  using assms(2)
proof (cases rule: pq_push_cases)
  case pushed
  from pushed assms(1) have "pq_heap cmp (pq_q pq')"
    by (simp add: pq_inv_def bubble_up_heap heap_snoc)
  with pushed assms(1) show ?thesis
    by (auto simp: pq_inv_def mset_bubble_up length_bubble_up)
qed simp

lemma pq_inv_pop: "pq_inv cmp pq \<Longrightarrow> pq_inv cmp (spdylay_pq_pop pq)"
proof -
  assume inv: "pq_inv cmp pq"
  then have "pq_heap cmp (pq_q (spdylay_pq_pop pq))"
    using heap_drop_root [of "pq_q pq"]
    by (simp add: pq_inv_def spdylay_pq_pop_def Let_def bubble_down_heap)
      (simp add: pq_heap_def)
  moreover have "length (pq_q (spdylay_pq_pop pq)) \<le> length (pq_q pq)"
    using arg_cong [OF pq_pop_mset [of pq], of size]
    by (auto simp: size_Diff_singleton_if split: list.splits)
  ultimately show ?thesis using inv by (auto simp: pq_inv_def)
qed

end

sublocale compar_order \<subseteq> heap_pq: min_queue cmp spdylay_pq_push spdylay_pq_top spdylay_pq_pop
    "\<lambda>pq. mset (pq_q pq)" "pq_inv cmp"
proof (unfold_locales, goal_cases)
  case (1 q m x q' m')
  then show ?case by (rule pq_inv_push)
next
  case (2 m q x r q' m')
  then show ?case by (cases rule: pq_push_cases) auto
next
  case (3 q)
  then show ?case by (simp add: spdylay_pq_top_def)
next
  case (4 q x)
  then have "pq_q q \<noteq> []" "x = pq_q q ! 0" "pq_heap cmp (pq_q q)"
    by (auto simp: spdylay_pq_top_def pq_inv_def split: if_splits)
  with heap_root_le [of "pq_q q"] show ?case by (auto simp: in_set_conv_nth)
next
  case (5 q x)
  then show ?case by (auto simp: spdylay_pq_top_def pq_pop_mset split: if_splits list.splits)
next
  case (6 q)
  then show ?case by (auto simp: spdylay_pq_top_def spdylay_pq_pop_def split: if_splits)
next
  case (7 q)
  then show ?case by (rule pq_inv_pop)
qed

end
