(* ===== verification/Spdy_Map.thy ===== *)
theory Spdy_Map
  imports Spdy_Prelude "HOL-Library.Tree" "HOL-Library.Multiset"
begin

text \<open>
  \<open>lib/spdylay_map.c\<close>: the ordered map from stream IDs to streams, a treap whose priorities
  are a hash of the key. The nodes are the library's binary trees. The parent pointers of the
  C nodes are the path of a zipper: a position is a subtree with the list of the steps that
  lead to it, so that climbing to a parent, the rotations on the way up and the in-order and
  post-order walks are written as the source writes them. The value of an entry is the
  structure that embeds the \<open>spdylay_map_entry\<close>; assigning to it through the pointer that a
  lookup returns is \<open>map_write\<close>.
\<close>

section \<open>Entries and trees\<close>

record 'v spdylay_map_entry =
  e_key :: u32
  e_priority :: u32
  e_val :: 'v

type_synonym 'v mtree = "'v spdylay_map_entry tree"

record 'v spdylay_map =
  map_root :: "'v mtree"
  map_size :: nat

text \<open>One step of a path: the focus is the left or the right child of the entry.\<close>

datatype 'v crumb =
  FromLeft "'v spdylay_map_entry" "'v mtree"
| FromRight "'v mtree" "'v spdylay_map_entry"

type_synonym 'v path = "'v crumb list"
type_synonym 'v loc = "'v mtree \<times> 'v path"

fun plug1 :: "'v mtree \<Rightarrow> 'v crumb \<Rightarrow> 'v mtree" where
  "plug1 t (FromLeft e r) = Node t e r"
| "plug1 t (FromRight l e) = Node l e t"

fun plug :: "'v mtree \<Rightarrow> 'v path \<Rightarrow> 'v mtree" where
  "plug t [] = t"
| "plug t (c # cs) = plug (plug1 t c) cs"

section \<open>Operations\<close>

definition spdylay_map_init :: "'v spdylay_map" where
  "spdylay_map_init = \<lparr>map_root = Leaf, map_size = 0\<rparr>"

fun find_left_most :: "'v mtree \<Rightarrow> 'v path \<Rightarrow> 'v loc" where
  "find_left_most Leaf p = (Leaf, p)"
| "find_left_most (Node l e r) p =
     (if l \<noteq> Leaf then find_left_most l (FromLeft e r # p) else (Node l e r, p))"

lemma find_left_most_size: "find_left_most t p = (t', p') \<Longrightarrow> size t' \<le> size t"
  by (induction t p rule: find_left_most.induct) (auto split: if_splits)

function find_left_most_leaf :: "'v mtree \<Rightarrow> 'v path \<Rightarrow> 'v loc" where
  "find_left_most_leaf t p =
     (case find_left_most t p of
        (Node l e r, p') \<Rightarrow>
          if r \<noteq> Leaf then find_left_most_leaf r (FromRight l e # p') else (Node l e r, p')
      | (Leaf, p') \<Rightarrow> (Leaf, p'))"
  by pat_completeness auto
termination
  by (relation "measure (\<lambda>(t, p). size t)") (auto dest: find_left_most_size [OF sym])

declare find_left_most_leaf.simps [simp del]

text \<open>The entry after \<open>t\<close> in post-order; the parent is read before \<open>t\<close> is freed.\<close>

definition traverse_postorder :: "'v mtree \<Rightarrow> 'v path \<Rightarrow> 'v loc option" where
  "traverse_postorder t p =
     (case p of
        [] \<Rightarrow> None
      | FromLeft e r # ps \<Rightarrow>
          if r \<noteq> Leaf then Some (find_left_most_leaf r (FromRight t e # ps)) else Some (Node t e r, ps)
      | FromRight l e # ps \<Rightarrow> Some (Node l e t, ps))"

fun climb_right :: "'v mtree \<Rightarrow> 'v path \<Rightarrow> 'v loc option" where
  "climb_right t [] = None"
| "climb_right t (FromRight l e # ps) = climb_right (Node l e t) ps"
| "climb_right t (FromLeft e r # ps) = Some (Node t e r, ps)"

definition traverse_inorder :: "'v mtree \<Rightarrow> 'v path \<Rightarrow> 'v loc option" where
  "traverse_inorder t p =
     (case t of
        Leaf \<Rightarrow> None
      | Node l e r \<Rightarrow>
          if r \<noteq> Leaf then Some (find_left_most r (FromRight l e # p)) else climb_right t p)"

text \<open>What lies to the left and to the right of a position, in order.\<close>

fun left_of :: "'v path \<Rightarrow> 'v spdylay_map_entry list" where
  "left_of [] = []"
| "left_of (FromLeft e r # ps) = left_of ps"
| "left_of (FromRight l e # ps) = left_of ps @ inorder l @ [e]"

fun right_of :: "'v path \<Rightarrow> 'v spdylay_map_entry list" where
  "right_of [] = []"
| "right_of (FromLeft e r # ps) = e # inorder r @ right_of ps"
| "right_of (FromRight l e # ps) = right_of ps"

lemma find_left_most_sides:
  "t \<noteq> Leaf \<Longrightarrow> \<exists>e r q. find_left_most t p = (Node Leaf e r, q) \<and> left_of q = left_of p \<and>
     e # inorder r @ right_of q = inorder t @ right_of p"
  by (induction t p rule: find_left_most.induct) auto

lemma climb_right_sides:
  "climb_right t p = Some (u, q) \<Longrightarrow> \<exists>l e r. u = Node l e r \<and>
     left_of q @ inorder l = left_of p @ inorder t \<and> e # inorder r @ right_of q = right_of p"
  by (induction t p rule: climb_right.induct) auto

lemma traverse_inorder_sides:
  assumes "traverse_inorder (Node l e r) p = Some (u, q)"
  obtains l' e' r' where "u = Node l' e' r'"
    "left_of q @ inorder l' = left_of p @ inorder l @ [e]"
    "e' # inorder r' @ right_of q = inorder r @ right_of p"
proof (cases "r = Leaf")
  case True
  with assms climb_right_sides [of "Node l e r" p u q] show ?thesis
    by (auto simp: traverse_inorder_def intro: that)
next
  case False
  with assms find_left_most_sides [of r "FromRight l e # p"] show ?thesis
    by (auto simp: traverse_inorder_def intro!: that)
qed

text \<open>
  The in-order walk. The callback may assign to the structure that embeds the entry, and the
  walk ends at the first answer other than 0.
\<close>

function map_each_from ::
    "('v spdylay_map_entry \<Rightarrow> 's \<Rightarrow> int \<times> 'v \<times> 's) \<Rightarrow> 'v mtree \<Rightarrow> 'v path \<Rightarrow> 's \<Rightarrow> int \<times> 'v mtree \<times> 's" where
  "map_each_from func Leaf p s = (0, plug Leaf p, s)"
| "map_each_from func (Node l e r) p s =
     (case func e s of (rv, v, s') \<Rightarrow>
        let t = Node l (e\<lparr>e_val := v\<rparr>) r in
        if rv \<noteq> 0 then (rv, plug t p, s')
        else
          (case traverse_inorder t p of
             None \<Rightarrow> (0, plug t p, s')
           | Some (u, q) \<Rightarrow> map_each_from func u q s'))"
  by pat_completeness auto

text \<open>The walk ends: every step shortens what is left, in order.\<close>

fun steps_left :: "'v mtree \<Rightarrow> 'v path \<Rightarrow> nat" where
  "steps_left Leaf p = 0"
| "steps_left (Node l e r) p = Suc (length (inorder r @ right_of p))"

lemma steps_left_traverse:
  assumes "traverse_inorder (Node l e r) p = Some (u, q)"
  shows "steps_left u q < steps_left (Node l e r) p"
proof -
  from traverse_inorder_sides [OF assms] obtain l' e' r' where u: "u = Node l' e' r'"
    and "e' # inorder r' @ right_of q = inorder r @ right_of p" by metis
  from this(2) have "length (e' # inorder r' @ right_of q) = length (inorder r @ right_of p)"
    by (rule arg_cong)
  with u show ?thesis by simp
qed

termination map_each_from
proof (relation "measure (\<lambda>(func, t, p, s). steps_left t p)", goal_cases)
  case (2 func l e r p s)
  then show ?case using steps_left_traverse by auto
qed simp

definition spdylay_map_each ::
    "'v spdylay_map \<Rightarrow> ('v spdylay_map_entry \<Rightarrow> 's \<Rightarrow> int \<times> 'v \<times> 's) \<Rightarrow> 's \<Rightarrow> int \<times> 'v spdylay_map \<times> 's" where
  "spdylay_map_each m func s =
     (if map_root m = Leaf then (0, m, s)
      else
        (case find_left_most (map_root m) [] of (t, p) \<Rightarrow>
           case map_each_from func t p s of (rv, t', s') \<Rightarrow> (rv, m\<lparr>map_root := t'\<rparr>, s')))"

text \<open>The post-order walk that frees every entry; the answers of the callback are ignored.\<close>

fun after_postorder :: "'v path \<Rightarrow> 'v spdylay_map_entry list" where
  "after_postorder [] = []"
| "after_postorder (FromLeft e r # ps) = postorder r @ e # after_postorder ps"
| "after_postorder (FromRight l e # ps) = e # after_postorder ps"

lemma find_left_most_postorder:
  "t \<noteq> Leaf \<Longrightarrow> \<exists>e r q. find_left_most t p = (Node Leaf e r, q) \<and>
     postorder r @ e # after_postorder q = postorder t @ after_postorder p"
  by (induction t p rule: find_left_most.induct) auto

lemma find_left_most_leaf_postorder:
  "t \<noteq> Leaf \<Longrightarrow> \<exists>e q. find_left_most_leaf t p = (Node Leaf e Leaf, q) \<and>
     e # after_postorder q = postorder t @ after_postorder p"
proof (induction t p rule: find_left_most_leaf.induct)
  case (1 t p)
  then obtain e r q where s: "find_left_most t p = (Node Leaf e r, q)"
      "postorder r @ e # after_postorder q = postorder t @ after_postorder p"
    using find_left_most_postorder by blast
  show ?case
  proof (cases "r = Leaf")
    case True
    with s show ?thesis by (subst find_left_most_leaf.simps) simp
  next
    case False
    with 1(1) [OF s(1) [symmetric] refl] s show ?thesis
      by (subst find_left_most_leaf.simps) simp
  qed
qed

lemma traverse_postorder_next:
  assumes "traverse_postorder t p = Some (u, q)"
  obtains l e r where "u = Node l e r" "e # after_postorder q = after_postorder p"
proof -
  from assms obtain c ps where p: "p = c # ps" by (cases p) (auto simp: traverse_postorder_def)
  show ?thesis
  proof (cases c)
    case (FromLeft e r)
    with assms p find_left_most_leaf_postorder [of r "FromRight t e # ps"] show ?thesis
      by (auto simp: traverse_postorder_def split: if_splits intro!: that)
  next
    case (FromRight l e)
    with assms p show ?thesis by (auto simp: traverse_postorder_def intro: that)
  qed
qed

function map_each_free_from ::
    "('v spdylay_map_entry \<Rightarrow> 's \<Rightarrow> 's) \<Rightarrow> 'v mtree \<Rightarrow> 'v path \<Rightarrow> 's \<Rightarrow> 's" where
  "map_each_free_from func Leaf p s = s"
| "map_each_free_from func (Node l e r) p s =
     (case traverse_postorder (Node l e r) p of
        None \<Rightarrow> func e s
      | Some (u, q) \<Rightarrow> map_each_free_from func u q (func e s))"
  by pat_completeness auto
termination
proof (relation "measure (\<lambda>(func, t, p, s). length (after_postorder p))", goal_cases)
  case (2 func l e r p s x u q)
  then obtain l' e' r' where "e' # after_postorder q = after_postorder p"
    using traverse_postorder_next by metis
  then show ?case by (metis case_prod_conv in_measure length_Cons lessI)
qed simp

definition spdylay_map_each_free ::
    "'v spdylay_map \<Rightarrow> ('v spdylay_map_entry \<Rightarrow> 's \<Rightarrow> 's) \<Rightarrow> 's \<Rightarrow> 'v spdylay_map \<times> 's" where
  "spdylay_map_each_free m func s =
     (if map_root m = Leaf then (m, s)
      else
        (case find_left_most_leaf (map_root m) [] of (t, p) \<Rightarrow>
           (m\<lparr>map_root := Leaf\<rparr>, map_each_free_from func t p s)))"

definition hash32shift :: "u32 \<Rightarrow> u32" where
  "hash32shift key =
     (let k1 = NOT key + push_bit 15 key;
          k2 = k1 XOR drop_bit 12 k1;
          k3 = k2 + push_bit 2 k2;
          k4 = k3 XOR drop_bit 4 k3;
          k5 = k4 * 2057
      in k5 XOR drop_bit 16 k5)"

definition spdylay_map_entry_init :: "u32 \<Rightarrow> 'v \<Rightarrow> 'v spdylay_map_entry" where
  "spdylay_map_entry_init key v = \<lparr>e_key = key, e_priority = hash32shift key, e_val = v\<rparr>"

text \<open>The callers check that the child that moves up exists.\<close>

fun rotate_left :: "'v mtree \<Rightarrow> 'v mtree" where
  "rotate_left (Node l e (Node rl root rr)) = Node (Node l e rl) root rr"
| "rotate_left t = t"

fun rotate_right :: "'v mtree \<Rightarrow> 'v mtree" where
  "rotate_right (Node (Node ll root lr) e r) = Node ll root (Node lr e r)"
| "rotate_right t = t"

fun child_below :: "'v spdylay_map_entry \<Rightarrow> 'v mtree \<Rightarrow> bool" where
  "child_below e Leaf \<longleftrightarrow> False"
| "child_below e (Node l c r) \<longleftrightarrow> e_priority e > e_priority c"

text \<open>The search loop of the insertion: \<open>None\<close> when the key is there already.\<close>

fun insert_position :: "u32 \<Rightarrow> 'v mtree \<Rightarrow> 'v path \<Rightarrow> 'v path option" where
  "insert_position k Leaf p = Some p"
| "insert_position k (Node l e r) p =
     (if k = e_key e then None
      else if k < e_key e then insert_position k l (FromLeft e r # p)
      else insert_position k r (FromRight l e # p))"

text \<open>The loop that rotates on the way up; it stops at the first entry in heap order.\<close>

fun rotate_up :: "'v mtree \<Rightarrow> 'v path \<Rightarrow> 'v mtree" where
  "rotate_up Leaf p = plug Leaf p"
| "rotate_up (Node l e r) p =
     (if child_below e l then
        (case p of [] \<Rightarrow> rotate_right (Node l e r)
         | c # cs \<Rightarrow> rotate_up (plug1 (rotate_right (Node l e r)) c) cs)
      else if child_below e r then
        (case p of [] \<Rightarrow> rotate_left (Node l e r)
         | c # cs \<Rightarrow> rotate_up (plug1 (rotate_left (Node l e r)) c) cs)
      else plug (Node l e r) p)"

definition spdylay_map_insert :: "'v spdylay_map \<Rightarrow> 'v spdylay_map_entry \<Rightarrow> int \<times> 'v spdylay_map" where
  "spdylay_map_insert m new_entry =
     (if map_root m = Leaf then (0, m\<lparr>map_root := Node Leaf new_entry Leaf, map_size := 1\<rparr>)
      else
        (case insert_position (e_key new_entry) (map_root m) [] of
           None \<Rightarrow> (SPDYLAY_ERR_INVALID_ARGUMENT, m)
         | Some [] \<Rightarrow> (0, m)
         | Some (c # cs) \<Rightarrow>
             (0, m\<lparr>map_root := rotate_up (plug1 (Node Leaf new_entry Leaf) c) cs,
                   map_size := map_size m + 1\<rparr>)))"

fun tree_find :: "'v mtree \<Rightarrow> u32 \<Rightarrow> 'v spdylay_map_entry option" where
  "tree_find Leaf key = None"
| "tree_find (Node l e r) key =
     (if key < e_key e then tree_find l key
      else if key > e_key e then tree_find r key
      else Some e)"

definition spdylay_map_find :: "'v spdylay_map \<Rightarrow> u32 \<Rightarrow> 'v spdylay_map_entry option" where
  "spdylay_map_find m key = tree_find (map_root m) key"

fun tree_locate :: "u32 \<Rightarrow> 'v mtree \<Rightarrow> 'v path \<Rightarrow> 'v loc option" where
  "tree_locate key Leaf p = None"
| "tree_locate key (Node l e r) p =
     (if key < e_key e then tree_locate key l (FromLeft e r # p)
      else if key > e_key e then tree_locate key r (FromRight l e # p)
      else Some (Node l e r, p))"

text \<open>The loop that rotates the entry down until one child is missing and unlinks it.\<close>

function rotate_down :: "'v mtree \<Rightarrow> 'v path \<Rightarrow> 'v mtree" where
  "rotate_down Leaf p = plug Leaf p"
| "rotate_down (Node Leaf e r) p = plug r p"
| "rotate_down (Node (Node ll le lr) e Leaf) p = plug (Node ll le lr) p"
| "rotate_down (Node (Node ll le lr) e (Node rl re rr)) p =
     (if e_priority le < e_priority re
      then rotate_down (Node lr e (Node rl re rr)) (FromRight ll le # p)
      else rotate_down (Node (Node ll le lr) e rl) (FromLeft re rr # p))"
  by pat_completeness auto
termination by (relation "measure (\<lambda>(t, p). size t)") auto

definition spdylay_map_remove :: "'v spdylay_map \<Rightarrow> u32 \<Rightarrow> int \<times> 'v spdylay_map" where
  "spdylay_map_remove m key =
     (if map_root m = Leaf then (SPDYLAY_ERR_INVALID_ARGUMENT, m)
      else
        (case tree_locate key (map_root m) [] of
           None \<Rightarrow> (SPDYLAY_ERR_INVALID_ARGUMENT, m)
         | Some (t, p) \<Rightarrow>
             (0, m\<lparr>map_root := rotate_down t p, map_size := size_sub (map_size m) 1\<rparr>)))"

definition spdylay_map_size :: "'v spdylay_map \<Rightarrow> nat" where
  "spdylay_map_size m = map_size m"

text \<open>Assigning to the structure that embeds the entry with key \<open>k\<close>.\<close>

fun tree_write :: "u32 \<Rightarrow> ('v \<Rightarrow> 'v) \<Rightarrow> 'v mtree \<Rightarrow> 'v mtree" where
  "tree_write k f Leaf = Leaf"
| "tree_write k f (Node l e r) =
     (if k < e_key e then Node (tree_write k f l) e r
      else if k > e_key e then Node l e (tree_write k f r)
      else Node l (e\<lparr>e_val := f (e_val e)\<rparr>) r)"

definition map_write :: "u32 \<Rightarrow> ('v \<Rightarrow> 'v) \<Rightarrow> 'v spdylay_map \<Rightarrow> 'v spdylay_map" where
  "map_write k f m = m\<lparr>map_root := tree_write k f (map_root m)\<rparr>"

section \<open>Order: every operation read off the in-order list\<close>

lemma inorder_plug: "inorder (plug t p) = left_of p @ inorder t @ right_of p"
proof (induction p arbitrary: t)
  case (Cons c p)
  then show ?case by (cases c) auto
qed simp

lemma inorder_rotate [simp]: "inorder (rotate_left t) = inorder t" "inorder (rotate_right t) = inorder t"
  by (cases t rule: rotate_left.cases, auto) (cases t rule: rotate_right.cases, auto)

lemma inorder_plug1: "inorder (plug1 t c) = inorder (plug t [c])"
  by (cases c) auto

lemma inorder_rotate_up: "inorder (rotate_up t p) = left_of p @ inorder t @ right_of p"
proof (induction t p rule: rotate_up.induct)
  case (2 l e r p)
  show ?case
  proof (cases p)
    case (Cons c cs)
    then show ?thesis
      using 2 by (cases c) (auto simp: inorder_plug)
  qed simp
qed (simp add: inorder_plug)

text \<open>The entries as an association list, and the map it stands for.\<close>

definition keys :: "'v spdylay_map_entry list \<Rightarrow> u32 list" where
  "keys xs = map e_key xs"

lemma keys_simps [simp]:
  "keys [] = []" "keys (x # xs) = e_key x # keys xs" "keys (xs @ ys) = keys xs @ keys ys"
  "set (keys xs) = e_key ` set xs"
  by (simp_all add: keys_def)

definition entries :: "'v spdylay_map \<Rightarrow> 'v spdylay_map_entry list" where
  "entries m = inorder (map_root m)"

definition lookup :: "'v spdylay_map_entry list \<Rightarrow> u32 \<Rightarrow> 'v spdylay_map_entry option" where
  "lookup xs k = find (\<lambda>e. e_key e = k) xs"

abbreviation sorted_entries :: "'v spdylay_map_entry list \<Rightarrow> bool" where
  "sorted_entries xs \<equiv> sorted_wrt (<) (keys xs)"

lemma lookup_simps [simp]:
  "lookup [] k = None"
  "lookup (x # xs) k = (if e_key x = k then Some x else lookup xs k)"
  by (simp_all add: lookup_def)

lemma lookup_append: "lookup (xs @ ys) k = (case lookup xs k of None \<Rightarrow> lookup ys k | Some e \<Rightarrow> Some e)"
  by (induction xs) auto

lemma lookup_None_iff: "lookup xs k = None \<longleftrightarrow> k \<notin> e_key ` set xs"
  by (induction xs) auto

lemma lookup_Some_mem: "lookup xs k = Some e \<Longrightarrow> e \<in> set xs \<and> e_key e = k"
  by (induction xs) (auto split: if_splits)

lemma lookup_mem: "sorted_entries xs \<Longrightarrow> e \<in> set xs \<Longrightarrow> lookup xs (e_key e) = Some e"
  by (induction xs) auto

lemma tree_find_lookup: "sorted_entries (inorder t) \<Longrightarrow> tree_find t k = lookup (inorder t) k"
proof (induction t)
  case (Node l e r)
  then have "\<forall>x\<in>e_key ` set (inorder l). x < e_key e" "\<forall>x\<in>e_key ` set (inorder r). e_key e < x"
    by (auto simp: sorted_wrt_append)
  then have "k \<ge> e_key e \<Longrightarrow> lookup (inorder l) k = None" "k \<le> e_key e \<Longrightarrow> lookup (inorder r) k = None"
    unfolding lookup_None_iff by (meson leD)+
  with Node show ?case
    by (auto simp: lookup_append sorted_wrt_append split: option.splits)
qed simp

lemma insert_position_None:
  "sorted_entries (inorder t) \<Longrightarrow> insert_position k t p = None \<longleftrightarrow> k \<in> e_key ` set (inorder t)"
proof (induction t arbitrary: p)
  case (Node l e r)
  then have "\<forall>x\<in>e_key ` set (inorder l). x < e_key e" "\<forall>x\<in>e_key ` set (inorder r). e_key e < x"
    by (auto simp: sorted_wrt_append)
  with Node show ?case
    by (auto simp: sorted_wrt_append)
qed simp

lemma insert_position_Some:
  assumes "insert_position k t p = Some q" "sorted_entries (inorder t)"
    "\<forall>x\<in>e_key ` set (left_of p). x < k" "\<forall>x\<in>e_key ` set (right_of p). k < x"
  shows "left_of q @ right_of q = left_of p @ inorder t @ right_of p \<and>
    (\<forall>x\<in>e_key ` set (left_of q). x < k) \<and> (\<forall>x\<in>e_key ` set (right_of q). k < x)"
  using assms
proof (induction t arbitrary: p)
  case (Node l e r)
  from Node.prems(2) have s: "sorted_entries (inorder l)" "sorted_entries (inorder r)"
      "\<forall>x\<in>e_key ` set (inorder l). x < e_key e" "\<forall>x\<in>e_key ` set (inorder r). e_key e < x"
    by (auto simp: sorted_wrt_append)
  show ?case
  proof (cases "k < e_key e")
    case True
    with Node.prems have i: "insert_position k l (FromLeft e r # p) = Some q"
      by (auto split: if_splits)
    from True s have "\<forall>x\<in>e_key ` set (inorder r). k < x" by (auto intro: less_trans)
    with True Node.prems have "\<forall>x\<in>e_key ` set (right_of (FromLeft e r # p)). k < x" by auto
    from Node.IH(1) [OF i s(1) _ this] Node.prems show ?thesis by simp
  next
    case False
    with Node.prems have gt: "e_key e < k" and i: "insert_position k r (FromRight l e # p) = Some q"
      by (auto split: if_splits)
    from gt s have "\<forall>x\<in>e_key ` set (inorder l). x < k" by (auto intro: less_trans)
    with gt Node.prems have "\<forall>x\<in>e_key ` set (left_of (FromRight l e # p)). x < k" by auto
    from Node.IH(2) [OF i s(2) this] Node.prems show ?thesis by simp
  qed
qed simp

lemma insert_position_not_Nil: "insert_position k (Node l e r) p \<noteq> Some []"
proof -
  have "insert_position k t p = Some q \<Longrightarrow> length p \<le> length q" for t and p q :: "'a path"
    by (induction t arbitrary: p) (force split: if_splits)+
  then show ?thesis by (fastforce split: if_splits)
qed

lemma insert_position_plug: "insert_position k t p = Some q \<Longrightarrow> plug Leaf q = plug t p"
  by (induction t arbitrary: p) (auto split: if_splits)

lemma tree_locate_node:
  "tree_locate k t p = Some (t', p') \<Longrightarrow> \<exists>l e r. t' = Node l e r \<and> e_key e = k"
  by (induction t arbitrary: p) (auto split: if_splits)

lemma tree_locate_plug: "tree_locate k t p = Some (t', p') \<Longrightarrow> plug t' p' = plug t p"
  by (induction t arbitrary: p) (auto split: if_splits)

lemma tree_locate_None: "tree_locate k t p = None \<longleftrightarrow> tree_find t k = None"
  by (induction t arbitrary: p) auto

lemma inorder_rotate_down:
  "inorder (rotate_down (Node l e r) p) = left_of p @ inorder l @ inorder r @ right_of p"
  by (induction "Node l e r" p arbitrary: l e r rule: rotate_down.induct) (auto simp: inorder_plug)

definition write_entry :: "u32 \<Rightarrow> ('v \<Rightarrow> 'v) \<Rightarrow> 'v spdylay_map_entry \<Rightarrow> 'v spdylay_map_entry" where
  "write_entry k f e = (if e_key e = k then e\<lparr>e_val := f (e_val e)\<rparr> else e)"

lemma write_entry_keeps [simp]:
  "e_key (write_entry k f e) = e_key e" "e_priority (write_entry k f e) = e_priority e"
  by (simp_all add: write_entry_def)

lemma write_entry_miss: "k \<notin> e_key ` set xs \<Longrightarrow> map (write_entry k f) xs = xs"
  by (induction xs) (auto simp: write_entry_def)

lemma inorder_tree_write:
  "sorted_entries (inorder t) \<Longrightarrow> inorder (tree_write k f t) = map (write_entry k f) (inorder t)"
proof (induction t)
  case (Node l e r)
  then have "\<forall>x\<in>e_key ` set (inorder l). x < e_key e" "\<forall>x\<in>e_key ` set (inorder r). e_key e < x"
    by (auto simp: sorted_wrt_append)
  then have "k \<ge> e_key e \<Longrightarrow> k \<notin> e_key ` set (inorder l)" "k \<le> e_key e \<Longrightarrow> k \<notin> e_key ` set (inorder r)"
    by (meson leD)+
  with Node show ?case
    by (auto simp: sorted_wrt_append write_entry_miss simp del: set_inorder)
      (auto simp: write_entry_def)
qed simp

section \<open>Priorities: the tree stays a heap\<close>

fun theap_edge :: "'v spdylay_map_entry \<Rightarrow> 'v mtree \<Rightarrow> bool" where
  "theap_edge e Leaf \<longleftrightarrow> True"
| "theap_edge e (Node l c r) \<longleftrightarrow> e_priority e \<le> e_priority c"

fun theap :: "'v mtree \<Rightarrow> bool" where
  "theap Leaf \<longleftrightarrow> True"
| "theap (Node l e r) \<longleftrightarrow> theap_edge e l \<and> theap_edge e r \<and> theap l \<and> theap r"

text \<open>A path that stays in heap order when an entry at least as large as \<open>e\<close> is plugged in.\<close>

fun theap_path :: "'v spdylay_map_entry \<Rightarrow> 'v path \<Rightarrow> bool" where
  "theap_path e [] \<longleftrightarrow> True"
| "theap_path e (FromLeft c r # ps) \<longleftrightarrow>
     e_priority c \<le> e_priority e \<and> theap_edge c r \<and> theap r \<and> theap_path c ps"
| "theap_path e (FromRight l c # ps) \<longleftrightarrow>
     e_priority c \<le> e_priority e \<and> theap_edge c l \<and> theap l \<and> theap_path c ps"

lemma child_below_edge: "\<not> child_below e t \<longleftrightarrow> theap_edge e t"
  by (cases t) auto

lemma theap_edge_mono: "theap_edge e t \<Longrightarrow> e_priority c \<le> e_priority e \<Longrightarrow> theap_edge c t"
  by (cases t) auto

lemma theap_plug: "theap (Node l e r) \<Longrightarrow> theap_path e p \<Longrightarrow> theap (plug (Node l e r) p)"
proof (induction p arbitrary: l e r)
  case (Cons c p)
  then show ?case by (cases c) auto
qed simp

text \<open>
  The state of the climb at \<open>Node l e r\<close>: only the edge to the child that holds the new
  entry may be out of order, and the subtrees of that child lie above \<open>e\<close>.
\<close>

definition climbing :: "'v mtree \<Rightarrow> 'v spdylay_map_entry \<Rightarrow> 'v mtree \<Rightarrow> bool" where
  "climbing l e r \<longleftrightarrow> theap l \<and> theap r \<and>
     (theap_edge e r \<and> (case l of Leaf \<Rightarrow> True | Node ll x lr \<Rightarrow> theap_edge e ll \<and> theap_edge e lr) \<or>
      theap_edge e l \<and> (case r of Leaf \<Rightarrow> True | Node rl x rr \<Rightarrow> theap_edge e rl \<and> theap_edge e rr))"

lemma climbing_rotate_right:
  assumes "climbing (Node ll x lr) e r" "e_priority x < e_priority e"
  shows "theap ll" "theap (Node lr e r)" "theap_edge x ll" "theap_edge x (Node lr e r)"
    "theap_edge e ll" "theap_edge e lr" "theap_edge e r"
  using assms by (auto simp: climbing_def)

lemma climbing_rotate_left:
  assumes "climbing l e (Node rl x rr)" "e_priority x < e_priority e"
  shows "theap (Node l e rl)" "theap rr" "theap_edge x (Node l e rl)" "theap_edge x rr"
    "theap_edge e l" "theap_edge e rl" "theap_edge e rr"
  using assms by (auto simp: climbing_def)

lemma climbing_plug1:
  assumes "theap (Node l x r)" "theap_edge e l" "theap_edge e r" "theap_path e (c # cs)"
  obtains l' e' r' where "plug1 (Node l x r) c = Node l' e' r'" "climbing l' e' r'" "theap_path e' cs"
  using assms by (cases c) (auto simp: climbing_def intro: theap_edge_mono)

lemma theap_rotate_up:
  "climbing l e r \<Longrightarrow> theap_path e p \<Longrightarrow> theap (rotate_up (Node l e r) p)"
proof (induction p arbitrary: l e r)
  case Nil
  then show ?case
    by (cases l; cases r) (auto simp: climbing_def)
next
  case (Cons c cs)
  have step: "theap (rotate_up (plug1 t c) cs)"
    if "theap t" "t = Node l' x r'" "theap_edge e l'" "theap_edge e r'" for t l' x r'
    using climbing_plug1 [of l' x r' e c cs] Cons.IH Cons.prems(2) that by metis
  consider (right) ll x lr where "l = Node ll x lr" "e_priority x < e_priority e"
    | (left) rl x rr where "\<not> child_below e l" "r = Node rl x rr" "e_priority x < e_priority e"
    | (stop) "\<not> child_below e l" "\<not> child_below e r"
    by (cases "child_below e l"; cases "child_below e r"; cases l; cases r) auto
  then show ?case
  proof cases
    case right
    with climbing_rotate_right [of ll x lr e r] Cons.prems(1) show ?thesis
      by (simp add: step)
  next
    case left
    with climbing_rotate_left [of l e rl x rr] Cons.prems(1) show ?thesis
      by (simp add: step)
  next
    case stop
    then have "rotate_up (Node l e r) (c # cs) = plug (Node l e r) (c # cs)" by simp
    moreover have "theap (Node l e r)"
      using stop Cons.prems by (auto simp: climbing_def child_below_edge)
    ultimately show ?thesis using Cons.prems theap_plug by metis
  qed
qed

text \<open>The hole left by the entry on its way down: both subtrees fit below the parent.\<close>

fun theap_hole :: "'v mtree \<Rightarrow> 'v mtree \<Rightarrow> 'v path \<Rightarrow> bool" where
  "theap_hole l r [] \<longleftrightarrow> True"
| "theap_hole l r (FromLeft c s # ps) \<longleftrightarrow>
     theap_edge c l \<and> theap_edge c r \<and> theap_edge c s \<and> theap s \<and> theap_path c ps"
| "theap_hole l r (FromRight s c # ps) \<longleftrightarrow>
     theap_edge c l \<and> theap_edge c r \<and> theap_edge c s \<and> theap s \<and> theap_path c ps"

lemma theap_plug_hole: "theap_hole l r p \<Longrightarrow> theap l \<Longrightarrow> theap (plug l p)"
  by (cases "(l, r, p)" rule: theap_hole.cases) (auto intro: theap_plug)

lemma theap_hole_swap: "theap_hole l r p \<longleftrightarrow> theap_hole r l p"
  by (cases "(l, r, p)" rule: theap_hole.cases) auto

lemma theap_hole_path: "theap_hole (Node ll e lr) r p \<Longrightarrow> theap_path e p"
  by (cases "(Node ll e lr, r, p)" rule: theap_hole.cases) auto

lemma theap_rotate_down:
  "theap l \<Longrightarrow> theap r \<Longrightarrow> theap_hole l r p \<Longrightarrow> theap (rotate_down (Node l e r) p)"
proof (induction "Node l e r" p arbitrary: l r rule: rotate_down.induct)
  case (2 r p)
  then show ?case using theap_plug_hole theap_hole_swap by fastforce
next
  case (3 ll le lr p)
  then show ?case using theap_plug_hole by fastforce
next
  case (4 ll le lr rl re rr p)
  have "theap_path le p" "theap_path re p"
    using 4(5) theap_hole_path theap_hole_swap by blast+
  with 4 show ?case by auto
qed

lemma theap_plugD: "theap (plug (Node l e r) p) \<Longrightarrow> theap (Node l e r) \<and> theap_path e p"
proof (induction p arbitrary: l e r)
  case (Cons c p)
  show ?case
  proof (cases c)
    case (FromLeft x s)
    with Cons.IH [of "Node l e r" x s] Cons.prems show ?thesis by simp
  next
    case (FromRight s x)
    with Cons.IH [of s x "Node l e r"] Cons.prems show ?thesis by simp
  qed
qed simp

lemma theap_edge_cong: "e_priority e = e_priority e' \<Longrightarrow> theap_edge e t \<longleftrightarrow> theap_edge e' t"
  by (cases t) auto

lemma theap_tree_write: "theap (tree_write k f t) \<longleftrightarrow> theap t"
proof -
  have edge: "theap_edge e (tree_write k f t) \<longleftrightarrow> theap_edge e t" for e t
    by (cases t) auto
  show ?thesis by (induction t) (auto simp: edge theap_edge_cong [of "e\<lparr>e_val := v\<rparr>" e for e v])
qed

lemma theap_hole_of_path: "theap (Node l e r) \<Longrightarrow> theap_path e p \<Longrightarrow> theap_hole l r p"
  by (cases "(l, r, p)" rule: theap_hole.cases) (auto intro: theap_edge_mono)

lemma theap_insert_leaf:
  assumes "theap (plug Leaf (d # cs))"
  shows "theap (rotate_up (plug1 (Node Leaf e Leaf) d) cs)"
proof -
  obtain c s where "d = FromLeft c s \<or> d = FromRight s c" by (cases d) auto
  with assms show ?thesis
    using theap_plugD [of Leaf c s cs] theap_plugD [of s c Leaf cs]
    by (auto simp: climbing_def intro!: theap_rotate_up simp del: rotate_up.simps)
qed

section \<open>The invariant and the interface\<close>

text \<open>
  Keys ascend in order, priorities are the hash of the key and form a heap, and the size is
  the number of entries.
\<close>

definition map_inv :: "'v spdylay_map \<Rightarrow> bool" where
  "map_inv m \<longleftrightarrow> sorted_entries (entries m) \<and> theap (map_root m) \<and>
     (\<forall>e\<in>set (entries m). e_priority e = hash32shift (e_key e)) \<and> map_size m = length (entries m)"

lemma map_find_lookup: "map_inv m \<Longrightarrow> spdylay_map_find m k = lookup (entries m) k"
  by (simp add: map_inv_def spdylay_map_find_def entries_def tree_find_lookup)

lemma sorted_insert_at:
  assumes "sorted_entries (xs @ ys)" "\<forall>x\<in>e_key ` set xs. x < e_key e" "\<forall>x\<in>e_key ` set ys. e_key e < x"
  shows "sorted_entries (xs @ e # ys)"
    "lookup (xs @ e # ys) k = (if k = e_key e then Some e else lookup (xs @ ys) k)"
proof -
  show "sorted_entries (xs @ e # ys)" using assms by (fastforce simp: sorted_wrt_append)
  have "lookup xs (e_key e) = None" using assms(2) by (auto simp: lookup_None_iff)
  then show "lookup (xs @ e # ys) k = (if k = e_key e then Some e else lookup (xs @ ys) k)"
    by (auto simp: lookup_append split: option.splits)
qed

text \<open>What an insertion of an absent key does to the entries.\<close>

lemma map_insert_new:
  assumes inv: "map_inv m" and new: "spdylay_map_find m (e_key e) = None"
    and pri: "e_priority e = hash32shift (e_key e)"
  obtains m' xs ys where "spdylay_map_insert m e = (0, m')" "map_inv m'"
    "entries m = xs @ ys" "entries m' = xs @ e # ys"
    "\<And>k. spdylay_map_find m' k = (if k = e_key e then Some e else spdylay_map_find m k)"
proof (cases "map_root m")
  case Leaf
  with inv pri show ?thesis
    by (intro that [of _ "[]" "[]"])
      (auto simp: spdylay_map_insert_def map_inv_def entries_def spdylay_map_find_def)
next
  case (Node l c r)
  have srt: "sorted_entries (inorder (map_root m))" and hp: "theap (map_root m)"
    using inv by (auto simp: map_inv_def entries_def)
  from new map_find_lookup [OF inv] have "insert_position (e_key e) (map_root m) [] \<noteq> None"
    using insert_position_None [OF srt] by (simp add: entries_def lookup_None_iff)
  then obtain d cs where q: "insert_position (e_key e) (map_root m) [] = Some (d # cs)"
    using insert_position_not_Nil [of "e_key e" l c r "[]"] Node by (cases "insert_position (e_key e) (map_root m) []") (auto, metis neq_Nil_conv)
  define p where "p = d # cs"
  from insert_position_Some [OF q srt]
  have split: "entries m = left_of p @ right_of p" "\<forall>x\<in>e_key ` set (left_of p). x < e_key e"
      "\<forall>x\<in>e_key ` set (right_of p). e_key e < x"
    by (auto simp: p_def entries_def)
  have plug: "plug Leaf p = map_root m"
    using insert_position_plug [OF q] by (simp add: p_def)
  define m' where "m' = m\<lparr>map_root := rotate_up (plug1 (Node Leaf e Leaf) d) cs, map_size := map_size m + 1\<rparr>"
  have ent: "entries m' = left_of p @ e # right_of p"
    by (cases d) (simp_all add: m'_def entries_def inorder_rotate_up p_def del: rotate_up.simps)
  have "theap (map_root m')"
    using theap_insert_leaf [of d cs e] hp plug by (simp add: m'_def p_def)
  with ent split srt inv pri sorted_insert_at(1) [of "left_of p" "right_of p" e]
  have inv': "map_inv m'"
    by (auto simp: map_inv_def m'_def entries_def [symmetric])
  have "spdylay_map_find m' k = (if k = e_key e then Some e else spdylay_map_find m k)" for k
    using sorted_insert_at(2) [of "left_of p" "right_of p" e k] split srt ent
    by (simp add: map_find_lookup [OF inv'] map_find_lookup [OF inv] entries_def)
  with inv' ent split(1) q Node show ?thesis
    by (intro that [of m' "left_of p" "right_of p"]) (auto simp: spdylay_map_insert_def m'_def)
qed

lemma map_insert_dup:
  assumes "map_inv m" "spdylay_map_find m (e_key e) \<noteq> None"
  shows "spdylay_map_insert m e = (SPDYLAY_ERR_INVALID_ARGUMENT, m)"
proof -
  have "sorted_entries (inorder (map_root m))" using assms(1) by (simp add: map_inv_def entries_def)
  from insert_position_None [OF this] assms map_find_lookup [OF assms(1)]
  have "insert_position (e_key e) (map_root m) [] = None"
    by (auto simp: lookup_None_iff entries_def)
  moreover from assms(2) have "map_root m \<noteq> Leaf" by (auto simp: spdylay_map_find_def)
  ultimately show ?thesis by (simp add: spdylay_map_insert_def)
qed

lemma map_remove_found:
  assumes inv: "map_inv m" and old: "spdylay_map_find m key = Some e"
  obtains m' xs ys where "spdylay_map_remove m key = (0, m')" "map_inv m'"
    "entries m = xs @ e # ys" "entries m' = xs @ ys"
    "\<And>k. spdylay_map_find m' k = (if k = key then None else spdylay_map_find m k)"
proof -
  have srt: "sorted_entries (inorder (map_root m))" and hp: "theap (map_root m)"
    using inv by (auto simp: map_inv_def entries_def)
  from old have ne: "map_root m \<noteq> Leaf" by (auto simp: spdylay_map_find_def)
  from old have "tree_locate key (map_root m) [] \<noteq> None"
    by (simp add: tree_locate_None spdylay_map_find_def)
  then obtain t p where tp: "tree_locate key (map_root m) [] = Some (t, p)" by auto
  from tree_locate_node [OF tp] obtain l x r where t: "t = Node l x r" "e_key x = key" by auto
  from tree_locate_plug [OF tp] t have plug: "plug (Node l x r) p = map_root m" by simp
  define m' where "m' = m\<lparr>map_root := rotate_down (Node l x r) p, map_size := size_sub (map_size m) 1\<rparr>"
  define xs ys where "xs = left_of p @ inorder l" and "ys = inorder r @ right_of p"
  have ent: "entries m = xs @ x # ys" "entries m' = xs @ ys"
    by (simp_all add: entries_def plug [symmetric] inorder_plug m'_def inorder_rotate_down xs_def ys_def)
  with srt have srt': "sorted_entries (xs @ x # ys)" by (simp add: entries_def)
  have [simp]: "x = e"
    using old map_find_lookup [OF inv, of key] lookup_mem [OF srt', of x] ent t by simp
  have "theap (map_root m')"
    using theap_plugD [of l x r p] theap_hole_of_path [of l x r p] hp plug theap_rotate_down [of l r p x]
    by (simp add: m'_def)
  with ent srt' inv have inv': "map_inv m'"
    by (auto simp: map_inv_def m'_def sorted_wrt_append size_sub_def)
  have "lookup (xs @ ys) k = (if k = key then None else lookup (xs @ x # ys) k)" for k
    using srt' t sorted_insert_at(2) [of xs ys x k]
    by (fastforce simp: lookup_None_iff sorted_wrt_append)
  with inv inv' ent tp ne t show ?thesis
    by (intro that [of m' xs ys]) (auto simp: spdylay_map_remove_def m'_def map_find_lookup)
qed

lemma map_remove_miss:
  "spdylay_map_find m key = None \<Longrightarrow> spdylay_map_remove m key = (SPDYLAY_ERR_INVALID_ARGUMENT, m)"
  using tree_locate_None [of key "map_root m" "[]"]
  by (simp add: spdylay_map_remove_def spdylay_map_find_def)

text \<open>
  The contract the session relies on: a finite map from keys to values, where inserting a
  key that is there and removing one that is not are refused and change nothing.
\<close>

locale keyed_map =
  fixes init :: 'm
    and ins :: "'m \<Rightarrow> u32 \<Rightarrow> 'v \<Rightarrow> int \<times> 'm"
    and fnd :: "'m \<Rightarrow> u32 \<Rightarrow> 'v option"
    and rem :: "'m \<Rightarrow> u32 \<Rightarrow> int \<times> 'm"
    and wr :: "u32 \<Rightarrow> ('v \<Rightarrow> 'v) \<Rightarrow> 'm \<Rightarrow> 'm"
    and sz :: "'m \<Rightarrow> nat"
    and vals :: "'m \<Rightarrow> 'v multiset"
    and invar :: "'m \<Rightarrow> bool"
  assumes invar_init: "invar init" and find_init: "fnd init k = None" and vals_init: "vals init = {#}"
    and ins_new: "invar m \<Longrightarrow> fnd m k = None \<Longrightarrow>
      \<exists>m'. ins m k v = (0, m') \<and> invar m' \<and> fnd m' = (fnd m)(k \<mapsto> v) \<and> vals m' = add_mset v (vals m)"
    and ins_dup: "invar m \<Longrightarrow> fnd m k = Some w \<Longrightarrow> ins m k v = (SPDYLAY_ERR_INVALID_ARGUMENT, m)"
    and rem_found: "invar m \<Longrightarrow> fnd m k = Some v \<Longrightarrow>
      \<exists>m'. rem m k = (0, m') \<and> invar m' \<and> fnd m' = (fnd m)(k := None) \<and> vals m = add_mset v (vals m')"
    and rem_miss: "invar m \<Longrightarrow> fnd m k = None \<Longrightarrow> rem m k = (SPDYLAY_ERR_INVALID_ARGUMENT, m)"
    and wr_invar: "invar m \<Longrightarrow> invar (wr k f m)"
    and wr_find: "invar m \<Longrightarrow> fnd (wr k f m) = (fnd m)(k := map_option f (fnd m k))"
    and wr_vals: "invar m \<Longrightarrow> fnd m k = Some v \<Longrightarrow>
      \<exists>rest. vals m = add_mset v rest \<and> vals (wr k f m) = add_mset (f v) rest"
    and wr_miss: "invar m \<Longrightarrow> fnd m k = None \<Longrightarrow> wr k f m = m"
    and sz_vals: "invar m \<Longrightarrow> sz m = size (vals m)"
    and vals_find: "invar m \<Longrightarrow> v \<in># vals m \<longleftrightarrow> (\<exists>k. fnd m k = Some v)"
begin

lemma ins_cases:
  assumes "invar m" "ins m k v = (r, m')"
  obtains (new) "r = 0" "fnd m k = None" "invar m'" "fnd m' = (fnd m)(k \<mapsto> v)"
      "vals m' = add_mset v (vals m)"
  | (dup) w where "r = SPDYLAY_ERR_INVALID_ARGUMENT" "m' = m" "fnd m k = Some w"
  using assms ins_new [of m k v] ins_dup [of m k _ v] by (cases "fnd m k") force+

lemma rem_cases:
  assumes "invar m" "rem m k = (r, m')"
  obtains (found) v where "r = 0" "fnd m k = Some v" "invar m'" "fnd m' = (fnd m)(k := None)"
      "vals m = add_mset v (vals m')"
  | (miss) "r = SPDYLAY_ERR_INVALID_ARGUMENT" "m' = m" "fnd m k = None"
  using assms rem_found [of m k] rem_miss [of m k] by (cases "fnd m k") force+

text \<open>Inserting an absent key and removing it again gives back the same finite map.\<close>

lemma rem_ins:
  assumes "invar m" "fnd m k = None"
  obtains m' m'' where "ins m k v = (0, m')" "rem m' k = (0, m'')" "invar m''" "fnd m'' = fnd m"
    "vals m'' = vals m"
proof -
  from ins_new [OF assms, of v] obtain m' where m': "ins m k v = (0, m')" "invar m'"
      "fnd m' = (fnd m)(k \<mapsto> v)" "vals m' = add_mset v (vals m)" by auto
  then have "fnd m' k = Some v" by simp
  from rem_found [OF m'(2) this] m' assms that show ?thesis by fastforce
qed

text \<open>A counted property of the values moves by one with every insertion and removal.\<close>

lemma count_ins:
  "invar m \<Longrightarrow> ins m k v = (0, m') \<Longrightarrow>
   size (filter_mset P (vals m')) = size (filter_mset P (vals m)) + (if P v then 1 else 0)"
  by (erule (1) ins_cases) auto

lemma count_rem:
  "invar m \<Longrightarrow> fnd m k = Some v \<Longrightarrow> rem m k = (0, m') \<Longrightarrow>
   size (filter_mset P (vals m)) = size (filter_mset P (vals m')) + (if P v then 1 else 0)"
  by (erule (1) rem_cases) auto

lemma count_wr:
  assumes "invar m" "\<And>v. fnd m k = Some v \<Longrightarrow> P (f v) \<longleftrightarrow> P v"
  shows "size (filter_mset P (vals (wr k f m))) = size (filter_mset P (vals m))"
proof (cases "fnd m k")
  case (Some v)
  with assms wr_vals [of m k v f] show ?thesis by fastforce
qed (simp add: assms wr_miss)

end

definition map_vals :: "'v spdylay_map \<Rightarrow> 'v multiset" where
  "map_vals m = image_mset e_val (mset (entries m))"

definition map_ins :: "'v spdylay_map \<Rightarrow> u32 \<Rightarrow> 'v \<Rightarrow> int \<times> 'v spdylay_map" where
  "map_ins m k v = spdylay_map_insert m (spdylay_map_entry_init k v)"

definition map_get :: "'v spdylay_map \<Rightarrow> u32 \<Rightarrow> 'v option" where
  "map_get m k = map_option e_val (spdylay_map_find m k)"

lemma entry_init_simps [simp]:
  "e_key (spdylay_map_entry_init k v) = k" "e_val (spdylay_map_entry_init k v) = v"
  "e_priority (spdylay_map_entry_init k v) = hash32shift k"
  by (simp_all add: spdylay_map_entry_init_def)

lemma entries_map_write: "map_inv m \<Longrightarrow> entries (map_write k f m) = map (write_entry k f) (entries m)"
  by (simp add: map_inv_def entries_def map_write_def inorder_tree_write)

lemma keys_write_entry [simp]: "keys (map (write_entry k f) xs) = keys xs"
  by (simp add: keys_def)

lemma map_inv_write: "map_inv m \<Longrightarrow> map_inv (map_write k f m)"
  using entries_map_write [of m k f]
  by (auto simp: map_inv_def theap_tree_write) (auto simp: map_write_def theap_tree_write)

lemma lookup_write_entry:
  "lookup (map (write_entry k f) xs) k' = map_option (write_entry k f) (lookup xs k')"
  by (induction xs) auto

lemma map_get_write:
  assumes "map_inv m"
  shows "map_get (map_write k f m) k' = (if k' = k then map_option f (map_get m k) else map_get m k')"
  using assms
  by (auto simp: map_get_def map_find_lookup map_inv_write entries_map_write lookup_write_entry
      option.map_comp o_def write_entry_def intro!: map_option_cong dest: lookup_Some_mem)

lemma map_vals_write:
  assumes "map_inv m" "map_get m k = Some v"
  shows "\<exists>rest. map_vals m = add_mset v rest \<and> map_vals (map_write k f m) = add_mset (f v) rest"
proof -
  from assms obtain e where e: "lookup (entries m) k = Some e" "e_val e = v"
    by (auto simp: map_get_def map_find_lookup)
  then have key: "e_key e = k" and "e \<in> set (entries m)" by (auto dest: lookup_Some_mem)
  then obtain xs ys where xs: "entries m = xs @ e # ys" by (meson split_list)
  then have "k \<notin> e_key ` set xs" "k \<notin> e_key ` set ys"
    using assms(1) key by (auto simp: map_inv_def sorted_wrt_append)
  then have "entries (map_write k f m) = xs @ write_entry k f e # ys"
    by (simp add: entries_map_write assms(1) xs write_entry_miss)
  with xs e key show ?thesis
    by (intro exI [of _ "image_mset e_val (mset (xs @ ys))"])
      (auto simp: map_vals_def write_entry_def)
qed

lemma map_write_miss:
  assumes "map_inv m" "map_get m k = None" shows "map_write k f m = m"
proof -
  have "tree_find t k = None \<Longrightarrow> tree_write k f t = t" for t by (induction t) (auto split: if_splits)
  with assms(2) show ?thesis by (simp add: map_get_def spdylay_map_find_def map_write_def)
qed

interpretation treap: keyed_map spdylay_map_init map_ins map_get spdylay_map_remove map_write
    spdylay_map_size map_vals map_inv
proof (unfold_locales, goal_cases)
  case (4 m k v)
  then obtain m' xs ys where m': "spdylay_map_insert m (spdylay_map_entry_init k v) = (0, m')"
      "map_inv m'" "entries m = xs @ ys" "entries m' = xs @ spdylay_map_entry_init k v # ys"
      "\<And>k'. spdylay_map_find m' k' =
        (if k' = k then Some (spdylay_map_entry_init k v) else spdylay_map_find m k')"
    using map_insert_new [of m "spdylay_map_entry_init k v"] by (auto simp: map_get_def)
  then show ?case by (auto simp: map_ins_def map_get_def map_vals_def fun_eq_iff)
next
  case (5 m k w v)
  then show ?case
    using map_insert_dup [of m "spdylay_map_entry_init k v"] by (auto simp: map_ins_def map_get_def)
next
  case (6 m k v)
  then obtain e where e: "spdylay_map_find m k = Some e" "v = e_val e" by (auto simp: map_get_def)
  from map_remove_found [OF 6(1) e(1)] obtain m' xs ys
    where "spdylay_map_remove m k = (0, m')" "map_inv m'" "entries m = xs @ e # ys" "entries m' = xs @ ys"
      "\<And>k'. spdylay_map_find m' k' = (if k' = k then None else spdylay_map_find m k')" by metis
  with e show ?case by (auto simp: map_get_def map_vals_def fun_eq_iff)
next
  case (7 m k)
  then show ?case by (simp add: map_get_def map_remove_miss)
next
  case (9 m k f)
  then show ?case by (simp add: map_get_write fun_eq_iff)
next
  case (8 m k f)
  then show ?case by (rule map_inv_write)
next
  case (10 m k v f)
  then show ?case by (rule map_vals_write)
next
  case (11 m k f)
  then show ?case by (rule map_write_miss)
next
  case (13 m v)
  then show ?case
    by (auto simp: map_get_def map_find_lookup map_vals_def map_inv_def image_iff)
      (metis lookup_mem lookup_Some_mem)+
qed (auto simp: map_inv_def spdylay_map_init_def
    entries_def map_get_def spdylay_map_find_def spdylay_map_size_def map_vals_def)

section \<open>The two walks visit every entry once\<close>

fun each_list :: "('v spdylay_map_entry \<Rightarrow> 's \<Rightarrow> int \<times> 'v \<times> 's) \<Rightarrow> 'v spdylay_map_entry list \<Rightarrow> 's \<Rightarrow>
    int \<times> 'v spdylay_map_entry list \<times> 's" where
  "each_list func [] s = (0, [], s)"
| "each_list func (e # es) s =
     (case func e s of (rv, v, s') \<Rightarrow>
        if rv \<noteq> 0 then (rv, e\<lparr>e_val := v\<rparr> # es, s')
        else case each_list func es s' of (rv', es', s'') \<Rightarrow> (rv', e\<lparr>e_val := v\<rparr> # es', s''))"

text \<open>The walk assigns to the values only: the tree keeps its shape, keys and priorities.\<close>

definition skeleton :: "'v mtree \<Rightarrow> (u32 \<times> u32) tree" where
  "skeleton t = map_tree (\<lambda>e. (e_key e, e_priority e)) t"

lemma skeleton_simps [simp]:
  "skeleton Leaf = Leaf" "skeleton (Node l e r) = Node (skeleton l) (e_key e, e_priority e) (skeleton r)"
  by (simp_all add: skeleton_def)

lemma skeleton_plug: "skeleton t = skeleton t' \<Longrightarrow> skeleton (plug t p) = skeleton (plug t' p)"
proof (induction p arbitrary: t t')
  case (Cons c p)
  then show ?case by (cases c) auto
qed simp

lemma skeleton_theap:
  fixes t t' :: "'v mtree"
  shows "skeleton t = skeleton t' \<Longrightarrow> theap t = theap t'"
proof (induction t arbitrary: t')
  case (Node l e r)
  have edge: "skeleton u = skeleton u' \<Longrightarrow> e_priority x = e_priority x' \<Longrightarrow> theap_edge x u = theap_edge x' u'"
    for u u' :: "'v mtree" and x x' by (cases u; cases u') auto
  from Node.prems obtain l' e' r' where t': "t' = Node l' e' r'" by (cases t') auto
  with Node.prems Node.IH(1) [of l'] Node.IH(2) [of r'] edge [of l l' e e'] edge [of r r' e e']
  show ?case by simp
next
  case Leaf
  then show ?case by (cases t') auto
qed

lemma skeleton_keys:
  fixes t t' :: "'v mtree"
  assumes "skeleton t = skeleton t'"
  shows "keys (inorder t) = keys (inorder t')" "map e_priority (inorder t) = map e_priority (inorder t')"
proof -
  have "keys (inorder t) = map fst (inorder (skeleton t))"
      "map e_priority (inorder t) = map snd (inorder (skeleton t))" for t :: "'v mtree"
    by (simp_all add: skeleton_def inorder_map keys_def o_def)
  with assms show "keys (inorder t) = keys (inorder t')"
      "map e_priority (inorder t) = map e_priority (inorder t')" by simp_all
qed

lemma find_left_most_plug: "find_left_most t p = (t', p') \<Longrightarrow> plug t' p' = plug t p"
  by (induction t p rule: find_left_most.induct) (auto split: if_splits)

lemma climb_right_plug: "climb_right t p = Some (u, q) \<Longrightarrow> plug u q = plug t p"
  by (induction t p rule: climb_right.induct) auto

lemma traverse_inorder_plug: "traverse_inorder t p = Some (u, q) \<Longrightarrow> plug u q = plug t p"
  by (auto simp: traverse_inorder_def split: tree.splits if_splits
      dest: find_left_most_plug climb_right_plug)

lemma traverse_inorder_None:
  "traverse_inorder (Node l e r) p = None \<Longrightarrow> inorder r @ right_of p = []"
proof -
  have "climb_right t p = None \<Longrightarrow> right_of p = []" for t
    by (induction t p rule: climb_right.induct) auto
  then show "traverse_inorder (Node l e r) p = None \<Longrightarrow> ?thesis"
    by (auto simp: traverse_inorder_def split: if_splits)
qed

lemma map_each_from_list:
  assumes "map_each_from func (Node l e r) p s = (rv, t', s')"
  shows "skeleton t' = skeleton (plug (Node l e r) p)"
    "\<exists>es. each_list func (e # inorder r @ right_of p) s = (rv, es, s') \<and>
      inorder t' = left_of p @ inorder l @ es"
proof -
  have "skeleton t' = skeleton (plug (Node l e r) p) \<and>
    (\<exists>es. each_list func (e # inorder r @ right_of p) s = (rv, es, s') \<and>
      inorder t' = left_of p @ inorder l @ es)"
    using assms
  proof (induction "steps_left (Node l e r) p" arbitrary: l e r p s rule: less_induct)
    case less
    obtain rv1 v s1 where f: "func e s = (rv1, v, s1)" by (metis prod_cases3)
    define t where "t = Node l (e\<lparr>e_val := v\<rparr>) r"
    have sk: "skeleton (plug t p) = skeleton (plug (Node l e r) p)"
      by (rule skeleton_plug) (simp add: t_def)
    show ?case
    proof (cases "rv1 \<noteq> 0 \<or> traverse_inorder t p = None")
      case True
      with less.prems f sk traverse_inorder_None [of l "e\<lparr>e_val := v\<rparr>" r p] show ?thesis
        by (auto simp: t_def inorder_plug)
    next
      case False
      then obtain u q where uq: "traverse_inorder t p = Some (u, q)" and [simp]: "rv1 = 0" by auto
      from traverse_inorder_sides [OF uq [unfolded t_def]] obtain l' e' r' where
        u: "u = Node l' e' r'" and side: "left_of q @ inorder l' = left_of p @ inorder l @ [e\<lparr>e_val := v\<rparr>]"
          "e' # inorder r' @ right_of q = inorder r @ right_of p" by metis
      have rec: "map_each_from func (Node l' e' r') q s1 = (rv, t', s')"
        using less.prems f uq by (simp add: t_def u)
      have "steps_left (Node l' e' r') q < steps_left (Node l e r) p"
        using steps_left_traverse [OF uq [unfolded t_def]] u by simp
      from less.hyps [OF this rec] obtain es where
        "skeleton t' = skeleton (plug u q)" "each_list func (inorder r @ right_of p) s1 = (rv, es, s')"
        "inorder t' = left_of q @ inorder l' @ es"
        using u side by auto
      with traverse_inorder_plug [OF uq] sk f side(1) show ?thesis
        by (auto simp del: append_assoc simp: append_assoc [symmetric])
    qed
  qed
  then show "skeleton t' = skeleton (plug (Node l e r) p)"
    "\<exists>es. each_list func (e # inorder r @ right_of p) s = (rv, es, s') \<and>
      inorder t' = left_of p @ inorder l @ es" by auto
qed

text \<open>The in-order walk is the fold over the entries in the order of the keys.\<close>

lemma map_each_entries:
  assumes "spdylay_map_each m func s = (rv, m', s')"
  shows "each_list func (entries m) s = (rv, entries m', s')"
    "skeleton (map_root m') = skeleton (map_root m)" "map_size m' = map_size m"
proof -
  have "each_list func (entries m) s = (rv, entries m', s') \<and>
    skeleton (map_root m') = skeleton (map_root m) \<and> map_size m' = map_size m"
  proof (cases "map_root m = Leaf")
    case False
    from find_left_most_sides [OF False, of "[]"] obtain e r q where
      q: "find_left_most (map_root m) [] = (Node Leaf e r, q)" "left_of q = []"
        "e # inorder r @ right_of q = entries m" by (auto simp: entries_def)
    from find_left_most_plug [OF q(1)] have "plug (Node Leaf e r) q = map_root m" by simp
    moreover obtain t' where "map_each_from func (Node Leaf e r) q s = (rv, t', s')"
        "m' = m\<lparr>map_root := t'\<rparr>"
      using assms False q(1) by (auto simp: spdylay_map_each_def split: prod.splits)
    ultimately show ?thesis
      using map_each_from_list [of func Leaf e r q s rv t' s'] q by (auto simp: entries_def)
  qed (use assms in \<open>auto simp: spdylay_map_each_def entries_def\<close>)
  then show "each_list func (entries m) s = (rv, entries m', s')"
    "skeleton (map_root m') = skeleton (map_root m)" "map_size m' = map_size m" by auto
qed

lemma map_inv_each:
  assumes "map_inv m" "spdylay_map_each m func s = (rv, m', s')"
  shows "map_inv m'" "keys (entries m') = keys (entries m)"
proof -
  note e = map_each_entries [OF assms(2)]
  note k = skeleton_keys [OF e(2), folded entries_def]
  have "map e_priority xs = map (hash32shift \<circ> e_key) xs" if "map e_priority xs = map e_priority ys"
      "keys xs = keys ys" "\<forall>e\<in>set ys. e_priority e = hash32shift (e_key e)"
    for xs ys :: "'a spdylay_map_entry list"
  proof -
    have "map e_priority ys = map (hash32shift \<circ> e_key) ys" using that(3) by simp
    with that(1,2) show ?thesis by (metis keys_def map_map)
  qed
  from this [OF k(2,1)] assms(1) have "\<forall>e\<in>set (entries m'). e_priority e = hash32shift (e_key e)"
    by (auto simp: map_inv_def)
  with assms(1) k e(3) skeleton_theap [OF e(2)] show "map_inv m'"
    by (auto simp: map_inv_def keys_def dest: map_eq_imp_length_eq)
  show "keys (entries m') = keys (entries m)" by (rule k)
qed

lemma map_each_free_from_fold:
  "map_each_free_from func (Node l e r) p s = fold func (e # after_postorder p) s"
proof (induction "length (after_postorder p)" arbitrary: l e r p s rule: less_induct)
  case less
  show ?case
  proof (cases "traverse_postorder (Node l e r) p")
    case None
    then have "p = []" by (auto simp: traverse_postorder_def split: list.splits crumb.splits if_splits)
    with None show ?thesis by simp
  next
    case (Some uq)
    then obtain u q where uq: "traverse_postorder (Node l e r) p = Some (u, q)" by (cases uq) auto
    then obtain l' e' r' where "u = Node l' e' r'" "e' # after_postorder q = after_postorder p"
      using traverse_postorder_next by metis
    with less [of q l' e' r' "func e s"] uq show ?thesis
      by (metis fold_simps(2) length_Cons lessI map_each_free_from.simps(2) option.simps(5) case_prod_conv)
  qed
qed

text \<open>The walk that frees hands every entry to the callback exactly once, children first.\<close>

lemma map_each_free_fold:
  "spdylay_map_each_free m func s = (m\<lparr>map_root := Leaf\<rparr>, fold func (postorder (map_root m)) s)"
proof (cases "map_root m = Leaf")
  case True
  then show ?thesis by (simp add: spdylay_map_each_free_def)
next
  case False
  from find_left_most_leaf_postorder [OF False, of "[]"] obtain e q where
    "find_left_most_leaf (map_root m) [] = (Node Leaf e Leaf, q)"
    "postorder (map_root m) = e # after_postorder q" by auto
  with False show ?thesis
    by (simp add: spdylay_map_each_free_def map_each_free_from_fold del: map_each_free_from.simps)
qed

section \<open>Refinement of a finite map\<close>

text \<open>The two operations that change the table, on the treap and on a map.\<close>

datatype 'v map_op = MapInsert u32 'v | MapRemove u32

fun treap_step :: "'v spdylay_map \<Rightarrow> 'v map_op \<Rightarrow> int \<times> 'v spdylay_map" where
  "treap_step m (MapInsert k v) = spdylay_map_insert m (spdylay_map_entry_init k v)"
| "treap_step m (MapRemove k) = spdylay_map_remove m k"

fun map_step :: "(u32 \<rightharpoonup> 'v) \<Rightarrow> 'v map_op \<Rightarrow> int \<times> (u32 \<rightharpoonup> 'v)" where
  "map_step f (MapInsert k v) = (if f k = None then (0, f(k \<mapsto> v)) else (SPDYLAY_ERR_INVALID_ARGUMENT, f))"
| "map_step f (MapRemove k) = (if f k = None then (SPDYLAY_ERR_INVALID_ARGUMENT, f) else (0, f(k := None)))"

fun run_ops :: "('s \<Rightarrow> 'v map_op \<Rightarrow> int \<times> 's) \<Rightarrow> 's \<Rightarrow> 'v map_op list \<Rightarrow> int list \<times> 's" where
  "run_ops step s [] = ([], s)"
| "run_ops step s (c # cs) = (case step s c of (r, s') \<Rightarrow> case run_ops step s' cs of (rs, s'') \<Rightarrow> (r # rs, s''))"

lemma treap_step_simulates:
  assumes "map_inv m"
  shows "\<exists>r m'. treap_step m c = (r, m') \<and> map_inv m' \<and> map_step (map_get m) c = (r, map_get m')"
proof (cases c)
  case (MapInsert k v)
  then show ?thesis using treap.ins_new [OF assms, of k v] treap.ins_dup [OF assms, of k _ v] assms
    by (cases "map_get m k") (auto simp: map_ins_def)
next
  case (MapRemove k)
  then show ?thesis using treap.rem_found [OF assms, of k] treap.rem_miss [OF assms, of k] assms
    by (cases "map_get m k") auto
qed

lemma run_ops_simulates:
  "map_inv m \<Longrightarrow> \<exists>rs m'. run_ops treap_step m cs = (rs, m') \<and> map_inv m' \<and> run_ops map_step (map_get m) cs = (rs, map_get m')"
proof (induction cs arbitrary: m)
  case (Cons c cs)
  obtain r m1 where "treap_step m c = (r, m1)" "map_inv m1" "map_step (map_get m) c = (r, map_get m1)"
    using treap_step_simulates [OF Cons.prems] by blast
  then show ?case using Cons.IH [of m1] by auto
qed simp

text \<open>
  C9. The stream table refines a finite map: any sequence of insertions and removals on the empty
  treap gives the same return codes as on the empty map, and then looking a key up in the treap is
  looking it up in the map. The treap stays well formed throughout: sorted keys, heap-ordered hash
  priorities, the right size.
\<close>

theorem treap_refines_map:
  "\<exists>rs m. run_ops treap_step spdylay_map_init cs = (rs, m) \<and> map_inv m \<and>
     run_ops map_step Map.empty cs = (rs, \<lambda>k. map_option e_val (spdylay_map_find m k))"
proof -
  have "map_get spdylay_map_init = (Map.empty :: u32 \<rightharpoonup> 'a)" by (simp add: fun_eq_iff treap.find_init)
  moreover have "map_get m = (\<lambda>k. map_option e_val (spdylay_map_find m k))" for m :: "'a spdylay_map"
    by (simp add: fun_eq_iff map_get_def)
  ultimately show ?thesis using run_ops_simulates [OF treap.invar_init, of cs] by metis
qed

text \<open>
  C22. The walk of \<open>spdylay_map_each\<close>, which climbs from entry to entry over parent pointers, is the
  plain loop over the entries in increasing order of their keys: the same calls with the same
  states, stopped by the first call that fails, and the table keeps its keys and its shape.
\<close>

theorem map_each_is_sorted_loop:
  assumes "map_inv m" "spdylay_map_each m func s = (rv, m', s')"
  shows "each_list func (entries m) s = (rv, entries m', s') \<and> sorted_wrt (<) (keys (entries m)) \<and> map_inv m' \<and>
    keys (entries m') = keys (entries m)"
  using map_each_entries(1) [OF assms(2)] map_inv_each [OF assms] assms(1) by (simp add: map_inv_def)

lemma demo_treap_inv: "map_inv (snd (run_ops treap_step spdylay_map_init [MapInsert 5 True, MapInsert 2 False]))"
  using run_ops_simulates [OF treap.invar_init, of "[MapInsert 5 True, MapInsert 2 False]"] by auto

lemma demo_treap_entries:
  "map (\<lambda>e. (e_key e, e_val e)) (entries (snd (run_ops treap_step spdylay_map_init [MapInsert 5 True, MapInsert 2 False]))) = [(2, False), (5, True)]"
  by code_simp

theorem map_each_is_sorted_loop_witness:
  "\<exists>m. spdylay_map_each (snd (run_ops treap_step spdylay_map_init [MapInsert 5 True, MapInsert 2 False]))
      (\<lambda>e s. (0, e_val e, s @ [e_key e])) [] = (0, m, [2, 5])"
proof -
  define d where "d = snd (run_ops treap_step spdylay_map_init [MapInsert 5 True, MapInsert 2 False])"
  obtain rv m s where r: "spdylay_map_each d (\<lambda>e s. (0, e_val e, s @ [e_key e])) [] = (rv, m, s)"
    by (rule prod_cases3)
  have "each_list (\<lambda>e s. (0, e_val e, s @ [e_key e])) (entries d) [] = (rv, entries m, s)"
    using map_each_is_sorted_loop [OF demo_treap_inv [folded d_def] r] by simp
  then have "rv = 0 \<and> s = [2, 5]" using demo_treap_entries [folded d_def] by (auto simp: map_eq_Cons_conv)
  with r show ?thesis by (auto simp: d_def)
qed

end
