(* ===== verification/Spdy_Buffer.thy ===== *)
theory Spdy_Buffer
  imports Spdy_Helper
begin

text \<open>
  \<open>lib/spdylay_buffer.c\<close>: the growing byte buffer, a list of chunks of one capacity,
  and the reader that walks over it. The chunk list is a list of byte lists; the chunk
  pointer \<open>current\<close> is the number of the chunk it points to, with 0 for the dummy root, and
  the chunk pointer of a reader is an index with the length of the list for NULL. Loops that
  would not end (a capacity of 0) or touch NULL give \<open>None\<close>.
\<close>

section \<open>The buffer\<close>

record spdylay_buffer =
  buf_capacity :: nat
  buf_chunks :: "bytes list"
  buf_current :: nat
  buf_len :: nat
  buf_last_offset :: nat

definition spdylay_buffer_init :: "nat \<Rightarrow> spdylay_buffer" where
  "spdylay_buffer_init chunk_capacity =
     \<lparr>buf_capacity = chunk_capacity, buf_chunks = [], buf_current = 0, buf_len = 0,
      buf_last_offset = chunk_capacity\<rparr>"

definition spdylay_buffer_alloc :: "mem \<Rightarrow> spdylay_buffer \<Rightarrow> int \<times> spdylay_buffer \<times> mem" where
  "spdylay_buffer_alloc m b =
     (let enter = (\<lambda>b. b\<lparr>buf_current := buf_current b + 1,
                         buf_len := buf_len b + size_sub (buf_capacity b) (buf_last_offset b),
                         buf_last_offset := 0\<rparr>) in
      if buf_current b = length (buf_chunks b) then
        (case malloc m of (ok1, m1) \<Rightarrow>
           if \<not> ok1 then (SPDYLAY_ERR_NOMEM, b, m1)
           else
             (case malloc m1 of (ok2, m2) \<Rightarrow>
                if \<not> ok2 then (SPDYLAY_ERR_NOMEM, b, m2)
                else (0, enter (b\<lparr>buf_chunks := buf_chunks b @ [fresh_block m1 (buf_capacity b)]\<rparr>), m2)))
      else (0, enter b, m))"

text \<open>The write position: the chunk (from 0) and the offset in it, or NULL at the root.\<close>

definition spdylay_buffer_get :: "spdylay_buffer \<Rightarrow> (nat \<times> nat) option" where
  "spdylay_buffer_get b =
     (if buf_current b = 0 then None else Some (buf_current b - 1, buf_last_offset b))"

definition spdylay_buffer_avail :: "spdylay_buffer \<Rightarrow> nat" where
  "spdylay_buffer_avail b = size_sub (buf_capacity b) (buf_last_offset b)"

definition spdylay_buffer_advance :: "spdylay_buffer \<Rightarrow> nat \<Rightarrow> spdylay_buffer option" where
  "spdylay_buffer_advance b amount =
     (let b' = b\<lparr>buf_last_offset := buf_last_offset b + amount, buf_len := buf_len b + amount\<rparr> in
      if buf_last_offset b' \<le> buf_capacity b' then Some b' else None)"

text \<open>The \<open>memcpy\<close> to the write position.\<close>

definition buffer_store :: "spdylay_buffer \<Rightarrow> bytes \<Rightarrow> spdylay_buffer option" where
  "buffer_store b bs =
     (case spdylay_buffer_get b of None \<Rightarrow> None
      | Some (i, off) \<Rightarrow>
          Some (b\<lparr>buf_chunks := (buf_chunks b)[i := memcpy_at (buf_chunks b ! i) off bs]\<rparr>))"

partial_function (option) spdylay_buffer_write ::
    "mem \<Rightarrow> spdylay_buffer \<Rightarrow> bytes \<Rightarrow> (int \<times> spdylay_buffer \<times> mem) option" where
  "spdylay_buffer_write m b data =
     (if data = [] then Some (0, b, m)
      else
        (case (if spdylay_buffer_avail b = 0 then spdylay_buffer_alloc m b else (0, b, m)) of (rv, b1, m1) \<Rightarrow>
           if rv \<noteq> 0 then Some (rv, b1, m1)
           else
             let writelen = min (spdylay_buffer_avail b1) (length data) in
             (case buffer_store b1 (take writelen data) of None \<Rightarrow> None
              | Some b2 \<Rightarrow>
                  (case spdylay_buffer_advance b2 writelen of None \<Rightarrow> None
                   | Some b3 \<Rightarrow> spdylay_buffer_write m1 b3 (drop writelen data)))))"

definition spdylay_buffer_length :: "spdylay_buffer \<Rightarrow> nat" where
  "spdylay_buffer_length b = buf_len b"

text \<open>
  The bytes that \<open>spdylay_buffer_serialize\<close> writes: the loop runs over every chunk of the
  list, not only over those up to \<open>current\<close>.
\<close>

fun serialize_from :: "spdylay_buffer \<Rightarrow> nat \<Rightarrow> bytes list \<Rightarrow> bytes" where
  "serialize_from b i [] = []"
| "serialize_from b i (c # cs) =
     take (if i = buf_current b then buf_last_offset b else buf_capacity b) c @ serialize_from b (i + 1) cs"

definition spdylay_buffer_serialize :: "spdylay_buffer \<Rightarrow> bytes" where
  "spdylay_buffer_serialize b = serialize_from b 1 (buf_chunks b)"

definition spdylay_buffer_reset :: "spdylay_buffer \<Rightarrow> spdylay_buffer" where
  "spdylay_buffer_reset b = b\<lparr>buf_current := 0, buf_len := 0, buf_last_offset := buf_capacity b\<rparr>"

section \<open>The reader\<close>

record spdylay_buffer_reader =
  rd_current :: nat
  rd_offset :: nat

definition spdylay_buffer_reader_init :: "spdylay_buffer_reader" where
  "spdylay_buffer_reader_init = \<lparr>rd_current = 0, rd_offset = 0\<rparr>"

text \<open>The step over \<open>n\<close> bytes of the current chunk that both loops of the reader take.\<close>

definition reader_step :: "spdylay_buffer \<Rightarrow> spdylay_buffer_reader \<Rightarrow> nat \<Rightarrow> spdylay_buffer_reader" where
  "reader_step b rd n =
     (let rd' = rd\<lparr>rd_offset := rd_offset rd + n\<rparr> in
      if buf_capacity b = rd_offset rd' then rd'\<lparr>rd_current := rd_current rd + 1, rd_offset := 0\<rparr> else rd')"

partial_function (option) spdylay_buffer_reader_data ::
    "spdylay_buffer \<Rightarrow> spdylay_buffer_reader \<Rightarrow> nat \<Rightarrow> (bytes \<times> spdylay_buffer_reader) option" where
  "spdylay_buffer_reader_data b rd len =
     (if len = 0 then Some ([], rd)
      else if rd_current rd \<ge> length (buf_chunks b) then None
      else
        let readlen = min (size_sub (buf_capacity b) (rd_offset rd)) len;
            out = take readlen (drop (rd_offset rd) (buf_chunks b ! rd_current rd)) in
        Option.bind (spdylay_buffer_reader_data b (reader_step b rd readlen) (len - readlen))
          (\<lambda>(rest, rd'). Some (out @ rest, rd')))"

partial_function (option) spdylay_buffer_reader_advance ::
    "spdylay_buffer \<Rightarrow> spdylay_buffer_reader \<Rightarrow> nat \<Rightarrow> spdylay_buffer_reader option" where
  "spdylay_buffer_reader_advance b rd amount =
     (if amount = 0 then Some rd
      else
        let skiplen = min (size_sub (buf_capacity b) (rd_offset rd)) amount in
        if buf_capacity b = rd_offset rd + skiplen \<and> rd_current rd \<ge> length (buf_chunks b) then None
        else spdylay_buffer_reader_advance b (reader_step b rd skiplen) (amount - skiplen))"

definition spdylay_buffer_reader_uint8 ::
    "spdylay_buffer \<Rightarrow> spdylay_buffer_reader \<Rightarrow> (u8 \<times> spdylay_buffer_reader) option" where
  "spdylay_buffer_reader_uint8 b rd =
     map_option (\<lambda>(out, rd'). (out ! 0, rd')) (spdylay_buffer_reader_data b rd 1)"

definition spdylay_buffer_reader_uint16 ::
    "spdylay_buffer \<Rightarrow> spdylay_buffer_reader \<Rightarrow> (u16 \<times> spdylay_buffer_reader) option" where
  "spdylay_buffer_reader_uint16 b rd =
     map_option (\<lambda>(out, rd'). (spdylay_get_uint16 out, rd')) (spdylay_buffer_reader_data b rd 2)"

definition spdylay_buffer_reader_uint32 ::
    "spdylay_buffer \<Rightarrow> spdylay_buffer_reader \<Rightarrow> (u32 \<times> spdylay_buffer_reader) option" where
  "spdylay_buffer_reader_uint32 b rd =
     map_option (\<lambda>(out, rd'). (spdylay_get_uint32 out, rd')) (spdylay_buffer_reader_data b rd 4)"

declare spdylay_buffer_write.simps [code] spdylay_buffer_reader_data.simps [code]
  spdylay_buffer_reader_advance.simps [code]

section \<open>Invariant and contents\<close>

text \<open>
  Every chunk has the capacity of the buffer, the write position lies in the current chunk,
  and the length counts the full chunks before it.
\<close>

definition buffer_inv :: "spdylay_buffer \<Rightarrow> bool" where
  "buffer_inv b \<longleftrightarrow> 0 < buf_capacity b \<and> (\<forall>c\<in>set (buf_chunks b). length c = buf_capacity b) \<and>
     buf_current b \<le> length (buf_chunks b) \<and> buf_last_offset b \<le> buf_capacity b \<and>
     buf_len b + buf_capacity b = buf_current b * buf_capacity b + buf_last_offset b"

definition buffer_contents :: "spdylay_buffer \<Rightarrow> bytes" where
  "buffer_contents b = take (buf_len b) (concat (buf_chunks b))"

lemma buffer_init_inv: "0 < n \<Longrightarrow> buffer_inv (spdylay_buffer_init n)"
  by (simp add: buffer_inv_def spdylay_buffer_init_def)

lemma buffer_reset_inv: "buffer_inv b \<Longrightarrow> buffer_inv (spdylay_buffer_reset b)"
  by (simp add: buffer_inv_def spdylay_buffer_reset_def)

lemma length_concat_const: "\<forall>c\<in>set cs. length c = n \<Longrightarrow> length (concat cs) = length cs * n"
  by (induction cs) auto

lemma buffer_len_le: "buffer_inv b \<Longrightarrow> buf_len b \<le> length (concat (buf_chunks b))"
proof -
  assume b: "buffer_inv b"
  then have "buf_current b * buf_capacity b \<le> length (buf_chunks b) * buf_capacity b"
    by (simp add: buffer_inv_def)
  moreover have "length (concat (buf_chunks b)) = length (buf_chunks b) * buf_capacity b"
    using b by (intro length_concat_const) (simp add: buffer_inv_def)
  ultimately show ?thesis using b unfolding buffer_inv_def by linarith
qed

lemma length_buffer_contents: "buffer_inv b \<Longrightarrow> length (buffer_contents b) = buf_len b"
  by (simp add: buffer_contents_def buffer_len_le)

lemma buffer_alloc_cases:
  assumes b: "buffer_inv b" "spdylay_buffer_avail b = 0" and a: "spdylay_buffer_alloc m b = (r, b', m')"
  obtains (ok) "r = 0" "buffer_inv b'" "buffer_contents b' = buffer_contents b"
      "0 < spdylay_buffer_avail b'" "buf_capacity b' = buf_capacity b" "0 < buf_current b'"
  | (nomem) "r = SPDYLAY_ERR_NOMEM" "b' = b"
proof (cases "r = 0")
  case True
  with a obtain cs where b': "b' = b\<lparr>buf_chunks := buf_chunks b @ cs, buf_current := buf_current b + 1,
        buf_len := buf_len b + spdylay_buffer_avail b, buf_last_offset := 0\<rparr>"
      "\<forall>c\<in>set cs. length c = buf_capacity b" "buf_current b < length (buf_chunks b @ cs)"
      "buf_current b = length (buf_chunks b) \<or> cs = []"
    using b(1) by (auto simp: spdylay_buffer_alloc_def spdylay_buffer_avail_def Let_def malloc_def
        buffer_inv_def split: if_splits)
  with b have "buffer_inv b'" "0 < spdylay_buffer_avail b'"
    by (auto simp: buffer_inv_def spdylay_buffer_avail_def)
  moreover have "buffer_contents b' = buffer_contents b"
    using b' b(2) buffer_len_le [OF b(1)] by (simp add: buffer_contents_def)
  ultimately show ?thesis using True b' by (intro ok) auto
next
  case False
  with a show ?thesis
    by (intro nomem) (auto simp: spdylay_buffer_alloc_def Let_def malloc_def split: if_splits)
qed

text \<open>Writing inside chunk \<open>i\<close> is writing inside the concatenation.\<close>

lemma concat_memcpy:
  assumes "\<forall>c\<in>set cs. length c = n" "i < length cs" "off + length bs \<le> n"
  shows "concat (cs[i := memcpy_at (cs ! i) off bs]) = memcpy_at (concat cs) (i * n + off) bs"
  using assms
proof (induction cs arbitrary: i)
  case (Cons c cs)
  show ?case
  proof (cases i)
    case 0
    with Cons.prems show ?thesis by (simp add: memcpy_at_def)
  next
    case (Suc j)
    with Cons.prems Cons.IH [of j] show ?thesis by (simp add: memcpy_at_def add.assoc)
  qed
qed simp

lemma buffer_store_advance:
  assumes b: "buffer_inv b" "0 < buf_current b" and len: "length bs \<le> spdylay_buffer_avail b"
  obtains b2 b3 where "buffer_store b bs = Some b2" "spdylay_buffer_advance b2 (length bs) = Some b3"
    "buffer_inv b3" "buffer_contents b3 = buffer_contents b @ bs" "buf_capacity b3 = buf_capacity b"
    "buf_current b3 = buf_current b"
proof -
  define n i off where "n = buf_capacity b" and "i = buf_current b - 1" and "off = buf_last_offset b"
  have fit: "off + length bs \<le> n" "i < length (buf_chunks b)" "\<forall>c\<in>set (buf_chunks b). length c = n"
    using b len by (auto simp: buffer_inv_def spdylay_buffer_avail_def n_def i_def off_def)
  have pos: "buf_len b = i * n + off"
    using b by (cases "buf_current b") (auto simp: buffer_inv_def n_def i_def off_def)
  define b2 where "b2 = b\<lparr>buf_chunks := (buf_chunks b)[i := memcpy_at (buf_chunks b ! i) off bs]\<rparr>"
  define b3 where "b3 = b2\<lparr>buf_last_offset := off + length bs, buf_len := buf_len b + length bs\<rparr>"
  have full: "i * n + off + length bs \<le> length (concat (buf_chunks b))"
  proof -
    have "(i + 1) * n \<le> length (buf_chunks b) * n" using fit(2) by (intro mult_le_mono1) simp
    with fit length_concat_const [OF fit(3)] show ?thesis by simp
  qed
  have "length c = n" if "c \<in> set (buf_chunks b2)" for c
  proof -
    have "memcpy_at (buf_chunks b ! i) off bs \<in> {c. length c = n}" using fit by simp
    moreover have "set (buf_chunks b) \<subseteq> {c. length c = n}" using fit(3) by auto
    ultimately have "set (buf_chunks b2) \<subseteq> {c. length c = n}"
      using set_update_subsetI [of "buf_chunks b" "{c. length c = n}" _ i] by (simp add: b2_def)
    with that show ?thesis by auto
  qed
  then have "buffer_inv b3"
    using b fit by (auto simp: buffer_inv_def b3_def b2_def n_def off_def)
  moreover have "buffer_contents b3 = buffer_contents b @ bs"
    using concat_memcpy [OF fit(3,2,1)] full
    by (simp add: buffer_contents_def b3_def b2_def pos)
  ultimately show ?thesis
    using b fit by (intro that [of b2 b3])
      (auto simp: buffer_store_def spdylay_buffer_get_def b2_def b3_def i_def off_def n_def
        spdylay_buffer_advance_def)
qed

lemma buffer_avail_current: "buffer_inv b \<Longrightarrow> spdylay_buffer_avail b \<noteq> 0 \<Longrightarrow> 0 < buf_current b"
  by (cases "buf_current b = 0") (auto simp: buffer_inv_def spdylay_buffer_avail_def)

text \<open>A write ends; it appends all of the data, or a prefix of it when memory runs out.\<close>

lemma buffer_write_appends:
  assumes "buffer_inv b"
  shows "\<exists>r b' m' k. spdylay_buffer_write m b data = Some (r, b', m') \<and> buffer_inv b' \<and>
    buf_capacity b' = buf_capacity b \<and> buffer_contents b' = buffer_contents b @ take k data \<and>
    (r = 0 \<and> k = length data \<or> r = SPDYLAY_ERR_NOMEM \<and> k < length data)"
  using assms
proof (induction "length data" arbitrary: m b data rule: less_induct)
  case less
  show ?case
  proof (cases "data = []")
    case True
    with less.prems show ?thesis by (subst spdylay_buffer_write.simps) auto
  next
    case False
    obtain rv b1 m1 where a: "(if spdylay_buffer_avail b = 0 then spdylay_buffer_alloc m b else (0, b, m)) = (rv, b1, m1)"
      by (metis prod_cases3)
    consider (nomem) "rv = SPDYLAY_ERR_NOMEM" "b1 = b"
      | (room) "rv = 0" "buffer_inv b1" "buffer_contents b1 = buffer_contents b"
          "0 < spdylay_buffer_avail b1" "buf_capacity b1 = buf_capacity b" "0 < buf_current b1"
      using a less.prems buffer_avail_current [OF less.prems]
      by (cases "spdylay_buffer_avail b = 0") (auto elim: buffer_alloc_cases)
    then show ?thesis
    proof cases
      case nomem
      with a False less.prems show ?thesis by (subst spdylay_buffer_write.simps) (auto intro: exI [of _ 0])
    next
      case room
      define w where "w = min (spdylay_buffer_avail b1) (length data)"
      have w: "length (take w data) = w" "0 < w" using room False by (auto simp: w_def)
      obtain b2 b3 where s: "buffer_store b1 (take w data) = Some b2" "spdylay_buffer_advance b2 w = Some b3"
          "buffer_inv b3" "buffer_contents b3 = buffer_contents b @ take w data" "buf_capacity b3 = buf_capacity b"
        using buffer_store_advance [OF room(2,6), of "take w data"] w(1) room(3,5) by (metis min.cobounded1 w_def)
      have "length (drop w data) < length data" using w False by simp
      from less.hyps [OF this s(3), of m1] obtain r b' m' k where rec:
        "spdylay_buffer_write m1 b3 (drop w data) = Some (r, b', m')" "buffer_inv b'"
        "buf_capacity b' = buf_capacity b3" "buffer_contents b' = buffer_contents b3 @ take k (drop w data)"
        "r = 0 \<and> k = length (drop w data) \<or> r = SPDYLAY_ERR_NOMEM \<and> k < length (drop w data)" by auto
      moreover have "spdylay_buffer_write m b data = spdylay_buffer_write m1 b3 (drop w data)"
        using a False room s by (subst spdylay_buffer_write.simps) (simp add: w_def Let_def)
      moreover have "w \<le> length data" by (simp add: w_def)
      ultimately show ?thesis using s
        by (intro exI [of _ r] exI [of _ b'] exI [of _ m'] exI [of _ "w + k"]) (auto simp: take_add)
    qed
  qed
qed

section \<open>Reading back\<close>

definition reader_pos :: "spdylay_buffer \<Rightarrow> spdylay_buffer_reader \<Rightarrow> nat" where
  "reader_pos b rd = rd_current rd * buf_capacity b + rd_offset rd"

lemma reader_step_pos:
  "rd_offset rd + n \<le> buf_capacity b \<Longrightarrow> 0 < buf_capacity b \<Longrightarrow>
   reader_pos b (reader_step b rd n) = reader_pos b rd + n \<and> rd_offset (reader_step b rd n) < buf_capacity b"
  by (auto simp: reader_step_def reader_pos_def Let_def)

lemma concat_slice:
  assumes "\<forall>c\<in>set cs. length c = n" "i < length cs" "off + k \<le> n"
  shows "take k (drop (i * n + off) (concat cs)) = take k (drop off (cs ! i))"
  using assms
proof (induction cs arbitrary: i)
  case (Cons c cs)
  then show ?case by (cases i) auto
qed simp

lemma reader_in_range:
  assumes "buffer_inv b" "reader_pos b rd < buf_len b"
  shows "rd_current rd < length (buf_chunks b)"
proof (rule ccontr)
  assume "\<not> ?thesis"
  then have "length (buf_chunks b) * buf_capacity b \<le> rd_current rd * buf_capacity b" by simp
  moreover have "buf_len b \<le> length (buf_chunks b) * buf_capacity b"
    using buffer_len_le [OF assms(1)] assms(1) length_concat_const [of "buf_chunks b" "buf_capacity b"]
    by (simp add: buffer_inv_def)
  ultimately show False using assms(2) unfolding reader_pos_def by linarith
qed

lemma reader_data_slice:
  assumes "buffer_inv b" "rd_offset rd < buf_capacity b" "reader_pos b rd + len \<le> buf_len b"
  shows "\<exists>rd'. spdylay_buffer_reader_data b rd len =
      Some (take len (drop (reader_pos b rd) (buffer_contents b)), rd') \<and>
    rd_offset rd' < buf_capacity b \<and> reader_pos b rd' = reader_pos b rd + len"
  using assms(2,3)
proof (induction len arbitrary: rd rule: less_induct)
  case (less len)
  show ?case
  proof (cases "len = 0")
    case True
    with less.prems show ?thesis by (subst spdylay_buffer_reader_data.simps) simp
  next
    case False
    define n where "n = buf_capacity b"
    define k where "k = min (n - rd_offset rd) len"
    have k: "0 < k" "k \<le> len" "rd_offset rd + k \<le> n"
      using less.prems False by (auto simp: k_def n_def)
    have inv: "\<forall>c\<in>set (buf_chunks b). length c = n" "0 < n" using assms(1) by (auto simp: buffer_inv_def n_def)
    have cur: "rd_current rd < length (buf_chunks b)"
      using reader_in_range [OF assms(1), of rd] less.prems False by simp
    have step: "reader_pos b (reader_step b rd k) = reader_pos b rd + k" "rd_offset (reader_step b rd k) < n"
      using reader_step_pos [of rd k b] k inv by (auto simp: n_def)
    from less.IH [of "len - k" "reader_step b rd k"] step k less.prems
    obtain rd' where rec: "spdylay_buffer_reader_data b (reader_step b rd k) (len - k) =
        Some (take (len - k) (drop (reader_pos b rd + k) (buffer_contents b)), rd')"
      "rd_offset rd' < n" "reader_pos b rd' = reader_pos b rd + len" by (auto simp: n_def)
    have "take k (drop (rd_offset rd) (buf_chunks b ! rd_current rd)) =
        take k (drop (reader_pos b rd) (buffer_contents b))"
      using concat_slice [OF inv(1) cur k(3)] less.prems k
      by (simp add: buffer_contents_def reader_pos_def n_def drop_take min_def)
    moreover have "take len xs = take k xs @ take (len - k) (drop k xs)" for xs :: bytes
      using k take_add [of k "len - k" xs] by simp
    ultimately show ?thesis
      using False cur rec less.prems
      by (subst spdylay_buffer_reader_data.simps) (simp add: Let_def n_def k_def add.commute)
  qed
qed

lemma reader_advance_pos:
  assumes "buffer_inv b" "rd_offset rd < buf_capacity b" "reader_pos b rd + n \<le> buf_len b"
  shows "\<exists>rd'. spdylay_buffer_reader_advance b rd n = Some rd' \<and> rd_offset rd' < buf_capacity b \<and>
    reader_pos b rd' = reader_pos b rd + n"
  using assms(2,3)
proof (induction n arbitrary: rd rule: less_induct)
  case (less n)
  show ?case
  proof (cases "n = 0")
    case True
    with less.prems show ?thesis by (subst spdylay_buffer_reader_advance.simps) simp
  next
    case False
    define k where "k = min (buf_capacity b - rd_offset rd) n"
    have k: "0 < k" "k \<le> n" "rd_offset rd + k \<le> buf_capacity b"
      using less.prems False by (auto simp: k_def)
    have cur: "rd_current rd < length (buf_chunks b)"
      using reader_in_range [OF assms(1), of rd] less.prems False by simp
    have step: "reader_pos b (reader_step b rd k) = reader_pos b rd + k"
        "rd_offset (reader_step b rd k) < buf_capacity b"
      using reader_step_pos [of rd k b] k assms(1) by (auto simp: buffer_inv_def)
    from less.IH [of "n - k" "reader_step b rd k"] step k less.prems show ?thesis
      using False cur less.prems
      by (subst spdylay_buffer_reader_advance.simps) (auto simp: Let_def k_def)
  qed
qed

text \<open>A buffer whose chunks are all in use serializes to its contents.\<close>

lemma serialize_from_drop:
  "\<forall>c\<in>set cs. length c = buf_capacity b \<Longrightarrow> i + length cs = Suc (buf_current b) \<Longrightarrow> cs \<noteq> [] \<Longrightarrow>
   buf_last_offset b \<le> buf_capacity b \<Longrightarrow>
   serialize_from b i cs = take ((length cs - 1) * buf_capacity b + buf_last_offset b) (concat cs)"
proof (induction cs arbitrary: i)
  case (Cons c cs)
  then show ?case by (cases cs) auto
qed simp

lemma serialize_contents:
  assumes "buffer_inv b" "buf_current b = length (buf_chunks b)"
  shows "spdylay_buffer_serialize b = buffer_contents b"
proof (cases "buf_chunks b")
  case Nil
  then show ?thesis by (simp add: spdylay_buffer_serialize_def buffer_contents_def)
next
  case (Cons c cs)
  with assms serialize_from_drop [of "buf_chunks b" b 1] show ?thesis
    by (auto simp: spdylay_buffer_serialize_def buffer_contents_def buffer_inv_def)
qed

section \<open>Writing and reading\<close>

text \<open>
  Bytes written to the chunked buffer are read back: after a write that succeeded, reading the
  whole length from the start gives the old contents and then the bytes, across all chunk borders.
\<close>

theorem buffer_write_read:
  assumes "buffer_inv b" "spdylay_buffer_write m b data = Some (0, b', m')"
  shows "buffer_inv b' \<and> spdylay_buffer_length b' = spdylay_buffer_length b + length data \<and>
    (\<exists>rd. spdylay_buffer_reader_data b' spdylay_buffer_reader_init (spdylay_buffer_length b') = Some (buffer_contents b @ data, rd))"
proof -
  have b': "buffer_inv b'" "buffer_contents b' = buffer_contents b @ data"
    using buffer_write_appends [OF assms(1), of m data] assms(2) by auto
  have len: "buf_len b' = buf_len b + length data"
    using length_buffer_contents [OF b'(1)] length_buffer_contents [OF assms(1)] b'(2) by simp
  have pos: "rd_offset spdylay_buffer_reader_init < buf_capacity b'" "reader_pos b' spdylay_buffer_reader_init = 0"
    using b'(1) by (auto simp: spdylay_buffer_reader_init_def reader_pos_def buffer_inv_def)
  have "\<exists>rd. spdylay_buffer_reader_data b' spdylay_buffer_reader_init (buf_len b') = Some (buffer_contents b @ data, rd)"
    using reader_data_slice [OF b'(1) pos(1), of "buf_len b'"] pos(2) length_buffer_contents [OF b'(1)] b'(2) by auto
  then show ?thesis using b'(1) len by (simp add: spdylay_buffer_length_def)
qed

theorem buffer_write_read_witness:
  "\<exists>b' m'. spdylay_buffer_write good_mem (spdylay_buffer_init 2) [1, 2, 3, 4, 5] = Some (0, b', m') \<and>
     length (buf_chunks b') = 3 \<and> spdylay_buffer_length b' = 5 \<and>
     (\<exists>rd. spdylay_buffer_reader_data b' spdylay_buffer_reader_init 5 = Some ([1, 2, 3, 4, 5], rd))"
proof -
  have init: "buffer_inv (spdylay_buffer_init 2)" "buffer_contents (spdylay_buffer_init 2) = []"
    "spdylay_buffer_length (spdylay_buffer_init 2) = 0"
    by (simp_all add: buffer_inv_def buffer_contents_def spdylay_buffer_init_def spdylay_buffer_length_def)
  obtain b' m' where w: "spdylay_buffer_write good_mem (spdylay_buffer_init 2) [1, 2, 3, 4, 5] = Some (0, b', m')"
    "length (buf_chunks b') = 3"
    by (simp add: spdylay_buffer_write.simps spdylay_buffer_alloc_def spdylay_buffer_init_def good_mem_def malloc_def
        spdylay_buffer_avail_def buffer_store_def spdylay_buffer_get_def spdylay_buffer_advance_def memcpy_at_def
        size_sub_def fresh_block_def)
  then show ?thesis using buffer_write_read [OF init(1) w(1)] init by (auto simp: eval_nat_numeral)
qed

end
