(* ===== verification/Spdy_Cert_Vector.thy ===== *)
theory Spdy_Cert_Vector
  imports Spdy_Prelude
begin

text \<open>
  \<open>lib/spdylay_client_cert_vector.c\<close>: origins and the client certificate vector, the table of
  slots that CREDENTIAL frames fill. A slot is an origin or NULL; slots count from 1 and 0
  means that there is none.
\<close>

section \<open>Origins\<close>

definition SPDYLAY_MAX_SCHEME :: nat where [simp]: "SPDYLAY_MAX_SCHEME = 255"
definition SPDYLAY_MAX_HOSTNAME :: nat where [simp]: "SPDYLAY_MAX_HOSTNAME = 255"

record spdylay_origin =
  or_scheme :: cstr
  or_host :: cstr
  or_port :: u16

definition spdylay_origin_equal :: "spdylay_origin \<Rightarrow> spdylay_origin \<Rightarrow> bool" where
  "spdylay_origin_equal lhs rhs \<longleftrightarrow>
     or_scheme lhs = or_scheme rhs \<and> or_host lhs = or_host rhs \<and> or_port lhs = or_port rhs"

definition spdylay_origin_set ::
    "spdylay_origin \<Rightarrow> cstr \<Rightarrow> cstr \<Rightarrow> u16 \<Rightarrow> int \<times> spdylay_origin" where
  "spdylay_origin_set origin scheme host port =
     (if length scheme > SPDYLAY_MAX_SCHEME \<or> length host > SPDYLAY_MAX_HOSTNAME
      then (SPDYLAY_ERR_INVALID_ARGUMENT, origin)
      else (0, origin\<lparr>or_scheme := scheme, or_host := host, or_port := port\<rparr>))"

lemma origin_equal_eq [simp]: "spdylay_origin_equal a b \<longleftrightarrow> a = b"
  by (auto simp: spdylay_origin_equal_def)

section \<open>The vector\<close>

record spdylay_client_cert_vector =
  cv_vector :: "spdylay_origin option list"
  cv_size :: nat
  cv_capacity :: nat
  cv_last_slot :: nat

definition spdylay_client_cert_vector_init ::
    "mem \<Rightarrow> nat \<Rightarrow> int \<times> spdylay_client_cert_vector \<times> mem" where
  "spdylay_client_cert_vector_init m sz =
     (let cv = \<lparr>cv_vector = [], cv_size = sz, cv_capacity = sz, cv_last_slot = 0\<rparr> in
      if sz \<noteq> 0 then
        (case malloc m of (ok, m') \<Rightarrow>
           if \<not> ok then (SPDYLAY_ERR_NOMEM, cv, m')
           else (0, cv\<lparr>cv_vector := replicate sz None\<rparr>, m'))
      else (0, cv, m))"

definition spdylay_client_cert_vector_resize ::
    "mem \<Rightarrow> spdylay_client_cert_vector \<Rightarrow> nat \<Rightarrow> int \<times> spdylay_client_cert_vector \<times> mem" where
  "spdylay_client_cert_vector_resize m cv sz =
     (if cv_capacity cv < sz then
        (case malloc m of (ok, m') \<Rightarrow>
           if \<not> ok then (SPDYLAY_ERR_NOMEM, cv, m')
           else (0, cv\<lparr>cv_vector := take (cv_capacity cv) (cv_vector cv) @
                         replicate (sz - cv_capacity cv) None,
                       cv_size := sz, cv_capacity := sz\<rparr>, m'))
      else
        let vector = map (\<lambda>(i, o1). if sz \<le> i \<and> i < cv_size cv then None else o1)
                       (zip [0..<length (cv_vector cv)] (cv_vector cv));
            sz1 = min (cv_size cv) sz in
        (0, cv\<lparr>cv_vector := vector, cv_size := sz1,
               cv_last_slot := (if cv_last_slot cv > sz1 then sz1 else cv_last_slot cv)\<rparr>, m))"

text \<open>The search stops at the first empty slot.\<close>

fun cert_find_from :: "nat \<Rightarrow> spdylay_origin option list \<Rightarrow> spdylay_origin \<Rightarrow> nat" where
  "cert_find_from i [] origin = 0"
| "cert_find_from i (None # v) origin = 0"
| "cert_find_from i (Some o1 # v) origin =
     (if spdylay_origin_equal origin o1 then i + 1 else cert_find_from (i + 1) v origin)"

definition spdylay_client_cert_vector_find :: "spdylay_client_cert_vector \<Rightarrow> spdylay_origin \<Rightarrow> nat" where
  "spdylay_client_cert_vector_find cv origin = cert_find_from 0 (take (cv_size cv) (cv_vector cv)) origin"

definition spdylay_client_cert_vector_put ::
    "spdylay_client_cert_vector \<Rightarrow> spdylay_origin \<Rightarrow> nat \<times> spdylay_client_cert_vector" where
  "spdylay_client_cert_vector_put cv origin =
     (if cv_size cv = 0 then (0, cv)
      else
        let slot = (if cv_last_slot cv = cv_size cv then 1 else cv_last_slot cv + 1) in
        (slot, cv\<lparr>cv_last_slot := slot, cv_vector := (cv_vector cv)[slot - 1 := Some origin]\<rparr>))"

definition spdylay_client_cert_vector_get_origin ::
    "spdylay_client_cert_vector \<Rightarrow> nat \<Rightarrow> spdylay_origin option" where
  "spdylay_client_cert_vector_get_origin cv slot =
     (if slot = 0 \<or> slot > cv_size cv then None else cv_vector cv ! (slot - 1))"

section \<open>Invariant\<close>

text \<open>
  The filled slots are the first \<open>n\<close>, none lies at or after the size, and the slot
  written last is one of them.
\<close>

definition certvec_filled :: "spdylay_client_cert_vector \<Rightarrow> nat \<Rightarrow> bool" where
  "certvec_filled cv n \<longleftrightarrow> n \<le> cv_size cv \<and> cv_size cv \<le> cv_capacity cv \<and>
     length (cv_vector cv) = cv_capacity cv \<and> cv_last_slot cv \<le> n \<and>
     (\<forall>i<cv_capacity cv. cv_vector cv ! i \<noteq> None \<longleftrightarrow> i < n)"

definition certvec_inv :: "spdylay_client_cert_vector \<Rightarrow> bool" where
  "certvec_inv cv \<longleftrightarrow> (\<exists>n. certvec_filled cv n)"

lemma certvec_init_inv: "spdylay_client_cert_vector_init m sz = (0, cv, m') \<Longrightarrow> certvec_inv cv"
  by (auto simp: spdylay_client_cert_vector_init_def certvec_inv_def certvec_filled_def Let_def
      split: prod.splits if_splits)

lemma certvec_put_inv:
  assumes "certvec_inv cv" "spdylay_client_cert_vector_put cv origin = (s, cv')"
  shows "certvec_inv cv'"
proof -
  from assms(1) obtain n where n: "certvec_filled cv n" by (auto simp: certvec_inv_def)
  have "certvec_filled cv' (max n s)"
    using n assms(2)
    by (auto simp: certvec_filled_def spdylay_client_cert_vector_put_def Let_def nth_list_update
        split: if_splits)
  then show ?thesis by (auto simp: certvec_inv_def)
qed

lemma certvec_resize_inv:
  assumes "certvec_inv cv" "spdylay_client_cert_vector_resize m cv sz = (r, cv', m')"
  shows "certvec_inv cv'"
proof -
  from assms(1) obtain n where n: "certvec_filled cv n" by (auto simp: certvec_inv_def)
  have "certvec_filled cv' (if r = 0 \<and> sz \<le> cv_capacity cv then min n sz else n)"
    using n assms(2)
    by (auto simp: certvec_filled_def spdylay_client_cert_vector_resize_def Let_def nth_append
        split: if_splits prod.splits)
  then show ?thesis by (auto simp: certvec_inv_def)
qed

lemma cert_find_from_Some:
  assumes "\<forall>j<k. v ! j \<noteq> None" "k < length v" "v ! k = Some origin"
  shows "\<exists>j\<le>k. cert_find_from i v origin = Suc (i + j) \<and> v ! j = Some origin"
  using assms
proof (induction v arbitrary: i k)
  case (Cons o1 v)
  show ?case
  proof (cases k)
    case 0
    with Cons.prems show ?thesis by simp
  next
    case (Suc k')
    with Cons.prems obtain x where x: "o1 = Some x" by (metis nth_Cons_0 option.exhaust zero_less_Suc)
    have p: "\<forall>j<k'. v ! j \<noteq> None" using Cons.prems(1) Suc by (metis Suc_less_eq nth_Cons_Suc)
    from Cons.IH [OF p, of "Suc i"] Cons.prems Suc obtain j
      where j: "j \<le> k'" "cert_find_from (Suc i) v origin = Suc (Suc i + j)" "v ! j = Some origin" by auto
    show ?thesis
    proof (cases "x = origin")
      case True
      with x show ?thesis by (intro exI [of _ 0]) simp
    next
      case False
      with x j Suc show ?thesis by (intro exI [of _ "Suc j"]) simp
    qed
  qed
qed simp

lemma certvec_find_put:
  assumes inv: "certvec_inv cv" and size: "0 < cv_size cv"
    and put: "spdylay_client_cert_vector_put cv origin = (s, cv')"
  shows "0 < s" "s \<le> cv_size cv'" "spdylay_client_cert_vector_get_origin cv' s = Some origin"
    "spdylay_client_cert_vector_get_origin cv' (spdylay_client_cert_vector_find cv' origin) = Some origin"
    "\<And>t. t \<noteq> s \<Longrightarrow> spdylay_client_cert_vector_get_origin cv' t = spdylay_client_cert_vector_get_origin cv t"
proof -
  from inv obtain n where n: "certvec_filled cv n" by (auto simp: certvec_inv_def)
  show s: "0 < s" "s \<le> cv_size cv'" "spdylay_client_cert_vector_get_origin cv' s = Some origin"
    using n size put
    by (auto simp: certvec_filled_def spdylay_client_cert_vector_put_def Let_def
        spdylay_client_cert_vector_get_origin_def split: if_splits)
  show "\<And>t. t \<noteq> s \<Longrightarrow> spdylay_client_cert_vector_get_origin cv' t = spdylay_client_cert_vector_get_origin cv t"
    using put
    by (auto simp: spdylay_client_cert_vector_put_def Let_def spdylay_client_cert_vector_get_origin_def
        nth_list_update split: if_splits)
  from certvec_put_inv [OF inv put] obtain n' where n': "certvec_filled cv' n'" by (auto simp: certvec_inv_def)
  let ?v = "take (cv_size cv') (cv_vector cv')"
  have k: "cv_vector cv' ! (s - 1) = Some origin" "s - 1 < cv_size cv'"
    using s by (auto simp: spdylay_client_cert_vector_get_origin_def)
  have "s - 1 < n'" using k n' by (metis certvec_filled_def less_le_trans option.distinct(1))
  with n' have "\<forall>j < s - 1. ?v ! j \<noteq> None" "s - 1 < length ?v" "?v ! (s - 1) = Some origin"
    using k by (auto simp: certvec_filled_def)
  from cert_find_from_Some [OF this, of 0]
  show "spdylay_client_cert_vector_get_origin cv' (spdylay_client_cert_vector_find cv' origin) = Some origin"
    using k by (auto simp: spdylay_client_cert_vector_find_def spdylay_client_cert_vector_get_origin_def)
qed

section \<open>Finding what was put\<close>

text \<open>
  Putting an origin in a certificate vector with room gives a slot between 1 and the size; the
  slot holds the origin, searching for the origin finds a slot that holds it, no other slot changed
  and the vector stays well formed.
\<close>

theorem cert_vector_put_find:
  assumes "certvec_inv cv" "0 < cv_size cv" "spdylay_client_cert_vector_put cv origin = (slot, cv')"
  shows "1 \<le> slot \<and> slot \<le> cv_size cv' \<and> certvec_inv cv' \<and>
    spdylay_client_cert_vector_get_origin cv' slot = Some origin \<and>
    spdylay_client_cert_vector_get_origin cv' (spdylay_client_cert_vector_find cv' origin) = Some origin \<and>
    (\<forall>t. t \<noteq> slot \<longrightarrow> spdylay_client_cert_vector_get_origin cv' t = spdylay_client_cert_vector_get_origin cv t)"
  using certvec_find_put [OF assms] certvec_put_inv [OF assms(1,3)] by auto

theorem cert_vector_put_find_witness:
  "\<exists>cv m slot cv'. spdylay_client_cert_vector_init good_mem 2 = (0, cv, m) \<and>
     spdylay_client_cert_vector_put cv \<lparr>or_scheme = [104], or_host = [97], or_port = 443\<rparr> = (slot, cv') \<and>
     slot = 1 \<and> spdylay_client_cert_vector_get_origin cv' slot = Some \<lparr>or_scheme = [104], or_host = [97], or_port = 443\<rparr>"
proof -
  obtain cv m where i: "spdylay_client_cert_vector_init good_mem 2 = (0, cv, m)" "cv_size cv = 2" "cv_last_slot cv = 0"
    by (simp add: spdylay_client_cert_vector_init_def good_mem_def malloc_def)
  obtain slot cv' where p: "spdylay_client_cert_vector_put cv \<lparr>or_scheme = [104], or_host = [97], or_port = 443\<rparr> = (slot, cv')"
      "slot = 1"
    using i(2,3) by (simp add: spdylay_client_cert_vector_put_def)
  then show ?thesis using cert_vector_put_find [OF certvec_init_inv [OF i(1)] _ p(1)] i by auto
qed

end
