(* ===== verification/Spdy_NPN.thy ===== *)
theory Spdy_NPN
  imports Spdy_Prelude
begin

text \<open>
  \<open>lib/spdylay_npn.c\<close>: choosing the protocol in the TLS next protocol negotiation. The
  input is the memory at \<open>in\<close>: the routine is told that \<open>inlen\<close> of its bytes are the
  announcement, and reads a protocol name without comparing its length with \<open>inlen\<close>. The
  model reads the memory as a function from offsets, so such a read is defined.
\<close>

definition SPDYLAY_PROTO_SPDY2 :: u16 where "SPDYLAY_PROTO_SPDY2 = 2"
definition SPDYLAY_PROTO_SPDY3 :: u16 where "SPDYLAY_PROTO_SPDY3 = 3"

record spdylay_npn_proto =
  np_proto :: bytes
  np_version :: u16

text \<open>The names spdy/3, spdy/2 and http/1.1 as bytes.\<close>

definition name_spdy3 :: bytes where "name_spdy3 = [0x73, 0x70, 0x64, 0x79, 0x2f, 0x33]"
definition name_spdy2 :: bytes where "name_spdy2 = [0x73, 0x70, 0x64, 0x79, 0x2f, 0x32]"
definition name_http11 :: bytes where "name_http11 = [0x68, 0x74, 0x74, 0x70, 0x2f, 0x31, 0x2e, 0x31]"

definition spdylay_npn_get_proto_list :: "spdylay_npn_proto list" where
  "spdylay_npn_get_proto_list =
     [\<lparr>np_proto = name_spdy3, np_version = SPDYLAY_PROTO_SPDY3\<rparr>,
      \<lparr>np_proto = name_spdy2, np_version = SPDYLAY_PROTO_SPDY2\<rparr>]"

text \<open>The bytes of the name announced at offset \<open>i\<close>, and the inner loop over the known protocols.\<close>

definition npn_name :: "(nat \<Rightarrow> u8) \<Rightarrow> nat \<Rightarrow> bytes" where
  "npn_name inp i = map (\<lambda>k. inp (i + 1 + k)) [0..<unat (inp i)]"

fun npn_match :: "spdylay_npn_proto list \<Rightarrow> bytes \<Rightarrow> u16 option" where
  "npn_match [] name = None"
| "npn_match (p # ps) name =
     (if length name = length (np_proto p) \<and> name = np_proto p then Some (np_version p) else npn_match ps name)"

text \<open>
  The loop: the output parameters are the offset and the length of the selected name, and
  \<open>sel\<close> is their value when http/1.1 has been seen.
\<close>

function npn_scan :: "(nat \<Rightarrow> u8) \<Rightarrow> nat \<Rightarrow> nat \<Rightarrow> (nat \<times> nat) option \<Rightarrow> int \<times> (nat \<times> nat) option" where
  "npn_scan inp inlen i sel =
     (if i < inlen then
        (case npn_match spdylay_npn_get_proto_list (npn_name inp i) of
           Some v \<Rightarrow> (uint v, Some (i + 1, unat (inp i)))
         | None \<Rightarrow>
             npn_scan inp inlen (i + (unat (inp i) + 1))
               (if unat (inp i) = 8 \<and> npn_name inp i = name_http11 then Some (i + 1, unat (inp i)) else sel))
      else if sel \<noteq> None then (0, sel) else (-1, sel))"
  by pat_completeness auto
termination by (relation "measure (\<lambda>(inp, inlen, i, sel). inlen - i)") auto

declare npn_scan.simps [simp del]

definition spdylay_select_next_protocol :: "(nat \<Rightarrow> u8) \<Rightarrow> nat \<Rightarrow> int \<times> (nat \<times> nat) option" where
  "spdylay_select_next_protocol inp inlen = npn_scan inp inlen 0 None"

definition spdylay_npn_get_version :: "bytes option \<Rightarrow> u16" where
  "spdylay_npn_get_version proto =
     (case proto of None \<Rightarrow> 0
      | Some p \<Rightarrow>
          if length p = 6 then
            if name_spdy2 = p then SPDYLAY_PROTO_SPDY2
            else if name_spdy3 = p then SPDYLAY_PROTO_SPDY3 else 0
          else 0)"

section \<open>The choice on a well-formed announcement\<close>

text \<open>An announcement: every name with its length in front.\<close>

fun npn_encode :: "bytes list \<Rightarrow> bytes" where
  "npn_encode [] = []"
| "npn_encode (p # ps) = (of_nat (length p) :: u8) # p @ npn_encode ps"

definition spdy_version :: "bytes \<Rightarrow> u16 option" where
  "spdy_version p = (if p = name_spdy3 then Some SPDYLAY_PROTO_SPDY3
     else if p = name_spdy2 then Some SPDYLAY_PROTO_SPDY2 else None)"

lemma npn_match_version: "npn_match spdylay_npn_get_proto_list name = spdy_version name"
  by (auto simp: spdylay_npn_get_proto_list_def spdy_version_def)

lemma npn_name_at:
  assumes "\<forall>k<length bs. inp k = bs ! k" "bs = pre @ npn_encode (p # ps)" "length p < 256"
  shows "unat (inp (length pre)) = length p" "npn_name inp (length pre) = p"
proof -
  show l: "unat (inp (length pre)) = length p"
    using assms by (simp add: nth_append unat_of_nat)
  show "npn_name inp (length pre) = p"
    unfolding npn_name_def l using assms by (intro nth_equalityI) (auto simp: nth_append)
qed

text \<open>The abstract choice: the first SPDY version announced, else http/1.1 if it is there.\<close>

fun npn_choose :: "bytes list \<Rightarrow> bool \<Rightarrow> int" where
  "npn_choose [] http = (if http then 0 else -1)"
| "npn_choose (p # ps) http =
     (case spdy_version p of Some v \<Rightarrow> uint v | None \<Rightarrow> npn_choose ps (http \<or> p = name_http11))"

lemma npn_scan_choose:
  assumes "\<forall>k<length bs. inp k = bs ! k" "bs = pre @ npn_encode ps" "\<forall>p\<in>set ps. length p < 256"
  shows "fst (npn_scan inp (length bs) (length pre) sel) = npn_choose ps (sel \<noteq> None)"
  using assms(2,3)
proof (induction ps arbitrary: pre sel)
  case Nil
  then show ?case by (subst npn_scan.simps) simp
next
  case (Cons p ps)
  define pre' where "pre' = pre @ (of_nat (length p) :: u8) # p"
  note at = npn_name_at [OF assms(1) Cons.prems(1)]
  have lt: "length pre < length bs" "length pre' = length pre + (length p + 1)" "bs = pre' @ npn_encode ps"
    using Cons.prems by (simp_all add: pre'_def)
  have http: "length p = 8 \<and> p = name_http11 \<longleftrightarrow> p = name_http11"
    by (auto simp: name_http11_def)
  have small: "length p < 256" using Cons.prems(2) by simp
  have "fst (npn_scan inp (length bs) (length pre) sel) =
      (case spdy_version p of Some v \<Rightarrow> uint v
       | None \<Rightarrow> fst (npn_scan inp (length bs) (length pre')
           (if p = name_http11 then Some (length pre + 1, length p) else sel)))"
    by (subst npn_scan.simps)
      (simp add: lt(1,2) at [OF small] http npn_match_version split: option.split)
  then show ?case
    using Cons.IH [OF lt(3)] Cons.prems(2) by (auto split: option.splits)
qed

section \<open>The whole selection\<close>

text \<open>
  On a well-formed announcement the selection is the first SPDY version that the server
  announced, http/1.1 when there is none of them, and otherwise nothing.
\<close>

theorem npn_selects_first_version:
  assumes "\<forall>p\<in>set ps. length p < 256" "\<forall>k<length (npn_encode ps). inp k = npn_encode ps ! k"
  shows "fst (spdylay_select_next_protocol inp (length (npn_encode ps))) = npn_choose ps False"
  using npn_scan_choose [OF assms(2) _ assms(1), of "[]" None] by (simp add: spdylay_select_next_protocol_def)

theorem npn_selects_first_version_witness:
  "fst (spdylay_select_next_protocol (\<lambda>k. npn_encode [name_http11, name_spdy2, name_spdy3] ! k) 23) = 2"
proof -
  have "length (npn_encode [name_http11, name_spdy2, name_spdy3]) = 23"
    by (simp add: name_http11_def name_spdy2_def name_spdy3_def)
  moreover have "npn_choose [name_http11, name_spdy2, name_spdy3] False = 2"
    by (simp add: name_http11_def name_spdy2_def name_spdy3_def spdy_version_def SPDYLAY_PROTO_SPDY2_def)
  ultimately show ?thesis
    using npn_selects_first_version [of "[name_http11, name_spdy2, name_spdy3]"
      "\<lambda>k. npn_encode [name_http11, name_spdy2, name_spdy3] ! k"]
    by (simp add: name_http11_def name_spdy2_def name_spdy3_def del: npn_encode.simps)
qed

end
