(* ===== verification/Spdy_Zlib.thy ===== *)
theory Spdy_Zlib
  imports Spdy_Buffer Spdy_NPN
begin

text \<open>
  \<open>lib/spdylay_zlib.c\<close>: the header block compressor. zlib itself is not part of the
  repository: its functions are the fields of a record that the definitions take as an
  argument, over an abstract stream state. What the proofs rely on of its documented
  behaviour is \<open>zlib_bounds\<close>. The two compression dictionaries are the tables of the source.
\<close>

section \<open>The zlib functions\<close>

datatype zret = Z_OK | Z_STREAM_END | Z_NEED_DICT | Z_STREAM_ERROR | Z_DATA_ERROR | Z_MEM_ERROR | Z_BUF_ERROR

text \<open>
  \<open>z_deflate z in outlen\<close> answers the return code, the bytes it wrote and the new state;
  \<open>z_inflate z in outlen\<close> also how many bytes of the input it took.
\<close>

record 'z zlib =
  z_deflateInit2 :: "nat \<Rightarrow> 'z option"
  z_deflateSetDictionary :: "'z \<Rightarrow> bytes \<Rightarrow> 'z option"
  z_deflate :: "'z \<Rightarrow> bytes \<Rightarrow> nat \<Rightarrow> zret \<times> bytes \<times> 'z"
  z_deflateBound :: "'z \<Rightarrow> nat \<Rightarrow> nat"
  z_inflateInit :: "'z option"
  z_inflateSetDictionary :: "'z \<Rightarrow> bytes \<Rightarrow> 'z option"
  z_inflate :: "'z \<Rightarrow> bytes \<Rightarrow> nat \<Rightarrow> zret \<times> nat \<times> bytes \<times> 'z"

text \<open>Documented: no call writes more than \<open>avail_out\<close> bytes or takes more than \<open>avail_in\<close>.\<close>

definition zlib_bounds :: "'z zlib \<Rightarrow> bool" where
  "zlib_bounds zl \<longleftrightarrow>
     (\<forall>z inp n. case z_deflate zl z inp n of (r, out, z') \<Rightarrow> length out \<le> n) \<and>
     (\<forall>z inp n. case z_inflate zl z inp n of (r, k, out, z') \<Rightarrow> k \<le> length inp \<and> length out \<le> n)"

section \<open>The dictionaries\<close>

text \<open>The SPDY/2 dictionary with the terminating NUL that \<open>sizeof\<close> counts.\<close>

definition spdy2_hd_dict :: bytes where
  "spdy2_hd_dict = map of_char (
      ''optionsgetheadpostputdeletetraceacceptaccept-charsetaccept-encodingaccept-'' @
      ''languageauthorizationexpectfromhostif-modified-sinceif-matchif-none-matchi'' @
      ''f-rangeif-unmodifiedsincemax-forwardsproxy-authorizationrangerefererteuser'' @
      ''-agent10010120020120220320420520630030130230330430530630740040140240340440'' @
      ''5406407408409410411412413414415416417500501502503504505accept-rangesageeta'' @
      ''glocationproxy-authenticatepublicretry-afterservervarywarningwww-authentic'' @
      ''ateallowcontent-basecontent-encodingcache-controlconnectiondatetrailertran'' @
      ''sfer-encodingupgradeviawarningcontent-languagecontent-lengthcontent-locati'' @
      ''oncontent-md5content-rangecontent-typeetagexpireslast-modifiedset-cookieMo'' @
      ''ndayTuesdayWednesdayThursdayFridaySaturdaySundayJanFebMarAprMayJunJulAugSe'' @
      ''pOctNovDecchunkedtext/htmlimage/pngimage/jpgimage/gifapplication/xmlapplic'' @
      ''ation/xhtmltext/plainpublicmax-agecharset=iso-8859-1utf-8gzipdeflateHTTP/1'' @
      ''.1statusversionurl'') @ [0]"

definition spdy3_hd_dict :: bytes where
  "spdy3_hd_dict = map of_nat [
      0, 0, 0, 7, 111, 112, 116, 105, 111, 110, 115, 0, 0, 0, 4, 104, 101, 97, 100, 0, 0, 0, 4, 112,
      111, 115, 116, 0, 0, 0, 3, 112, 117, 116, 0, 0, 0, 6, 100, 101, 108, 101, 116, 101, 0, 0, 0, 5,
      116, 114, 97, 99, 101, 0, 0, 0, 6, 97, 99, 99, 101, 112, 116, 0, 0, 0, 14, 97, 99, 99, 101, 112,
      116, 45, 99, 104, 97, 114, 115, 101, 116, 0, 0, 0, 15, 97, 99, 99, 101, 112, 116, 45, 101, 110, 99, 111,
      100, 105, 110, 103, 0, 0, 0, 15, 97, 99, 99, 101, 112, 116, 45, 108, 97, 110, 103, 117, 97, 103, 101, 0,
      0, 0, 13, 97, 99, 99, 101, 112, 116, 45, 114, 97, 110, 103, 101, 115, 0, 0, 0, 3, 97, 103, 101, 0,
      0, 0, 5, 97, 108, 108, 111, 119, 0, 0, 0, 13, 97, 117, 116, 104, 111, 114, 105, 122, 97, 116, 105, 111,
      110, 0, 0, 0, 13, 99, 97, 99, 104, 101, 45, 99, 111, 110, 116, 114, 111, 108, 0, 0, 0, 10, 99, 111,
      110, 110, 101, 99, 116, 105, 111, 110, 0, 0, 0, 12, 99, 111, 110, 116, 101, 110, 116, 45, 98, 97, 115, 101,
      0, 0, 0, 16, 99, 111, 110, 116, 101, 110, 116, 45, 101, 110, 99, 111, 100, 105, 110, 103, 0, 0, 0, 16,
      99, 111, 110, 116, 101, 110, 116, 45, 108, 97, 110, 103, 117, 97, 103, 101, 0, 0, 0, 14, 99, 111, 110, 116,
      101, 110, 116, 45, 108, 101, 110, 103, 116, 104, 0, 0, 0, 16, 99, 111, 110, 116, 101, 110, 116, 45, 108, 111,
      99, 97, 116, 105, 111, 110, 0, 0, 0, 11, 99, 111, 110, 116, 101, 110, 116, 45, 109, 100, 53, 0, 0, 0,
      13, 99, 111, 110, 116, 101, 110, 116, 45, 114, 97, 110, 103, 101, 0, 0, 0, 12, 99, 111, 110, 116, 101, 110,
      116, 45, 116, 121, 112, 101, 0, 0, 0, 4, 100, 97, 116, 101, 0, 0, 0, 4, 101, 116, 97, 103, 0, 0,
      0, 6, 101, 120, 112, 101, 99, 116, 0, 0, 0, 7, 101, 120, 112, 105, 114, 101, 115, 0, 0, 0, 4, 102,
      114, 111, 109, 0, 0, 0, 4, 104, 111, 115, 116, 0, 0, 0, 8, 105, 102, 45, 109, 97, 116, 99, 104, 0,
      0, 0, 17, 105, 102, 45, 109, 111, 100, 105, 102, 105, 101, 100, 45, 115, 105, 110, 99, 101, 0, 0, 0, 13,
      105, 102, 45, 110, 111, 110, 101, 45, 109, 97, 116, 99, 104, 0, 0, 0, 8, 105, 102, 45, 114, 97, 110, 103,
      101, 0, 0, 0, 19, 105, 102, 45, 117, 110, 109, 111, 100, 105, 102, 105, 101, 100, 45, 115, 105, 110, 99, 101,
      0, 0, 0, 13, 108, 97, 115, 116, 45, 109, 111, 100, 105, 102, 105, 101, 100, 0, 0, 0, 8, 108, 111, 99,
      97, 116, 105, 111, 110, 0, 0, 0, 12, 109, 97, 120, 45, 102, 111, 114, 119, 97, 114, 100, 115, 0, 0, 0,
      6, 112, 114, 97, 103, 109, 97, 0, 0, 0, 18, 112, 114, 111, 120, 121, 45, 97, 117, 116, 104, 101, 110, 116,
      105, 99, 97, 116, 101, 0, 0, 0, 19, 112, 114, 111, 120, 121, 45, 97, 117, 116, 104, 111, 114, 105, 122, 97,
      116, 105, 111, 110, 0, 0, 0, 5, 114, 97, 110, 103, 101, 0, 0, 0, 7, 114, 101, 102, 101, 114, 101, 114,
      0, 0, 0, 11, 114, 101, 116, 114, 121, 45, 97, 102, 116, 101, 114, 0, 0, 0, 6, 115, 101, 114, 118, 101,
      114, 0, 0, 0, 2, 116, 101, 0, 0, 0, 7, 116, 114, 97, 105, 108, 101, 114, 0, 0, 0, 17, 116, 114,
      97, 110, 115, 102, 101, 114, 45, 101, 110, 99, 111, 100, 105, 110, 103, 0, 0, 0, 7, 117, 112, 103, 114, 97,
      100, 101, 0, 0, 0, 10, 117, 115, 101, 114, 45, 97, 103, 101, 110, 116, 0, 0, 0, 4, 118, 97, 114, 121,
      0, 0, 0, 3, 118, 105, 97, 0, 0, 0, 7, 119, 97, 114, 110, 105, 110, 103, 0, 0, 0, 16, 119, 119,
      119, 45, 97, 117, 116, 104, 101, 110, 116, 105, 99, 97, 116, 101, 0, 0, 0, 6, 109, 101, 116, 104, 111, 100,
      0, 0, 0, 3, 103, 101, 116, 0, 0, 0, 6, 115, 116, 97, 116, 117, 115, 0, 0, 0, 6, 50, 48, 48,
      32, 79, 75, 0, 0, 0, 7, 118, 101, 114, 115, 105, 111, 110, 0, 0, 0, 8, 72, 84, 84, 80, 47, 49,
      46, 49, 0, 0, 0, 3, 117, 114, 108, 0, 0, 0, 6, 112, 117, 98, 108, 105, 99, 0, 0, 0, 10, 115,
      101, 116, 45, 99, 111, 111, 107, 105, 101, 0, 0, 0, 10, 107, 101, 101, 112, 45, 97, 108, 105, 118, 101, 0,
      0, 0, 6, 111, 114, 105, 103, 105, 110, 49, 48, 48, 49, 48, 49, 50, 48, 49, 50, 48, 50, 50, 48, 53,
      50, 48, 54, 51, 48, 48, 51, 48, 50, 51, 48, 51, 51, 48, 52, 51, 48, 53, 51, 48, 54, 51, 48, 55,
      52, 48, 50, 52, 48, 53, 52, 48, 54, 52, 48, 55, 52, 48, 56, 52, 48, 57, 52, 49, 48, 52, 49, 49,
      52, 49, 50, 52, 49, 51, 52, 49, 52, 52, 49, 53, 52, 49, 54, 52, 49, 55, 53, 48, 50, 53, 48, 52,
      53, 48, 53, 50, 48, 51, 32, 78, 111, 110, 45, 65, 117, 116, 104, 111, 114, 105, 116, 97, 116, 105, 118, 101,
      32, 73, 110, 102, 111, 114, 109, 97, 116, 105, 111, 110, 50, 48, 52, 32, 78, 111, 32, 67, 111, 110, 116, 101,
      110, 116, 51, 48, 49, 32, 77, 111, 118, 101, 100, 32, 80, 101, 114, 109, 97, 110, 101, 110, 116, 108, 121, 52,
      48, 48, 32, 66, 97, 100, 32, 82, 101, 113, 117, 101, 115, 116, 52, 48, 49, 32, 85, 110, 97, 117, 116, 104,
      111, 114, 105, 122, 101, 100, 52, 48, 51, 32, 70, 111, 114, 98, 105, 100, 100, 101, 110, 52, 48, 52, 32, 78,
      111, 116, 32, 70, 111, 117, 110, 100, 53, 48, 48, 32, 73, 110, 116, 101, 114, 110, 97, 108, 32, 83, 101, 114,
      118, 101, 114, 32, 69, 114, 114, 111, 114, 53, 48, 49, 32, 78, 111, 116, 32, 73, 109, 112, 108, 101, 109, 101,
      110, 116, 101, 100, 53, 48, 51, 32, 83, 101, 114, 118, 105, 99, 101, 32, 85, 110, 97, 118, 97, 105, 108, 97,
      98, 108, 101, 74, 97, 110, 32, 70, 101, 98, 32, 77, 97, 114, 32, 65, 112, 114, 32, 77, 97, 121, 32, 74,
      117, 110, 32, 74, 117, 108, 32, 65, 117, 103, 32, 83, 101, 112, 116, 32, 79, 99, 116, 32, 78, 111, 118, 32,
      68, 101, 99, 32, 48, 48, 58, 48, 48, 58, 48, 48, 32, 77, 111, 110, 44, 32, 84, 117, 101, 44, 32, 87,
      101, 100, 44, 32, 84, 104, 117, 44, 32, 70, 114, 105, 44, 32, 83, 97, 116, 44, 32, 83, 117, 110, 44, 32,
      71, 77, 84, 99, 104, 117, 110, 107, 101, 100, 44, 116, 101, 120, 116, 47, 104, 116, 109, 108, 44, 105, 109, 97,
      103, 101, 47, 112, 110, 103, 44, 105, 109, 97, 103, 101, 47, 106, 112, 103, 44, 105, 109, 97, 103, 101, 47, 103,
      105, 102, 44, 97, 112, 112, 108, 105, 99, 97, 116, 105, 111, 110, 47, 120, 109, 108, 44, 97, 112, 112, 108, 105,
      99, 97, 116, 105, 111, 110, 47, 120, 104, 116, 109, 108, 43, 120, 109, 108, 44, 116, 101, 120, 116, 47, 112, 108,
      97, 105, 110, 44, 116, 101, 120, 116, 47, 106, 97, 118, 97, 115, 99, 114, 105, 112, 116, 44, 112, 117, 98, 108,
      105, 99, 112, 114, 105, 118, 97, 116, 101, 109, 97, 120, 45, 97, 103, 101, 61, 103, 122, 105, 112, 44, 100, 101,
      102, 108, 97, 116, 101, 44, 115, 100, 99, 104, 99, 104, 97, 114, 115, 101, 116, 61, 117, 116, 102, 45, 56, 99,
      104, 97, 114, 115, 101, 116, 61, 105, 115, 111, 45, 56, 56, 53, 57, 45, 49, 44, 117, 116, 102, 45, 44, 42,
      44, 101, 110, 113, 61, 48, 46]"

definition spdylay_select_hd_dict :: "u16 \<Rightarrow> bytes option" where
  "spdylay_select_hd_dict version =
     (if version = SPDYLAY_PROTO_SPDY2 then Some spdy2_hd_dict
      else if version = SPDYLAY_PROTO_SPDY3 then Some spdy3_hd_dict else None)"

section \<open>Compressor and decompressor\<close>

record 'z spdylay_zlib =
  zst :: 'z
  zl_version :: u16

definition COMPRESSION_LEVEL :: nat where "COMPRESSION_LEVEL = 9"
definition Z_NO_COMPRESSION :: nat where "Z_NO_COMPRESSION = 0"

definition spdylay_zlib_deflate_hd_init :: "'z zlib \<Rightarrow> bool \<Rightarrow> u16 \<Rightarrow> int \<times> 'z spdylay_zlib option" where
  "spdylay_zlib_deflate_hd_init zl compress version =
     (case spdylay_select_hd_dict version of
        None \<Rightarrow> (SPDYLAY_ERR_UNSUPPORTED_VERSION, None)
      | Some hd_dict \<Rightarrow>
          (case z_deflateInit2 zl (if compress then COMPRESSION_LEVEL else Z_NO_COMPRESSION) of
             None \<Rightarrow> (SPDYLAY_ERR_ZLIB, None)
           | Some z \<Rightarrow>
               (case z_deflateSetDictionary zl z hd_dict of
                  None \<Rightarrow> (SPDYLAY_ERR_ZLIB, None)
                | Some z' \<Rightarrow> (0, Some \<lparr>zst = z', zl_version = version\<rparr>))))"

definition spdylay_zlib_inflate_hd_init :: "'z zlib \<Rightarrow> u16 \<Rightarrow> int \<times> 'z spdylay_zlib option" where
  "spdylay_zlib_inflate_hd_init zl version =
     (case spdylay_select_hd_dict version of
        None \<Rightarrow> (SPDYLAY_ERR_UNSUPPORTED_VERSION, None)
      | Some hd_dict \<Rightarrow>
          (case z_inflateInit zl of
             None \<Rightarrow> (SPDYLAY_ERR_ZLIB, None)
           | Some z \<Rightarrow> (0, Some \<lparr>zst = z, zl_version = version\<rparr>)))"

text \<open>The return value, the bytes written to \<open>out\<close> and the compressor.\<close>

definition spdylay_zlib_deflate_hd ::
    "'z zlib \<Rightarrow> 'z spdylay_zlib \<Rightarrow> nat \<Rightarrow> bytes \<Rightarrow> int \<times> bytes \<times> 'z spdylay_zlib" where
  "spdylay_zlib_deflate_hd zl deflater outlen inp =
     (case z_deflate zl (zst deflater) inp outlen of (r, out, z') \<Rightarrow>
        if r = Z_OK then (int (length out), out, deflater\<lparr>zst := z'\<rparr>)
        else (SPDYLAY_ERR_ZLIB, out, deflater\<lparr>zst := z'\<rparr>))"

definition spdylay_zlib_deflate_hd_bound :: "'z zlib \<Rightarrow> 'z spdylay_zlib \<Rightarrow> nat \<Rightarrow> nat" where
  "spdylay_zlib_deflate_hd_bound zl deflater len = z_deflateBound zl (zst deflater) len"

text \<open>
  The loop of the decompressor; \<open>None\<close> when the dictionary is missing (the \<open>assert\<close>), when
  zlib writes at NULL or when the loop does not end.
\<close>

partial_function (option) spdylay_zlib_inflate_hd ::
    "'z zlib \<Rightarrow> mem \<Rightarrow> 'z spdylay_zlib \<Rightarrow> spdylay_buffer \<Rightarrow> bytes \<Rightarrow>
     (int \<times> 'z spdylay_zlib \<times> spdylay_buffer \<times> mem) option" where
  "spdylay_zlib_inflate_hd zl m inflater b inp =
     (case (if spdylay_buffer_avail b = 0 then spdylay_buffer_alloc m b else (0, b, m)) of (rv, b1, m1) \<Rightarrow>
        if rv \<noteq> 0 then Some (rv, inflater, b1, m1)
        else
          (case z_inflate zl (zst inflater) inp (spdylay_buffer_avail b1) of (r, k, out, z') \<Rightarrow>
             let inflater' = inflater\<lparr>zst := z'\<rparr>; rest = drop k inp;
                 avail_out = size_sub (spdylay_buffer_avail b1) (length out) in
             (case buffer_store b1 out of None \<Rightarrow> None
              | Some b2 \<Rightarrow>
                  if r = Z_STREAM_ERROR \<or> r = Z_STREAM_END \<or> r = Z_DATA_ERROR
                  then Some (SPDYLAY_ERR_ZLIB, inflater', b2, m1)
                  else if r = Z_NEED_DICT then
                    (case spdylay_select_hd_dict (zl_version inflater') of None \<Rightarrow> None
                     | Some hd_dict \<Rightarrow>
                         (case z_inflateSetDictionary zl z' hd_dict of
                            None \<Rightarrow> Some (SPDYLAY_ERR_ZLIB, inflater', b2, m1)
                          | Some z'' \<Rightarrow>
                              spdylay_zlib_inflate_hd zl m1 (inflater'\<lparr>zst := z''\<rparr>) b2 rest))
                  else
                    (case (if r = Z_OK
                           then spdylay_buffer_advance b2 (size_sub (spdylay_buffer_avail b2) avail_out)
                           else Some b2) of
                       None \<Rightarrow> None
                     | Some b3 \<Rightarrow>
                         if rest = [] \<and> avail_out > 0
                         then Some (int (spdylay_buffer_length b3), inflater', b3, m1)
                         else spdylay_zlib_inflate_hd zl m1 inflater' b3 rest))))"

declare spdylay_zlib_inflate_hd.simps [code]

section \<open>What a decompression does to the buffer\<close>

lemma buffer_store_keeps:
  assumes b: "buffer_inv b" "0 < buf_current b" "length out \<le> spdylay_buffer_avail b"
    and s: "buffer_store b out = Some b2"
  shows "buffer_inv b2" "buffer_contents b2 = buffer_contents b"
    "spdylay_buffer_avail b2 = spdylay_buffer_avail b" "buf_capacity b2 = buf_capacity b"
proof -
  obtain b3 where a: "spdylay_buffer_advance b2 (length out) = Some b3" "buffer_inv b3"
      "buffer_contents b3 = buffer_contents b @ out"
    using buffer_store_advance [OF b] s by (metis option.inject)
  have same: "buf_capacity b2 = buf_capacity b" "buf_len b2 = buf_len b"
      "buf_last_offset b2 = buf_last_offset b" "buf_current b2 = buf_current b"
    using s by (auto simp: buffer_store_def split: option.splits)
  then show "spdylay_buffer_avail b2 = spdylay_buffer_avail b" "buf_capacity b2 = buf_capacity b"
    by (simp_all add: spdylay_buffer_avail_def)
  have b3: "b3 = b2\<lparr>buf_last_offset := buf_last_offset b2 + length out, buf_len := buf_len b2 + length out\<rparr>"
    using a(1) by (auto simp: spdylay_buffer_advance_def Let_def split: if_splits)
  then show "buffer_inv b2" using a(2) b(1) same by (simp add: buffer_inv_def)
  have "take (buf_len b) (buffer_contents b3) = buffer_contents b2"
    using b3 same by (simp add: buffer_contents_def min_def)
  then show "buffer_contents b2 = buffer_contents b"
    using a(3) length_buffer_contents [OF b(1)] by simp
qed

lemma buffer_reserve_cases:
  assumes "buffer_inv b"
    and "(if spdylay_buffer_avail b = 0 then spdylay_buffer_alloc m b else (0, b, m)) = (rv, b1, m1)"
  obtains (nomem) "rv = SPDYLAY_ERR_NOMEM" "b1 = b"
  | (room) "rv = 0" "buffer_inv b1" "buffer_contents b1 = buffer_contents b"
      "0 < spdylay_buffer_avail b1" "buf_capacity b1 = buf_capacity b" "0 < buf_current b1"
  using assms buffer_avail_current [OF assms(1)]
  by (cases "spdylay_buffer_avail b = 0") (auto elim: buffer_alloc_cases)

text \<open>
  The calls of zlib that take an input in to its end: each continues with what the one before
  left, asks for the dictionary where zlib does, and the last has room to spare. \<open>data\<close> is the
  output of all of them.
\<close>

inductive inflate_calls :: "'z zlib \<Rightarrow> u16 \<Rightarrow> 'z \<Rightarrow> bytes \<Rightarrow> bytes \<Rightarrow> 'z \<Rightarrow> bool" for zl :: "'z zlib" and version :: u16 where
  last: "z_inflate zl z inp n = (r, k, out, z') \<Longrightarrow>
    r \<notin> {Z_STREAM_ERROR, Z_STREAM_END, Z_DATA_ERROR, Z_NEED_DICT} \<Longrightarrow> drop k inp = [] \<Longrightarrow> length out < n \<Longrightarrow>
    inflate_calls zl version z inp (if r = Z_OK then out else []) z'"
| more: "z_inflate zl z inp n = (r, k, out, z') \<Longrightarrow> 0 < n \<Longrightarrow>
    r \<notin> {Z_STREAM_ERROR, Z_STREAM_END, Z_DATA_ERROR, Z_NEED_DICT} \<Longrightarrow>
    inflate_calls zl version z' (drop k inp) data z'' \<Longrightarrow>
    inflate_calls zl version z inp ((if r = Z_OK then out else []) @ data) z''"
| dict: "z_inflate zl z inp n = (Z_NEED_DICT, k, out, z') \<Longrightarrow> 0 < n \<Longrightarrow>
    spdylay_select_hd_dict version = Some hd_dict \<Longrightarrow> z_inflateSetDictionary zl z' hd_dict = Some z1 \<Longrightarrow>
    inflate_calls zl version z1 (drop k inp) data z'' \<Longrightarrow> inflate_calls zl version z inp data z''"

text \<open>
  Decompressing appends to the buffer: what was there stays, and a result that is not an
  error is the length of the contents, to which the output of the calls of zlib was added.
\<close>

definition inflate_post ::
    "'z zlib \<Rightarrow> 'z spdylay_zlib \<Rightarrow> spdylay_buffer \<Rightarrow> bytes \<Rightarrow> int \<times> 'z spdylay_zlib \<times> spdylay_buffer \<times> mem \<Rightarrow> bool" where
  "inflate_post zl inflater b inp res \<longleftrightarrow> (case res of (r, inflater', b', m') \<Rightarrow>
     buffer_inv b \<longrightarrow> buffer_inv b' \<and> (\<exists>out. buffer_contents b' = buffer_contents b @ out \<and>
       (0 \<le> r \<longrightarrow> inflate_calls zl (zl_version inflater) (zst inflater) inp out (zst inflater'))) \<and>
     buf_capacity b' = buf_capacity b \<and> zl_version inflater' = zl_version inflater \<and>
     (r < 0 \<and> (r = SPDYLAY_ERR_NOMEM \<or> r = SPDYLAY_ERR_ZLIB) \<or> r = int (length (buffer_contents b'))))"

lemma inflate_post_go_on:
  assumes "inflate_post zl i1 b1 inp1 res" "buffer_inv b1" "buffer_contents b1 = buffer_contents b @ pre"
    "buf_capacity b1 = buf_capacity b" "zl_version i1 = zl_version i"
    and calls: "\<And>post z''. inflate_calls zl (zl_version i) (zst i1) inp1 post z'' \<Longrightarrow>
      inflate_calls zl (zl_version i) (zst i) inp (pre @ post) z''"
  shows "inflate_post zl i b inp res"
proof -
  obtain q i' b' m' where res: "res = (q, i', b', m')" by (metis prod_cases4)
  obtain post where post: "buffer_contents b' = buffer_contents b1 @ post"
      "0 \<le> q \<longrightarrow> inflate_calls zl (zl_version i1) (zst i1) inp1 post (zst i')"
    and r: "buffer_inv b'" "buf_capacity b' = buf_capacity b1" "zl_version i' = zl_version i1"
      "q < 0 \<and> (q = SPDYLAY_ERR_NOMEM \<or> q = SPDYLAY_ERR_ZLIB) \<or> q = int (length (buffer_contents b'))"
    using assms(1,2) by (auto simp: inflate_post_def res)
  have "buffer_contents b' = buffer_contents b @ (pre @ post)" using post(1) assms(3) by simp
  moreover have "0 \<le> q \<longrightarrow> inflate_calls zl (zl_version i) (zst i) inp (pre @ post) (zst i')" using post(2) calls assms(5) by simp
  ultimately show ?thesis using r assms(4,5) unfolding inflate_post_def res prod.case by metis
qed

lemma inflate_hd_appends:
  assumes zl: "zlib_bounds zl"
    and run: "spdylay_zlib_inflate_hd zl m inflater b inp = Some (r, inflater', b', m')"
  shows "inflate_post zl inflater b inp (r, inflater', b', m')"
proof -
  have "inflate_post zl inflater b inp res" if "spdylay_zlib_inflate_hd zl m inflater b inp = Some res" for res
  proof (rule spdylay_zlib_inflate_hd.raw_induct [of "\<lambda>zl' m inflater b inp res. zl' = zl \<longrightarrow> inflate_post zl inflater b inp res", rule_format, OF _ that refl], goal_cases)
    case (1 rec zl' m inflater b inp res)
    note IH = 1(1) [rule_format, OF _ refl] and step = 1(2) [unfolded 1(3)]
    obtain rv b1 m1 where a: "(if spdylay_buffer_avail b = 0 then spdylay_buffer_alloc m b else (0, b, m)) = (rv, b1, m1)"
      by (metis prod_cases3)
    obtain r k out z' where z: "z_inflate zl (zst inflater) inp (spdylay_buffer_avail b1) = (r, k, out, z')"
      by (metis prod_cases4)
    have out: "length out \<le> spdylay_buffer_avail b1"
      using zl z unfolding zlib_bounds_def by (metis (mono_tags, lifting) case_prod_conv)
    show ?case
    proof (cases "buffer_inv b")
      case False
      then show ?thesis by (simp add: inflate_post_def split: prod.split)
    next
      case inv: True
      from inv a show ?thesis
      proof (cases rule: buffer_reserve_cases)
        case nomem
        with a step inv show ?thesis by (auto simp: inflate_post_def)
      next
        case room
        obtain b2 b3 where s: "buffer_store b1 out = Some b2" "spdylay_buffer_advance b2 (length out) = Some b3"
          "buffer_inv b3" "buffer_contents b3 = buffer_contents b1 @ out" "buf_capacity b3 = buf_capacity b1"
          using buffer_store_advance [OF room(2,6) out] by metis
        note k = buffer_store_keeps [OF room(2,6) out s(1)]
        have adv: "size_sub (spdylay_buffer_avail b2) (spdylay_buffer_avail b1 - length out) = length out"
          using out k(3) by simp
        define b4 where "b4 = (if r = Z_OK then b3 else b2)"
        have b4: "buffer_inv b4" "buffer_contents b4 = buffer_contents b @ (if r = Z_OK then out else [])"
            "buf_capacity b4 = buf_capacity b"
          using k s room by (simp_all add: b4_def)
        note step' = step [unfolded a, simplified Let_def prod.case room(1), simplified z, simplified s(1)]
        have IH': "inflate_post zl i' b' rest res" if "rec zl m' i' b' rest = Some res" for m' i' b' rest
          using IH that by (cases res) blast
        let ?bad = "{Z_STREAM_ERROR, Z_STREAM_END, Z_DATA_ERROR, Z_NEED_DICT}"
        have e: "\<exists>z''. res = (SPDYLAY_ERR_ZLIB, inflater\<lparr>zst := z''\<rparr>, b2, m1)"
          if "r \<in> {Z_STREAM_ERROR, Z_STREAM_END, Z_DATA_ERROR}"
          using step' that by (auto simp: s(1))
        have d: "(\<exists>z''. res = (SPDYLAY_ERR_ZLIB, inflater\<lparr>zst := z''\<rparr>, b2, m1)) \<or>
            (\<exists>hd_dict z1. spdylay_select_hd_dict (zl_version inflater) = Some hd_dict \<and>
              z_inflateSetDictionary zl z' hd_dict = Some z1 \<and> rec zl m1 (inflater\<lparr>zst := z1\<rparr>) b2 (drop k inp) = Some res)"
          if "r = Z_NEED_DICT"
          using step' that by (auto simp: s(1) split: option.split_asm)
        have avail: "0 < size_sub (spdylay_buffer_avail b1) (length out) \<longleftrightarrow> length out < spdylay_buffer_avail b1"
          using out by auto
        have g: "drop k inp = [] \<and> length out < spdylay_buffer_avail b1 \<and>
             res = (int (spdylay_buffer_length b4), inflater\<lparr>zst := z'\<rparr>, b4, m1) \<or>
            rec zl m1 (inflater\<lparr>zst := z'\<rparr>) b4 (drop k inp) = Some res" if "r \<notin> ?bad"
          using step' that unfolding b4_def
          by (cases "r = Z_OK"; cases "drop k inp = [] \<and> length out < spdylay_buffer_avail b1")
            (auto simp: s(1,2) adv avail out)
        consider (err) z'' where "res = (SPDYLAY_ERR_ZLIB, inflater\<lparr>zst := z''\<rparr>, b2, m1)"
          | (ok) "r \<notin> ?bad" "drop k inp = []" "length out < spdylay_buffer_avail b1"
              "res = (int (spdylay_buffer_length b4), inflater\<lparr>zst := z'\<rparr>, b4, m1)"
          | (more) "r \<notin> ?bad" "rec zl m1 (inflater\<lparr>zst := z'\<rparr>) b4 (drop k inp) = Some res"
          | (dict) hd_dict z1 where "r = Z_NEED_DICT" "spdylay_select_hd_dict (zl_version inflater) = Some hd_dict"
              "z_inflateSetDictionary zl z' hd_dict = Some z1" "rec zl m1 (inflater\<lparr>zst := z1\<rparr>) b2 (drop k inp) = Some res"
          using e d g by blast
        then show ?thesis
        proof cases
          case err
          then show ?thesis using k room inv by (simp add: inflate_post_def)
        next
          case ok
          then show ?thesis using b4 inv inflate_calls.last [OF z ok(1-3)] length_buffer_contents [OF b4(1)]
            by (auto simp: inflate_post_def spdylay_buffer_length_def)
        next
          case more
          show ?thesis
            by (rule inflate_post_go_on [OF IH' [OF more(2)] b4]) (use inflate_calls.more [OF z room(4) more(1)] in auto)
        next
          case dict
          show ?thesis
            by (rule inflate_post_go_on [OF IH' [OF dict(4)], where pre = "[]"])
              (use k room inflate_calls.dict [OF z [unfolded dict(1)] room(4) dict(2,3)] in auto)
        qed
      qed
    qed
  qed
  then show ?thesis using run by blast
qed

end
