(* ===== verification/Spdy_Gzip.thy ===== *)
theory Spdy_Gzip
  imports Spdy_Zlib
begin

text \<open>
  \<open>lib/spdylay_gzip.c\<close>: the incremental decompressor that applications use for gzip bodies.
  \<open>inflateInit2\<close> is a parameter of its own, \<open>inflate\<close> is the one of \<open>Spdy_Zlib\<close>. Releasing
  the state has no effect in the model, so \<open>spdylay_gzip_inflate_del\<close> is not a definition.
\<close>

section \<open>Operations\<close>

definition GZIP_WINDOW_BITS :: nat where [simp]: "GZIP_WINDOW_BITS = 47"

definition spdylay_gzip_inflate_new :: "(nat \<Rightarrow> 'z option) \<Rightarrow> mem \<Rightarrow> int \<times> 'z option \<times> mem" where
  "spdylay_gzip_inflate_new inflateInit2 m =
     (case malloc m of (ok, m1) \<Rightarrow>
        if \<not> ok then (SPDYLAY_ERR_NOMEM, None, m1)
        else case inflateInit2 GZIP_WINDOW_BITS of
          None \<Rightarrow> (SPDYLAY_ERR_GZIP, None, m1)
        | Some z \<Rightarrow> (0, Some z, m1))"

text \<open>
  The return value, the two lengths that the call stores back, the bytes it wrote to \<open>out\<close> and
  the state. Every code that \<open>inflate\<close> can answer has a branch, so the \<open>assert\<close> is not reached.
\<close>

definition spdylay_gzip_inflate ::
    "'z zlib \<Rightarrow> 'z \<Rightarrow> nat \<Rightarrow> bytes \<Rightarrow> int \<times> nat \<times> nat \<times> bytes \<times> 'z" where
  "spdylay_gzip_inflate zl inflater outlen inp =
     (case z_inflate zl inflater inp outlen of (rv, k, out, z') \<Rightarrow>
        let avail_in = length inp - k; avail_out = outlen - length out in
        (case rv of
           Z_OK \<Rightarrow> 0 | Z_STREAM_END \<Rightarrow> 0 | Z_BUF_ERROR \<Rightarrow> 0
         | Z_DATA_ERROR \<Rightarrow> SPDYLAY_ERR_GZIP | Z_STREAM_ERROR \<Rightarrow> SPDYLAY_ERR_GZIP
         | Z_NEED_DICT \<Rightarrow> SPDYLAY_ERR_GZIP | Z_MEM_ERROR \<Rightarrow> SPDYLAY_ERR_GZIP,
         outlen - avail_out, length inp - avail_in, out, z'))"

section \<open>What a caller can rely on\<close>

lemma gzip_inflate_lengths:
  assumes "zlib_bounds zl" "spdylay_gzip_inflate zl z outlen inp = (r, outlen', inlen', out, z')"
  shows "outlen' = length out" "outlen' \<le> outlen" "inlen' \<le> length inp" "r = 0 \<or> r = SPDYLAY_ERR_GZIP"
proof -
  obtain rv k out1 z1 where i: "z_inflate zl z inp outlen = (rv, k, out1, z1)" by (metis prod_cases4)
  have "k \<le> length inp \<and> length out1 \<le> outlen"
    using assms(1) i unfolding zlib_bounds_def by (metis (mono_tags, lifting) case_prod_conv)
  then show "outlen' = length out" "outlen' \<le> outlen" "inlen' \<le> length inp" "r = 0 \<or> r = SPDYLAY_ERR_GZIP"
    using assms(2) i by (auto simp: spdylay_gzip_inflate_def Let_def split: zret.splits)
qed

end
