(* ===== verification/Spdy_Frame_NV.thy ===== *)
theory Spdy_Frame_NV
  imports Spdy_Zlib Spdy_Cert_Vector "HOL-Library.List_Lexorder" "HOL-Library.Monad_Syntax"
begin

text \<open>
  The name/value header blocks of \<open>lib/spdylay_frame.c\<close>: packing with values of one name
  joined by NUL, the two passes of unpacking over the inflated buffer, sorting, lower case,
  the translation between SPDY/2 and SPDY/3 header names and the origin of a request.

  A block is a list of pairs of C strings; the \<open>char**\<close> of the public interface, names and
  values alternating before a NULL, is a flat list. \<open>qsort\<close> is modelled as the stable sort,
  and \<open>strcmp\<close> as the lexicographic order of unsigned bytes.
\<close>

type_synonym nv = "(cstr \<times> cstr) list"

definition SPDYLAY_LENGTH_MASK :: u32 where "SPDYLAY_LENGTH_MASK = 0xffffff"
definition SPDYLAY_FRAME_HEAD_LENGTH :: nat where [simp]: "SPDYLAY_FRAME_HEAD_LENGTH = 8"

section \<open>Length fields\<close>

definition spdylay_frame_get_len_size :: "u16 \<Rightarrow> nat" where
  "spdylay_frame_get_len_size version =
     (if SPDYLAY_PROTO_SPDY2 = version then 2
      else if SPDYLAY_PROTO_SPDY3 = version then 4 else 0)"

definition spdylay_frame_put_nv_len :: "u32 \<Rightarrow> nat \<Rightarrow> bytes" where
  "spdylay_frame_put_nv_len v len_size =
     (if len_size = 2 then spdylay_put_uint16be (ucast v) else spdylay_put_uint32be v)"

definition spdylay_frame_get_nv_len ::
    "spdylay_buffer \<Rightarrow> spdylay_buffer_reader \<Rightarrow> nat \<Rightarrow> (nat \<times> spdylay_buffer_reader) option" where
  "spdylay_frame_get_nv_len b rd len_size =
     (if len_size = 2 then map_option (\<lambda>(v, rd'). (unat v, rd')) (spdylay_buffer_reader_uint16 b rd)
      else map_option (\<lambda>(v, rd'). (unat v, rd')) (spdylay_buffer_reader_uint32 b rd))"

section \<open>Packing\<close>

text \<open>\<open>spdylay_pack_str\<close> appends to what the caller has written so far.\<close>

definition spdylay_pack_str :: "bytes \<Rightarrow> cstr \<Rightarrow> nat \<Rightarrow> bytes" where
  "spdylay_pack_str out str len_size =
     out @ spdylay_frame_put_nv_len (of_nat (length str)) len_size @ str"

fun count_nv_loop :: "nv \<Rightarrow> nat \<Rightarrow> nat \<Rightarrow> cstr \<Rightarrow> nat" where
  "count_nv_loop [] len_size acc prev = acc"
| "count_nv_loop ((key, val) # nv) len_size acc prev =
     (if prev = key then count_nv_loop nv len_size (acc + (length val + 1)) prev
      else count_nv_loop nv len_size (acc + (length key + length val + len_size * 2)) key)"

definition spdylay_frame_count_nv_space :: "nv \<Rightarrow> nat \<Rightarrow> nat" where
  "spdylay_frame_count_nv_space nv len_size = count_nv_loop nv len_size len_size []"

text \<open>
  The packing loop: the bytes written so far, the number of names, the previous name, the
  offset of the length of its value and that length. A value that joins the one before
  patches this length; with no value before it the pointer is NULL.
\<close>

fun pack_nv_loop ::
    "nv \<Rightarrow> nat \<Rightarrow> bytes \<Rightarrow> u32 \<Rightarrow> cstr \<Rightarrow> nat option \<Rightarrow> u32 \<Rightarrow> (bytes \<times> u32) option" where
  "pack_nv_loop [] len_size out num_nv prev prev_vallen_buf prev_vallen = Some (out, num_nv)"
| "pack_nv_loop ((key, val) # nv) len_size out num_nv prev prev_vallen_buf prev_vallen =
     (if prev = key then
        (case prev_vallen_buf of None \<Rightarrow> None
         | Some off \<Rightarrow>
             let vallen = prev_vallen + of_nat (length val + 1) in
             pack_nv_loop nv len_size
               (memcpy_at out off (spdylay_frame_put_nv_len vallen len_size) @ 0 # val)
               num_nv prev prev_vallen_buf vallen)
      else
        let out1 = spdylay_pack_str out key len_size in
        pack_nv_loop nv len_size (spdylay_pack_str out1 val len_size) (num_nv + 1) key
          (Some (length out1)) (of_nat (length val)))"

text \<open>The bytes written at \<open>buf\<close>; the room for the number of names is filled in at the end.\<close>

definition spdylay_frame_pack_nv :: "nv \<Rightarrow> nat \<Rightarrow> bytes option" where
  "spdylay_frame_pack_nv nv len_size =
     do {
       (out, num_nv) \<leftarrow> pack_nv_loop nv len_size (replicate len_size 0) 0 [] None 0;
       Some (memcpy_at out 0 (spdylay_frame_put_nv_len num_nv len_size))
     }"

text \<open>
  Packing and compressing behind \<open>nv_offset\<close> bytes of the frame buffer \<open>buf\<close>; \<open>nvbuf\<close> is
  the buffer for the uncompressed block. The result is the length of the frame or an error.
\<close>

definition spdylay_frame_alloc_pack_nv ::
    "'z zlib \<Rightarrow> mem \<Rightarrow> bytes \<Rightarrow> bytes \<Rightarrow> nv \<Rightarrow> nat \<Rightarrow> nat \<Rightarrow> 'z spdylay_zlib \<Rightarrow>
     (int \<times> bytes \<times> bytes \<times> 'z spdylay_zlib \<times> mem) option" where
  "spdylay_frame_alloc_pack_nv zl m buf nvbuf nv nv_offset len_size deflater =
     (let nvspace = spdylay_frame_count_nv_space nv len_size in
      case spdylay_reserve_buffer m nvbuf nvspace of (r1, nvbuf1, m1) \<Rightarrow>
      if r1 \<noteq> 0 then Some (SPDYLAY_ERR_NOMEM, buf, nvbuf1, deflater, m1)
      else
        let maxframelen = nv_offset + spdylay_zlib_deflate_hd_bound zl deflater nvspace in
        case spdylay_reserve_buffer m1 buf maxframelen of (r2, buf2, m2) \<Rightarrow>
        if r2 \<noteq> 0 then Some (SPDYLAY_ERR_NOMEM, buf2, nvbuf1, deflater, m2)
        else
          do {
            packed \<leftarrow> spdylay_frame_pack_nv nv len_size;
            let nvbuf2 = memcpy_at nvbuf1 0 packed;
            case spdylay_zlib_deflate_hd zl deflater (maxframelen - nv_offset) (take nvspace nvbuf2) of
              (len, out, deflater') \<Rightarrow>
                let buf3 = memcpy_at buf2 nv_offset out in
                if len < 0 then Some (len, buf3, nvbuf2, deflater', m2)
                else
                  let framelen = len + int nv_offset in
                  if framelen - int SPDYLAY_FRAME_HEAD_LENGTH > uint SPDYLAY_LENGTH_MASK
                  then Some (SPDYLAY_ERR_FRAME_TOO_LARGE, buf3, nvbuf2, deflater', m2)
                  else Some (framelen, buf3, nvbuf2, deflater', m2)
          })"

section \<open>Unpacking\<close>

text \<open>Counting the NUL bytes of a value, byte by byte.\<close>

fun count_nul :: "spdylay_buffer \<Rightarrow> spdylay_buffer_reader \<Rightarrow> nat \<Rightarrow> nat \<Rightarrow> (nat \<times> spdylay_buffer_reader) option" where
  "count_nul b rd 0 nvlen = Some (nvlen, rd)"
| "count_nul b rd (Suc k) nvlen =
     do {
       (c, rd') \<leftarrow> spdylay_buffer_reader_uint8 b rd;
       count_nul b rd' k (if c = 0 then nvlen + 1 else nvlen)
     }"

text \<open>
  One length field with its two bounds checks: the length and the offset after the field,
  or \<open>Inl\<close> when the block is too short.
\<close>

definition nv_len_checked ::
    "spdylay_buffer \<Rightarrow> spdylay_buffer_reader \<Rightarrow> nat \<Rightarrow> nat \<Rightarrow> nat \<Rightarrow>
     (int + nat \<times> nat \<times> spdylay_buffer_reader) option" where
  "nv_len_checked b rd len_size inlen off =
     (if size_sub inlen off < len_size then Some (Inl SPDYLAY_ERR_INVALID_FRAME)
      else
        do {
          (len, rd') \<leftarrow> spdylay_frame_get_nv_len b rd len_size;
          if size_sub inlen (off + len_size) < len then Some (Inl SPDYLAY_ERR_INVALID_FRAME)
          else Some (Inr (len, off + len_size, rd'))
        })"

fun count_unpack_loop ::
    "spdylay_buffer \<Rightarrow> nat \<Rightarrow> nat \<Rightarrow> nat \<Rightarrow> spdylay_buffer_reader \<Rightarrow> nat \<Rightarrow> nat \<Rightarrow> nat \<Rightarrow>
     (int + nat \<times> nat) option" where
  "count_unpack_loop b len_size inlen 0 rd off buflen nvlen =
     (if inlen = off then Some (Inr (nvlen, buflen + (nvlen * 2 + 1) * 8))
      else Some (Inl SPDYLAY_ERR_INVALID_FRAME))"
| "count_unpack_loop b len_size inlen (Suc n) rd off buflen nvlen =
     do {
       x \<leftarrow> nv_len_checked b rd len_size inlen off;
       case x of Inl e \<Rightarrow> Some (Inl e)
       | Inr (len1, off1, rd1) \<Rightarrow>
           do {
             rd2 \<leftarrow> spdylay_buffer_reader_advance b rd1 len1;
             y \<leftarrow> nv_len_checked b rd2 len_size inlen (off1 + len1);
             case y of Inl e \<Rightarrow> Some (Inl e)
             | Inr (len2, off2, rd3) \<Rightarrow>
                 do {
                   (nvlen', rd4) \<leftarrow> count_nul b rd3 len2 nvlen;
                   count_unpack_loop b len_size inlen n rd4 (off2 + len2)
                     (buflen + (len1 + 1) + (len2 + 1)) (nvlen' + 1)
                 }
           }
     }"

text \<open>The number of pairs of the block and the size of the memory for it.\<close>

definition spdylay_frame_count_unpack_nv_space ::
    "spdylay_buffer \<Rightarrow> nat \<Rightarrow> (int + nat \<times> nat) option" where
  "spdylay_frame_count_unpack_nv_space b len_size =
     (let inlen = spdylay_buffer_length b in
      if inlen < len_size then Some (Inl SPDYLAY_ERR_INVALID_FRAME)
      else
        do {
          (n, rd) \<leftarrow> spdylay_frame_get_nv_len b spdylay_buffer_reader_init len_size;
          count_unpack_loop b len_size inlen n rd len_size 0 0
        })"

definition bad_name_char :: "u8 \<Rightarrow> bool" where
  "bad_name_char c \<longleftrightarrow> c < 0x20 \<or> c > 0x7e \<or> 0x41 \<le> c \<and> c \<le> 0x5a"

text \<open>
  The loop over a value: every NUL ends a piece. \<open>val\<close> is the current piece and a NUL right
  at its start makes the block invalid; the last piece ends with the value.
\<close>

fun split_value :: "bytes \<Rightarrow> cstr \<Rightarrow> cstr list \<times> bool" where
  "split_value [] val = ([val], False)"
| "split_value (c # cs) val =
     (if c = 0 then (case split_value cs [] of (vs, bad) \<Rightarrow> (val # vs, bad \<or> val = []))
      else split_value cs (val @ [c]))"

text \<open>
  The second pass. A pair carries the number of its header, which stands for the address of
  the name: pieces of one value share it. A name is read as a C string.
\<close>

fun unpack_nv_loop ::
    "spdylay_buffer \<Rightarrow> nat \<Rightarrow> nat \<Rightarrow> nat \<Rightarrow> spdylay_buffer_reader \<Rightarrow> bool \<Rightarrow>
     ((nat \<times> cstr \<times> cstr) list \<times> bool) option" where
  "unpack_nv_loop b len_size 0 i rd bad = Some ([], bad)"
| "unpack_nv_loop b len_size (Suc n) i rd bad =
     do {
       (len1, rd1) \<leftarrow> spdylay_frame_get_nv_len b rd len_size;
       (name, rd2) \<leftarrow> spdylay_buffer_reader_data b rd1 len1;
       (len2, rd3) \<leftarrow> spdylay_frame_get_nv_len b rd2 len_size;
       (val, rd4) \<leftarrow> spdylay_buffer_reader_data b rd3 len2;
       let (vs, badv) = split_value val [];
       (rest, bad') \<leftarrow> unpack_nv_loop b len_size n (i + 1) rd4
          (bad \<or> len1 = 0 \<or> list_ex bad_name_char name \<or> badv);
       Some (map (\<lambda>v. (i, takeWhile (\<lambda>c. c \<noteq> 0) name, v)) vs @ rest, bad')
     }"

definition spdylay_frame_nv_sort :: "nv \<Rightarrow> nv" where
  "spdylay_frame_nv_sort nv = sort_key fst nv"

text \<open>The sort of the unpacked pairs, and the search for one name at two addresses.\<close>

definition nv_sort_addr :: "(nat \<times> cstr \<times> cstr) list \<Rightarrow> (nat \<times> cstr \<times> cstr) list" where
  "nv_sort_addr xs = sort_key (\<lambda>(i, name, val). name) xs"

fun nv_has_dup :: "(nat \<times> cstr \<times> cstr) list \<Rightarrow> bool" where
  "nv_has_dup ((i, n1, v1) # (j, n2, v2) # xs) \<longleftrightarrow>
     n1 = n2 \<and> i \<noteq> j \<or> nv_has_dup ((j, n2, v2) # xs)"
| "nv_has_dup _ \<longleftrightarrow> False"

text \<open>
  The return value, the block (\<open>None\<close> when \<open>*nv_ptr\<close> is not assigned) and the allocator;
  the \<open>assert\<close> compares the number of pairs of the two passes.
\<close>

definition spdylay_frame_unpack_nv ::
    "mem \<Rightarrow> spdylay_buffer \<Rightarrow> nat \<Rightarrow> (int \<times> nv option \<times> mem) option" where
  "spdylay_frame_unpack_nv m b len_size =
     do {
       c \<leftarrow> spdylay_frame_count_unpack_nv_space b len_size;
       case c of Inl e \<Rightarrow> Some (e, None, m)
       | Inr (nvlen, buflen) \<Rightarrow>
           (case malloc m of (ok, m') \<Rightarrow>
              if \<not> ok then Some (SPDYLAY_ERR_NOMEM, None, m')
              else
                do {
                  (n, rd) \<leftarrow> spdylay_frame_get_nv_len b spdylay_buffer_reader_init len_size;
                  (ps, bad) \<leftarrow> unpack_nv_loop b len_size n 0 rd False;
                  if length ps \<noteq> nvlen then None
                  else
                    let sorted = (if bad then ps else nv_sort_addr ps);
                        bad' = (bad \<or> nv_has_dup sorted) in
                    Some (if bad' then SPDYLAY_ERR_INVALID_HEADER_BLOCK else 0, Some (map snd sorted), m')
                })
     }"

section \<open>Blocks of the public interface\<close>

definition spdylay_frame_is_ctrl_frame :: "u8 \<Rightarrow> bool" where
  "spdylay_frame_is_ctrl_frame first_byte \<longleftrightarrow> first_byte AND 0x80 \<noteq> 0"

fun spdylay_frame_nv_check_null :: "cstr list \<Rightarrow> bool" where
  "spdylay_frame_nv_check_null [] \<longleftrightarrow> True"
| "spdylay_frame_nv_check_null [k] \<longleftrightarrow> False"
| "spdylay_frame_nv_check_null (k # v # nv) \<longleftrightarrow> k \<noteq> [] \<and> spdylay_frame_nv_check_null nv"

fun nv_pairs :: "cstr list \<Rightarrow> nv" where
  "nv_pairs (k # v # nv) = (k, v) # nv_pairs nv"
| "nv_pairs _ = []"

definition spdylay_frame_nv_copy :: "mem \<Rightarrow> cstr list \<Rightarrow> nv option \<times> mem" where
  "spdylay_frame_nv_copy m nv =
     (case malloc m of (ok, m') \<Rightarrow> (if ok then Some (nv_pairs nv) else None, m'))"

definition downcase_char :: "u8 \<Rightarrow> u8" where
  "downcase_char c = (if 0x41 \<le> c \<and> c \<le> 0x5a then c + (0x61 - 0x41) else c)"

definition spdylay_frame_nv_downcase :: "nv \<Rightarrow> nv" where
  "spdylay_frame_nv_downcase nv = map (\<lambda>(k, v). (map downcase_char k, v)) nv"

definition spdylay_frame_nv_norm_copy :: "mem \<Rightarrow> cstr list \<Rightarrow> nv option \<times> mem" where
  "spdylay_frame_nv_norm_copy m nv =
     (case spdylay_frame_nv_copy m nv of (c, m') \<Rightarrow>
        (map_option (\<lambda>nv'. spdylay_frame_nv_sort (spdylay_frame_nv_downcase nv')) c, m'))"

definition spdylay_nv_3to2 :: nv where
  "spdylay_nv_3to2 =
     [(lit '':host'', lit ''host''), (lit '':method'', lit ''method''), (lit '':path'', lit ''url''),
      (lit '':scheme'', lit ''scheme''), (lit '':status'', lit ''status''), (lit '':version'', lit ''version'')]"

definition spdylay_frame_nv_3to2 :: "nv \<Rightarrow> nv" where
  "spdylay_frame_nv_3to2 nv =
     map (\<lambda>(k, v). (case map_of spdylay_nv_3to2 k of Some k' \<Rightarrow> (k', v) | None \<Rightarrow> (k, v))) nv"

definition spdylay_frame_nv_2to3 :: "nv \<Rightarrow> nv" where
  "spdylay_frame_nv_2to3 nv =
     map (\<lambda>(k, v). (case map_of (map (\<lambda>(a, b). (b, a)) spdylay_nv_3to2) k of
        Some k' \<Rightarrow> (k', v) | None \<Rightarrow> (k, v))) nv"

section \<open>The origin of a request\<close>

text \<open>\<open>strtoul\<close> with base 10: the value and whether \<open>errno\<close> is set.\<close>

definition is_digit :: "u8 \<Rightarrow> bool" where
  "is_digit c \<longleftrightarrow> 0x30 \<le> c \<and> c \<le> 0x39"

definition is_space :: "u8 \<Rightarrow> bool" where
  "is_space c \<longleftrightarrow> c = 0x20 \<or> 0x09 \<le> c \<and> c \<le> 0x0d"

definition strtoul10 :: "cstr \<Rightarrow> nat \<times> bool" where
  "strtoul10 s =
     (let s1 = dropWhile is_space s;
          neg = (s1 \<noteq> [] \<and> hd s1 = 0x2d);
          s2 = (if s1 \<noteq> [] \<and> (hd s1 = 0x2d \<or> hd s1 = 0x2b) then tl s1 else s1);
          v = foldl (\<lambda>a c. a * 10 + unat (c - 0x30)) 0 (takeWhile is_digit s2) in
      if v \<ge> 2 ^ 64 then (2 ^ 64 - 1, True)
      else (if neg then (2 ^ 64 - v) mod 2 ^ 64 else v, False))"

definition SPDYLAY_HTTPS_PORT :: u16 where "SPDYLAY_HTTPS_PORT = 443"

definition host_field :: "cstr \<Rightarrow> spdylay_origin \<Rightarrow> bool \<times> spdylay_origin" where
  "host_field v origin =
     (let host = takeWhile (\<lambda>c. c \<noteq> 0x3a) v in
      if length host = length v then
        let origin1 = origin\<lparr>or_port := SPDYLAY_HTTPS_PORT\<rparr> in
        if length host > SPDYLAY_MAX_HOSTNAME then (False, origin1) else (True, origin1\<lparr>or_host := host\<rparr>)
      else
        (case strtoul10 (drop (length host + 1) v) of (port, errno) \<Rightarrow>
           if errno \<or> port = 0 \<or> port > 65535 then (False, origin)
           else
             let origin1 = origin\<lparr>or_port := of_nat port\<rparr> in
             if length host > SPDYLAY_MAX_HOSTNAME then (False, origin1) else (True, origin1\<lparr>or_host := host\<rparr>)))"

fun nv_set_origin_loop :: "nv \<Rightarrow> spdylay_origin \<Rightarrow> bool \<Rightarrow> bool \<Rightarrow> int \<times> spdylay_origin" where
  "nv_set_origin_loop [] origin scheme_found host_found =
     (if scheme_found \<and> host_found then 0 else SPDYLAY_ERR_INVALID_ARGUMENT, origin)"
| "nv_set_origin_loop ((k, v) # nv) origin scheme_found host_found =
     (if \<not> scheme_found \<and> k = lit '':scheme'' then
        if length v \<le> SPDYLAY_MAX_SCHEME
        then nv_set_origin_loop nv (origin\<lparr>or_scheme := v\<rparr>) True host_found
        else nv_set_origin_loop nv origin scheme_found host_found
      else if \<not> host_found \<and> k = lit '':host'' then
        (case host_field v origin of (found, origin') \<Rightarrow>
           nv_set_origin_loop nv origin' scheme_found found)
      else nv_set_origin_loop nv origin scheme_found host_found)"

definition spdylay_frame_nv_set_origin :: "nv \<Rightarrow> spdylay_origin \<Rightarrow> int \<times> spdylay_origin" where
  "spdylay_frame_nv_set_origin nv origin = nv_set_origin_loop nv origin False False"

section \<open>The block on the wire\<close>

text \<open>Values of one name in a row form a group; its value on the wire joins them with NUL.\<close>

fun nv_groups :: "nv \<Rightarrow> (cstr \<times> cstr list) list" where
  "nv_groups [] = []"
| "nv_groups ((k, v) # nv) =
     (case nv_groups nv of
        (k', vs) # gs \<Rightarrow> if k = k' then (k, v # vs) # gs else (k, [v]) # (k', vs) # gs
      | [] \<Rightarrow> [(k, [v])])"

fun join_values :: "cstr list \<Rightarrow> bytes" where
  "join_values [] = []"
| "join_values [v] = v"
| "join_values (v # vs) = v @ 0 # join_values vs"

definition enc_group :: "nat \<Rightarrow> cstr \<times> cstr list \<Rightarrow> bytes" where
  "enc_group ls g =
     spdylay_frame_put_nv_len (of_nat (length (fst g))) ls @ fst g @
     spdylay_frame_put_nv_len (of_nat (length (join_values (snd g)))) ls @ join_values (snd g)"

definition enc_block :: "nat \<Rightarrow> (cstr \<times> cstr list) list \<Rightarrow> bytes" where
  "enc_block ls gs = spdylay_frame_put_nv_len (of_nat (length gs)) ls @ concat (map (enc_group ls) gs)"

lemma length_put_nv_len [simp]: "ls = 2 \<or> ls = 4 \<Longrightarrow> length (spdylay_frame_put_nv_len v ls) = ls"
  by (auto simp: spdylay_frame_put_nv_len_def)

lemma join_values_Cons: "vs \<noteq> [] \<Longrightarrow> join_values (v # vs) = v @ 0 # join_values vs"
  by (cases vs) auto

lemma join_values_snoc: "join_values (ws @ [v]) @ 0 # x = join_values ((ws @ [v]) @ [x])"
  by (induction ws) (auto simp: join_values_Cons)

lemma length_join_snoc:
  "length (join_values (ws @ [v])) + (length x + 1) = length (join_values ((ws @ [v]) @ [x]))"
  using arg_cong [OF join_values_snoc [of ws v x], of length] by simp

lemma nv_groups_nonempty: "(k, vs) \<in> set (nv_groups nv) \<Longrightarrow> vs \<noteq> []"
  by (induction nv arbitrary: k vs rule: nv_groups.induct) (auto split: list.splits if_splits)

lemma nv_groups_Cons:
  "\<exists>vs gs. nv_groups ((k, v) # nv) = (k, v # vs) # gs"
  by (auto split: list.splits)

lemma memcpy_at_mid: "length b = length a \<Longrightarrow> memcpy_at (pre @ a @ post) (length pre) b = pre @ b @ post"
  by (simp add: memcpy_at_def)

text \<open>The loop with its back-patched length, from a point where a name has been written.\<close>

lemma pack_nv_loop_groups:
  assumes "ls = 2 \<or> ls = 4" "nv_groups ((prev, v) # nv) = (prev, v # vs) # gs"
  shows "pack_nv_loop nv ls (out @ spdylay_frame_put_nv_len (of_nat (length (join_values (ws @ [v])))) ls @
      join_values (ws @ [v])) num prev (Some (length out)) (of_nat (length (join_values (ws @ [v])))) =
    Some (out @ spdylay_frame_put_nv_len (of_nat (length (join_values (ws @ v # vs)))) ls @
      join_values (ws @ v # vs) @ concat (map (enc_group ls) gs), num + of_nat (length gs))"
  using assms(2)
proof (induction nv arbitrary: prev v vs gs out ws num)
  case (Cons kv nv)
  obtain k x where kv: "kv = (k, x)" by force
  obtain ys hs where rec: "nv_groups ((k, x) # nv) = (k, x # ys) # hs" using nv_groups_Cons by blast
  show ?case
  proof (cases "prev = k")
    case True
    with Cons.prems rec kv have [simp]: "vs = x # ys" "gs = hs" by auto
    have len: "of_nat (length (join_values (ws @ [v]))) + (1 + of_nat (length x)) =
        (of_nat (length (join_values (ws @ [v, x]))) :: u32)"
      using arg_cong [OF length_join_snoc [of ws v x], of "of_nat :: nat \<Rightarrow> u32"] by (simp add: add_ac)
    show ?thesis
      using Cons.IH [OF rec, of out "ws @ [v]" num] join_values_snoc [of ws v x] True assms(1)
      by (simp add: kv memcpy_at_mid Let_def len)
  next
    case False
    with Cons.prems rec kv have gs: "vs = []" "gs = (k, x # ys) # hs" by auto
    define out' where "out' = out @ spdylay_frame_put_nv_len (of_nat (length (join_values (ws @ [v])))) ls @
      join_values (ws @ [v]) @ spdylay_frame_put_nv_len (of_nat (length k)) ls @ k"
    show ?thesis
      using Cons.IH [OF rec, of out' "[]" "num + 1"] False
      by (simp add: kv gs spdylay_pack_str_def out'_def enc_group_def)
  qed
qed simp

lemma pack_nv_block:
  assumes "ls = 2 \<or> ls = 4" "\<forall>(k, v)\<in>set nv. k \<noteq> []"
  shows "spdylay_frame_pack_nv nv ls = Some (enc_block ls (nv_groups nv))"
proof (cases nv)
  case Nil
  with assms show ?thesis
    by (auto simp: spdylay_frame_pack_nv_def enc_block_def memcpy_at_def)
next
  case (Cons kv nv')
  obtain k v where kv: "kv = (k, v)" by force
  obtain vs gs where g: "nv_groups ((k, v) # nv') = (k, v # vs) # gs" using nv_groups_Cons by blast
  let ?out = "replicate ls 0 @ spdylay_frame_put_nv_len (of_nat (length k)) ls @ k"
  from pack_nv_loop_groups [OF assms(1) g, of ?out "[]" 1] assms(2) Cons kv
  have "pack_nv_loop nv ls (replicate ls 0) 0 [] None 0 =
      Some (replicate ls 0 @ enc_group ls (k, v # vs) @ concat (map (enc_group ls) gs), 1 + of_nat (length gs))"
    by (auto simp: spdylay_pack_str_def enc_group_def)
  moreover have "memcpy_at (replicate ls 0 @ post) 0 (spdylay_frame_put_nv_len n ls) =
      spdylay_frame_put_nv_len n ls @ post" for n post
    using memcpy_at_mid [of "spdylay_frame_put_nv_len n ls" "replicate ls 0" "[]" post] assms(1) by simp
  ultimately show ?thesis
    using Cons kv g by (simp add: spdylay_frame_pack_nv_def enc_block_def)
qed

lemma count_nv_loop_groups:
  assumes "nv_groups ((prev, v) # nv) = (prev, v # vs) # gs" "ls = 2 \<or> ls = 4"
  shows "count_nv_loop nv ls (acc + length (join_values (ws @ [v]))) prev =
    acc + length (join_values (ws @ v # vs)) + length (concat (map (enc_group ls) gs))"
  using assms(1)
proof (induction nv arbitrary: prev v vs gs acc ws)
  case (Cons kv nv)
  obtain k x where kv: "kv = (k, x)" by force
  obtain ys hs where rec: "nv_groups ((k, x) # nv) = (k, x # ys) # hs" using nv_groups_Cons by blast
  show ?case
  proof (cases "prev = k")
    case True
    with Cons.prems rec kv have "vs = x # ys" "gs = hs" by auto
    with Cons.IH [OF rec, of acc "ws @ [v]"] True show ?thesis
      using length_join_snoc [of ws v x] by (simp add: kv add.assoc flip: add_Suc_right)
  next
    case False
    with Cons.prems rec kv have "vs = []" "gs = (k, x # ys) # hs" by auto
    with Cons.IH [OF rec, of "acc + length (join_values (ws @ [v])) + length k + ls * 2" "[]"] False assms(2)
    show ?thesis by (simp add: kv enc_group_def algebra_simps)
  qed
qed simp

text \<open>The space counted is the space used.\<close>

lemma count_nv_space_block:
  assumes "ls = 2 \<or> ls = 4" "\<forall>(k, v)\<in>set nv. k \<noteq> []"
  shows "spdylay_frame_count_nv_space nv ls = length (enc_block ls (nv_groups nv))"
proof (cases nv)
  case (Cons kv nv')
  obtain k v where kv: "kv = (k, v)" by force
  obtain vs gs where g: "nv_groups ((k, v) # nv') = (k, v # vs) # gs" using nv_groups_Cons by blast
  have "k \<noteq> []" "[] \<noteq> k" using assms(2) Cons kv by auto
  with count_nv_loop_groups [OF g assms(1), of "ls + length k + ls * 2" "[]"] assms(1) Cons kv g show ?thesis
    by (auto simp: spdylay_frame_count_nv_space_def enc_block_def enc_group_def algebra_simps)
qed (use assms in \<open>auto simp: spdylay_frame_count_nv_space_def enc_block_def\<close>)

section \<open>Unpacking inverts packing\<close>

text \<open>A reader at offset \<open>p\<close> of the contents.\<close>

definition reader_at :: "spdylay_buffer \<Rightarrow> spdylay_buffer_reader \<Rightarrow> nat \<Rightarrow> bool" where
  "reader_at b rd p \<longleftrightarrow> buffer_inv b \<and> rd_offset rd < buf_capacity b \<and> reader_pos b rd = p"

lemma reader_at_init: "buffer_inv b \<Longrightarrow> reader_at b spdylay_buffer_reader_init 0"
  by (simp add: reader_at_def reader_pos_def spdylay_buffer_reader_init_def buffer_inv_def)

lemma reader_data_at:
  assumes "reader_at b rd (length pre)" "buffer_contents b = pre @ mid @ post"
  obtains rd' where "spdylay_buffer_reader_data b rd (length mid) = Some (mid, rd')"
    "reader_at b rd' (length (pre @ mid))"
proof -
  have "length (pre @ mid @ post) = buf_len b"
    using assms length_buffer_contents [of b] by (simp add: reader_at_def)
  with assms reader_data_slice [of b rd "length mid"] that show ?thesis
    by (auto simp: reader_at_def)
qed

lemma reader_advance_at:
  assumes "reader_at b rd (length pre)" "buffer_contents b = pre @ mid @ post"
  obtains rd' where "spdylay_buffer_reader_advance b rd (length mid) = Some rd'"
    "reader_at b rd' (length (pre @ mid))"
proof -
  have "length (pre @ mid @ post) = buf_len b"
    using assms length_buffer_contents [of b] by (simp add: reader_at_def)
  with assms reader_advance_pos [of b rd "length mid"] that show ?thesis
    by (auto simp: reader_at_def)
qed

lemma get_nv_len_at:
  assumes "reader_at b rd (length pre)" "ls = 2 \<or> ls = 4" "n < 256 ^ ls"
    and "buffer_contents b = pre @ spdylay_frame_put_nv_len (of_nat n) ls @ post"
  obtains rd' where "spdylay_frame_get_nv_len b rd ls = Some (n, rd')" "reader_at b rd' (length pre + ls)"
proof -
  let ?f = "spdylay_frame_put_nv_len (of_nat n) ls"
  have len: "length ?f = ls" using assms(2) by simp
  from reader_data_at [OF assms(1,4)] obtain rd' where
    rd': "spdylay_buffer_reader_data b rd ls = Some (?f, rd')" "reader_at b rd' (length pre + ls)"
    unfolding len by (auto simp: len)
  have "spdylay_frame_get_nv_len b rd ls = Some (n, rd')"
  proof (cases "ls = 2")
    case True
    then have "ucast (of_nat n :: u32) = (of_nat n :: u16)" "unat (of_nat n :: u16) = n"
      using assms(3) by (simp_all add: unat_of_nat unsigned_of_nat take_bit_nat_eq_self)
    with True rd' show ?thesis
      by (simp add: spdylay_frame_get_nv_len_def spdylay_buffer_reader_uint16_def spdylay_frame_put_nv_len_def)
  next
    case False
    with assms(2,3) have "ls = 4" "unat (of_nat n :: u32) = n" by (auto simp: unat_of_nat)
    with rd' show ?thesis
      by (simp add: spdylay_frame_get_nv_len_def spdylay_buffer_reader_uint32_def spdylay_frame_put_nv_len_def)
  qed
  with rd' show ?thesis by (intro that)
qed

lemma count_nul_at:
  assumes "reader_at b rd (length pre)" "buffer_contents b = pre @ mid @ post"
  shows "\<exists>rd'. count_nul b rd (length mid) n = Some (n + length (filter (\<lambda>c. c = 0) mid), rd') \<and>
    reader_at b rd' (length (pre @ mid))"
  using assms
proof (induction mid arbitrary: pre rd n)
  case (Cons c mid)
  have "buffer_contents b = pre @ [c] @ (mid @ post)" using Cons.prems by simp
  from reader_data_at [OF Cons.prems(1) this] obtain rd' where
    "spdylay_buffer_reader_data b rd (length [c]) = Some ([c], rd')" "reader_at b rd' (length (pre @ [c]))" .
  then have rd': "spdylay_buffer_reader_uint8 b rd = Some (c, rd')" "reader_at b rd' (length (pre @ [c]))"
    by (simp_all add: spdylay_buffer_reader_uint8_def)
  from Cons.IH [OF rd'(2), of "if c = 0 then n + 1 else n"] Cons.prems rd' show ?case by auto
qed simp

lemma nv_len_checked_at:
  assumes "reader_at b rd (length pre)" "ls = 2 \<or> ls = 4" "length mid < 256 ^ ls"
    and "buffer_contents b = pre @ spdylay_frame_put_nv_len (of_nat (length mid)) ls @ mid @ post"
  obtains rd' where
    "nv_len_checked b rd ls (buf_len b) (length pre) = Some (Inr (length mid, length pre + ls, rd'))"
    "reader_at b rd' (length pre + ls)"
proof -
  have "buf_len b = length pre + ls + length mid + length post"
    using assms(1,2,4) length_buffer_contents [of b] by (simp add: reader_at_def)
  moreover from get_nv_len_at [OF assms(1-3), of "mid @ post"] assms(4) obtain rd' where
    "spdylay_frame_get_nv_len b rd ls = Some (length mid, rd')" "reader_at b rd' (length pre + ls)" by auto
  ultimately show ?thesis by (intro that [of rd']) (auto simp: nv_len_checked_def)
qed

text \<open>What a header block must satisfy to be unpacked without an error.\<close>

definition group_ok :: "nat \<Rightarrow> cstr \<times> cstr list \<Rightarrow> bool" where
  "group_ok ls g \<longleftrightarrow> fst g \<noteq> [] \<and> length (fst g) < 256 ^ ls \<and> \<not> list_ex bad_name_char (fst g) \<and>
     snd g \<noteq> [] \<and> length (join_values (snd g)) < 256 ^ ls \<and>
     list_all (\<lambda>v. 0 \<notin> set v) (snd g) \<and> list_all (\<lambda>v. v \<noteq> []) (butlast (snd g))"

definition nv_ok :: "nat \<Rightarrow> nv \<Rightarrow> bool" where
  "nv_ok ls nv \<longleftrightarrow> length (nv_groups nv) < 256 ^ ls \<and> list_all (group_ok ls) (nv_groups nv) \<and>
     sorted (map fst nv)"

lemma split_value_run: "0 \<notin> set v \<Longrightarrow> split_value (v @ rest) w = split_value rest (w @ v)"
  by (induction v arbitrary: w) auto

lemma split_value_join:
  "vs \<noteq> [] \<Longrightarrow> list_all (\<lambda>v. 0 \<notin> set v) vs \<Longrightarrow> list_all (\<lambda>v. v \<noteq> []) (butlast vs) \<Longrightarrow>
   split_value (join_values vs) [] = (vs, False)"
proof (induction vs rule: join_values.induct)
  case (2 v)
  then show ?case using split_value_run [of v "[]" "[]"] by simp
next
  case (3 v v' vs)
  then show ?case using split_value_run [of v "0 # join_values (v' # vs)" "[]"] by simp
qed simp

lemma count_zero_join:
  "vs \<noteq> [] \<Longrightarrow> list_all (\<lambda>v. 0 \<notin> set v) vs \<Longrightarrow>
   length (filter (\<lambda>c. c = 0) (join_values vs)) + 1 = length vs"
  by (induction vs rule: join_values.induct) (auto simp: filter_empty_conv)

definition pairs_of :: "(cstr \<times> cstr list) list \<Rightarrow> nv" where
  "pairs_of gs = concat (map (\<lambda>(k, vs). map (Pair k) vs) gs)"

lemma pairs_of_groups: "pairs_of (nv_groups nv) = nv"
  by (induction nv rule: nv_groups.induct) (auto simp: pairs_of_def split: list.splits)

text \<open>The pairs with the number of their header.\<close>

fun addr_pairs :: "nat \<Rightarrow> (cstr \<times> cstr list) list \<Rightarrow> (nat \<times> cstr \<times> cstr) list" where
  "addr_pairs i [] = []"
| "addr_pairs i ((k, vs) # gs) = map (\<lambda>v. (i, k, v)) vs @ addr_pairs (i + 1) gs"

lemma addr_pairs_simps [simp]:
  "map snd (addr_pairs i gs) = pairs_of gs"
  "map (\<lambda>(i, name, val). name) (addr_pairs i gs) = map fst (pairs_of gs)"
  by (induction i gs rule: addr_pairs.induct) (auto simp: pairs_of_def o_def)

lemma count_unpack_loop_groups:
  assumes "reader_at b rd (length pre)" "ls = 2 \<or> ls = 4" "list_all (group_ok ls) gs"
    and "buffer_contents b = pre @ concat (map (enc_group ls) gs)"
  shows "\<exists>buflen'. count_unpack_loop b ls (buf_len b) (length gs) rd (length pre) buflen nvlen =
    Some (Inr (nvlen + length (pairs_of gs), buflen'))"
  using assms(1,3,4)
proof (induction gs arbitrary: rd pre buflen nvlen)
  case Nil
  then show ?case using length_buffer_contents [of b] by (simp add: reader_at_def pairs_of_def)
next
  case (Cons g gs)
  obtain k vs where g: "g = (k, vs)" by force
  let ?w = "join_values vs" and ?post = "concat (map (enc_group ls) gs)"
  let ?lk = "spdylay_frame_put_nv_len (of_nat (length k)) ls"
    and ?lw = "spdylay_frame_put_nv_len (of_nat (length ?w)) ls"
  have ok: "length k < 256 ^ ls" "length ?w < 256 ^ ls" "vs \<noteq> []" "list_all (\<lambda>v. 0 \<notin> set v) vs"
    using Cons.prems(2) by (auto simp: g group_ok_def)
  have c: "buffer_contents b = pre @ ?lk @ k @ ?lw @ ?w @ ?post"
    using Cons.prems(3) enc_group_def [of ls "(k, vs)"] by (simp add: g)
  have c3: "buffer_contents b = (pre @ ?lk @ k) @ ?lw @ ?w @ ?post" using c by simp
  have ll: "length ?lk = ls" "length ?lw = ls" using assms(2) by auto
  obtain rd1 where r1: "nv_len_checked b rd ls (buf_len b) (length pre) = Some (Inr (length k, length pre + ls, rd1))"
      "reader_at b rd1 (length (pre @ ?lk))"
    using nv_len_checked_at [OF Cons.prems(1) assms(2) ok(1) c] ll by auto
  obtain rd2 where r2: "spdylay_buffer_reader_advance b rd1 (length k) = Some rd2"
      "reader_at b rd2 (length (pre @ ?lk @ k))"
    using reader_advance_at [OF r1(2), of k] c by auto
  obtain rd3 where r3: "nv_len_checked b rd2 ls (buf_len b) (length (pre @ ?lk @ k)) =
        Some (Inr (length ?w, length (pre @ ?lk @ k) + ls, rd3))"
      "reader_at b rd3 (length (pre @ ?lk @ k) + ls)"
    using nv_len_checked_at [OF r2(2) assms(2) ok(2) c3] by metis
  have r3': "reader_at b rd3 (length (pre @ ?lk @ k @ ?lw))" using r3(2) ll by (simp add: add.assoc)
  obtain rd4 where r4: "count_nul b rd3 (length ?w) nvlen = Some (nvlen + length (filter (\<lambda>c. c = 0) ?w), rd4)"
      "reader_at b rd4 (length (pre @ ?lk @ k @ ?lw @ ?w))"
    using count_nul_at [OF r3', of ?w ?post nvlen] c by auto
  from Cons.IH [OF r4(2), of "buflen + (length k + 1) + (length ?w + 1)"
      "nvlen + length (filter (\<lambda>c. c = 0) ?w) + 1"] Cons.prems(2) c
  have "\<exists>buflen'. count_unpack_loop b ls (buf_len b) (length gs) rd4 (length (pre @ ?lk @ k @ ?lw @ ?w))
      (buflen + (length k + 1) + (length ?w + 1)) (nvlen + length (filter (\<lambda>c. c = 0) ?w) + 1) =
      Some (Inr (nvlen + length vs + length (pairs_of gs), buflen'))"
    using count_zero_join [OF ok(3,4), symmetric] by (simp add: add.assoc)
  then show ?case
    using r1(1) r2(1) r3(1) r4(1) ll by (auto simp: g pairs_of_def add.assoc)
qed

lemma unpack_nv_loop_groups:
  assumes "reader_at b rd (length pre)" "ls = 2 \<or> ls = 4" "list_all (group_ok ls) gs"
    and "buffer_contents b = pre @ concat (map (enc_group ls) gs)"
  shows "unpack_nv_loop b ls (length gs) i rd False = Some (addr_pairs i gs, False)"
  using assms(1,3,4)
proof (induction gs arbitrary: rd pre i)
  case (Cons g gs)
  obtain k vs where g: "g = (k, vs)" by force
  let ?w = "join_values vs" and ?post = "concat (map (enc_group ls) gs)"
  let ?lk = "spdylay_frame_put_nv_len (of_nat (length k)) ls"
    and ?lw = "spdylay_frame_put_nv_len (of_nat (length ?w)) ls"
  have ok: "length k < 256 ^ ls" "length ?w < 256 ^ ls" "k \<noteq> []" "\<not> list_ex bad_name_char k"
      "split_value ?w [] = (vs, False)"
    using Cons.prems(2) by (auto simp: g group_ok_def intro: split_value_join)
  have c: "buffer_contents b = pre @ ?lk @ k @ ?lw @ ?w @ ?post"
    using Cons.prems(3) enc_group_def [of ls "(k, vs)"] by (simp add: g)
  have c3: "buffer_contents b = (pre @ ?lk @ k) @ ?lw @ ?w @ ?post" using c by simp
  have ll: "length ?lk = ls" "length ?lw = ls" using assms(2) by auto
  obtain rd1 where r1: "spdylay_frame_get_nv_len b rd ls = Some (length k, rd1)"
      "reader_at b rd1 (length (pre @ ?lk))"
    using get_nv_len_at [OF Cons.prems(1) assms(2) ok(1) c] ll by auto
  obtain rd2 where r2: "spdylay_buffer_reader_data b rd1 (length k) = Some (k, rd2)"
      "reader_at b rd2 (length (pre @ ?lk @ k))"
    using reader_data_at [OF r1(2), of k] c by auto
  obtain rd3 where r3: "spdylay_frame_get_nv_len b rd2 ls = Some (length ?w, rd3)"
      "reader_at b rd3 (length (pre @ ?lk @ k) + ls)"
    using get_nv_len_at [OF r2(2) assms(2) ok(2) c3] by metis
  have r3': "reader_at b rd3 (length (pre @ ?lk @ k @ ?lw))" using r3(2) ll by (simp add: add.assoc)
  obtain rd4 where r4: "spdylay_buffer_reader_data b rd3 (length ?w) = Some (?w, rd4)"
      "reader_at b rd4 (length (pre @ ?lk @ k @ ?lw @ ?w))"
    using reader_data_at [OF r3', of ?w ?post] c by auto
  have "takeWhile (\<lambda>c. c \<noteq> 0) k = k"
    using ok(4) by (auto simp: takeWhile_eq_all_conv list_ex_iff bad_name_char_def)
  moreover have "unpack_nv_loop b ls (length gs) (i + 1) rd4 False = Some (addr_pairs (i + 1) gs, False)"
    using Cons.IH [OF r4(2)] Cons.prems(2) c by auto
  ultimately show ?case
    using r1(1) r2(1) r3(1) r4(1) ok by (simp add: g)
qed simp

lemma nv_has_dup_same: "vs \<noteq> [] \<Longrightarrow> nv_has_dup (map (\<lambda>v. (i, k, v)) vs @ xs) \<longleftrightarrow>
    (case xs of [] \<Rightarrow> False | (j, k', v') # _ \<Rightarrow> k = k' \<and> i \<noteq> j) \<or> nv_has_dup xs"
proof (induction vs rule: list_nonempty_induct)
  case (single v)
  then show ?case by (cases xs) auto
next
  case (cons v vs)
  then show ?case by (cases vs) auto
qed

text \<open>Neighbouring groups have different names.\<close>

lemma nv_groups_adjacent:
  "nv_groups nv = xs @ (k, vs) # (k', vs') # ys \<Longrightarrow> k \<noteq> k'"
proof (induction nv arbitrary: xs k vs k' vs' ys rule: nv_groups.induct)
  case (2 k0 v nv)
  show ?case
  proof (cases "nv_groups nv")
    case Nil
    with 2 show ?thesis by (auto simp: Cons_eq_append_conv)
  next
    case (Cons g gs)
    obtain k1 ws where g: "g = (k1, ws)" by force
    show ?thesis
    proof (cases "k0 = k1")
      case True
      with 2(2) Cons g have e: "(k0, v # ws) # gs = xs @ (k, vs) # (k', vs') # ys" by simp
      show ?thesis
      proof (cases xs)
        case Nil
        with e have "gs = (k', vs') # ys" "k = k0" by auto
        with 2(1) [of "[]" k1 ws k' vs' ys] Cons g True show ?thesis by simp
      next
        case (Cons x xs')
        with e have "gs = xs' @ (k, vs) # (k', vs') # ys" by simp
        with 2(1) [of "(k1, ws) # xs'"] \<open>nv_groups nv = g # gs\<close> g show ?thesis by simp
      qed
    next
      case False
      with 2(2) Cons g have e: "(k0, [v]) # nv_groups nv = xs @ (k, vs) # (k', vs') # ys" by simp
      with False 2(1) Cons g show ?thesis by (cases xs) auto
    qed
  qed
qed simp

lemma nv_has_dup_groups:
  assumes "list_all (\<lambda>g. snd g \<noteq> []) gs" "\<And>xs k vs k' vs' ys. gs = xs @ (k, vs) # (k', vs') # ys \<Longrightarrow> k \<noteq> k'"
  shows "\<not> nv_has_dup (addr_pairs i gs)"
  using assms
proof (induction i gs rule: addr_pairs.induct)
  case (2 i k vs gs)
  have "\<not> nv_has_dup (addr_pairs (i + 1) gs)"
    using 2(1,2) 2(3) [of "_ # _"] by fastforce
  moreover have "case addr_pairs (i + 1) gs of [] \<Rightarrow> True | (j, k', v') # _ \<Rightarrow> k \<noteq> k'"
    using 2(2) 2(3) [of "[]" k vs] by (cases gs) (auto simp: neq_Nil_conv split: list.splits)
  ultimately show ?case
    using 2(2) nv_has_dup_same [of vs i k "addr_pairs (i + 1) gs"] by (auto split: list.splits)
qed simp

text \<open>Unpacking a buffer that holds a packed block gives the block back.\<close>

lemma unpack_nv_block:
  assumes b: "buffer_inv b" "buffer_contents b = enc_block ls (nv_groups nv)"
    and ls: "ls = 2 \<or> ls = 4" and ok: "nv_ok ls nv" and mem: "mem_ok m (mem_next m)"
  shows "spdylay_frame_unpack_nv m b ls = Some (0, Some nv, snd (malloc m))"
proof -
  let ?gs = "nv_groups nv"
  have gs: "length ?gs < 256 ^ ls" "list_all (group_ok ls) ?gs" "sorted (map fst nv)"
    using ok by (auto simp: nv_ok_def)
  let ?l = "spdylay_frame_put_nv_len (of_nat (length ?gs)) ls"
  have c: "buffer_contents b = ?l @ concat (map (enc_group ls) ?gs)" using b(2) by (simp add: enc_block_def)
  obtain rd where rd: "spdylay_frame_get_nv_len b spdylay_buffer_reader_init ls = Some (length ?gs, rd)"
      "reader_at b rd (length ?l)"
    using get_nv_len_at [of b spdylay_buffer_reader_init "[]", OF _ ls gs(1)] reader_at_init [OF b(1)] c ls
    by auto
  have "\<not> buf_len b < ls" using length_buffer_contents [OF b(1)] c ls by (metis length_append length_put_nv_len not_add_less1)
  moreover obtain buflen where "count_unpack_loop b ls (buf_len b) (length ?gs) rd ls 0 0 =
      Some (Inr (length nv, buflen))"
    using count_unpack_loop_groups [OF rd(2) ls gs(2) c, of 0 0] ls by (auto simp: pairs_of_groups)
  moreover have "unpack_nv_loop b ls (length ?gs) 0 rd False = Some (addr_pairs 0 ?gs, False)"
    by (rule unpack_nv_loop_groups [OF rd(2) ls gs(2) c])
  moreover have "length (addr_pairs 0 ?gs) = length nv"
    by (metis addr_pairs_simps(1) length_map pairs_of_groups)
  moreover have "nv_sort_addr (addr_pairs 0 ?gs) = addr_pairs 0 ?gs"
    unfolding nv_sort_addr_def using gs(3) by (intro sort_key_id_if_sorted) (simp add: pairs_of_groups)
  moreover have "\<not> nv_has_dup (addr_pairs 0 ?gs)"
    using gs(2) nv_groups_adjacent by (intro nv_has_dup_groups) (auto simp: list_all_iff group_ok_def)
  ultimately show ?thesis
    using rd(1) mem
    by (simp add: spdylay_frame_unpack_nv_def spdylay_frame_count_unpack_nv_space_def
        spdylay_buffer_length_def malloc_def pairs_of_groups)
qed

lemma nv_ok_names: "nv_ok ls nv \<Longrightarrow> \<forall>(k, v)\<in>set nv. k \<noteq> []"
proof -
  assume "nv_ok ls nv"
  then have "\<forall>(k, v)\<in>set (pairs_of (nv_groups nv)). k \<noteq> []"
    by (auto simp: nv_ok_def pairs_of_def list_all_iff group_ok_def)
  then show ?thesis by (simp add: pairs_of_groups)
qed

end
