(* ===== verification/Spdy_Frame.thy ===== *)
theory Spdy_Frame
  imports Spdy_Frame_NV
begin

text \<open>
  The frames of \<open>lib/spdylay_frame.c\<close> (and their structures in \<open>spdylay.h\<close>): one record per
  frame, the initialisers, and the packing and unpacking of every control frame. A frame
  buffer is a list as long as its capacity; a packed frame is its prefix of the returned
  length. \<open>niv\<close> and \<open>ncerts\<close> are the lengths of the lists they count, and the length of a
  memory chunk is that of its bytes. The \<open>frees\<close> have no counterpart.
\<close>

section \<open>Constants\<close>

definition SPDYLAY_SYN_STREAM :: u16 where [simp]: "SPDYLAY_SYN_STREAM = 1"
definition SPDYLAY_SYN_REPLY :: u16 where [simp]: "SPDYLAY_SYN_REPLY = 2"
definition SPDYLAY_RST_STREAM :: u16 where [simp]: "SPDYLAY_RST_STREAM = 3"
definition SPDYLAY_SETTINGS :: u16 where [simp]: "SPDYLAY_SETTINGS = 4"
definition SPDYLAY_NOOP :: u16 where [simp]: "SPDYLAY_NOOP = 5"
definition SPDYLAY_PING :: u16 where [simp]: "SPDYLAY_PING = 6"
definition SPDYLAY_GOAWAY :: u16 where [simp]: "SPDYLAY_GOAWAY = 7"
definition SPDYLAY_HEADERS :: u16 where [simp]: "SPDYLAY_HEADERS = 8"
definition SPDYLAY_WINDOW_UPDATE :: u16 where [simp]: "SPDYLAY_WINDOW_UPDATE = 9"
definition SPDYLAY_CREDENTIAL :: u16 where [simp]: "SPDYLAY_CREDENTIAL = 10"

definition SPDYLAY_CTRL_FLAG_FIN :: u8 where [simp]: "SPDYLAY_CTRL_FLAG_FIN = 1"
definition SPDYLAY_CTRL_FLAG_UNIDIRECTIONAL :: u8 where [simp]: "SPDYLAY_CTRL_FLAG_UNIDIRECTIONAL = 2"
definition SPDYLAY_DATA_FLAG_FIN :: u8 where [simp]: "SPDYLAY_DATA_FLAG_FIN = 1"

definition SPDYLAY_STREAM_ID_MASK :: u32 where "SPDYLAY_STREAM_ID_MASK = 0x7fffffff"
definition SPDYLAY_VERSION_MASK :: u16 where "SPDYLAY_VERSION_MASK = 0x7fff"
definition SPDYLAY_DELTA_WINDOW_SIZE_MASK :: u32 where "SPDYLAY_DELTA_WINDOW_SIZE_MASK = 0x7fffffff"
definition SPDYLAY_SETTINGS_ID_MASK :: u32 where "SPDYLAY_SETTINGS_ID_MASK = 0xffffff"

definition SPDYLAY_SYN_STREAM_NV_OFFSET :: nat where [simp]: "SPDYLAY_SYN_STREAM_NV_OFFSET = 18"

section \<open>Frame structures\<close>

record spdylay_ctrl_hd =
  hd_version :: u16
  hd_type :: u16
  hd_flags :: u8
  hd_length :: i32

record spdylay_syn_stream =
  ss_hd :: spdylay_ctrl_hd
  ss_stream_id :: i32
  ss_assoc_stream_id :: i32
  ss_pri :: u8
  ss_slot :: u8
  ss_nv :: "nv option"

record spdylay_syn_reply =
  sr_hd :: spdylay_ctrl_hd
  sr_stream_id :: i32
  sr_nv :: "nv option"

record spdylay_headers =
  hs_hd :: spdylay_ctrl_hd
  hs_stream_id :: i32
  hs_nv :: "nv option"

record spdylay_rst_stream =
  rs_hd :: spdylay_ctrl_hd
  rs_stream_id :: i32
  rs_status_code :: u32

record spdylay_settings_entry =
  se_settings_id :: i32
  se_flags :: u8
  se_value :: u32

record spdylay_settings =
  st_hd :: spdylay_ctrl_hd
  st_iv :: "spdylay_settings_entry list"

record spdylay_ping =
  pg_hd :: spdylay_ctrl_hd
  pg_unique_id :: u32

record spdylay_goaway =
  ga_hd :: spdylay_ctrl_hd
  ga_last_good_stream_id :: i32
  ga_status_code :: u32

record spdylay_window_update =
  wu_hd :: spdylay_ctrl_hd
  wu_stream_id :: i32
  wu_delta_window_size :: i32

record spdylay_credential =
  cr_hd :: spdylay_ctrl_hd
  cr_slot :: u16
  cr_proof :: bytes
  cr_certs :: "bytes list"

text \<open>A data provider: whether its read callback is set, and the source it reads from.\<close>

record spdylay_data_provider =
  dp_read_callback :: bool
  dp_source :: nat

record spdylay_data =
  da_stream_id :: i32
  da_flags :: u8
  da_eof :: bool
  da_data_prd :: spdylay_data_provider

datatype spdylay_frame =
  FSynStream spdylay_syn_stream
| FSynReply spdylay_syn_reply
| FRstStream spdylay_rst_stream
| FSettings spdylay_settings
| FPing spdylay_ping
| FGoaway spdylay_goaway
| FHeaders spdylay_headers
| FWindowUpdate spdylay_window_update
| FCredential spdylay_credential

fun frame_hd :: "spdylay_frame \<Rightarrow> spdylay_ctrl_hd" where
  "frame_hd (FSynStream f) = ss_hd f"
| "frame_hd (FSynReply f) = sr_hd f"
| "frame_hd (FRstStream f) = rs_hd f"
| "frame_hd (FSettings f) = st_hd f"
| "frame_hd (FPing f) = pg_hd f"
| "frame_hd (FGoaway f) = ga_hd f"
| "frame_hd (FHeaders f) = hs_hd f"
| "frame_hd (FWindowUpdate f) = wu_hd f"
| "frame_hd (FCredential f) = cr_hd f"

section \<open>Initialisers\<close>

definition mk_hd :: "u16 \<Rightarrow> u16 \<Rightarrow> u8 \<Rightarrow> i32 \<Rightarrow> spdylay_ctrl_hd" where
  [simp]: "mk_hd version type flags len =
     \<lparr>hd_version = version, hd_type = type, hd_flags = flags, hd_length = len\<rparr>"

definition spdylay_frame_syn_stream_init ::
    "u16 \<Rightarrow> u8 \<Rightarrow> i32 \<Rightarrow> i32 \<Rightarrow> u8 \<Rightarrow> nv \<Rightarrow> spdylay_syn_stream" where
  "spdylay_frame_syn_stream_init version flags stream_id assoc_stream_id pri nv =
     \<lparr>ss_hd = mk_hd version SPDYLAY_SYN_STREAM flags 0, ss_stream_id = stream_id,
      ss_assoc_stream_id = assoc_stream_id, ss_pri = pri, ss_slot = 0, ss_nv = Some nv\<rparr>"

definition spdylay_frame_syn_reply_init :: "u16 \<Rightarrow> u8 \<Rightarrow> i32 \<Rightarrow> nv \<Rightarrow> spdylay_syn_reply" where
  "spdylay_frame_syn_reply_init version flags stream_id nv =
     \<lparr>sr_hd = mk_hd version SPDYLAY_SYN_REPLY flags 0, sr_stream_id = stream_id, sr_nv = Some nv\<rparr>"

definition spdylay_frame_ping_init :: "u16 \<Rightarrow> u32 \<Rightarrow> spdylay_ping" where
  "spdylay_frame_ping_init version unique_id =
     \<lparr>pg_hd = mk_hd version SPDYLAY_PING 0 4, pg_unique_id = unique_id\<rparr>"

definition spdylay_frame_goaway_init :: "u16 \<Rightarrow> i32 \<Rightarrow> u32 \<Rightarrow> spdylay_goaway" where
  "spdylay_frame_goaway_init version last_good_stream_id status_code =
     \<lparr>ga_hd = mk_hd version SPDYLAY_GOAWAY 0
        (if version = SPDYLAY_PROTO_SPDY2 then 4 else if version = SPDYLAY_PROTO_SPDY3 then 8 else 0),
      ga_last_good_stream_id = last_good_stream_id,
      ga_status_code =
        (if version \<noteq> SPDYLAY_PROTO_SPDY2 \<and> version = SPDYLAY_PROTO_SPDY3 then status_code else 0)\<rparr>"

definition spdylay_frame_headers_init :: "u16 \<Rightarrow> u8 \<Rightarrow> i32 \<Rightarrow> nv \<Rightarrow> spdylay_headers" where
  "spdylay_frame_headers_init version flags stream_id nv =
     \<lparr>hs_hd = mk_hd version SPDYLAY_HEADERS flags 0, hs_stream_id = stream_id, hs_nv = Some nv\<rparr>"

definition spdylay_frame_rst_stream_init :: "u16 \<Rightarrow> i32 \<Rightarrow> u32 \<Rightarrow> spdylay_rst_stream" where
  "spdylay_frame_rst_stream_init version stream_id status_code =
     \<lparr>rs_hd = mk_hd version SPDYLAY_RST_STREAM 0 8, rs_stream_id = stream_id, rs_status_code = status_code\<rparr>"

definition spdylay_frame_window_update_init :: "u16 \<Rightarrow> i32 \<Rightarrow> i32 \<Rightarrow> spdylay_window_update" where
  "spdylay_frame_window_update_init version stream_id delta_window_size =
     \<lparr>wu_hd = mk_hd version SPDYLAY_WINDOW_UPDATE 0 8, wu_stream_id = stream_id,
      wu_delta_window_size = delta_window_size\<rparr>"

definition spdylay_frame_settings_init ::
    "u16 \<Rightarrow> u8 \<Rightarrow> spdylay_settings_entry list \<Rightarrow> spdylay_settings" where
  "spdylay_frame_settings_init version flags iv =
     \<lparr>st_hd = mk_hd version SPDYLAY_SETTINGS flags (of_nat (4 + length iv * 8)), st_iv = iv\<rparr>"

definition spdylay_frame_credential_init :: "u16 \<Rightarrow> u16 \<Rightarrow> bytes \<Rightarrow> bytes list \<Rightarrow> spdylay_credential" where
  "spdylay_frame_credential_init version slot proof certs =
     \<lparr>cr_hd = mk_hd version SPDYLAY_CREDENTIAL 0
        (foldl (\<lambda>n c. n + of_nat (4 + length c)) (of_nat (2 + 4 + length proof)) certs),
      cr_slot = slot, cr_proof = proof, cr_certs = certs\<rparr>"

definition spdylay_frame_data_init :: "i32 \<Rightarrow> u8 \<Rightarrow> spdylay_data_provider \<Rightarrow> spdylay_data" where
  "spdylay_frame_data_init stream_id flags data_prd =
     \<lparr>da_stream_id = stream_id, da_flags = flags, da_eof = False, da_data_prd = data_prd\<rparr>"

section \<open>The control frame header\<close>

definition spdylay_frame_pack_ctrl_hd :: "spdylay_ctrl_hd \<Rightarrow> bytes" where
  "spdylay_frame_pack_ctrl_hd h =
     (let v = spdylay_put_uint16be (hd_version h); l = spdylay_put_uint32be (hd_length h) in
      v[0 := v ! 0 OR 0x80] @ spdylay_put_uint16be (hd_type h) @ l[0 := hd_flags h])"

definition spdylay_frame_unpack_ctrl_hd :: "bytes \<Rightarrow> spdylay_ctrl_hd" where
  "spdylay_frame_unpack_ctrl_hd buf =
     \<lparr>hd_version = spdylay_get_uint16 buf AND SPDYLAY_VERSION_MASK,
      hd_type = spdylay_get_uint16 (drop 2 buf),
      hd_flags = buf ! 4,
      hd_length = spdylay_get_uint32 (drop 4 buf) AND SPDYLAY_LENGTH_MASK\<rparr>"

definition spdylay_unpack_pri :: "bytes \<Rightarrow> u8" where
  "spdylay_unpack_pri data = drop_bit 6 (data ! 0) AND 0x3"

definition spdylay_frame_nv_offset :: "u16 \<Rightarrow> u16 \<Rightarrow> int" where
  "spdylay_frame_nv_offset type version =
     (if type = SPDYLAY_SYN_STREAM then 18
      else if type = SPDYLAY_SYN_REPLY \<or> type = SPDYLAY_HEADERS then
        if version = SPDYLAY_PROTO_SPDY2 then 14
        else if version = SPDYLAY_PROTO_SPDY3 then 12 else -1
      else -1)"

section \<open>Frames with a header block\<close>

text \<open>
  The common part of the three packers: the block behind \<open>nv_offset\<close>, the length in the
  header, and the zeroed front with the control header. The result is the length of the
  frame, the header, the two buffers, the compressor and the allocator.
\<close>

definition pack_nv_front ::
    "'z zlib \<Rightarrow> mem \<Rightarrow> bytes \<Rightarrow> bytes \<Rightarrow> spdylay_ctrl_hd \<Rightarrow> nv option \<Rightarrow> nat \<Rightarrow> nat \<Rightarrow> 'z spdylay_zlib \<Rightarrow>
     (int \<times> spdylay_ctrl_hd \<times> bytes \<times> bytes \<times> 'z spdylay_zlib \<times> mem) option" where
  "pack_nv_front zl m buf nvbuf h nv nv_offset len_size deflater =
     do {
       nv' \<leftarrow> nv;
       (framelen, buf1, nvbuf1, deflater1, m1) \<leftarrow>
          spdylay_frame_alloc_pack_nv zl m buf nvbuf nv' nv_offset len_size deflater;
       if framelen < 0 then Some (framelen, h, buf1, nvbuf1, deflater1, m1)
       else
         let hd1 = h\<lparr>hd_length := of_int (framelen - int SPDYLAY_FRAME_HEAD_LENGTH)\<rparr>;
             buf2 = memcpy_at buf1 0 (replicate nv_offset 0);
             buf3 = memcpy_at buf2 0 (spdylay_frame_pack_ctrl_hd hd1) in
         Some (framelen, hd1, buf3, nvbuf1, deflater1, m1)
     }"

definition spdylay_frame_pack_syn_stream ::
    "'z zlib \<Rightarrow> mem \<Rightarrow> bytes \<Rightarrow> bytes \<Rightarrow> spdylay_syn_stream \<Rightarrow> 'z spdylay_zlib \<Rightarrow>
     (int \<times> spdylay_syn_stream \<times> bytes \<times> bytes \<times> 'z spdylay_zlib \<times> mem) option" where
  "spdylay_frame_pack_syn_stream zl m buf nvbuf frame deflater =
     (let len_size = spdylay_frame_get_len_size (hd_version (ss_hd frame)) in
      if len_size = 0 then Some (SPDYLAY_ERR_UNSUPPORTED_VERSION, frame, buf, nvbuf, deflater, m)
      else
        do {
          (framelen, hd1, buf1, nvbuf1, deflater1, m1) \<leftarrow>
             pack_nv_front zl m buf nvbuf (ss_hd frame) (ss_nv frame) SPDYLAY_SYN_STREAM_NV_OFFSET len_size deflater;
          if framelen < 0 then Some (framelen, frame, buf1, nvbuf1, deflater1, m1)
          else
            let buf2 = memcpy_at buf1 8 (spdylay_put_uint32be (ss_stream_id frame));
                buf3 = memcpy_at buf2 12 (spdylay_put_uint32be (ss_assoc_stream_id frame));
                buf4 = memcpy_at buf3 16 [push_bit 6 (ss_pri frame)];
                buf5 = (if hd_version hd1 = SPDYLAY_PROTO_SPDY3 then memcpy_at buf4 17 [ss_slot frame] else buf4) in
            Some (framelen, frame\<lparr>ss_hd := hd1\<rparr>, buf5, nvbuf1, deflater1, m1)
        })"

definition spdylay_frame_pack_syn_reply ::
    "'z zlib \<Rightarrow> mem \<Rightarrow> bytes \<Rightarrow> bytes \<Rightarrow> spdylay_syn_reply \<Rightarrow> 'z spdylay_zlib \<Rightarrow>
     (int \<times> spdylay_syn_reply \<times> bytes \<times> bytes \<times> 'z spdylay_zlib \<times> mem) option" where
  "spdylay_frame_pack_syn_reply zl m buf nvbuf frame deflater =
     (let len_size = spdylay_frame_get_len_size (hd_version (sr_hd frame)) in
      if len_size = 0 then Some (SPDYLAY_ERR_UNSUPPORTED_VERSION, frame, buf, nvbuf, deflater, m)
      else
        let nv_offset = spdylay_frame_nv_offset SPDYLAY_SYN_REPLY (hd_version (sr_hd frame)) in
        if \<not> nv_offset > 0 then None
        else
          do {
            (framelen, hd1, buf1, nvbuf1, deflater1, m1) \<leftarrow>
               pack_nv_front zl m buf nvbuf (sr_hd frame) (sr_nv frame) (nat nv_offset) len_size deflater;
            if framelen < 0 then Some (framelen, frame, buf1, nvbuf1, deflater1, m1)
            else Some (framelen, frame\<lparr>sr_hd := hd1\<rparr>,
              memcpy_at buf1 8 (spdylay_put_uint32be (sr_stream_id frame)), nvbuf1, deflater1, m1)
          })"

definition spdylay_frame_pack_headers ::
    "'z zlib \<Rightarrow> mem \<Rightarrow> bytes \<Rightarrow> bytes \<Rightarrow> spdylay_headers \<Rightarrow> 'z spdylay_zlib \<Rightarrow>
     (int \<times> spdylay_headers \<times> bytes \<times> bytes \<times> 'z spdylay_zlib \<times> mem) option" where
  "spdylay_frame_pack_headers zl m buf nvbuf frame deflater =
     (let len_size = spdylay_frame_get_len_size (hd_version (hs_hd frame)) in
      if len_size = 0 then Some (SPDYLAY_ERR_UNSUPPORTED_VERSION, frame, buf, nvbuf, deflater, m)
      else
        let nv_offset = spdylay_frame_nv_offset SPDYLAY_HEADERS (hd_version (hs_hd frame)) in
        if \<not> nv_offset > 0 then None
        else
          do {
            (framelen, hd1, buf1, nvbuf1, deflater1, m1) \<leftarrow>
               pack_nv_front zl m buf nvbuf (hs_hd frame) (hs_nv frame) (nat nv_offset) len_size deflater;
            if framelen < 0 then Some (framelen, frame, buf1, nvbuf1, deflater1, m1)
            else Some (framelen, frame\<lparr>hs_hd := hd1\<rparr>,
              memcpy_at buf1 8 (spdylay_put_uint32be (hs_stream_id frame)), nvbuf1, deflater1, m1)
          })"

text \<open>
  Unpacking gives the return value and the frame as far as it is assigned. An \<open>assert\<close> on
  the offset of the header block is \<open>None\<close>.
\<close>

definition spdylay_frame_unpack_syn_stream_without_nv ::
    "bytes \<Rightarrow> bytes \<Rightarrow> int \<times> spdylay_syn_stream" where
  "spdylay_frame_unpack_syn_stream_without_nv head payload =
     (let hd = spdylay_frame_unpack_ctrl_hd head;
          frame0 = \<lparr>ss_hd = hd, ss_stream_id = 0, ss_assoc_stream_id = 0, ss_pri = 0, ss_slot = 0, ss_nv = None\<rparr> in
      if length head + length payload \<noteq> SPDYLAY_SYN_STREAM_NV_OFFSET
      then (SPDYLAY_ERR_INVALID_FRAME, frame0)
      else (0, frame0\<lparr>ss_stream_id := spdylay_get_uint32 payload AND SPDYLAY_STREAM_ID_MASK,
                      ss_assoc_stream_id := spdylay_get_uint32 (drop 4 payload) AND SPDYLAY_STREAM_ID_MASK,
                      ss_pri := spdylay_unpack_pri (drop 8 payload),
                      ss_slot := (if hd_version hd = SPDYLAY_PROTO_SPDY3 then payload ! 9 else 0)\<rparr>))"

definition spdylay_frame_unpack_syn_stream ::
    "mem \<Rightarrow> bytes \<Rightarrow> bytes \<Rightarrow> spdylay_buffer \<Rightarrow> (int \<times> spdylay_syn_stream \<times> mem) option" where
  "spdylay_frame_unpack_syn_stream m head payload inflatebuf =
     (case spdylay_frame_unpack_syn_stream_without_nv head payload of (r, frame) \<Rightarrow>
        let len_size = spdylay_frame_get_len_size (hd_version (ss_hd frame)) in
        if len_size = 0 then Some (SPDYLAY_ERR_UNSUPPORTED_VERSION, frame, m)
        else if r = 0 then
          do {
            (r1, nv, m1) \<leftarrow> spdylay_frame_unpack_nv m inflatebuf len_size;
            Some (r1, frame\<lparr>ss_nv := nv\<rparr>, m1)
          }
        else Some (r, frame, m))"

definition spdylay_frame_unpack_syn_reply_without_nv ::
    "bytes \<Rightarrow> bytes \<Rightarrow> (int \<times> spdylay_syn_reply) option" where
  "spdylay_frame_unpack_syn_reply_without_nv head payload =
     (let hd = spdylay_frame_unpack_ctrl_hd head;
          frame0 = \<lparr>sr_hd = hd, sr_stream_id = 0, sr_nv = None\<rparr>;
          nv_offset = spdylay_frame_nv_offset SPDYLAY_SYN_REPLY (hd_version hd) in
      if \<not> nv_offset > 0 then None
      else if int (length head + length payload) \<noteq> nv_offset then Some (SPDYLAY_ERR_INVALID_FRAME, frame0)
      else Some (0, frame0\<lparr>sr_stream_id := spdylay_get_uint32 payload AND SPDYLAY_STREAM_ID_MASK\<rparr>))"

definition spdylay_frame_unpack_syn_reply ::
    "mem \<Rightarrow> bytes \<Rightarrow> bytes \<Rightarrow> spdylay_buffer \<Rightarrow> (int \<times> spdylay_syn_reply \<times> mem) option" where
  "spdylay_frame_unpack_syn_reply m head payload inflatebuf =
     do {
       (r, frame) \<leftarrow> spdylay_frame_unpack_syn_reply_without_nv head payload;
       if r = 0 then
         let len_size = spdylay_frame_get_len_size (hd_version (sr_hd frame)) in
         if len_size = 0 then Some (SPDYLAY_ERR_UNSUPPORTED_VERSION, frame, m)
         else
           do {
             (r1, nv, m1) \<leftarrow> spdylay_frame_unpack_nv m inflatebuf len_size;
             Some (r1, frame\<lparr>sr_nv := nv\<rparr>, m1)
           }
       else Some (r, frame, m)
     }"

definition spdylay_frame_unpack_headers_without_nv ::
    "bytes \<Rightarrow> bytes \<Rightarrow> (int \<times> spdylay_headers) option" where
  "spdylay_frame_unpack_headers_without_nv head payload =
     (let hd = spdylay_frame_unpack_ctrl_hd head;
          frame0 = \<lparr>hs_hd = hd, hs_stream_id = 0, hs_nv = None\<rparr>;
          nv_offset = spdylay_frame_nv_offset SPDYLAY_HEADERS (hd_version hd) in
      if \<not> nv_offset > 0 then None
      else if int (length head + length payload) \<noteq> nv_offset then Some (SPDYLAY_ERR_INVALID_FRAME, frame0)
      else Some (0, frame0\<lparr>hs_stream_id := spdylay_get_uint32 payload AND SPDYLAY_STREAM_ID_MASK\<rparr>))"

definition spdylay_frame_unpack_headers ::
    "mem \<Rightarrow> bytes \<Rightarrow> bytes \<Rightarrow> spdylay_buffer \<Rightarrow> (int \<times> spdylay_headers \<times> mem) option" where
  "spdylay_frame_unpack_headers m head payload inflatebuf =
     do {
       (r, frame) \<leftarrow> spdylay_frame_unpack_headers_without_nv head payload;
       if r = 0 then
         let len_size = spdylay_frame_get_len_size (hd_version (hs_hd frame)) in
         if len_size = 0 then Some (SPDYLAY_ERR_UNSUPPORTED_VERSION, frame, m)
         else
           do {
             (r1, nv, m1) \<leftarrow> spdylay_frame_unpack_nv m inflatebuf len_size;
             Some (r1, frame\<lparr>hs_nv := nv\<rparr>, m1)
           }
       else Some (r, frame, m)
     }"

section \<open>Frames without a header block\<close>

definition spdylay_frame_pack_ping :: "mem \<Rightarrow> bytes \<Rightarrow> spdylay_ping \<Rightarrow> int \<times> bytes \<times> mem" where
  "spdylay_frame_pack_ping m buf frame =
     (case spdylay_reserve_buffer m buf 12 of (r, buf1, m1) \<Rightarrow>
        if r \<noteq> 0 then (r, buf1, m1)
        else
          let buf2 = memcpy_at buf1 0 (replicate 12 0);
              buf3 = memcpy_at buf2 0 (spdylay_frame_pack_ctrl_hd (pg_hd frame));
              buf4 = memcpy_at buf3 8 (spdylay_put_uint32be (pg_unique_id frame)) in
          (12, buf4, m1))"

definition spdylay_frame_unpack_ping :: "bytes \<Rightarrow> bytes \<Rightarrow> int + spdylay_ping" where
  "spdylay_frame_unpack_ping head payload =
     (if length payload \<noteq> 4 then Inl SPDYLAY_ERR_INVALID_FRAME
      else Inr \<lparr>pg_hd = spdylay_frame_unpack_ctrl_hd head, pg_unique_id = spdylay_get_uint32 payload\<rparr>)"

definition spdylay_frame_pack_goaway :: "mem \<Rightarrow> bytes \<Rightarrow> spdylay_goaway \<Rightarrow> int \<times> bytes \<times> mem" where
  "spdylay_frame_pack_goaway m buf frame =
     (let version = hd_version (ga_hd frame) in
      if version \<noteq> SPDYLAY_PROTO_SPDY2 \<and> version \<noteq> SPDYLAY_PROTO_SPDY3
      then (SPDYLAY_ERR_UNSUPPORTED_VERSION, buf, m)
      else
        let framelen = (if version = SPDYLAY_PROTO_SPDY2 then 12 else 16) in
        case spdylay_reserve_buffer m buf framelen of (r, buf1, m1) \<Rightarrow>
        if r \<noteq> 0 then (r, buf1, m1)
        else
          let buf2 = memcpy_at buf1 0 (replicate framelen 0);
              buf3 = memcpy_at buf2 0 (spdylay_frame_pack_ctrl_hd (ga_hd frame));
              buf4 = memcpy_at buf3 8 (spdylay_put_uint32be (ga_last_good_stream_id frame));
              buf5 = (if version = SPDYLAY_PROTO_SPDY3
                      then memcpy_at buf4 12 (spdylay_put_uint32be (ga_status_code frame)) else buf4) in
          (int framelen, buf5, m1))"

definition spdylay_frame_unpack_goaway :: "bytes \<Rightarrow> bytes \<Rightarrow> int + spdylay_goaway" where
  "spdylay_frame_unpack_goaway head payload =
     (let hd = spdylay_frame_unpack_ctrl_hd head;
          frame = \<lparr>ga_hd = hd,
             ga_last_good_stream_id = spdylay_get_uint32 payload AND SPDYLAY_STREAM_ID_MASK,
             ga_status_code =
               (if hd_version hd = SPDYLAY_PROTO_SPDY3 then spdylay_get_uint32 (drop 4 payload) else 0)\<rparr> in
      if hd_version hd = SPDYLAY_PROTO_SPDY2 then
        if length payload \<noteq> 4 then Inl SPDYLAY_ERR_INVALID_FRAME else Inr frame
      else if hd_version hd = SPDYLAY_PROTO_SPDY3 then
        if length payload \<noteq> 8 then Inl SPDYLAY_ERR_INVALID_FRAME else Inr frame
      else Inl SPDYLAY_ERR_UNSUPPORTED_VERSION)"

text \<open>RST_STREAM and WINDOW_UPDATE: a header and two 32-bit fields.\<close>

definition pack_two_words ::
    "mem \<Rightarrow> bytes \<Rightarrow> spdylay_ctrl_hd \<Rightarrow> u32 \<Rightarrow> u32 \<Rightarrow> int \<times> bytes \<times> mem" where
  "pack_two_words m buf h a b =
     (case spdylay_reserve_buffer m buf 16 of (r, buf1, m1) \<Rightarrow>
        if r \<noteq> 0 then (r, buf1, m1)
        else
          let buf2 = memcpy_at buf1 0 (replicate 16 0);
              buf3 = memcpy_at buf2 0 (spdylay_frame_pack_ctrl_hd h);
              buf4 = memcpy_at buf3 8 (spdylay_put_uint32be a);
              buf5 = memcpy_at buf4 12 (spdylay_put_uint32be b) in
          (16, buf5, m1))"

definition spdylay_frame_pack_rst_stream :: "mem \<Rightarrow> bytes \<Rightarrow> spdylay_rst_stream \<Rightarrow> int \<times> bytes \<times> mem" where
  "spdylay_frame_pack_rst_stream m buf frame =
     pack_two_words m buf (rs_hd frame) (rs_stream_id frame) (rs_status_code frame)"

definition spdylay_frame_unpack_rst_stream :: "bytes \<Rightarrow> bytes \<Rightarrow> int + spdylay_rst_stream" where
  "spdylay_frame_unpack_rst_stream head payload =
     (if length payload \<noteq> 8 then Inl SPDYLAY_ERR_INVALID_FRAME
      else Inr \<lparr>rs_hd = spdylay_frame_unpack_ctrl_hd head,
                rs_stream_id = spdylay_get_uint32 payload AND SPDYLAY_STREAM_ID_MASK,
                rs_status_code = spdylay_get_uint32 (drop 4 payload)\<rparr>)"

definition spdylay_frame_pack_window_update ::
    "mem \<Rightarrow> bytes \<Rightarrow> spdylay_window_update \<Rightarrow> int \<times> bytes \<times> mem" where
  "spdylay_frame_pack_window_update m buf frame =
     pack_two_words m buf (wu_hd frame) (wu_stream_id frame) (wu_delta_window_size frame)"

definition spdylay_frame_unpack_window_update :: "bytes \<Rightarrow> bytes \<Rightarrow> int + spdylay_window_update" where
  "spdylay_frame_unpack_window_update head payload =
     (if length payload \<noteq> 8 then Inl SPDYLAY_ERR_INVALID_FRAME
      else Inr \<lparr>wu_hd = spdylay_frame_unpack_ctrl_hd head,
                wu_stream_id = spdylay_get_uint32 payload AND SPDYLAY_STREAM_ID_MASK,
                wu_delta_window_size =
                  spdylay_get_uint32 (drop 4 payload) AND SPDYLAY_DELTA_WINDOW_SIZE_MASK\<rparr>)"

subsection \<open>SETTINGS\<close>

text \<open>One entry: SPDY/2 has the ID in little endian before the flags, SPDY/3 after them.\<close>

definition pack_settings_entry :: "u16 \<Rightarrow> spdylay_settings_entry \<Rightarrow> bytes" where
  "pack_settings_entry version e =
     (if version = SPDYLAY_PROTO_SPDY2 then
        [ucast (se_settings_id e AND 0xff), ucast (drop_bit 8 (se_settings_id e) AND 0xff),
         ucast (drop_bit 16 (se_settings_id e) AND 0xff), se_flags e] @ spdylay_put_uint32be (se_value e)
      else
        (spdylay_put_uint32be (se_settings_id e))[0 := se_flags e] @ spdylay_put_uint32be (se_value e))"

fun pack_settings_loop :: "u16 \<Rightarrow> bytes \<Rightarrow> nat \<Rightarrow> spdylay_settings_entry list \<Rightarrow> bytes" where
  "pack_settings_loop version buf i [] = buf"
| "pack_settings_loop version buf i (e # iv) =
     pack_settings_loop version (memcpy_at buf (12 + i * 8) (pack_settings_entry version e)) (i + 1) iv"

definition spdylay_frame_pack_settings :: "mem \<Rightarrow> bytes \<Rightarrow> spdylay_settings \<Rightarrow> int \<times> bytes \<times> mem" where
  "spdylay_frame_pack_settings m buf frame =
     (let framelen = nat (int SPDYLAY_FRAME_HEAD_LENGTH + sint (hd_length (st_hd frame)));
          version = hd_version (st_hd frame) in
      if version \<noteq> SPDYLAY_PROTO_SPDY2 \<and> version \<noteq> SPDYLAY_PROTO_SPDY3
      then (SPDYLAY_ERR_UNSUPPORTED_VERSION, buf, m)
      else
        case spdylay_reserve_buffer m buf framelen of (r, buf1, m1) \<Rightarrow>
        if r \<noteq> 0 then (r, buf1, m1)
        else
          let buf2 = memcpy_at buf1 0 (replicate framelen 0);
              buf3 = memcpy_at buf2 0 (spdylay_frame_pack_ctrl_hd (st_hd frame));
              buf4 = memcpy_at buf3 8 (spdylay_put_uint32be (of_nat (length (st_iv frame)))) in
          (int framelen, pack_settings_loop version buf4 0 (st_iv frame), m1))"

definition unpack_settings_entry :: "u16 \<Rightarrow> bytes \<Rightarrow> spdylay_settings_entry" where
  "unpack_settings_entry version p =
     (if version = SPDYLAY_PROTO_SPDY2 then
        \<lparr>se_settings_id = ucast (p ! 0) + push_bit 8 (ucast (p ! 1)) + push_bit 16 (ucast (p ! 2)),
         se_flags = p ! 3, se_value = spdylay_get_uint32 (drop 4 p)\<rparr>
      else
        \<lparr>se_settings_id = spdylay_get_uint32 p AND SPDYLAY_SETTINGS_ID_MASK,
         se_flags = p ! 0, se_value = spdylay_get_uint32 (drop 4 p)\<rparr>)"

definition spdylay_frame_unpack_settings ::
    "mem \<Rightarrow> bytes \<Rightarrow> bytes \<Rightarrow> (int + spdylay_settings) \<times> mem" where
  "spdylay_frame_unpack_settings m head payload =
     (if length payload < 4 then (Inl SPDYLAY_ERR_INVALID_FRAME, m)
      else
        let hd = spdylay_frame_unpack_ctrl_hd head; version = hd_version hd in
        if version \<noteq> SPDYLAY_PROTO_SPDY2 \<and> version \<noteq> SPDYLAY_PROTO_SPDY3
        then (Inl SPDYLAY_ERR_UNSUPPORTED_VERSION, m)
        else
          let niv = unat (spdylay_get_uint32 payload) in
          if length payload \<noteq> 4 + niv * 8 then (Inl SPDYLAY_ERR_INVALID_FRAME, m)
          else
            case malloc m of (ok, m1) \<Rightarrow>
            if \<not> ok then (Inl SPDYLAY_ERR_NOMEM, m1)
            else (Inr \<lparr>st_hd = hd,
              st_iv = map (\<lambda>i. unpack_settings_entry version (drop (4 + i * 8) payload)) [0..<niv]\<rparr>, m1))"

definition spdylay_frame_iv_copy ::
    "mem \<Rightarrow> spdylay_settings_entry list \<Rightarrow> spdylay_settings_entry list option \<times> mem" where
  "spdylay_frame_iv_copy m iv = (case malloc m of (ok, m1) \<Rightarrow> (if ok then Some iv else None, m1))"

definition spdylay_frame_iv_sort :: "spdylay_settings_entry list \<Rightarrow> spdylay_settings_entry list" where
  "spdylay_frame_iv_sort iv = sort_key (\<lambda>e. sint (se_settings_id e)) iv"

subsection \<open>CREDENTIAL\<close>

fun pack_certs :: "bytes \<Rightarrow> nat \<Rightarrow> bytes list \<Rightarrow> bytes" where
  "pack_certs buf off [] = buf"
| "pack_certs buf off (c # cs) =
     pack_certs (memcpy_at (memcpy_at buf off (spdylay_put_uint32be (of_nat (length c)))) (off + 4) c)
       (off + 4 + length c) cs"

definition spdylay_frame_pack_credential ::
    "mem \<Rightarrow> bytes \<Rightarrow> spdylay_credential \<Rightarrow> int \<times> bytes \<times> mem" where
  "spdylay_frame_pack_credential m buf frame =
     (let proof = cr_proof frame;
          framelen = foldl (\<lambda>n c. n + (4 + length c)) (SPDYLAY_FRAME_HEAD_LENGTH + 2 + 4 + length proof) (cr_certs frame) in
      case spdylay_reserve_buffer m buf framelen of (r, buf1, m1) \<Rightarrow>
      if r \<noteq> 0 then (r, buf1, m1)
      else
        let buf2 = memcpy_at buf1 0 (replicate framelen 0);
            buf3 = memcpy_at buf2 0 (spdylay_frame_pack_ctrl_hd (cr_hd frame));
            buf4 = memcpy_at buf3 8 (spdylay_put_uint16be (cr_slot frame));
            buf5 = memcpy_at buf4 10 (spdylay_put_uint32be (of_nat (length proof)));
            buf6 = memcpy_at buf5 14 proof in
        (int framelen, pack_certs buf6 (14 + length proof) (cr_certs frame), m1))"

text \<open>The number of certificates, or an error when they do not fill the payload exactly.\<close>

function count_unpack_cert_from :: "bytes \<Rightarrow> nat \<Rightarrow> nat \<Rightarrow> int" where
  "count_unpack_cert_from payload n offset =
     (if offset + 4 > length payload then SPDYLAY_ERR_INVALID_FRAME
      else
        let len = unat (spdylay_get_uint32 (drop offset payload)) in
        if len > length payload \<or> offset + 4 + len > length payload then SPDYLAY_ERR_INVALID_FRAME
        else if offset + 4 + len = length payload then int n
        else count_unpack_cert_from payload (n + 1) (offset + 4 + len))"
  by pat_completeness auto
termination by (relation "measure (\<lambda>(payload, n, offset). length payload - offset)") auto

declare count_unpack_cert_from.simps [simp del]

definition spdylay_frame_count_unpack_cert :: "bytes \<Rightarrow> int" where
  "spdylay_frame_count_unpack_cert payload = count_unpack_cert_from payload 1 0"

fun unpack_cert_loop :: "mem \<Rightarrow> bytes \<Rightarrow> nat \<Rightarrow> nat \<Rightarrow> (int + bytes list) \<times> mem" where
  "unpack_cert_loop m payload 0 offset = (Inr [], m)"
| "unpack_cert_loop m payload (Suc n) offset =
     (let len = unat (spdylay_get_uint32 (drop offset payload)) in
      case malloc m of (ok, m1) \<Rightarrow>
      if \<not> ok then (Inl SPDYLAY_ERR_NOMEM, m1)
      else
        case unpack_cert_loop m1 payload n (offset + 4 + len) of
          (Inl e, m2) \<Rightarrow> (Inl e, m2)
        | (Inr cs, m2) \<Rightarrow> (Inr (take len (drop (offset + 4) payload) # cs), m2))"

definition spdylay_frame_unpack_cert :: "mem \<Rightarrow> nat \<Rightarrow> bytes \<Rightarrow> (int + bytes list) \<times> mem" where
  "spdylay_frame_unpack_cert m ncerts payload =
     (case malloc m of (ok, m1) \<Rightarrow>
        if \<not> ok then (Inl SPDYLAY_ERR_NOMEM, m1) else unpack_cert_loop m1 payload ncerts 0)"

definition spdylay_frame_unpack_credential ::
    "mem \<Rightarrow> bytes \<Rightarrow> bytes \<Rightarrow> (int + spdylay_credential) \<times> mem" where
  "spdylay_frame_unpack_credential m head payload =
     (if length payload < 10 then (Inl SPDYLAY_ERR_INVALID_FRAME, m)
      else
        let prooflen = unat (spdylay_get_uint32 (drop 2 payload)) in
        if prooflen > length payload \<or> 6 + prooflen > length payload then (Inl SPDYLAY_ERR_INVALID_FRAME, m)
        else
          case malloc m of (ok, m1) \<Rightarrow>
          if \<not> ok then (Inl SPDYLAY_ERR_NOMEM, m1)
          else
            let rest = drop (6 + prooflen) payload; rv = spdylay_frame_count_unpack_cert rest in
            if rv < 0 then (Inl rv, m1)
            else
              case spdylay_frame_unpack_cert m1 (nat rv) rest of
                (Inl e, m2) \<Rightarrow> (Inl e, m2)
              | (Inr certs, m2) \<Rightarrow>
                  (Inr \<lparr>cr_hd = spdylay_frame_unpack_ctrl_hd head, cr_slot = spdylay_get_uint16 payload,
                        cr_proof = take prooflen (drop 6 payload), cr_certs = certs\<rparr>, m2))"

section \<open>Packed frames\<close>

text \<open>Writes into a zeroed buffer, one after the other.\<close>

lemma memcpy_zero: "n \<le> length buf \<Longrightarrow> memcpy_at buf 0 (replicate n 0) = replicate n 0 @ drop n buf"
  by (simp add: memcpy_at_def)

lemma memcpy_next:
  assumes "length pre = k" "length src \<le> n"
  shows "memcpy_at (pre @ replicate n 0 @ post) k src = (pre @ src) @ replicate (n - length src) 0 @ post"
  using assms by (simp add: memcpy_at_def)

lemma memcpy_first:
  "length src \<le> n \<Longrightarrow> memcpy_at (replicate n 0 @ post) 0 src = src @ replicate (n - length src) 0 @ post"
  using memcpy_next [of "[]" 0 src n post] by simp

lemma length_pack_ctrl_hd [simp]: "length (spdylay_frame_pack_ctrl_hd h) = 8"
  by (simp add: spdylay_frame_pack_ctrl_hd_def Let_def)

text \<open>A header whose version fits in 15 and whose length fits in 24 bits.\<close>

definition hd_ok :: "spdylay_ctrl_hd \<Rightarrow> bool" where
  "hd_ok h \<longleftrightarrow> hd_version h AND SPDYLAY_VERSION_MASK = hd_version h \<and>
     hd_length h AND SPDYLAY_LENGTH_MASK = hd_length h"

lemma get_version_bits:
  "spdylay_get_uint16 ((spdylay_put_uint16be v)[0 := spdylay_put_uint16be v ! 0 OR 0x80] @ rest) AND SPDYLAY_VERSION_MASK
   = v AND SPDYLAY_VERSION_MASK"
proof (rule bit_word_eqI)
  fix i assume "i < LENGTH(16)"
  have mask: "SPDYLAY_VERSION_MASK = mask 15" by (simp add: SPDYLAY_VERSION_MASK_def mask_eq_exp_minus_1)
  have top: "(0x80 :: u8) = push_bit 7 1" by simp
  consider "i < 8" | "8 \<le> i" "i < 15" | "15 \<le> i" by fastforce
  then show "bit (spdylay_get_uint16 ((spdylay_put_uint16be v)[0 := spdylay_put_uint16be v ! 0 OR 0x80] @ rest)
      AND SPDYLAY_VERSION_MASK) i \<longleftrightarrow> bit (v AND SPDYLAY_VERSION_MASK) i"
    unfolding mask top
    by cases (auto simp: spdylay_get_uint16_def spdylay_put_uint16be_def bit_simps simp del: push_bit_of_1)
qed

lemma get_length_bits:
  "spdylay_get_uint32 ((spdylay_put_uint32be n)[0 := f] @ rest) AND SPDYLAY_LENGTH_MASK
   = n AND SPDYLAY_LENGTH_MASK"
proof (rule bit_word_eqI)
  fix i assume "i < LENGTH(32)"
  have mask: "SPDYLAY_LENGTH_MASK = mask 24" by (simp add: SPDYLAY_LENGTH_MASK_def mask_eq_exp_minus_1)
  consider "i < 8" | "8 \<le> i" "i < 16" | "16 \<le> i" "i < 24" | "24 \<le> i" by fastforce
  then show "bit (spdylay_get_uint32 ((spdylay_put_uint32be n)[0 := f] @ rest) AND SPDYLAY_LENGTH_MASK) i \<longleftrightarrow>
      bit (n AND SPDYLAY_LENGTH_MASK) i"
    unfolding mask
    by cases (auto simp: spdylay_get_uint32_def spdylay_put_uint32be_def bit_simps)
qed

lemma unpack_pack_ctrl_hd:
  assumes "hd_ok h"
  shows "spdylay_frame_unpack_ctrl_hd (spdylay_frame_pack_ctrl_hd h @ rest) = h"
proof -
  have d2: "drop 2 (spdylay_frame_pack_ctrl_hd h @ rest) =
      spdylay_put_uint16be (hd_type h) @ (spdylay_put_uint32be (hd_length h))[0 := hd_flags h] @ rest"
    by (simp add: spdylay_frame_pack_ctrl_hd_def Let_def)
  have d4: "drop 4 (spdylay_frame_pack_ctrl_hd h @ rest) = (spdylay_put_uint32be (hd_length h))[0 := hd_flags h] @ rest"
    by (simp add: spdylay_frame_pack_ctrl_hd_def Let_def)
  have "(spdylay_frame_pack_ctrl_hd h @ rest) ! 4 = hd_flags h"
    by (simp add: spdylay_frame_pack_ctrl_hd_def Let_def nth_append spdylay_put_uint32be_def)
  moreover have "spdylay_get_uint16 (spdylay_frame_pack_ctrl_hd h @ rest) AND SPDYLAY_VERSION_MASK = hd_version h"
    using assms get_version_bits by (simp add: hd_ok_def spdylay_frame_pack_ctrl_hd_def Let_def)
  ultimately show ?thesis
    using assms unfolding spdylay_frame_unpack_ctrl_hd_def d2 d4
    by (simp add: get_length_bits hd_ok_def)
qed

lemma unpack_pack_ctrl_hd' [simp]:
  "hd_ok h \<Longrightarrow> spdylay_frame_unpack_ctrl_hd (spdylay_frame_pack_ctrl_hd h) = h"
  using unpack_pack_ctrl_hd [of h "[]"] by simp

text \<open>Reserving room for a frame: either the allocation fails or the buffer is long enough.\<close>

lemma reserve_frame_cases:
  assumes "spdylay_reserve_buffer m buf n = (r, buf1, m1)"
  obtains (ok) "r = 0" "n \<le> length buf1" | (nomem) "r = SPDYLAY_ERR_NOMEM" "buf1 = buf"
  using assms round_up_4096_ge [of n] by (cases rule: reserve_buffer_cases) auto

lemma pack_ping_wire:
  assumes "spdylay_frame_pack_ping m buf frame = (r, buf', m')" "r \<ge> 0"
  shows "r = 12" "take 12 buf' = spdylay_frame_pack_ctrl_hd (pg_hd frame) @ spdylay_put_uint32be (pg_unique_id frame)"
proof -
  obtain r1 buf1 m1 where res: "spdylay_reserve_buffer m buf 12 = (r1, buf1, m1)" by (metis prod_cases3)
  have *: "r = 12 \<and> take 12 buf' = spdylay_frame_pack_ctrl_hd (pg_hd frame) @
      spdylay_put_uint32be (pg_unique_id frame)"
    by (cases rule: reserve_frame_cases [OF res])
      (use res assms in \<open>auto simp: spdylay_frame_pack_ping_def Let_def memcpy_zero memcpy_first memcpy_next\<close>)
  then show "r = 12" "take 12 buf' = spdylay_frame_pack_ctrl_hd (pg_hd frame) @
      spdylay_put_uint32be (pg_unique_id frame)" by auto
qed

lemma pack_two_words_wire:
  assumes "pack_two_words m buf h a b = (r, buf', m')" "r \<ge> 0"
  shows "r = 16" "take 16 buf' = spdylay_frame_pack_ctrl_hd h @ spdylay_put_uint32be a @ spdylay_put_uint32be b"
proof -
  obtain r1 buf1 m1 where res: "spdylay_reserve_buffer m buf 16 = (r1, buf1, m1)" by (metis prod_cases3)
  have next2: "memcpy_at (a @ b @ replicate n 0 @ post) k src = (a @ b @ src) @ replicate (n - length src) 0 @ post"
    if "length a + length b = k" "length src \<le> n" for a b src post :: bytes and n k
    using memcpy_next [of "a @ b" k src n post] that by simp
  have *: "r = 16 \<and> take 16 buf' = spdylay_frame_pack_ctrl_hd h @
      spdylay_put_uint32be a @ spdylay_put_uint32be b"
    by (cases rule: reserve_frame_cases [OF res])
      (use res assms in \<open>auto simp: pack_two_words_def Let_def memcpy_zero memcpy_first memcpy_next next2\<close>)
  then show "r = 16" "take 16 buf' = spdylay_frame_pack_ctrl_hd h @
      spdylay_put_uint32be a @ spdylay_put_uint32be b" by auto
qed

lemma pack_goaway_wire:
  assumes "spdylay_frame_pack_goaway m buf frame = (r, buf', m')" "r \<ge> 0"
  shows "take (nat r) buf' = spdylay_frame_pack_ctrl_hd (ga_hd frame) @
      spdylay_put_uint32be (ga_last_good_stream_id frame) @
      (if hd_version (ga_hd frame) = SPDYLAY_PROTO_SPDY3 then spdylay_put_uint32be (ga_status_code frame) else [])"
    "r = (if hd_version (ga_hd frame) = SPDYLAY_PROTO_SPDY2 then 12 else 16)"
    "hd_version (ga_hd frame) = SPDYLAY_PROTO_SPDY2 \<or> hd_version (ga_hd frame) = SPDYLAY_PROTO_SPDY3"
proof -
  let ?n = "if hd_version (ga_hd frame) = SPDYLAY_PROTO_SPDY2 then 12 else 16"
  have next2: "memcpy_at (a @ b @ replicate n 0 @ post) k src = (a @ b @ src) @ replicate (n - length src) 0 @ post"
    if "length a + length b = k" "length src \<le> n" for a b src post :: bytes and n k
    using memcpy_next [of "a @ b" k src n post] that by simp
  have neq: "SPDYLAY_PROTO_SPDY2 \<noteq> SPDYLAY_PROTO_SPDY3"
    by (simp add: SPDYLAY_PROTO_SPDY2_def SPDYLAY_PROTO_SPDY3_def)
  obtain r1 buf1 m1 where res: "spdylay_reserve_buffer m buf ?n = (r1, buf1, m1)" by (metis prod_cases3)
  show v: "hd_version (ga_hd frame) = SPDYLAY_PROTO_SPDY2 \<or> hd_version (ga_hd frame) = SPDYLAY_PROTO_SPDY3"
    using assms by (auto simp: spdylay_frame_pack_goaway_def Let_def split: if_splits)
  from res have "r = ?n \<and> take (nat r) buf' = spdylay_frame_pack_ctrl_hd (ga_hd frame) @
      spdylay_put_uint32be (ga_last_good_stream_id frame) @
      (if hd_version (ga_hd frame) = SPDYLAY_PROTO_SPDY3 then spdylay_put_uint32be (ga_status_code frame) else [])"
  proof (cases rule: reserve_frame_cases)
    case ok
    from v consider "hd_version (ga_hd frame) = SPDYLAY_PROTO_SPDY2" | "hd_version (ga_hd frame) = SPDYLAY_PROTO_SPDY3"
      by blast
    then show ?thesis
      using ok assms res neq
      by cases (auto simp: spdylay_frame_pack_goaway_def Let_def memcpy_zero memcpy_first memcpy_next next2)
  next
    case nomem
    then show ?thesis using v assms res neq by (auto simp: spdylay_frame_pack_goaway_def Let_def)
  qed
  then show "r = ?n" "take (nat r) buf' = spdylay_frame_pack_ctrl_hd (ga_hd frame) @
      spdylay_put_uint32be (ga_last_good_stream_id frame) @
      (if hd_version (ga_hd frame) = SPDYLAY_PROTO_SPDY3 then spdylay_put_uint32be (ga_status_code frame) else [])"
    by auto
qed

lemma drop_pack_ctrl_hd [simp]:
  "take 8 (spdylay_frame_pack_ctrl_hd h @ rest) = spdylay_frame_pack_ctrl_hd h"
  "drop 8 (spdylay_frame_pack_ctrl_hd h @ rest) = rest"
  by simp_all

subsection \<open>SETTINGS entries\<close>

lemma length_pack_settings_entry [simp]: "length (pack_settings_entry version e) = 8"
  by (simp add: pack_settings_entry_def)

definition entry_ok :: "spdylay_settings_entry \<Rightarrow> bool" where
  "entry_ok e \<longleftrightarrow> se_settings_id e AND SPDYLAY_SETTINGS_ID_MASK = se_settings_id e"

lemma settings_id_le:
  "ucast (ucast (n AND 0xff :: u32) :: u8) + push_bit 8 (ucast (ucast (drop_bit 8 n AND 0xff) :: u8)) +
   push_bit 16 (ucast (ucast (drop_bit 16 n AND 0xff) :: u8)) = (n AND SPDYLAY_SETTINGS_ID_MASK :: u32)"
proof -
  have ff: "(0xff :: u32) = mask 8" by (simp add: mask_eq_exp_minus_1)
  have mask: "SPDYLAY_SETTINGS_ID_MASK = mask 24" by (simp add: SPDYLAY_SETTINGS_ID_MASK_def mask_eq_exp_minus_1)
  let ?a = "ucast (ucast (n AND 0xff :: u32) :: u8) :: u32"
  let ?b = "push_bit 8 (ucast (ucast (drop_bit 8 n AND 0xff) :: u8)) :: u32"
  let ?c = "push_bit 16 (ucast (ucast (drop_bit 16 n AND 0xff) :: u8)) :: u32"
  have "?a + ?b = ?a OR ?b"
    unfolding ff by (rule disjunctive_add) (auto simp: bit_simps)
  moreover have "(?a OR ?b) + ?c = (?a OR ?b) OR ?c"
    unfolding ff by (rule disjunctive_add) (auto simp: bit_simps)
  moreover have "(?a OR ?b) OR ?c = n AND SPDYLAY_SETTINGS_ID_MASK"
  proof (rule bit_word_eqI)
    fix i assume "i < LENGTH(32)"
    consider "i < 8" | "8 \<le> i" "i < 16" | "16 \<le> i" "i < 24" | "24 \<le> i" by fastforce
    then show "bit ((?a OR ?b) OR ?c) i \<longleftrightarrow> bit (n AND SPDYLAY_SETTINGS_ID_MASK) i"
      unfolding mask ff by cases (auto simp: bit_simps)
  qed
  ultimately show ?thesis by simp
qed

lemma unpack_pack_settings_entry:
  assumes "entry_ok e"
  shows "unpack_settings_entry version (pack_settings_entry version e @ rest) = e"
proof -
  have mask: "SPDYLAY_SETTINGS_ID_MASK = SPDYLAY_LENGTH_MASK"
    by (simp add: SPDYLAY_SETTINGS_ID_MASK_def SPDYLAY_LENGTH_MASK_def)
  show ?thesis
  proof (cases "version = SPDYLAY_PROTO_SPDY2")
    case True
    then show ?thesis
      using assms settings_id_le [of "se_settings_id e"]
      by (simp add: unpack_settings_entry_def pack_settings_entry_def entry_ok_def)
  next
    case False
    have "spdylay_get_uint32 ((spdylay_put_uint32be (se_settings_id e))[0 := se_flags e] @
        spdylay_put_uint32be (se_value e) @ rest) AND SPDYLAY_SETTINGS_ID_MASK = se_settings_id e"
      using assms get_length_bits by (simp add: mask entry_ok_def)
    moreover have "((spdylay_put_uint32be (se_settings_id e))[0 := se_flags e] @ xs) ! 0 = se_flags e" for xs
      by (simp add: spdylay_put_uint32be_def)
    ultimately show ?thesis
      using False by (simp add: unpack_settings_entry_def pack_settings_entry_def)
  qed
qed

lemma pack_settings_loop_wire:
  "length pre = 12 + i * 8 \<Longrightarrow>
   pack_settings_loop version (pre @ replicate (8 * length iv) 0 @ post) i iv =
   pre @ concat (map (pack_settings_entry version) iv) @ post"
proof (induction iv arbitrary: pre i)
  case (Cons e iv)
  have "memcpy_at (pre @ replicate (8 * length (e # iv)) 0 @ post) (12 + i * 8) (pack_settings_entry version e) =
      (pre @ pack_settings_entry version e) @ replicate (8 * length iv) 0 @ post"
    using Cons.prems by (subst memcpy_next) auto
  with Cons.IH [of "pre @ pack_settings_entry version e" "i + 1"] Cons.prems show ?case by simp
qed simp

definition settings_wire :: "spdylay_settings \<Rightarrow> bytes" where
  "settings_wire frame = spdylay_frame_pack_ctrl_hd (st_hd frame) @
     spdylay_put_uint32be (of_nat (length (st_iv frame))) @
     concat (map (pack_settings_entry (hd_version (st_hd frame))) (st_iv frame))"

lemma pack_settings_wire:
  assumes "spdylay_frame_pack_settings m buf frame = (r, buf', m')" "r \<ge> 0"
    and len: "sint (hd_length (st_hd frame)) = 4 + int (length (st_iv frame)) * 8"
  shows "r = int (12 + 8 * length (st_iv frame))" "take (nat r) buf' = settings_wire frame"
    "hd_version (st_hd frame) = SPDYLAY_PROTO_SPDY2 \<or> hd_version (st_hd frame) = SPDYLAY_PROTO_SPDY3"
proof -
  let ?n = "12 + 8 * length (st_iv frame)"
  have n: "nat (8 + sint (hd_length (st_hd frame))) = ?n" by (simp add: len)
  show v: "hd_version (st_hd frame) = SPDYLAY_PROTO_SPDY2 \<or> hd_version (st_hd frame) = SPDYLAY_PROTO_SPDY3"
    using assms(1,2) by (auto simp: spdylay_frame_pack_settings_def Let_def split: if_splits)
  obtain r1 buf1 m1 where res: "spdylay_reserve_buffer m buf ?n = (r1, buf1, m1)" by (metis prod_cases3)
  let ?pre = "spdylay_frame_pack_ctrl_hd (st_hd frame) @ spdylay_put_uint32be (of_nat (length (st_iv frame)))"
  have front: "memcpy_at (memcpy_at (memcpy_at buf1 0 (replicate ?n 0)) 0 (spdylay_frame_pack_ctrl_hd (st_hd frame))) 8
      (spdylay_put_uint32be (of_nat (length (st_iv frame)))) =
      ?pre @ replicate (8 * length (st_iv frame)) 0 @ drop ?n buf1" if "?n \<le> length buf1"
    using that by (subst memcpy_zero, simp, subst memcpy_first, simp, subst memcpy_next) auto
  have "r = int ?n \<and> take (nat r) buf' = settings_wire frame"
  proof (cases rule: reserve_frame_cases [OF res])
    case 1
    then have "buf' = ?pre @ concat (map (pack_settings_entry (hd_version (st_hd frame))) (st_iv frame)) @ drop ?n buf1"
      "r = int ?n"
      using assms(1) v res front pack_settings_loop_wire [of ?pre 0]
      by (auto simp: spdylay_frame_pack_settings_def n Let_def simp del: of_nat_add)
    moreover have "length (concat (map (pack_settings_entry w) iv)) = 8 * length iv" for w iv
      by (induction iv) auto
    ultimately show ?thesis by (simp add: settings_wire_def)
  next
    case 2
    then show ?thesis using assms(1,2) v res by (auto simp: spdylay_frame_pack_settings_def n Let_def)
  qed
  then show "r = int ?n" "take (nat r) buf' = settings_wire frame" by auto
qed

lemma concat_entry_at:
  "i < length iv \<Longrightarrow> \<exists>rest. drop (i * 8) (concat (map (pack_settings_entry v) iv)) = pack_settings_entry v (iv ! i) @ rest"
proof (induction iv arbitrary: i)
  case (Cons e iv)
  show ?case
  proof (cases i)
    case (Suc j)
    with Cons show ?thesis by simp
  qed simp
qed simp

lemma unpack_settings_payload:
  assumes "list_all entry_ok (st_iv frame)" "length (st_iv frame) < 2 ^ 32" "hd_ok (st_hd frame)"
    "hd_version (st_hd frame) = SPDYLAY_PROTO_SPDY2 \<or> hd_version (st_hd frame) = SPDYLAY_PROTO_SPDY3"
    and "mem_ok m (mem_next m)"
  shows "fst (spdylay_frame_unpack_settings m (take 8 (settings_wire frame)) (drop 8 (settings_wire frame))) = Inr frame"
proof -
  let ?v = "hd_version (st_hd frame)" and ?iv = "st_iv frame"
  let ?p = "spdylay_put_uint32be (of_nat (length ?iv)) @ concat (map (pack_settings_entry ?v) ?iv)"
  have niv: "unat (of_nat (length ?iv) :: u32) = length ?iv" using assms(2) by (simp add: unat_of_nat)
  have len: "length (concat (map (pack_settings_entry w) iv)) = length iv * 8" for w iv
    by (induction iv) auto
  have "map (\<lambda>i. unpack_settings_entry ?v (drop (4 + i * 8) ?p)) [0..<length ?iv] = ?iv"
  proof (rule nth_equalityI)
    fix i assume "i < length (map (\<lambda>i. unpack_settings_entry ?v (drop (4 + i * 8) ?p)) [0..<length ?iv])"
    then have i: "i < length ?iv" by simp
    then obtain rest where "drop (i * 8) (concat (map (pack_settings_entry ?v) ?iv)) = pack_settings_entry ?v (?iv ! i) @ rest"
      using concat_entry_at by blast
    moreover have "entry_ok (?iv ! i)" using assms(1) i by (simp add: list_all_length)
    ultimately show "map (\<lambda>i. unpack_settings_entry ?v (drop (4 + i * 8) ?p)) [0..<length ?iv] ! i = ?iv ! i"
      using i by (simp add: unpack_pack_settings_entry)
  qed simp
  moreover have "settings_wire frame = spdylay_frame_pack_ctrl_hd (st_hd frame) @ ?p"
    by (simp add: settings_wire_def)
  ultimately show ?thesis
    using assms(3-5) niv len
    by (auto simp: spdylay_frame_unpack_settings_def Let_def malloc_def mult.commute)
qed

subsection \<open>CREDENTIAL\<close>

definition enc_cert :: "bytes \<Rightarrow> bytes" where
  "enc_cert c = spdylay_put_uint32be (of_nat (length c)) @ c"

definition credential_wire :: "spdylay_credential \<Rightarrow> bytes" where
  "credential_wire frame = spdylay_frame_pack_ctrl_hd (cr_hd frame) @ spdylay_put_uint16be (cr_slot frame) @
     enc_cert (cr_proof frame) @ concat (map enc_cert (cr_certs frame))"

lemma length_enc_cert [simp]: "length (enc_cert c) = 4 + length c"
  by (simp add: enc_cert_def)

lemma pack_certs_wire:
  "length pre = off \<Longrightarrow> n = length (concat (map enc_cert cs)) \<Longrightarrow>
   pack_certs (pre @ replicate n 0 @ post) off cs = pre @ concat (map enc_cert cs) @ post"
proof (induction cs arbitrary: pre off n)
  case (Cons c cs)
  let ?l = "spdylay_put_uint32be (of_nat (length c))" and ?k = "length (concat (map enc_cert cs))"
  have "memcpy_at (pre @ replicate n 0 @ post) off ?l = (pre @ ?l) @ replicate (n - 4) 0 @ post"
    using Cons.prems by (subst memcpy_next) auto
  moreover have "memcpy_at ((pre @ ?l) @ replicate (n - 4) 0 @ post) (off + 4) c =
      (pre @ enc_cert c) @ replicate ?k 0 @ post"
    using Cons.prems by (subst memcpy_next) (auto simp: enc_cert_def [of c])
  ultimately show ?case using Cons.IH [of "pre @ enc_cert c" "off + 4 + length c" ?k] Cons.prems by simp
qed simp

lemma foldl_cert_length: "foldl (\<lambda>n c. n + (4 + length c)) k cs = k + length (concat (map enc_cert cs))"
  by (induction cs arbitrary: k) auto

lemma pack_credential_wire:
  assumes "spdylay_frame_pack_credential m buf frame = (r, buf', m')" "r \<ge> 0"
  shows "r = int (length (credential_wire frame))" "take (nat r) buf' = credential_wire frame"
proof -
  let ?k = "length (concat (map enc_cert (cr_certs frame)))"
  define n where "n = 14 + length (cr_proof frame) + ?k"
  obtain r1 buf1 m1 where res: "spdylay_reserve_buffer m buf n = (r1, buf1, m1)" by (metis prod_cases3)
  have fl: "foldl (\<lambda>n c. n + (4 + length c)) (SPDYLAY_FRAME_HEAD_LENGTH + 2 + 4 + length (cr_proof frame)) (cr_certs frame) = n"
    by (simp add: foldl_cert_length n_def)
  let ?h = "spdylay_frame_pack_ctrl_hd (cr_hd frame)" and ?s = "spdylay_put_uint16be (cr_slot frame)"
  let ?l = "spdylay_put_uint32be (of_nat (length (cr_proof frame)))" and ?post = "drop n buf1"
  have w1: "memcpy_at (replicate n 0 @ ?post) 0 ?h = ?h @ replicate (n - 8) 0 @ ?post"
    by (subst memcpy_first) (auto simp: n_def)
  have w2: "memcpy_at (?h @ replicate (n - 8) 0 @ ?post) 8 ?s = (?h @ ?s) @ replicate (n - 10) 0 @ ?post"
    by (subst memcpy_next) (auto simp: n_def)
  have w3: "memcpy_at ((?h @ ?s) @ replicate (n - 10) 0 @ ?post) 10 ?l = (?h @ ?s @ ?l) @ replicate (n - 14) 0 @ ?post"
    by (subst memcpy_next) (auto simp: n_def)
  have w4: "memcpy_at ((?h @ ?s @ ?l) @ replicate (n - 14) 0 @ ?post) 14 (cr_proof frame) =
      (?h @ ?s @ ?l @ cr_proof frame) @ replicate ?k 0 @ ?post"
    by (subst memcpy_next) (auto simp: n_def)
  have w5: "pack_certs ((?h @ ?s @ ?l @ cr_proof frame) @ replicate ?k 0 @ ?post) (14 + length (cr_proof frame))
      (cr_certs frame) = (?h @ ?s @ ?l @ cr_proof frame) @ concat (map enc_cert (cr_certs frame)) @ ?post"
    by (rule pack_certs_wire) auto
  have "r = int (length (credential_wire frame)) \<and> take (nat r) buf' = credential_wire frame"
  proof (cases rule: reserve_frame_cases [OF res])
    case 1
    have "spdylay_frame_pack_credential m buf frame =
        (int n, (?h @ ?s @ ?l @ cr_proof frame) @ concat (map enc_cert (cr_certs frame)) @ ?post, m1)"
      unfolding spdylay_frame_pack_credential_def Let_def fl res prod.case memcpy_zero [OF 1(2)] w1 w2 w3 w4 w5
      using 1(1) by simp
    with assms(1) have "r = int n" "buf' = credential_wire frame @ ?post"
      by (simp_all add: credential_wire_def enc_cert_def [of "cr_proof frame"])
    moreover have "length (credential_wire frame) = n" by (simp add: credential_wire_def n_def)
    ultimately show ?thesis by simp
  next
    case 2
    then show ?thesis
      using assms res fl by (auto simp: spdylay_frame_pack_credential_def Let_def)
  qed
  then show "r = int (length (credential_wire frame))" "take (nat r) buf' = credential_wire frame" by auto
qed

lemma get_enc_cert: "length c < 2 ^ 32 \<Longrightarrow> unat (spdylay_get_uint32 (enc_cert c @ rest)) = length c"
  by (simp add: enc_cert_def unat_of_nat)

lemma count_unpack_cert_wire:
  assumes "list_all (\<lambda>c. length c < 2 ^ 32) (c # cs)"
  shows "count_unpack_cert_from (pre @ concat (map enc_cert (c # cs))) n (length pre) = int (n + length cs)"
  using assms
proof (induction cs arbitrary: c pre n)
  case Nil
  then show ?case
    using get_enc_cert [of c "[]"] by (subst count_unpack_cert_from.simps) (simp add: Let_def)
next
  case (Cons d cs)
  let ?p = "pre @ concat (map enc_cert (c # d # cs))"
  have len: "unat (spdylay_get_uint32 (drop (length pre) ?p)) = length c"
    using Cons.prems get_enc_cert by simp
  have "count_unpack_cert_from ?p n (length pre) = count_unpack_cert_from ?p (n + 1) (length (pre @ enc_cert c))"
    using len by (subst count_unpack_cert_from.simps) (simp add: Let_def add.assoc)
  also have "\<dots> = int (n + 1 + length cs)"
    using Cons.IH [of d "pre @ enc_cert c" "n + 1"] Cons.prems by simp
  finally show ?case by simp
qed

lemma unpack_cert_loop_wire:
  assumes "list_all (\<lambda>c. length c < 2 ^ 32) cs" "\<forall>i. mem_ok m i"
  shows "fst (unpack_cert_loop m (pre @ concat (map enc_cert cs)) (length cs) (length pre)) = Inr cs"
  using assms
proof (induction cs arbitrary: m pre)
  case (Cons c cs)
  let ?p = "pre @ concat (map enc_cert (c # cs))"
  have len: "unat (spdylay_get_uint32 (drop (length pre) ?p)) = length c"
    using Cons.prems get_enc_cert by simp
  have ok: "malloc m = (True, snd (malloc m))" "\<forall>i. mem_ok (snd (malloc m)) i"
    using Cons.prems(2) by (simp_all add: malloc_def)
  have "fst (unpack_cert_loop (snd (malloc m)) ?p (length cs) (length pre + 4 + length c)) = Inr cs"
    using Cons.IH [OF _ ok(2), of "pre @ enc_cert c"] Cons.prems(1) by (simp add: add.assoc)
  moreover have "take (length c) (drop (length pre + 4) ?p) = c" by (simp add: enc_cert_def)
  ultimately show ?case
    using len ok(1) by (auto simp: Let_def split: prod.splits sum.splits)
qed simp

lemma unpack_credential_payload:
  assumes "hd_ok (cr_hd frame)" "length (cr_proof frame) < 2 ^ 32" "cr_certs frame \<noteq> []"
    "list_all (\<lambda>c. length c < 2 ^ 32) (cr_certs frame)" "\<forall>i. mem_ok m i"
  shows "fst (spdylay_frame_unpack_credential m (take 8 (credential_wire frame)) (drop 8 (credential_wire frame))) = Inr frame"
proof -
  let ?proof = "cr_proof frame" and ?cs = "concat (map enc_cert (cr_certs frame))"
  let ?p = "spdylay_put_uint16be (cr_slot frame) @ enc_cert ?proof @ ?cs"
  have wire: "credential_wire frame = spdylay_frame_pack_ctrl_hd (cr_hd frame) @ ?p"
    by (simp add: credential_wire_def)
  obtain c cs where cs: "cr_certs frame = c # cs" using assms(3) by (cases "cr_certs frame") auto
  have len: "unat (spdylay_get_uint32 (drop 2 ?p)) = length ?proof" using assms(2) get_enc_cert by simp
  have rest: "drop (6 + length ?proof) ?p = ?cs" by simp
  have count: "spdylay_frame_count_unpack_cert ?cs = int (length (cr_certs frame))"
    using count_unpack_cert_wire [of c cs "[]" 1] assms(4) cs by (simp add: spdylay_frame_count_unpack_cert_def)
  have ok: "fst (malloc m')" if "\<forall>i. mem_ok m' i" for m'
    using that by (simp add: malloc_def)
  have mem: "\<forall>i. mem_ok (snd (malloc m)) i" "\<forall>i. mem_ok (snd (malloc (snd (malloc m)))) i"
    using assms(5) by simp_all
  have "fst (spdylay_frame_unpack_cert (snd (malloc m)) (length (cr_certs frame)) ?cs) = Inr (cr_certs frame)"
    using unpack_cert_loop_wire [OF assms(4) mem(2), of "[]"] ok [OF mem(1)]
    by (simp add: spdylay_frame_unpack_cert_def case_prod_beta)
  moreover have "take (length ?proof) (drop 6 ?p) = ?proof" by (simp add: enc_cert_def)
  moreover have "\<not> length ?p < 10" using cs by simp
  ultimately show ?thesis
    using len rest count ok [OF assms(5)] assms(1) unfolding wire
    by (auto simp: spdylay_frame_unpack_credential_def Let_def split: prod.splits sum.splits)
qed

end
