(* ===== verification/Spdy_Stream.thy ===== *)
theory Spdy_Stream
  imports Spdy_Frame Spdy_PQ Spdy_Map
begin

text \<open>
  \<open>lib/spdylay_outbound_item.h\<close> and \<open>lib/spdylay_stream.c\<close>: the items of the outbound queues
  with the order in which they are sent, and the state of one stream. The order of the items
  is an instance of \<open>compar_order\<close>, so the priority queues of a session are instances of
  \<open>min_queue\<close>.
\<close>

section \<open>Outbound items\<close>

text \<open>\<open>frame_cat\<close> with the frame it selects.\<close>

datatype item_frame = CtrlFrame spdylay_frame | DataFrame spdylay_data

text \<open>
  The auxiliary data: \<open>spdylay_syn_stream_aux_data\<close> with its provider and user pointer for a
  SYN_STREAM, a data provider for a SYN_REPLY, or NULL.
\<close>

datatype aux_data =
  NoAux
| SynStreamAux "spdylay_data_provider option" nat
| DataPrdAux spdylay_data_provider

record spdylay_outbound_item =
  oi_frame :: item_frame
  oi_aux_data :: aux_data
  oi_pri :: int
  oi_seq :: int

definition SPDYLAY_OB_PRI_PING :: int where [simp]: "SPDYLAY_OB_PRI_PING = -10"
definition SPDYLAY_OB_PRI_CREDENTIAL :: int where [simp]: "SPDYLAY_OB_PRI_CREDENTIAL = -2"
definition SPDYLAY_OB_PRI_AFTER_CREDENTIAL :: int where [simp]: "SPDYLAY_OB_PRI_AFTER_CREDENTIAL = -1"

definition spdylay_outbound_item_compar :: "spdylay_outbound_item \<Rightarrow> spdylay_outbound_item \<Rightarrow> int" where
  "spdylay_outbound_item_compar lhs rhs =
     (if oi_pri lhs = oi_pri rhs
      then if oi_seq lhs < oi_seq rhs then -1 else if oi_seq lhs > oi_seq rhs then 1 else 0
      else oi_pri lhs - oi_pri rhs)"

text \<open>The queue order is priority first and age second.\<close>

lemma item_compar_le:
  "spdylay_outbound_item_compar a b \<le> 0 \<longleftrightarrow>
   oi_pri a < oi_pri b \<or> oi_pri a = oi_pri b \<and> oi_seq a \<le> oi_seq b"
  by (auto simp: spdylay_outbound_item_compar_def)

interpretation item_order: compar_order spdylay_outbound_item_compar
  by unfold_locales (auto simp: spdylay_outbound_item_compar_def split: if_splits)

section \<open>Streams\<close>

datatype spdylay_stream_state =
  SPDYLAY_STREAM_INITIAL | SPDYLAY_STREAM_OPENING | SPDYLAY_STREAM_OPENED | SPDYLAY_STREAM_CLOSING

definition SPDYLAY_SHUT_NONE :: u8 where [simp]: "SPDYLAY_SHUT_NONE = 0"
definition SPDYLAY_SHUT_RD :: u8 where [simp]: "SPDYLAY_SHUT_RD = 1"
definition SPDYLAY_SHUT_WR :: u8 where [simp]: "SPDYLAY_SHUT_WR = 2"
definition SPDYLAY_SHUT_RDWR :: u8 where [simp]: "SPDYLAY_SHUT_RDWR = 3"

definition SPDYLAY_DEFERRED_NONE :: u8 where [simp]: "SPDYLAY_DEFERRED_NONE = 0"
definition SPDYLAY_DEFERRED_FLOW_CONTROL :: u8 where [simp]: "SPDYLAY_DEFERRED_FLOW_CONTROL = 1"

text \<open>The map entry that the C structure embeds is the entry of \<open>Spdy_Map\<close> that holds the record.\<close>

record spdylay_stream =
  sm_stream_id :: i32
  sm_state :: spdylay_stream_state
  sm_flags :: u8
  sm_pri :: u8
  sm_shut_flags :: u8
  sm_pushed_streams :: "i32 list"
  sm_pushed_streams_capacity :: nat
  sm_stream_user_data :: nat
  sm_deferred_data :: "spdylay_outbound_item option"
  sm_deferred_flags :: u8
  sm_window_size :: i32
  sm_recv_window_size :: i32
  sm_assoc_content :: nat

definition spdylay_stream_init ::
    "i32 \<Rightarrow> u8 \<Rightarrow> u8 \<Rightarrow> spdylay_stream_state \<Rightarrow> i32 \<Rightarrow> nat \<Rightarrow> spdylay_stream" where
  "spdylay_stream_init stream_id flags pri initial_state initial_window_size stream_user_data =
     \<lparr>sm_stream_id = stream_id, sm_state = initial_state, sm_flags = flags, sm_pri = pri,
      sm_shut_flags = SPDYLAY_SHUT_NONE, sm_pushed_streams = [], sm_pushed_streams_capacity = 0,
      sm_stream_user_data = stream_user_data, sm_deferred_data = None,
      sm_deferred_flags = SPDYLAY_DEFERRED_NONE, sm_window_size = initial_window_size,
      sm_recv_window_size = 0, sm_assoc_content = 0\<rparr>"

definition spdylay_stream_shutdown :: "u8 \<Rightarrow> spdylay_stream \<Rightarrow> spdylay_stream" where
  "spdylay_stream_shutdown flag stream = stream\<lparr>sm_shut_flags := sm_shut_flags stream OR flag\<rparr>"

definition spdylay_stream_add_pushed_stream ::
    "mem \<Rightarrow> spdylay_stream \<Rightarrow> i32 \<Rightarrow> int \<times> spdylay_stream \<times> mem" where
  "spdylay_stream_add_pushed_stream m stream stream_id =
     (let add = (\<lambda>st. st\<lparr>sm_pushed_streams := sm_pushed_streams st @ [stream_id]\<rparr>) in
      if sm_pushed_streams_capacity stream = length (sm_pushed_streams stream) then
        let capacity = (if sm_pushed_streams_capacity stream = 0 then 5 else sm_pushed_streams_capacity stream * 2) in
        case malloc m of (ok, m1) \<Rightarrow>
          if \<not> ok then (SPDYLAY_ERR_NOMEM, stream, m1)
          else (0, add (stream\<lparr>sm_pushed_streams_capacity := capacity\<rparr>), m1)
      else (0, add stream, m))"

text \<open>The \<open>assert\<close> that no data is deferred already is \<open>None\<close>.\<close>

definition spdylay_stream_defer_data ::
    "spdylay_stream \<Rightarrow> spdylay_outbound_item \<Rightarrow> u8 \<Rightarrow> spdylay_stream option" where
  "spdylay_stream_defer_data stream item flags =
     (if sm_deferred_data stream \<noteq> None then None
      else Some (stream\<lparr>sm_deferred_data := Some item, sm_deferred_flags := flags\<rparr>))"

definition spdylay_stream_detach_deferred_data :: "spdylay_stream \<Rightarrow> spdylay_stream" where
  "spdylay_stream_detach_deferred_data stream =
     stream\<lparr>sm_deferred_data := None, sm_deferred_flags := SPDYLAY_DEFERRED_NONE\<rparr>"

definition spdylay_stream_update_initial_window_size :: "spdylay_stream \<Rightarrow> i32 \<Rightarrow> i32 \<Rightarrow> spdylay_stream" where
  "spdylay_stream_update_initial_window_size stream new_initial_window_size old_initial_window_size =
     stream\<lparr>sm_window_size := new_initial_window_size - (old_initial_window_size - sm_window_size stream)\<rparr>"

lemma stream_ops_id [simp]:
  "sm_stream_id (spdylay_stream_shutdown flag st) = sm_stream_id st"
  "sm_stream_id (spdylay_stream_detach_deferred_data st) = sm_stream_id st"
  "sm_stream_id (spdylay_stream_update_initial_window_size st a b) = sm_stream_id st"
  "sm_stream_id (spdylay_stream_init i f p s w u) = i"
  by (simp_all add: spdylay_stream_shutdown_def spdylay_stream_detach_deferred_data_def
      spdylay_stream_update_initial_window_size_def spdylay_stream_init_def)

lemma stream_defer_id: "spdylay_stream_defer_data st it fl = Some st' \<Longrightarrow> sm_stream_id st' = sm_stream_id st"
  by (auto simp: spdylay_stream_defer_data_def split: if_splits)

section \<open>The order of sending\<close>

text \<open>
  C21. The priority queue sorts: items pushed on a fresh outbound queue come out in the order of
  their priority, and of their sequence number among equals, none lost, none twice. When a push
  fails for memory, what was pushed before is in the queue and comes out so, and the failing push
  left no trace.
\<close>

theorem outbound_queue_order:
  assumes "spdylay_pq_init m spdylay_outbound_item_compar = (0, Some q0, m0)"
    "item_order.heap_pq.push_all m0 q0 xs = (r, q, m1)"
  shows "\<exists>ys zs. xs = ys @ zs \<and> r = (if zs = [] then 0 else SPDYLAY_ERR_NOMEM) \<and>
    mset (item_order.heap_pq.drain (length xs) q) = mset ys \<and>
    sorted_wrt (\<lambda>a b. oi_pri a < oi_pri b \<or> oi_pri a = oi_pri b \<and> oi_seq a \<le> oi_seq b)
      (item_order.heap_pq.drain (length xs) q)"
proof -
  have q0: "pq_inv spdylay_outbound_item_compar q0" "pq_q q0 = []"
    using assms(1) by (auto simp: spdylay_pq_init_def pq_inv_def pq_heap_def split: prod.splits if_splits)
  obtain ys zs where xs: "xs = ys @ zs" "pq_inv spdylay_outbound_item_compar q" "mset (pq_q q) = mset ys"
      "r = (if zs = [] then 0 else SPDYLAY_ERR_NOMEM)"
    using item_order.heap_pq.push_all_items [OF q0(1) assms(2)] q0(2) by auto
  then have "size (mset (pq_q q)) \<le> length xs" by simp
  with item_order.heap_pq.mset_drain [OF xs(2)] item_order.heap_pq.sorted_drain [OF xs(2)] xs show ?thesis
    by (intro exI [of _ ys] exI [of _ zs]) (simp add: item_compar_le)
qed

definition demo_item :: "int \<Rightarrow> int \<Rightarrow> spdylay_outbound_item" where
  "demo_item p n =
     \<lparr>oi_frame = CtrlFrame (FPing \<lparr>pg_hd = \<lparr>hd_version = 3, hd_type = 6, hd_flags = 0, hd_length = 4\<rparr>, pg_unique_id = 1\<rparr>),
      oi_aux_data = NoAux, oi_pri = p, oi_seq = n\<rparr>"

theorem outbound_queue_order_witness:
  "\<exists>q0 m0 q m1 ys. spdylay_pq_init good_mem spdylay_outbound_item_compar = (0, Some q0, m0) \<and>
     item_order.heap_pq.push_all m0 q0 [demo_item 3 0, demo_item 0 1, demo_item 3 2] = (0, q, m1) \<and>
     ys = item_order.heap_pq.drain 3 q \<and> mset ys = {#demo_item 3 0, demo_item 0 1, demo_item 3 2#} \<and>
     sorted_wrt (\<lambda>a b. oi_pri a < oi_pri b \<or> oi_pri a = oi_pri b \<and> oi_seq a \<le> oi_seq b) ys"
proof -
  obtain q0 m0 where i: "spdylay_pq_init good_mem spdylay_outbound_item_compar = (0, Some q0, m0)"
      "q0 = \<lparr>pq_q = [], pq_capacity = 4096, pq_compar = spdylay_outbound_item_compar\<rparr>"
    by (simp add: spdylay_pq_init_def malloc_def good_mem_def)
  obtain q m1 where p: "item_order.heap_pq.push_all m0 q0 [demo_item 3 0, demo_item 0 1, demo_item 3 2] = (0, q, m1)"
    by (simp add: i(2) spdylay_pq_push_def Let_def length_bubble_up)
  show ?thesis
    using outbound_queue_order [OF i(1) p] i(1) p by (fastforce simp: eval_nat_numeral split: if_splits)
qed

end
