(* ===== verification/Spdy_Session.thy ===== *)
theory Spdy_Session
  imports Spdy_Stream
begin

text \<open>
  The state of \<open>lib/spdylay_session.c\<close> and the operations that no callback interrupts: the
  constructors, the stream table, the queues of outbound frames, and the predicates that
  decide whether a frame may be sent. The session record has the fields of the C structure;
  \<open>s_mem\<close> is the allocator, and the buffers \<open>framebuf\<close>, \<open>nvbuf\<close> and \<open>buf\<close> are lists as long
  as their capacities. The callbacks are not a field but an argument of the operations that
  call them.
\<close>

section \<open>Constants\<close>

definition SPDYLAY_DATA_PAYLOAD_LENGTH :: nat where [simp]: "SPDYLAY_DATA_PAYLOAD_LENGTH = 4096"
definition SPDYLAY_HEAD_LEN :: nat where [simp]: "SPDYLAY_HEAD_LEN = 8"
definition SPDYLAY_INITIAL_OUTBOUND_FRAMEBUF_LENGTH :: nat where
  "SPDYLAY_INITIAL_OUTBOUND_FRAMEBUF_LENGTH = SPDYLAY_DATA_PAYLOAD_LENGTH + 8"
definition SPDYLAY_INITIAL_INBOUND_FRAMEBUF_LENGTH :: nat where
  "SPDYLAY_INITIAL_INBOUND_FRAMEBUF_LENGTH = SPDYLAY_INITIAL_OUTBOUND_FRAMEBUF_LENGTH"
definition SPDYLAY_INITIAL_NV_BUFFER_LENGTH :: nat where "SPDYLAY_INITIAL_NV_BUFFER_LENGTH = 4096"
definition SPDYLAY_INITIAL_WINDOW_SIZE :: u32 where "SPDYLAY_INITIAL_WINDOW_SIZE = 1024 * 1024"
definition SPDYLAY_INITIAL_MAX_CONCURRENT_STREAMS :: u32 where
  "SPDYLAY_INITIAL_MAX_CONCURRENT_STREAMS = 250"
definition SPDYLAY_INITIAL_CLIENT_CERT_VECTOR_LENGTH :: nat where
  "SPDYLAY_INITIAL_CLIENT_CERT_VECTOR_LENGTH = 8"
definition SPDYLAY_MAX_CLIENT_CERT_VECTOR_LENGTH :: u32 where
  "SPDYLAY_MAX_CLIENT_CERT_VECTOR_LENGTH = 255"
definition SPDYLAY_MAX_UNIQUE_ID :: u32 where "SPDYLAY_MAX_UNIQUE_ID = push_bit 31 1 - 1"

definition SPDYLAY_SETTINGS_MAX_CONCURRENT_STREAMS :: nat where
  [simp]: "SPDYLAY_SETTINGS_MAX_CONCURRENT_STREAMS = 4"
definition SPDYLAY_SETTINGS_INITIAL_WINDOW_SIZE :: nat where
  [simp]: "SPDYLAY_SETTINGS_INITIAL_WINDOW_SIZE = 7"
definition SPDYLAY_SETTINGS_CLIENT_CERTIFICATE_VECTOR_SIZE :: nat where
  [simp]: "SPDYLAY_SETTINGS_CLIENT_CERTIFICATE_VECTOR_SIZE = 8"
definition SPDYLAY_SETTINGS_MAX :: nat where [simp]: "SPDYLAY_SETTINGS_MAX = 8"

definition SPDYLAY_OK :: u32 where [simp]: "SPDYLAY_OK = 0"
definition SPDYLAY_PROTOCOL_ERROR :: u32 where [simp]: "SPDYLAY_PROTOCOL_ERROR = 1"
definition SPDYLAY_INVALID_STREAM :: u32 where [simp]: "SPDYLAY_INVALID_STREAM = 2"
definition SPDYLAY_REFUSED_STREAM :: u32 where [simp]: "SPDYLAY_REFUSED_STREAM = 3"
definition SPDYLAY_UNSUPPORTED_VERSION :: u32 where [simp]: "SPDYLAY_UNSUPPORTED_VERSION = 4"
definition SPDYLAY_CANCEL :: u32 where [simp]: "SPDYLAY_CANCEL = 5"
definition SPDYLAY_INTERNAL_ERROR :: u32 where [simp]: "SPDYLAY_INTERNAL_ERROR = 6"
definition SPDYLAY_FLOW_CONTROL_ERROR :: u32 where [simp]: "SPDYLAY_FLOW_CONTROL_ERROR = 7"
definition SPDYLAY_STREAM_IN_USE :: u32 where [simp]: "SPDYLAY_STREAM_IN_USE = 8"
definition SPDYLAY_FRAME_TOO_LARGE :: u32 where [simp]: "SPDYLAY_FRAME_TOO_LARGE = 11"
definition SPDYLAY_GOAWAY_PROTOCOL_ERROR :: u32 where [simp]: "SPDYLAY_GOAWAY_PROTOCOL_ERROR = 1"

definition SPDYLAY_GOAWAY_NONE :: u8 where [simp]: "SPDYLAY_GOAWAY_NONE = 0"
definition SPDYLAY_GOAWAY_SEND :: u8 where [simp]: "SPDYLAY_GOAWAY_SEND = 1"
definition SPDYLAY_GOAWAY_RECV :: u8 where [simp]: "SPDYLAY_GOAWAY_RECV = 2"
definition SPDYLAY_GOAWAY_FAIL_ON_SEND :: u8 where [simp]: "SPDYLAY_GOAWAY_FAIL_ON_SEND = 4"

definition SPDYLAY_OPTMASK_NO_AUTO_WINDOW_UPDATE :: u32 where
  [simp]: "SPDYLAY_OPTMASK_NO_AUTO_WINDOW_UPDATE = 1"
definition SPDYLAY_PRI_LOWEST_SPDY2 :: u8 where [simp]: "SPDYLAY_PRI_LOWEST_SPDY2 = 3"
definition SPDYLAY_PRI_LOWEST_SPDY3 :: u8 where [simp]: "SPDYLAY_PRI_LOWEST_SPDY3 = 7"

section \<open>The session\<close>

record spdylay_active_outbound_item =
  ao_item :: "spdylay_outbound_item option"
  ao_framebuf :: bytes
  ao_framebuflen :: nat
  ao_framebufoff :: nat

datatype spdylay_inbound_state =
  SPDYLAY_RECV_HEAD | SPDYLAY_RECV_PAYLOAD | SPDYLAY_RECV_PAYLOAD_IGN
| SPDYLAY_RECV_PAYLOAD_PRE_NV | SPDYLAY_RECV_PAYLOAD_NV

record spdylay_inbound_frame =
  if_state :: spdylay_inbound_state
  if_headbuf :: bytes
  if_headbufoff :: nat
  if_buf :: bytes
  if_buflen :: nat
  if_payloadlen :: nat
  if_off :: nat
  if_inflatebuf :: spdylay_buffer
  if_error_code :: int

record ('z, 'u) spdylay_session =
  s_version :: u16
  s_server :: bool
  s_next_stream_id :: u32
  s_last_recv_stream_id :: i32
  s_next_unique_id :: u32
  s_next_seq :: int
  s_streams :: "spdylay_stream spdylay_map"
  s_num_outgoing_streams :: nat
  s_num_incoming_streams :: nat
  s_ob_pq :: "spdylay_outbound_item spdylay_pq"
  s_ob_ss_pq :: "spdylay_outbound_item spdylay_pq"
  s_aob :: spdylay_active_outbound_item
  s_iframe :: spdylay_inbound_frame
  s_nvbuf :: bytes
  s_hd_deflater :: "'z spdylay_zlib"
  s_hd_inflater :: "'z spdylay_zlib"
  s_last_ping_unique_id :: u32
  s_goaway_flags :: u8
  s_last_good_stream_id :: i32
  s_flow_control :: bool
  s_remote_settings :: "u32 list"
  s_local_settings :: "u32 list"
  s_opt_flags :: u32
  s_max_recv_ctrl_frame_buf :: u32
  s_cli_certvec :: spdylay_client_cert_vector
  s_user_data :: 'u
  s_mem :: mem

definition spdylay_inbound_frame_reset :: "spdylay_inbound_frame \<Rightarrow> spdylay_inbound_frame" where
  "spdylay_inbound_frame_reset iframe =
     iframe\<lparr>if_state := SPDYLAY_RECV_HEAD, if_payloadlen := 0, if_buflen := 0, if_off := 0,
            if_headbufoff := 0, if_inflatebuf := spdylay_buffer_reset (if_inflatebuf iframe),
            if_error_code := 0\<rparr>"

text \<open>The number of payload bytes before the header block, or -1.\<close>

definition spdylay_inbound_frame_payload_nv_offset :: "spdylay_inbound_frame \<Rightarrow> int" where
  "spdylay_inbound_frame_payload_nv_offset iframe =
     (let type = spdylay_get_uint16 (drop 2 (if_headbuf iframe));
          version = spdylay_get_uint16 (if_headbuf iframe) AND SPDYLAY_VERSION_MASK;
          offset = spdylay_frame_nv_offset type version in
      if offset \<noteq> -1 then offset - int SPDYLAY_HEAD_LEN else offset)"

section \<open>Constructors\<close>

text \<open>
  \<open>spdylay_session_new\<close> up to the identifiers that the two callers set. The error exits free
  what was allocated, so the result is the error code and the allocator only.
\<close>

definition spdylay_session_new ::
    "'z zlib \<Rightarrow> mem \<Rightarrow> u16 \<Rightarrow> 'u \<Rightarrow> nat \<Rightarrow> bool \<Rightarrow> (int + ('z, 'u) spdylay_session) \<times> mem" where
  "spdylay_session_new zl m0 version user_data cli_certvec_length hd_comp =
     (if version \<noteq> SPDYLAY_PROTO_SPDY2 \<and> version \<noteq> SPDYLAY_PROTO_SPDY3
      then (Inl SPDYLAY_ERR_UNSUPPORTED_VERSION, m0)
      else case malloc m0 of (ok, m1) \<Rightarrow>
      if \<not> ok then (Inl SPDYLAY_ERR_NOMEM, m1)
      else case spdylay_zlib_deflate_hd_init zl hd_comp version of
        (r, None) \<Rightarrow> (Inl r, m1)
      | (r, Some deflater) \<Rightarrow>
      (case spdylay_zlib_inflate_hd_init zl version of
        (r, None) \<Rightarrow> (Inl r, m1)
      | (r, Some inflater) \<Rightarrow>
      (case spdylay_pq_init m1 spdylay_outbound_item_compar of
        (r, None, m2) \<Rightarrow> (Inl r, m2)
      | (r, Some ob_pq, m2) \<Rightarrow>
      (case spdylay_pq_init m2 spdylay_outbound_item_compar of
        (r, None, m3) \<Rightarrow> (Inl r, m3)
      | (r, Some ob_ss_pq, m3) \<Rightarrow>
      (let framebuf = fresh_block m3 SPDYLAY_INITIAL_OUTBOUND_FRAMEBUF_LENGTH in
       case malloc m3 of (ok, m4) \<Rightarrow>
       if \<not> ok then (Inl SPDYLAY_ERR_NOMEM, m4)
       else let nvbuf = fresh_block m4 SPDYLAY_INITIAL_NV_BUFFER_LENGTH in
       case malloc m4 of (ok, m5) \<Rightarrow>
       if \<not> ok then (Inl SPDYLAY_ERR_NOMEM, m5)
       else let buf = fresh_block m5 SPDYLAY_INITIAL_INBOUND_FRAMEBUF_LENGTH in
       case malloc m5 of (ok, m6) \<Rightarrow>
       if \<not> ok then (Inl SPDYLAY_ERR_NOMEM, m6)
       else case spdylay_client_cert_vector_init m6 cli_certvec_length of (r, certvec, m7) \<Rightarrow>
       if r \<noteq> 0 then (Inl r, m7)
       else
         let settings = (replicate (SPDYLAY_SETTINGS_MAX + 1) 0)
               [SPDYLAY_SETTINGS_MAX_CONCURRENT_STREAMS := SPDYLAY_INITIAL_MAX_CONCURRENT_STREAMS,
                SPDYLAY_SETTINGS_INITIAL_WINDOW_SIZE := SPDYLAY_INITIAL_WINDOW_SIZE] in
         (Inr \<lparr>s_version = version, s_server = False, s_next_stream_id = 0, s_last_recv_stream_id = 0,
               s_next_unique_id = 0, s_next_seq = 0, s_streams = spdylay_map_init,
               s_num_outgoing_streams = 0, s_num_incoming_streams = 0, s_ob_pq = ob_pq, s_ob_ss_pq = ob_ss_pq,
               s_aob = \<lparr>ao_item = None, ao_framebuf = framebuf, ao_framebuflen = 0, ao_framebufoff = 0\<rparr>,
               s_iframe = spdylay_inbound_frame_reset
                 \<lparr>if_state = SPDYLAY_RECV_HEAD, if_headbuf = replicate SPDYLAY_HEAD_LEN 0, if_headbufoff = 0,
                  if_buf = buf, if_buflen = 0, if_payloadlen = 0, if_off = 0,
                  if_inflatebuf = spdylay_buffer_init 4096, if_error_code = 0\<rparr>,
               s_nvbuf = nvbuf, s_hd_deflater = deflater, s_hd_inflater = inflater,
               s_last_ping_unique_id = 0, s_goaway_flags = SPDYLAY_GOAWAY_NONE, s_last_good_stream_id = 0,
               s_flow_control = (version = SPDYLAY_PROTO_SPDY3),
               s_remote_settings = settings, s_local_settings = settings, s_opt_flags = 0,
               s_max_recv_ctrl_frame_buf = push_bit 24 1 - 1, s_cli_certvec = certvec,
               s_user_data = user_data, s_mem = m7\<rparr>, m7))))))"

definition spdylay_session_client_new ::
    "'z zlib \<Rightarrow> mem \<Rightarrow> u16 \<Rightarrow> 'u \<Rightarrow> (int + ('z, 'u) spdylay_session) \<times> mem" where
  "spdylay_session_client_new zl m version user_data =
     (case spdylay_session_new zl m version user_data SPDYLAY_INITIAL_CLIENT_CERT_VECTOR_LENGTH False of
        (Inr s, m') \<Rightarrow>
          (Inr (s\<lparr>s_next_stream_id := 1, s_last_recv_stream_id := 0, s_next_unique_id := 1\<rparr>), m')
      | (Inl e, m') \<Rightarrow> (Inl e, m'))"

definition spdylay_session_server_new ::
    "'z zlib \<Rightarrow> mem \<Rightarrow> u16 \<Rightarrow> 'u \<Rightarrow> (int + ('z, 'u) spdylay_session) \<times> mem" where
  "spdylay_session_server_new zl m version user_data =
     (case spdylay_session_new zl m version user_data 0 True of
        (Inr s, m') \<Rightarrow>
          (Inr (s\<lparr>s_server := True, s_next_stream_id := 2, s_last_recv_stream_id := 0,
                 s_next_unique_id := 2\<rparr>), m')
      | (Inl e, m') \<Rightarrow> (Inl e, m'))"

section \<open>Queries\<close>

definition spdylay_session_is_outgoing_concurrent_streams_max :: "('z, 'u) spdylay_session \<Rightarrow> bool" where
  "spdylay_session_is_outgoing_concurrent_streams_max s \<longleftrightarrow>
     unat (s_remote_settings s ! SPDYLAY_SETTINGS_MAX_CONCURRENT_STREAMS) \<le> s_num_outgoing_streams s"

definition spdylay_session_is_incoming_concurrent_streams_max :: "('z, 'u) spdylay_session \<Rightarrow> bool" where
  "spdylay_session_is_incoming_concurrent_streams_max s \<longleftrightarrow>
     unat (s_local_settings s ! SPDYLAY_SETTINGS_MAX_CONCURRENT_STREAMS) \<le> s_num_incoming_streams s"

text \<open>The C remainder of the signed ID by 2.\<close>

definition rem2 :: "i32 \<Rightarrow> int" where
  "rem2 stream_id = sint stream_id smod 2"

definition spdylay_session_is_my_stream_id :: "('z, 'u) spdylay_session \<Rightarrow> i32 \<Rightarrow> bool" where
  "spdylay_session_is_my_stream_id s stream_id \<longleftrightarrow>
     (if stream_id = 0 then False
      else s_server s \<and> rem2 stream_id = 0 \<or> \<not> s_server s \<and> rem2 stream_id = 1)"

definition spdylay_session_get_stream :: "('z, 'u) spdylay_session \<Rightarrow> i32 \<Rightarrow> spdylay_stream option" where
  "spdylay_session_get_stream s stream_id = map_get (s_streams s) stream_id"

text \<open>Assigning to a stream through its pointer.\<close>

definition put_stream ::
    "i32 \<Rightarrow> (spdylay_stream \<Rightarrow> spdylay_stream) \<Rightarrow> ('z, 'u) spdylay_session \<Rightarrow> ('z, 'u) spdylay_session" where
  "put_stream stream_id f s = s\<lparr>s_streams := map_write stream_id f (s_streams s)\<rparr>"

definition spdylay_session_get_pri_lowest :: "('z, 'u) spdylay_session \<Rightarrow> u8" where
  "spdylay_session_get_pri_lowest s =
     (if s_version s = SPDYLAY_PROTO_SPDY2 then SPDYLAY_PRI_LOWEST_SPDY2
      else if s_version s = SPDYLAY_PROTO_SPDY3 then SPDYLAY_PRI_LOWEST_SPDY3 else 0)"

definition spdylay_session_get_stream_user_data :: "('z, 'u) spdylay_session \<Rightarrow> i32 \<Rightarrow> nat" where
  "spdylay_session_get_stream_user_data s stream_id =
     (case spdylay_session_get_stream s stream_id of Some st \<Rightarrow> sm_stream_user_data st | None \<Rightarrow> 0)"

definition spdylay_session_get_outbound_queue_size :: "('z, 'u) spdylay_session \<Rightarrow> nat" where
  "spdylay_session_get_outbound_queue_size s = spdylay_pq_size (s_ob_pq s) + spdylay_pq_size (s_ob_ss_pq s)"

definition spdylay_session_want_read :: "('z, 'u) spdylay_session \<Rightarrow> bool" where
  "spdylay_session_want_read s \<longleftrightarrow>
     (if s_goaway_flags s AND SPDYLAY_GOAWAY_FAIL_ON_SEND \<noteq> 0 \<and> s_goaway_flags s AND SPDYLAY_GOAWAY_SEND \<noteq> 0
      then False
      else s_goaway_flags s = 0 \<or> spdylay_map_size (s_streams s) > 0)"

definition spdylay_session_want_write :: "('z, 'u) spdylay_session \<Rightarrow> bool" where
  "spdylay_session_want_write s \<longleftrightarrow>
     (if s_goaway_flags s AND SPDYLAY_GOAWAY_FAIL_ON_SEND \<noteq> 0 \<and> s_goaway_flags s AND SPDYLAY_GOAWAY_SEND \<noteq> 0
      then False
      else (ao_item (s_aob s) \<noteq> None \<or> \<not> spdylay_pq_empty (s_ob_pq s) \<or>
            \<not> spdylay_pq_empty (s_ob_ss_pq s) \<and> \<not> spdylay_session_is_outgoing_concurrent_streams_max s) \<and>
           (s_goaway_flags s = 0 \<or> spdylay_map_size (s_streams s) > 0))"

section \<open>Queueing frames\<close>

definition session_malloc :: "('z, 'u) spdylay_session \<Rightarrow> bool \<times> ('z, 'u) spdylay_session" where
  "session_malloc s = (case malloc (s_mem s) of (ok, m) \<Rightarrow> (ok, s\<lparr>s_mem := m\<rparr>))"

definition push_ob_pq :: "('z, 'u) spdylay_session \<Rightarrow> spdylay_outbound_item \<Rightarrow> int \<times> ('z, 'u) spdylay_session" where
  "push_ob_pq s item =
     (case spdylay_pq_push (s_mem s) (s_ob_pq s) item of (r, pq, m) \<Rightarrow> (r, s\<lparr>s_ob_pq := pq, s_mem := m\<rparr>))"

definition push_ob_ss_pq :: "('z, 'u) spdylay_session \<Rightarrow> spdylay_outbound_item \<Rightarrow> int \<times> ('z, 'u) spdylay_session" where
  "push_ob_ss_pq s item =
     (case spdylay_pq_push (s_mem s) (s_ob_ss_pq s) item of (r, pq, m) \<Rightarrow> (r, s\<lparr>s_ob_ss_pq := pq, s_mem := m\<rparr>))"

text \<open>The priority of the stream a frame belongs to, if it is there.\<close>

definition stream_pri :: "('z, 'u) spdylay_session \<Rightarrow> i32 \<Rightarrow> int \<Rightarrow> int" where
  "stream_pri s stream_id pri =
     (case spdylay_session_get_stream s stream_id of Some st \<Rightarrow> uint (sm_pri st) | None \<Rightarrow> pri)"

definition frame_pri :: "('z, 'u) spdylay_session \<Rightarrow> item_frame \<Rightarrow> int" where
  "frame_pri s frame =
     (let lowest = uint (spdylay_session_get_pri_lowest s) in
      case frame of
        CtrlFrame (FSynStream f) \<Rightarrow> uint (ss_pri f)
      | CtrlFrame (FSynReply f) \<Rightarrow> stream_pri s (sr_stream_id f) lowest
      | CtrlFrame (FRstStream f) \<Rightarrow> stream_pri s (rs_stream_id f) lowest
      | CtrlFrame (FSettings f) \<Rightarrow> -1
      | CtrlFrame (FPing f) \<Rightarrow> SPDYLAY_OB_PRI_PING
      | CtrlFrame (FGoaway f) \<Rightarrow> lowest
      | CtrlFrame (FHeaders f) \<Rightarrow> stream_pri s (hs_stream_id f) lowest
      | CtrlFrame (FWindowUpdate f) \<Rightarrow> stream_pri s (wu_stream_id f) lowest
      | CtrlFrame (FCredential f) \<Rightarrow> SPDYLAY_OB_PRI_CREDENTIAL
      | DataFrame d \<Rightarrow> stream_pri s (da_stream_id d) lowest)"

definition spdylay_session_add_frame ::
    "('z, 'u) spdylay_session \<Rightarrow> item_frame \<Rightarrow> aux_data \<Rightarrow> int \<times> ('z, 'u) spdylay_session" where
  "spdylay_session_add_frame s0 frame aux =
     (case session_malloc s0 of (ok, s1) \<Rightarrow>
        if \<not> ok then (SPDYLAY_ERR_NOMEM, s1)
        else
          let item = \<lparr>oi_frame = frame, oi_aux_data = aux, oi_pri = frame_pri s1 frame, oi_seq = s_next_seq s1\<rparr>;
              s2 = s1\<lparr>s_next_seq := s_next_seq s1 + 1\<rparr>;
              s3 = (case frame of
                      CtrlFrame (FRstStream f) \<Rightarrow>
                        put_stream (rs_stream_id f) (\<lambda>st. st\<lparr>sm_state := SPDYLAY_STREAM_CLOSING\<rparr>) s2
                    | _ \<Rightarrow> s2) in
          case frame of
            CtrlFrame (FSynStream f) \<Rightarrow> push_ob_ss_pq s3 item
          | _ \<Rightarrow> push_ob_pq s3 item)"

text \<open>Allocating a control frame and queueing it, as the \<open>add\<close> functions do.\<close>

definition alloc_add_frame ::
    "('z, 'u) spdylay_session \<Rightarrow> spdylay_frame \<Rightarrow> int \<times> ('z, 'u) spdylay_session" where
  "alloc_add_frame s frame =
     (case session_malloc s of (ok, s1) \<Rightarrow>
        if \<not> ok then (SPDYLAY_ERR_NOMEM, s1) else spdylay_session_add_frame s1 (CtrlFrame frame) NoAux)"

definition spdylay_session_add_rst_stream ::
    "('z, 'u) spdylay_session \<Rightarrow> i32 \<Rightarrow> u32 \<Rightarrow> int \<times> ('z, 'u) spdylay_session" where
  "spdylay_session_add_rst_stream s stream_id status_code =
     alloc_add_frame s (FRstStream (spdylay_frame_rst_stream_init (s_version s) stream_id status_code))"

definition spdylay_session_add_ping ::
    "('z, 'u) spdylay_session \<Rightarrow> u32 \<Rightarrow> int \<times> ('z, 'u) spdylay_session" where
  "spdylay_session_add_ping s unique_id =
     alloc_add_frame s (FPing (spdylay_frame_ping_init (s_version s) unique_id))"

definition spdylay_session_add_goaway ::
    "('z, 'u) spdylay_session \<Rightarrow> i32 \<Rightarrow> u32 \<Rightarrow> int \<times> ('z, 'u) spdylay_session" where
  "spdylay_session_add_goaway s last_good_stream_id status_code =
     alloc_add_frame s (FGoaway (spdylay_frame_goaway_init (s_version s) last_good_stream_id status_code))"

definition spdylay_session_add_window_update ::
    "('z, 'u) spdylay_session \<Rightarrow> i32 \<Rightarrow> i32 \<Rightarrow> int \<times> ('z, 'u) spdylay_session" where
  "spdylay_session_add_window_update s stream_id delta_window_size =
     alloc_add_frame s
       (FWindowUpdate (spdylay_frame_window_update_init (s_version s) stream_id delta_window_size))"

definition spdylay_session_get_next_unique_id ::
    "('z, 'u) spdylay_session \<Rightarrow> u32 \<times> ('z, 'u) spdylay_session" where
  "spdylay_session_get_next_unique_id s =
     (let id = (if s_next_unique_id s > SPDYLAY_MAX_UNIQUE_ID
                then if s_server s then 2 else 1 else s_next_unique_id s) in
      (id, s\<lparr>s_next_unique_id := id + 2\<rparr>))"

section \<open>Taking frames out\<close>

definition spdylay_session_get_ob_pq_top :: "('z, 'u) spdylay_session \<Rightarrow> spdylay_outbound_item option" where
  "spdylay_session_get_ob_pq_top s = spdylay_pq_top (s_ob_pq s)"

definition spdylay_session_get_next_ob_item :: "('z, 'u) spdylay_session \<Rightarrow> spdylay_outbound_item option" where
  "spdylay_session_get_next_ob_item s =
     (case (spdylay_pq_top (s_ob_pq s), spdylay_pq_top (s_ob_ss_pq s)) of
        (None, None) \<Rightarrow> None
      | (None, Some syn_stream_item) \<Rightarrow>
          if spdylay_session_is_outgoing_concurrent_streams_max s then None else Some syn_stream_item
      | (Some item, None) \<Rightarrow> Some item
      | (Some item, Some syn_stream_item) \<Rightarrow>
          if spdylay_session_is_outgoing_concurrent_streams_max s \<or> oi_pri item < oi_pri syn_stream_item \<or>
             oi_pri item = oi_pri syn_stream_item \<and> oi_seq item < oi_seq syn_stream_item
          then Some item else Some syn_stream_item)"

text \<open>When both queues hold items the one of the SYN_STREAM queue is always taken.\<close>

definition spdylay_session_pop_next_ob_item ::
    "('z, 'u) spdylay_session \<Rightarrow> spdylay_outbound_item option \<times> ('z, 'u) spdylay_session" where
  "spdylay_session_pop_next_ob_item s =
     (case (spdylay_pq_top (s_ob_pq s), spdylay_pq_top (s_ob_ss_pq s)) of
        (None, None) \<Rightarrow> (None, s)
      | (None, Some syn_stream_item) \<Rightarrow>
          if spdylay_session_is_outgoing_concurrent_streams_max s then (None, s)
          else (Some syn_stream_item, s\<lparr>s_ob_ss_pq := spdylay_pq_pop (s_ob_ss_pq s)\<rparr>)
      | (Some item, None) \<Rightarrow> (Some item, s\<lparr>s_ob_pq := spdylay_pq_pop (s_ob_pq s)\<rparr>)
      | (Some item, Some syn_stream_item) \<Rightarrow>
          (Some syn_stream_item, s\<lparr>s_ob_ss_pq := spdylay_pq_pop (s_ob_ss_pq s)\<rparr>))"

section \<open>Opening streams\<close>

text \<open>The new stream or NULL; the counters move in both cases once the memory is there.\<close>

definition spdylay_session_open_stream ::
    "('z, 'u) spdylay_session \<Rightarrow> i32 \<Rightarrow> u8 \<Rightarrow> u8 \<Rightarrow> spdylay_stream_state \<Rightarrow> nat \<Rightarrow>
     bool \<times> ('z, 'u) spdylay_session" where
  "spdylay_session_open_stream s stream_id flags pri initial_state stream_user_data =
     (case session_malloc s of (ok, s1) \<Rightarrow>
        if \<not> ok then (False, s1)
        else
          let stream = spdylay_stream_init stream_id flags pri initial_state
                (s_remote_settings s1 ! SPDYLAY_SETTINGS_INITIAL_WINDOW_SIZE) stream_user_data in
          case map_ins (s_streams s1) stream_id stream of (r, streams) \<Rightarrow>
            let s2 = s1\<lparr>s_streams := streams\<rparr> in
            (r = 0,
             if spdylay_session_is_my_stream_id s2 stream_id
             then s2\<lparr>s_num_outgoing_streams := s_num_outgoing_streams s2 + 1\<rparr>
             else s2\<lparr>s_num_incoming_streams := s_num_incoming_streams s2 + 1\<rparr>))"

section \<open>When a frame may be sent\<close>

definition spdylay_predicate_stream_for_send :: "spdylay_stream option \<Rightarrow> int" where
  "spdylay_predicate_stream_for_send stream =
     (case stream of None \<Rightarrow> SPDYLAY_ERR_STREAM_CLOSED
      | Some st \<Rightarrow> if sm_shut_flags st AND SPDYLAY_SHUT_WR \<noteq> 0 then SPDYLAY_ERR_STREAM_SHUT_WR else 0)"

definition spdylay_session_predicate_syn_stream_send ::
    "('z, 'u) spdylay_session \<Rightarrow> spdylay_syn_stream \<Rightarrow> int" where
  "spdylay_session_predicate_syn_stream_send s frame =
     (if s_goaway_flags s \<noteq> 0 then SPDYLAY_ERR_SYN_STREAM_NOT_ALLOWED
      else if uint (s_next_stream_id s) > INT32_MAX then SPDYLAY_ERR_STREAM_ID_NOT_AVAILABLE
      else if ss_assoc_stream_id frame \<noteq> 0 \<and> spdylay_session_get_stream s (ss_assoc_stream_id frame) = None
      then SPDYLAY_ERR_STREAM_CLOSED else 0)"

definition spdylay_session_predicate_syn_reply_send :: "('z, 'u) spdylay_session \<Rightarrow> i32 \<Rightarrow> int" where
  "spdylay_session_predicate_syn_reply_send s stream_id =
     (let stream = spdylay_session_get_stream s stream_id;
          r = spdylay_predicate_stream_for_send stream in
      if r \<noteq> 0 then r
      else if spdylay_session_is_my_stream_id s stream_id then SPDYLAY_ERR_INVALID_STREAM_ID
      else (case sm_state (the stream) of
              SPDYLAY_STREAM_OPENING \<Rightarrow> 0
            | SPDYLAY_STREAM_CLOSING \<Rightarrow> SPDYLAY_ERR_STREAM_CLOSING
            | _ \<Rightarrow> SPDYLAY_ERR_INVALID_STREAM_STATE))"

text \<open>The last test that HEADERS and DATA share.\<close>

definition predicate_opened_send :: "('z, 'u) spdylay_session \<Rightarrow> i32 \<Rightarrow> spdylay_stream \<Rightarrow> int" where
  "predicate_opened_send s stream_id st =
     (if spdylay_session_is_my_stream_id s stream_id
      then if sm_state st \<noteq> SPDYLAY_STREAM_CLOSING then 0 else SPDYLAY_ERR_STREAM_CLOSING
      else (case sm_state st of
              SPDYLAY_STREAM_OPENED \<Rightarrow> 0
            | SPDYLAY_STREAM_CLOSING \<Rightarrow> SPDYLAY_ERR_STREAM_CLOSING
            | _ \<Rightarrow> SPDYLAY_ERR_INVALID_STREAM_STATE))"

definition spdylay_session_predicate_headers_send :: "('z, 'u) spdylay_session \<Rightarrow> i32 \<Rightarrow> int" where
  "spdylay_session_predicate_headers_send s stream_id =
     (let stream = spdylay_session_get_stream s stream_id;
          r = spdylay_predicate_stream_for_send stream in
      if r \<noteq> 0 then r else predicate_opened_send s stream_id (the stream))"

definition spdylay_session_predicate_window_update_send :: "('z, 'u) spdylay_session \<Rightarrow> i32 \<Rightarrow> int" where
  "spdylay_session_predicate_window_update_send s stream_id =
     (case spdylay_session_get_stream s stream_id of
        None \<Rightarrow> SPDYLAY_ERR_STREAM_CLOSED
      | Some st \<Rightarrow> if sm_state st \<noteq> SPDYLAY_STREAM_CLOSING then 0 else SPDYLAY_ERR_STREAM_CLOSING)"

definition spdylay_session_next_data_read :: "('z, 'u) spdylay_session \<Rightarrow> spdylay_stream \<Rightarrow> nat" where
  "spdylay_session_next_data_read s stream =
     (if \<not> s_flow_control s then SPDYLAY_DATA_PAYLOAD_LENGTH
      else if sint (sm_window_size stream) > 0 then
        if sint (sm_window_size stream) < int SPDYLAY_DATA_PAYLOAD_LENGTH
        then nat (sint (sm_window_size stream)) else SPDYLAY_DATA_PAYLOAD_LENGTH
      else 0)"

definition spdylay_session_predicate_data_send :: "('z, 'u) spdylay_session \<Rightarrow> i32 \<Rightarrow> int" where
  "spdylay_session_predicate_data_send s stream_id =
     (let stream = spdylay_session_get_stream s stream_id;
          r = spdylay_predicate_stream_for_send stream in
      if r \<noteq> 0 then r
      else if sm_deferred_data (the stream) \<noteq> None then SPDYLAY_ERR_DEFERRED_DATA_EXIST
      else predicate_opened_send s stream_id (the stream))"

end
