(* ===== verification/Spdy_Submit.thy ===== *)
theory Spdy_Submit
  imports Spdy_Session "HOL-Library.Monad_Syntax"
begin

text \<open>
  \<open>lib/spdylay_submit.c\<close>, \<open>lib/spdylay_associated_content.c\<close> and the operations of
  \<open>lib/spdylay_session.c\<close> that an application may call at any time, also from a callback: they
  queue frames and set fields, and never open or close a stream. \<open>keeps_streams\<close> states that
  once for all of them. An \<open>api_call\<close> is one such call with its arguments, and the callbacks of
  the application answer with the calls they make.
\<close>

section \<open>Submitting frames\<close>

definition session_nv_norm_copy ::
    "('z, 'u) spdylay_session \<Rightarrow> cstr list \<Rightarrow> nv option \<times> ('z, 'u) spdylay_session" where
  "session_nv_norm_copy s nv =
     (case spdylay_frame_nv_norm_copy (s_mem s) nv of (c, m) \<Rightarrow> (c, s\<lparr>s_mem := m\<rparr>))"

text \<open>The copy of a data provider that has a callback: failure of the allocation, copy, state.\<close>

definition copy_data_prd ::
    "('z, 'u) spdylay_session \<Rightarrow> spdylay_data_provider option \<Rightarrow>
     bool \<times> spdylay_data_provider option \<times> ('z, 'u) spdylay_session" where
  "copy_data_prd s data_prd =
     (case data_prd of
        Some prd \<Rightarrow>
          if dp_read_callback prd
          then (case session_malloc s of (ok, s1) \<Rightarrow> (ok, if ok then Some prd else None, s1))
          else (True, None, s)
      | None \<Rightarrow> (True, None, s))"

text \<open>The frame and its normalised name/value block: both are allocated before the frame is built.\<close>

definition alloc_frame_nv ::
    "('z, 'u) spdylay_session \<Rightarrow> cstr list \<Rightarrow> nv option \<times> ('z, 'u) spdylay_session" where
  "alloc_frame_nv s nv =
     (case session_malloc s of (ok, s1) \<Rightarrow>
        if \<not> ok then (None, s1) else session_nv_norm_copy s1 nv)"

definition spdylay_submit_syn_stream_shared ::
    "('z, 'u) spdylay_session \<Rightarrow> u8 \<Rightarrow> i32 \<Rightarrow> u8 \<Rightarrow> cstr list \<Rightarrow> spdylay_data_provider option \<Rightarrow> nat \<Rightarrow>
     int \<times> ('z, 'u) spdylay_session" where
  "spdylay_submit_syn_stream_shared s flags assoc_stream_id0 pri nv data_prd stream_user_data =
     (if pri > spdylay_session_get_pri_lowest s then (SPDYLAY_ERR_INVALID_ARGUMENT, s)
      else
        let assoc_stream_id = (if assoc_stream_id0 \<noteq> 0 \<and> \<not> s_server s then 0 else assoc_stream_id0) in
        if assoc_stream_id \<noteq> 0 \<and> spdylay_session_is_my_stream_id s assoc_stream_id
        then (SPDYLAY_ERR_INVALID_ARGUMENT, s)
        else if \<not> spdylay_frame_nv_check_null nv then (SPDYLAY_ERR_INVALID_ARGUMENT, s)
        else case copy_data_prd s data_prd of (ok, data_prd_copy, s1) \<Rightarrow>
        if \<not> ok then (SPDYLAY_ERR_NOMEM, s1)
        else case session_malloc s1 of (ok, s2) \<Rightarrow>
        if \<not> ok then (SPDYLAY_ERR_NOMEM, s2)
        else case alloc_frame_nv s2 nv of
          (None, s3) \<Rightarrow> (SPDYLAY_ERR_NOMEM, s3)
        | (Some nv_copy, s3) \<Rightarrow>
            let flags_copy = (flags AND SPDYLAY_CTRL_FLAG_FIN) OR (flags AND SPDYLAY_CTRL_FLAG_UNIDIRECTIONAL) in
            spdylay_session_add_frame s3
              (CtrlFrame (FSynStream
                 (spdylay_frame_syn_stream_init (s_version s3) flags_copy 0 assoc_stream_id pri nv_copy)))
              (SynStreamAux data_prd_copy stream_user_data))"

definition spdylay_submit_syn_stream ::
    "('z, 'u) spdylay_session \<Rightarrow> u8 \<Rightarrow> i32 \<Rightarrow> u8 \<Rightarrow> cstr list \<Rightarrow> nat \<Rightarrow> int \<times> ('z, 'u) spdylay_session" where
  "spdylay_submit_syn_stream s flags assoc_stream_id pri nv stream_user_data =
     spdylay_submit_syn_stream_shared s flags assoc_stream_id pri nv None stream_user_data"

definition spdylay_submit_server_push ::
    "('z, 'u) spdylay_session \<Rightarrow> i32 \<Rightarrow> cstr list \<Rightarrow> spdylay_data_provider option \<Rightarrow> nat \<Rightarrow>
     int \<times> ('z, 'u) spdylay_session" where
  "spdylay_submit_server_push s assoc_stream_id nv data_prd stream_user_data =
     spdylay_submit_syn_stream_shared s SPDYLAY_CTRL_FLAG_UNIDIRECTIONAL assoc_stream_id 3 nv data_prd
       stream_user_data"

definition spdylay_submit_syn_reply ::
    "('z, 'u) spdylay_session \<Rightarrow> u8 \<Rightarrow> i32 \<Rightarrow> cstr list \<Rightarrow> int \<times> ('z, 'u) spdylay_session" where
  "spdylay_submit_syn_reply s flags stream_id nv =
     (if \<not> spdylay_frame_nv_check_null nv then (SPDYLAY_ERR_INVALID_ARGUMENT, s)
      else case alloc_frame_nv s nv of
        (None, s1) \<Rightarrow> (SPDYLAY_ERR_NOMEM, s1)
      | (Some nv_copy, s1) \<Rightarrow>
          spdylay_session_add_frame s1
            (CtrlFrame (FSynReply (spdylay_frame_syn_reply_init (s_version s1)
               (flags AND SPDYLAY_CTRL_FLAG_FIN) stream_id nv_copy))) NoAux)"

definition spdylay_submit_headers ::
    "('z, 'u) spdylay_session \<Rightarrow> u8 \<Rightarrow> i32 \<Rightarrow> cstr list \<Rightarrow> int \<times> ('z, 'u) spdylay_session" where
  "spdylay_submit_headers s flags stream_id nv =
     (if \<not> spdylay_frame_nv_check_null nv then (SPDYLAY_ERR_INVALID_ARGUMENT, s)
      else case alloc_frame_nv s nv of
        (None, s1) \<Rightarrow> (SPDYLAY_ERR_NOMEM, s1)
      | (Some nv_copy, s1) \<Rightarrow>
          spdylay_session_add_frame s1
            (CtrlFrame (FHeaders (spdylay_frame_headers_init (s_version s1)
               (flags AND SPDYLAY_CTRL_FLAG_FIN) stream_id nv_copy))) NoAux)"

definition spdylay_submit_ping :: "('z, 'u) spdylay_session \<Rightarrow> int \<times> ('z, 'u) spdylay_session" where
  "spdylay_submit_ping s =
     (case spdylay_session_get_next_unique_id s of (unique_id, s1) \<Rightarrow> spdylay_session_add_ping s1 unique_id)"

definition spdylay_submit_rst_stream ::
    "('z, 'u) spdylay_session \<Rightarrow> i32 \<Rightarrow> u32 \<Rightarrow> int \<times> ('z, 'u) spdylay_session" where
  "spdylay_submit_rst_stream s stream_id status_code = spdylay_session_add_rst_stream s stream_id status_code"

definition spdylay_submit_goaway ::
    "('z, 'u) spdylay_session \<Rightarrow> u32 \<Rightarrow> int \<times> ('z, 'u) spdylay_session" where
  "spdylay_submit_goaway s status_code = spdylay_session_add_goaway s (s_last_recv_stream_id s) status_code"

text \<open>
  The loop over the entries with the array \<open>check\<close>: \<open>None\<close> for an index below zero, which the
  test lets through, \<open>Some False\<close> for the early return.
\<close>

fun check_settings :: "bool list \<Rightarrow> spdylay_settings_entry list \<Rightarrow> bool option" where
  "check_settings check [] = Some True"
| "check_settings check (e # iv) =
     (let id = sint (se_settings_id e) in
      if id > int SPDYLAY_SETTINGS_MAX \<or> id = 0 then Some False
      else if id < 0 then None
      else if check ! nat id then Some False
      else check_settings (check[nat id := True]) iv)"

text \<open>The \<open>assert\<close> on each identifier is \<open>None\<close>.\<close>

fun spdylay_session_update_local_settings ::
    "('z, 'u) spdylay_session \<Rightarrow> spdylay_settings_entry list \<Rightarrow> ('z, 'u) spdylay_session option" where
  "spdylay_session_update_local_settings s [] = Some s"
| "spdylay_session_update_local_settings s (e # iv) =
     (let id = sint (se_settings_id e) in
      if id > 0 \<and> id \<le> int SPDYLAY_SETTINGS_MAX
      then spdylay_session_update_local_settings
             (s\<lparr>s_local_settings := (s_local_settings s)[nat id := se_value e]\<rparr>) iv
      else None)"

definition spdylay_submit_settings ::
    "('z, 'u) spdylay_session \<Rightarrow> u8 \<Rightarrow> spdylay_settings_entry list \<Rightarrow>
     (int \<times> ('z, 'u) spdylay_session) option" where
  "spdylay_submit_settings s flags iv =
     do {
       ok \<leftarrow> check_settings (replicate (SPDYLAY_SETTINGS_MAX + 1) False) iv;
       if \<not> ok then Some (SPDYLAY_ERR_INVALID_ARGUMENT, s)
       else case session_malloc s of (ok, s1) \<Rightarrow>
       if \<not> ok then Some (SPDYLAY_ERR_NOMEM, s1)
       else case spdylay_frame_iv_copy (s_mem s1) iv of
         (None, m) \<Rightarrow> Some (SPDYLAY_ERR_NOMEM, s1\<lparr>s_mem := m\<rparr>)
       | (Some copy, m) \<Rightarrow>
           let iv_copy = spdylay_frame_iv_sort copy in
           (case spdylay_session_add_frame (s1\<lparr>s_mem := m\<rparr>)
                   (CtrlFrame (FSettings (spdylay_frame_settings_init (s_version s1) flags iv_copy))) NoAux of
              (r, s2) \<Rightarrow>
                if r = 0 then map_option (\<lambda>s3. (r, s3)) (spdylay_session_update_local_settings s2 iv_copy)
                else Some (r, s2))
     }"

definition spdylay_submit_window_update ::
    "('z, 'u) spdylay_session \<Rightarrow> i32 \<Rightarrow> i32 \<Rightarrow> int \<times> ('z, 'u) spdylay_session" where
  "spdylay_submit_window_update s stream_id delta_window_size =
     (if sint delta_window_size \<le> 0 then (SPDYLAY_ERR_INVALID_ARGUMENT, s)
      else case spdylay_session_get_stream s stream_id of
        None \<Rightarrow> (SPDYLAY_ERR_STREAM_CLOSED, s)
      | Some st \<Rightarrow>
          spdylay_session_add_window_update
            (put_stream stream_id (\<lambda>st. st\<lparr>sm_recv_window_size := sm_recv_window_size st -
               (if sint delta_window_size < sint (sm_recv_window_size st)
                then delta_window_size else sm_recv_window_size st)\<rparr>) s)
            stream_id delta_window_size)"

definition spdylay_submit_request ::
    "('z, 'u) spdylay_session \<Rightarrow> u8 \<Rightarrow> cstr list \<Rightarrow> spdylay_data_provider option \<Rightarrow> nat \<Rightarrow>
     int \<times> ('z, 'u) spdylay_session" where
  "spdylay_submit_request s pri nv data_prd stream_user_data =
     (let flags = (case data_prd of None \<Rightarrow> SPDYLAY_CTRL_FLAG_FIN
                   | Some prd \<Rightarrow> if dp_read_callback prd then 0 else SPDYLAY_CTRL_FLAG_FIN) in
      spdylay_submit_syn_stream_shared s flags 0 pri nv data_prd stream_user_data)"

definition spdylay_submit_response ::
    "('z, 'u) spdylay_session \<Rightarrow> i32 \<Rightarrow> cstr list \<Rightarrow> spdylay_data_provider option \<Rightarrow>
     int \<times> ('z, 'u) spdylay_session" where
  "spdylay_submit_response s stream_id nv data_prd =
     (if \<not> spdylay_frame_nv_check_null nv then (SPDYLAY_ERR_INVALID_ARGUMENT, s)
      else case copy_data_prd s data_prd of (ok, data_prd_copy, s1) \<Rightarrow>
      if \<not> ok then (SPDYLAY_ERR_NOMEM, s1)
      else case alloc_frame_nv s1 nv of
        (None, s2) \<Rightarrow> (SPDYLAY_ERR_NOMEM, s2)
      | (Some nv_copy, s2) \<Rightarrow>
          let flags = (if data_prd_copy = None then SPDYLAY_CTRL_FLAG_FIN else 0) in
          spdylay_session_add_frame s2
            (CtrlFrame (FSynReply (spdylay_frame_syn_reply_init (s_version s2) flags stream_id nv_copy)))
            (case data_prd_copy of Some prd \<Rightarrow> DataPrdAux prd | None \<Rightarrow> NoAux))"

definition spdylay_submit_data ::
    "('z, 'u) spdylay_session \<Rightarrow> i32 \<Rightarrow> u8 \<Rightarrow> spdylay_data_provider \<Rightarrow> int \<times> ('z, 'u) spdylay_session" where
  "spdylay_submit_data s stream_id flags data_prd =
     (case session_malloc s of (ok, s1) \<Rightarrow>
        if \<not> ok then (SPDYLAY_ERR_NOMEM, s1)
        else spdylay_session_add_frame s1
               (DataFrame (spdylay_frame_data_init stream_id (flags AND SPDYLAY_DATA_FLAG_FIN) data_prd)) NoAux)"

section \<open>Other calls of the application\<close>

definition spdylay_session_fail_session ::
    "('z, 'u) spdylay_session \<Rightarrow> u32 \<Rightarrow> int \<times> ('z, 'u) spdylay_session" where
  "spdylay_session_fail_session s status_code =
     spdylay_submit_goaway (s\<lparr>s_goaway_flags := s_goaway_flags s OR SPDYLAY_GOAWAY_FAIL_ON_SEND\<rparr>) status_code"

definition spdylay_session_resume_data ::
    "('z, 'u) spdylay_session \<Rightarrow> i32 \<Rightarrow> int \<times> ('z, 'u) spdylay_session" where
  "spdylay_session_resume_data s stream_id =
     (case spdylay_session_get_stream s stream_id of
        None \<Rightarrow> (SPDYLAY_ERR_INVALID_ARGUMENT, s)
      | Some st \<Rightarrow>
          (case sm_deferred_data st of
             None \<Rightarrow> (SPDYLAY_ERR_INVALID_ARGUMENT, s)
           | Some item \<Rightarrow>
               if sm_deferred_flags st AND SPDYLAY_DEFERRED_FLOW_CONTROL \<noteq> 0
               then (SPDYLAY_ERR_INVALID_ARGUMENT, s)
               else case push_ob_pq s item of (r, s1) \<Rightarrow>
                 (r, if r = 0 then put_stream stream_id spdylay_stream_detach_deferred_data s1 else s1)))"

text \<open>The option with its value; a value of another size than the option has is \<open>BadOption\<close>.\<close>

datatype session_option = NoAutoWindowUpdate int | MaxRecvCtrlFrameBuffer u32 | BadOption

definition spdylay_session_set_option ::
    "('z, 'u) spdylay_session \<Rightarrow> session_option \<Rightarrow> int \<times> ('z, 'u) spdylay_session" where
  "spdylay_session_set_option s opt =
     (case opt of
        NoAutoWindowUpdate intval \<Rightarrow>
          (0, s\<lparr>s_opt_flags :=
             (if intval \<noteq> 0 then s_opt_flags s OR SPDYLAY_OPTMASK_NO_AUTO_WINDOW_UPDATE
              else s_opt_flags s AND NOT SPDYLAY_OPTMASK_NO_AUTO_WINDOW_UPDATE)\<rparr>)
      | MaxRecvCtrlFrameBuffer intval \<Rightarrow>
          if push_bit 13 1 \<le> intval \<and> intval < push_bit 24 1
          then (0, s\<lparr>s_max_recv_ctrl_frame_buf := intval\<rparr>)
          else (SPDYLAY_ERR_INVALID_ARGUMENT, s)
      | BadOption \<Rightarrow> (SPDYLAY_ERR_INVALID_ARGUMENT, s))"

text \<open>The \<open>assert\<close> that the first slot is taken is \<open>None\<close>.\<close>

definition spdylay_session_set_initial_client_cert_origin ::
    "('z, 'u) spdylay_session \<Rightarrow> cstr \<Rightarrow> cstr \<Rightarrow> u16 \<Rightarrow> (int \<times> ('z, 'u) spdylay_session) option" where
  "spdylay_session_set_initial_client_cert_origin s scheme host port =
     (if length scheme > SPDYLAY_MAX_SCHEME \<or> length host > SPDYLAY_MAX_HOSTNAME
      then Some (SPDYLAY_ERR_INVALID_ARGUMENT, s)
      else if s_server s \<or> cv_size (s_cli_certvec s) = 0 \<or> cv_last_slot (s_cli_certvec s) \<noteq> 0
      then Some (SPDYLAY_ERR_INVALID_STATE, s)
      else case session_malloc s of (ok, s1) \<Rightarrow>
      if \<not> ok then Some (SPDYLAY_ERR_NOMEM, s1)
      else case spdylay_client_cert_vector_put (s_cli_certvec s1)
                  \<lparr>or_scheme = scheme, or_host = host, or_port = port\<rparr> of (slot, cv) \<Rightarrow>
      if slot = 1 then Some (0, s1\<lparr>s_cli_certvec := cv\<rparr>) else None)"

definition spdylay_session_get_client_cert_origin ::
    "('z, 'u) spdylay_session \<Rightarrow> nat \<Rightarrow> spdylay_origin option" where
  "spdylay_session_get_client_cert_origin s slot = spdylay_client_cert_vector_get_origin (s_cli_certvec s) slot"

definition spdylay_associated_content_register ::
    "('z, 'u) spdylay_session \<Rightarrow> i32 \<Rightarrow> nat \<Rightarrow> int \<times> ('z, 'u) spdylay_session" where
  "spdylay_associated_content_register s stream_id num_assoc_content =
     (case spdylay_session_get_stream s stream_id of
        None \<Rightarrow> (-1, s)
      | Some st \<Rightarrow>
          (0, put_stream stream_id
                (\<lambda>st. st\<lparr>sm_assoc_content := (sm_assoc_content st + num_assoc_content) mod SIZE_MAX1\<rparr>) s))"

text \<open>The function ends without a return statement when the stream is there, so only the state is given.\<close>

definition spdylay_associated_content_unregister ::
    "('z, 'u) spdylay_session \<Rightarrow> i32 \<Rightarrow> nat \<Rightarrow> ('z, 'u) spdylay_session" where
  "spdylay_associated_content_unregister s stream_id num_assoc_content =
     (case spdylay_session_get_stream s stream_id of
        None \<Rightarrow> s
      | Some st \<Rightarrow>
          put_stream stream_id (\<lambda>st. st\<lparr>sm_assoc_content := size_sub (sm_assoc_content st) num_assoc_content\<rparr>) s)"

section \<open>Calls as data and the callbacks\<close>

datatype api_call =
  SubmitSynStream u8 i32 u8 "cstr list" nat
| SubmitServerPush i32 "cstr list" "spdylay_data_provider option" nat
| SubmitSynReply u8 i32 "cstr list"
| SubmitHeaders u8 i32 "cstr list"
| SubmitPing
| SubmitRstStream i32 u32
| SubmitGoaway u32
| SubmitSettings u8 "spdylay_settings_entry list"
| SubmitWindowUpdate i32 i32
| SubmitRequest u8 "cstr list" "spdylay_data_provider option" nat
| SubmitResponse i32 "cstr list" "spdylay_data_provider option"
| SubmitData i32 u8 spdylay_data_provider
| FailSession u32
| ResumeData i32
| SetOption session_option
| SetInitialClientCertOrigin cstr cstr u16
| RegisterAssocContent i32 nat
| UnregisterAssocContent i32 nat

fun exec_api :: "('z, 'u) spdylay_session \<Rightarrow> api_call \<Rightarrow> ('z, 'u) spdylay_session option" where
  "exec_api s (SubmitSynStream fl a p nv ud) = Some (snd (spdylay_submit_syn_stream s fl a p nv ud))"
| "exec_api s (SubmitServerPush a nv prd ud) = Some (snd (spdylay_submit_server_push s a nv prd ud))"
| "exec_api s (SubmitSynReply fl i nv) = Some (snd (spdylay_submit_syn_reply s fl i nv))"
| "exec_api s (SubmitHeaders fl i nv) = Some (snd (spdylay_submit_headers s fl i nv))"
| "exec_api s SubmitPing = Some (snd (spdylay_submit_ping s))"
| "exec_api s (SubmitRstStream i c) = Some (snd (spdylay_submit_rst_stream s i c))"
| "exec_api s (SubmitGoaway c) = Some (snd (spdylay_submit_goaway s c))"
| "exec_api s (SubmitSettings fl iv) = map_option snd (spdylay_submit_settings s fl iv)"
| "exec_api s (SubmitWindowUpdate i d) = Some (snd (spdylay_submit_window_update s i d))"
| "exec_api s (SubmitRequest p nv prd ud) = Some (snd (spdylay_submit_request s p nv prd ud))"
| "exec_api s (SubmitResponse i nv prd) = Some (snd (spdylay_submit_response s i nv prd))"
| "exec_api s (SubmitData i fl prd) = Some (snd (spdylay_submit_data s i fl prd))"
| "exec_api s (FailSession c) = Some (snd (spdylay_session_fail_session s c))"
| "exec_api s (ResumeData i) = Some (snd (spdylay_session_resume_data s i))"
| "exec_api s (SetOption opt) = Some (snd (spdylay_session_set_option s opt))"
| "exec_api s (SetInitialClientCertOrigin sch h p) =
     map_option snd (spdylay_session_set_initial_client_cert_origin s sch h p)"
| "exec_api s (RegisterAssocContent i n) = Some (snd (spdylay_associated_content_register s i n))"
| "exec_api s (UnregisterAssocContent i n) = Some (spdylay_associated_content_unregister s i n)"

fun exec_apis :: "('z, 'u) spdylay_session \<Rightarrow> api_call list \<Rightarrow> ('z, 'u) spdylay_session option" where
  "exec_apis s [] = Some s"
| "exec_apis s (c # cs) = Option.bind (exec_api s c) (\<lambda>s1. exec_apis s1 cs)"

text \<open>What the notification callbacks are told; the type of a control frame is its constructor.\<close>

datatype event =
  OnCtrlRecv spdylay_frame
| OnInvalidCtrlRecv spdylay_frame u32
| OnDataChunkRecv u8 i32 bytes
| OnDataRecv u8 i32 i32
| BeforeCtrlSend spdylay_frame
| OnCtrlSend spdylay_frame
| OnCtrlNotSend spdylay_frame int
| OnDataSend u8 i32 i32
| OnStreamClose i32 u32
| OnRequestRecv i32
| OnCtrlRecvParseError u16 bytes bytes int
| OnUnknownCtrlRecv bytes bytes

text \<open>
  The callbacks of the application. Each sees the whole session and answers with its user data
  after the call and the calls of the library it makes; a callback that is NULL leaves the
  user data alone and makes none. \<open>cb_send\<close> gives the return value, \<open>cb_recv\<close> the return value
  and the bytes it stores, \<open>cb_read\<close> the return value, the bytes, the \<open>eof\<close> flag and the data
  source. The credential callbacks follow their documented contract, that the first of two
  calls returns the length of what the second writes; they are given as the bytes.
\<close>

record ('z, 'u) spdylay_session_callbacks =
  cb_send :: "('z, 'u) spdylay_session \<Rightarrow> bytes \<Rightarrow> int \<times> 'u \<times> api_call list"
  cb_recv :: "('z, 'u) spdylay_session \<Rightarrow> nat \<Rightarrow> (int \<times> bytes) \<times> 'u \<times> api_call list"
  cb_read :: "('z, 'u) spdylay_session \<Rightarrow> i32 \<Rightarrow> nat \<Rightarrow> nat \<Rightarrow> (int \<times> bytes \<times> bool \<times> nat) \<times> 'u \<times> api_call list"
  cb_event :: "('z, 'u) spdylay_session \<Rightarrow> event \<Rightarrow> 'u \<times> api_call list"
  cb_get_credential_ncerts :: "(('z, 'u) spdylay_session \<Rightarrow> spdylay_origin \<Rightarrow> int) option"
  cb_get_credential_proof :: "(('z, 'u) spdylay_session \<Rightarrow> spdylay_origin \<Rightarrow> bytes) option"
  cb_get_credential_cert :: "(('z, 'u) spdylay_session \<Rightarrow> spdylay_origin \<Rightarrow> nat \<Rightarrow> bytes) option"

text \<open>What a callback leaves behind: its user data, then its calls.\<close>

definition callback_effect ::
    "('z, 'u) spdylay_session \<Rightarrow> 'u \<times> api_call list \<Rightarrow> ('z, 'u) spdylay_session option" where
  "callback_effect s answer = (case answer of (u, calls) \<Rightarrow> exec_apis (s\<lparr>s_user_data := u\<rparr>) calls)"

definition notify ::
    "('z, 'u) spdylay_session_callbacks \<Rightarrow> event \<Rightarrow> ('z, 'u) spdylay_session \<Rightarrow> ('z, 'u) spdylay_session option" where
  "notify cb ev s = callback_effect s (cb_event cb s ev)"

section \<open>A contract that every call keeps\<close>

text \<open>The auxiliary data that belongs to a frame: the casts of \<open>aux_data\<close> rely on it.\<close>

fun frame_aux_ok :: "item_frame \<Rightarrow> aux_data \<Rightarrow> bool" where
  "frame_aux_ok (CtrlFrame (FSynStream f)) aux \<longleftrightarrow> ss_nv f \<noteq> None \<and> (\<exists>prd u. aux = SynStreamAux prd u)"
| "frame_aux_ok (CtrlFrame (FSynReply f)) aux \<longleftrightarrow> aux = NoAux \<or> (\<exists>prd. aux = DataPrdAux prd)"
| "frame_aux_ok _ aux \<longleftrightarrow> aux = NoAux"

text \<open>
  A relation between the session before and after that holds for the few assignments the
  calls are made of holds for every call and for every callback. \<open>queue_rel\<close> has those of the
  functions that only queue frames, \<open>api_rel\<close> those of all calls.
\<close>

locale queue_rel =
  fixes R :: "('z, 'u) spdylay_session \<Rightarrow> ('z, 'u) spdylay_session \<Rightarrow> bool"
  assumes R_refl: "R s s"
    and R_trans: "R s t \<Longrightarrow> R t u \<Longrightarrow> R s u"
    and R_mem: "R s (s\<lparr>s_mem := m\<rparr>)"
    and R_cert: "spdylay_client_cert_vector_put (s_cli_certvec s) org = (slot, cv) \<Longrightarrow>
      R s (s\<lparr>s_cli_certvec := cv\<rparr>)"
    and R_add_frame: "frame_aux_ok frame aux \<Longrightarrow> spdylay_session_add_frame s frame aux = (r, s') \<Longrightarrow> R s s'"
begin

lemma R_malloc: "session_malloc s = (ok, s') \<Longrightarrow> R s s'"
  by (auto simp: session_malloc_def R_mem split: prod.splits)

lemma R_alloc_add_frame:
  "frame_aux_ok (CtrlFrame f) NoAux \<Longrightarrow> alloc_add_frame s f = (r, s') \<Longrightarrow> R s s'"
  unfolding alloc_add_frame_def
  by (auto split: prod.splits if_splits dest!: R_malloc R_add_frame [rotated] elim!: R_trans simp: R_refl intro!: R_refl)

lemma R_add_rst_stream: "spdylay_session_add_rst_stream s i c = (r, s') \<Longrightarrow> R s s'"
  unfolding spdylay_session_add_rst_stream_def by (erule R_alloc_add_frame [rotated]) simp

lemma R_add_ping: "spdylay_session_add_ping s i = (r, s') \<Longrightarrow> R s s'"
  unfolding spdylay_session_add_ping_def by (erule R_alloc_add_frame [rotated]) simp

lemma R_add_goaway: "spdylay_session_add_goaway s i c = (r, s') \<Longrightarrow> R s s'"
  unfolding spdylay_session_add_goaway_def by (erule R_alloc_add_frame [rotated]) simp

lemma R_add_window_update: "spdylay_session_add_window_update s i d = (r, s') \<Longrightarrow> R s s'"
  unfolding spdylay_session_add_window_update_def by (erule R_alloc_add_frame [rotated]) simp

lemma R_submit_data: "spdylay_submit_data s i fl prd = (r, s') \<Longrightarrow> R s s'"
  unfolding spdylay_submit_data_def
  by (auto split: prod.splits if_splits dest!: R_malloc R_add_frame [rotated] elim!: R_trans simp: R_refl intro!: R_refl)

end

locale api_rel = queue_rel R for R :: "('z, 'u) spdylay_session \<Rightarrow> ('z, 'u) spdylay_session \<Rightarrow> bool" +
  assumes R_user: "R s (s\<lparr>s_user_data := d\<rparr>)"
    and R_unique: "R s (s\<lparr>s_next_unique_id := i\<rparr>)"
    and R_fail: "R s (s\<lparr>s_goaway_flags := s_goaway_flags s OR 4\<rparr>)"
    and R_opt: "R s (s\<lparr>s_opt_flags := fl\<rparr>)"
    and R_max: "R s (s\<lparr>s_max_recv_ctrl_frame_buf := n\<rparr>)"
    and R_local: "length ls = length (s_local_settings s) \<Longrightarrow> R s (s\<lparr>s_local_settings := ls\<rparr>)"
    and R_recv_window: "R s (put_stream i (\<lambda>st. st\<lparr>sm_recv_window_size := w st\<rparr>) s)"
    and R_assoc: "R s (put_stream i (\<lambda>st. st\<lparr>sm_assoc_content := k st\<rparr>) s)"
    and R_resume: "spdylay_session_resume_data s i = (r, s') \<Longrightarrow> R s s'"
begin

lemma R_frame_nv: "alloc_frame_nv s nv = (c, s') \<Longrightarrow> R s s'"
  by (auto simp: alloc_frame_nv_def session_nv_norm_copy_def split: prod.splits if_splits
      dest!: R_malloc intro: R_trans R_mem)

lemma R_copy_prd: "copy_data_prd s prd = (ok, c, s') \<Longrightarrow> R s s'"
  by (auto simp: copy_data_prd_def split: option.splits prod.splits if_splits dest!: R_malloc intro: R_refl)

lemma R_submit_syn_stream_shared:
  "spdylay_submit_syn_stream_shared s fl a p nv prd ud = (r, s') \<Longrightarrow> R s s'"
  unfolding spdylay_submit_syn_stream_shared_def Let_def
  by (auto simp: spdylay_frame_syn_stream_init_def split: prod.splits option.splits if_splits
      dest!: R_malloc R_frame_nv R_copy_prd R_add_frame [rotated] elim!: R_trans simp: R_refl intro!: R_refl)

lemma R_submit_syn_reply: "spdylay_submit_syn_reply s fl i nv = (r, s') \<Longrightarrow> R s s'"
  unfolding spdylay_submit_syn_reply_def
  by (auto split: prod.splits option.splits if_splits
      dest!: R_frame_nv R_add_frame [rotated] elim!: R_trans simp: R_refl intro!: R_refl)

lemma R_submit_headers: "spdylay_submit_headers s fl i nv = (r, s') \<Longrightarrow> R s s'"
  unfolding spdylay_submit_headers_def
  by (auto split: prod.splits option.splits if_splits
      dest!: R_frame_nv R_add_frame [rotated] elim!: R_trans simp: R_refl intro!: R_refl)

lemma R_submit_response: "spdylay_submit_response s i nv prd = (r, s') \<Longrightarrow> R s s'"
  unfolding spdylay_submit_response_def Let_def
  by (auto split: prod.splits option.splits if_splits
      dest!: R_copy_prd R_frame_nv R_add_frame [rotated] elim!: R_trans simp: R_refl intro!: R_refl)

lemma R_submit_ping: "spdylay_submit_ping s = (r, s') \<Longrightarrow> R s s'"
  unfolding spdylay_submit_ping_def spdylay_session_get_next_unique_id_def Let_def
  by (auto dest!: R_add_ping intro: R_trans [OF R_unique])

lemma R_update_local: "spdylay_session_update_local_settings s iv = Some s' \<Longrightarrow> R s s'"
proof (induction iv arbitrary: s)
  case (Cons e iv)
  define s1 where "s1 = s\<lparr>s_local_settings :=
    (s_local_settings s)[nat (sint (se_settings_id e)) := se_value e]\<rparr>"
  from Cons.prems have "spdylay_session_update_local_settings s1 iv = Some s'"
    by (simp add: s1_def Let_def split: if_splits)
  with Cons.IH have "R s1 s'" by blast
  moreover have "R s s1" unfolding s1_def by (rule R_local) simp
  ultimately show ?case using R_trans by blast
qed (simp add: R_refl)

lemma R_submit_settings:
  assumes "spdylay_submit_settings s fl iv = Some (r, s')"
  shows "R s s'"
proof -
  obtain ok s1 where m: "session_malloc s = (ok, s1)" by (cases "session_malloc s")
  obtain c m where c: "spdylay_frame_iv_copy (s_mem s1) iv = (c, m)" by fastforce
  define s2 where "s2 = s1\<lparr>s_mem := m\<rparr>"
  have R2: "R s s1" "R s s2"
    using R_malloc [OF m] R_trans [OF R_malloc [OF m] R_mem] by (auto simp: s2_def)
  define f where "f = FSettings (spdylay_frame_settings_init (s_version s1) fl (spdylay_frame_iv_sort (the c)))"
  obtain q s3 where a: "spdylay_session_add_frame s2 (CtrlFrame f) NoAux = (q, s3)" by fastforce
  have R3: "R s s3" using R_trans [OF R2(2) R_add_frame [OF _ a]] by (simp add: f_def)
  consider "s' = s" | "s' = s1" | "s' = s2" | "s' = s3"
    | "spdylay_session_update_local_settings s3 (spdylay_frame_iv_sort (the c)) = Some s'"
    using assms m c a
    by (cases c) (auto simp: spdylay_submit_settings_def s2_def f_def Let_def bind_eq_Some_conv
        split: if_splits)
  then show ?thesis using R2 R3 R_refl R_trans [OF R3 R_update_local] by cases auto
qed

lemma R_fail_session: "spdylay_session_fail_session s c = (r, s') \<Longrightarrow> R s s'"
  unfolding spdylay_session_fail_session_def spdylay_submit_goaway_def
  by (auto dest!: R_add_goaway intro: R_trans [OF R_fail])

lemma R_submit_window_update: "spdylay_submit_window_update s i d = (r, s') \<Longrightarrow> R s s'"
  unfolding spdylay_submit_window_update_def
  by (auto split: option.splits if_splits dest!: R_add_window_update intro: R_refl R_trans [OF R_recv_window])

lemma R_set_option: "spdylay_session_set_option s opt = (r, s') \<Longrightarrow> R s s'"
  unfolding spdylay_session_set_option_def
  by (auto split: session_option.splits if_splits intro: R_refl R_opt R_max)

lemma R_set_origin:
  "spdylay_session_set_initial_client_cert_origin s sch h p = Some (r, s') \<Longrightarrow> R s s'"
  unfolding spdylay_session_set_initial_client_cert_origin_def
  by (auto split: prod.splits if_splits dest!: R_malloc dest: R_cert elim!: R_trans simp: R_refl intro!: R_refl)

lemma R_exec_api: "exec_api s c = Some s' \<Longrightarrow> R s s'"
proof (cases c)
  case (SubmitSynStream x1 x2 x3 x4 x5)
  then show "exec_api s c = Some s' \<Longrightarrow> ?thesis"
    by (auto simp: spdylay_submit_syn_stream_def intro: R_submit_syn_stream_shared [OF surjective_pairing])
next
  case (SubmitServerPush x1 x2 x3 x4)
  then show "exec_api s c = Some s' \<Longrightarrow> ?thesis"
    by (auto simp: spdylay_submit_server_push_def intro: R_submit_syn_stream_shared [OF surjective_pairing])
next
  case (SubmitRequest x1 x2 x3 x4)
  then show "exec_api s c = Some s' \<Longrightarrow> ?thesis"
    by (auto simp: spdylay_submit_request_def Let_def intro: R_submit_syn_stream_shared [OF surjective_pairing])
qed (auto simp: spdylay_submit_rst_stream_def spdylay_submit_goaway_def
    spdylay_associated_content_register_def spdylay_associated_content_unregister_def
    dest: R_submit_settings R_set_origin
    intro: R_submit_syn_reply [OF surjective_pairing] R_submit_headers [OF surjective_pairing]
      R_submit_ping [OF surjective_pairing] R_add_rst_stream [OF surjective_pairing]
      R_add_goaway [OF surjective_pairing] R_submit_window_update [OF surjective_pairing]
      R_submit_response [OF surjective_pairing] R_submit_data [OF surjective_pairing]
      R_fail_session [OF surjective_pairing] R_resume [OF surjective_pairing]
      R_set_option [OF surjective_pairing] R_assoc R_refl split: option.splits)

lemma R_exec_apis: "exec_apis s cs = Some s' \<Longrightarrow> R s s'"
  by (induction cs arbitrary: s) (auto simp: bind_eq_Some_conv dest: R_exec_api intro: R_refl R_trans)

lemma R_callback: "callback_effect s answer = Some s' \<Longrightarrow> R s s'"
  by (auto simp: callback_effect_def split: prod.splits dest!: R_exec_apis intro: R_trans [OF R_user])

lemma R_notify: "notify cb ev s = Some s' \<Longrightarrow> R s s'"
  unfolding notify_def by (rule R_callback)

end

section \<open>No call opens or closes a stream\<close>

text \<open>What a call may change of a stream: its state, its deferred data and its counters.\<close>

definition same_stream :: "spdylay_stream \<Rightarrow> spdylay_stream \<Rightarrow> bool" where
  "same_stream st st' \<longleftrightarrow> sm_stream_id st' = sm_stream_id st \<and> sm_flags st' = sm_flags st \<and>
     sm_pri st' = sm_pri st \<and> sm_shut_flags st' = sm_shut_flags st \<and>
     sm_pushed_streams st' = sm_pushed_streams st \<and> sm_window_size st' = sm_window_size st"

lemma same_stream_refl [simp]: "same_stream st st"
  by (simp add: same_stream_def)

lemma same_stream_trans: "same_stream a b \<Longrightarrow> same_stream b c \<Longrightarrow> same_stream a c"
  by (simp add: same_stream_def)

definition keeps_table ::
    "(spdylay_stream \<Rightarrow> spdylay_stream \<Rightarrow> bool) \<Rightarrow> spdylay_stream spdylay_map \<Rightarrow> spdylay_stream spdylay_map \<Rightarrow> bool" where
  "keeps_table P m m' \<longleftrightarrow>
     (map_inv m \<longrightarrow> map_inv m' \<and> image_mset sm_stream_id (map_vals m') = image_mset sm_stream_id (map_vals m) \<and>
        (\<forall>k. rel_option P (map_get m k) (map_get m' k)))"

lemma keeps_table_refl: "(\<And>st. P st st) \<Longrightarrow> keeps_table P m m"
  by (simp add: keeps_table_def option.rel_refl)

lemma keeps_table_trans:
  assumes "keeps_table P a b" "keeps_table P b c" "\<And>x y z. P x y \<Longrightarrow> P y z \<Longrightarrow> P x z"
  shows "keeps_table P a c"
proof -
  have "rel_option P x z" if "rel_option P x y" "rel_option P y z" for x y z
    using that assms(3) by (cases x; cases y; cases z) auto
  with assms(1,2) show ?thesis unfolding keeps_table_def by metis
qed

lemma keeps_table_write:
  assumes f: "\<And>st. map_get m k = Some st \<Longrightarrow> P st (f st) \<and> sm_stream_id (f st) = sm_stream_id st"
    and refl: "\<And>st. P st st"
  shows "keeps_table P m (map_write k f m)"
proof (cases "map_inv m \<and> map_get m k \<noteq> None")
  case True
  then obtain st where st: "map_get m k = Some st" and inv: "map_inv m" by auto
  obtain rest where "map_vals m = add_mset st rest" "map_vals (map_write k f m) = add_mset (f st) rest"
    using treap.wr_vals [OF inv st] by blast
  with f [OF st] have "image_mset sm_stream_id (map_vals (map_write k f m)) = image_mset sm_stream_id (map_vals m)"
    by simp
  moreover have "rel_option P (map_get m j) (map_get (map_write k f m) j)" for j
    using f st by (simp add: treap.wr_find [OF inv] refl option.rel_refl)
  ultimately show ?thesis using treap.wr_invar [OF inv] by (simp add: keeps_table_def)
next
  case False
  then show ?thesis
    by (cases "map_inv m") (auto simp: keeps_table_def treap.wr_miss refl option.rel_refl)
qed

text \<open>The fields that no call assigns, and the flags that a call only adds to.\<close>

definition keeps_fields :: "('z, 'u) spdylay_session \<Rightarrow> ('z, 'u) spdylay_session \<Rightarrow> bool" where
  "keeps_fields s s' \<longleftrightarrow>
     s_version s' = s_version s \<and> s_server s' = s_server s \<and> s_next_stream_id s' = s_next_stream_id s \<and>
     s_last_recv_stream_id s' = s_last_recv_stream_id s \<and>
     s_num_outgoing_streams s' = s_num_outgoing_streams s \<and>
     s_num_incoming_streams s' = s_num_incoming_streams s \<and> s_aob s' = s_aob s \<and>
     s_iframe s' = s_iframe s \<and> s_nvbuf s' = s_nvbuf s \<and> s_hd_deflater s' = s_hd_deflater s \<and>
     s_hd_inflater s' = s_hd_inflater s \<and> s_last_ping_unique_id s' = s_last_ping_unique_id s \<and>
     s_last_good_stream_id s' = s_last_good_stream_id s \<and> s_flow_control s' = s_flow_control s \<and>
     s_remote_settings s' = s_remote_settings s \<and>
     (s_goaway_flags s' = s_goaway_flags s \<or> s_goaway_flags s' = s_goaway_flags s OR SPDYLAY_GOAWAY_FAIL_ON_SEND)"

definition keeps_streams :: "('z, 'u) spdylay_session \<Rightarrow> ('z, 'u) spdylay_session \<Rightarrow> bool" where
  "keeps_streams s s' \<longleftrightarrow> keeps_fields s s' \<and> keeps_table same_stream (s_streams s) (s_streams s')"

lemma keeps_fields_trans: "keeps_fields s t \<Longrightarrow> keeps_fields t u \<Longrightarrow> keeps_fields s u"
  unfolding keeps_fields_def by (elim conjE) (simp add: or.assoc, fastforce simp: or.assoc)

lemma keeps_streams_trans: "keeps_streams s t \<Longrightarrow> keeps_streams t u \<Longrightarrow> keeps_streams s u"
  unfolding keeps_streams_def by (meson keeps_fields_trans keeps_table_trans same_stream_trans)

lemma keeps_streamsI:
  "keeps_fields s s' \<Longrightarrow> s_streams s' = s_streams s \<Longrightarrow> keeps_streams s s'"
  by (simp add: keeps_streams_def keeps_table_refl)

lemma keeps_streams_put:
  "(\<And>st. spdylay_session_get_stream s i = Some st \<Longrightarrow> same_stream st (f st)) \<Longrightarrow>
   keeps_streams s (put_stream i f s)"
  by (auto simp: keeps_streams_def keeps_fields_def put_stream_def spdylay_session_get_stream_def
      same_stream_def intro!: keeps_table_write)

lemma keeps_streams_push:
  "push_ob_pq s it = (r, s') \<Longrightarrow> keeps_streams s s'"
  "push_ob_ss_pq s it = (r, s') \<Longrightarrow> keeps_streams s s'"
  by (auto simp: push_ob_pq_def push_ob_ss_pq_def keeps_fields_def intro!: keeps_streamsI split: prod.splits)

lemma keeps_streams_malloc: "session_malloc s = (ok, s') \<Longrightarrow> keeps_streams s s'"
  by (auto simp: session_malloc_def keeps_fields_def intro!: keeps_streamsI split: prod.splits)

lemma keeps_streams_add_frame:
  assumes "spdylay_session_add_frame s frame aux = (r, s')"
  shows "keeps_streams s s'"
proof (cases "session_malloc s")
  case (Pair ok s1)
  define it where "it = \<lparr>oi_frame = frame, oi_aux_data = aux, oi_pri = frame_pri s1 frame, oi_seq = s_next_seq s1\<rparr>"
  define s2 where "s2 = s1\<lparr>s_next_seq := s_next_seq s1 + 1\<rparr>"
  define s3 where "s3 = (case frame of CtrlFrame (FRstStream f) \<Rightarrow>
      put_stream (rs_stream_id f) (\<lambda>st. st\<lparr>sm_state := SPDYLAY_STREAM_CLOSING\<rparr>) s2 | _ \<Rightarrow> s2)"
  have "keeps_streams s s1" using Pair by (rule keeps_streams_malloc)
  moreover have "keeps_streams s1 s2" by (rule keeps_streamsI) (simp_all add: s2_def keeps_fields_def)
  moreover have "keeps_streams s2 s3"
    by (auto simp: s3_def same_stream_def intro!: keeps_streams_put keeps_streamsI split: item_frame.splits spdylay_frame.splits)
      (simp_all add: keeps_fields_def)
  moreover have "s' = s1 \<or> push_ob_pq s3 it = (r, s') \<or> push_ob_ss_pq s3 it = (r, s')"
    using assms Pair
    by (auto simp: spdylay_session_add_frame_def Let_def s3_def s2_def it_def
        split: if_splits item_frame.splits spdylay_frame.splits)
  ultimately show ?thesis by (metis keeps_streams_push keeps_streams_trans)
qed

lemma keeps_streams_resume:
  assumes "spdylay_session_resume_data s i = (r, s')"
  shows "keeps_streams s s'"
proof -
  have det: "keeps_streams t (put_stream i spdylay_stream_detach_deferred_data t)" for t :: "('a, 'b) spdylay_session"
    by (rule keeps_streams_put) (simp add: same_stream_def spdylay_stream_detach_deferred_data_def)
  show ?thesis
    using assms keeps_streams_trans [OF keeps_streams_push(1) det]
    by (auto simp: spdylay_session_resume_data_def intro: keeps_streamsI keeps_streams_push(1)
        split: option.splits if_splits prod.splits)
      (simp_all add: keeps_streamsI keeps_fields_def)
qed

interpretation frame_rule: api_rel keeps_streams
proof (unfold_locales, goal_cases)
  case (2 s t u)
  then show ?case by (rule keeps_streams_trans)
next
  case (5 frame aux s r s')
  then show ?case by (blast intro: keeps_streams_add_frame)
next
  case (14 s i r s')
  then show ?case by (rule keeps_streams_resume)
qed (auto simp: keeps_fields_def same_stream_def intro: keeps_streamsI keeps_streams_put)

text \<open>What a client of the frame rule uses: a stream that is there stays, and none appears.\<close>

lemma keeps_streams_get:
  assumes "keeps_streams s s'" "map_inv (s_streams s)"
  shows "map_inv (s_streams s')" "rel_option same_stream (spdylay_session_get_stream s k) (spdylay_session_get_stream s' k)"
    "image_mset sm_stream_id (map_vals (s_streams s')) = image_mset sm_stream_id (map_vals (s_streams s))"
  using assms by (simp_all add: keeps_streams_def keeps_table_def spdylay_session_get_stream_def)

end
