(* ===== verification/Spdy_Session_Send.thy ===== *)
theory Spdy_Session_Send
  imports Spdy_Submit
begin

text \<open>
  The sending half of \<open>lib/spdylay_session.c\<close>: closing streams, preparing a frame in the output
  buffer, what happens after a frame went out, and the loop of \<open>spdylay_session_send\<close>. A failed
  \<open>assert\<close>, a NULL dereference and a read past a buffer are \<open>None\<close>.
\<close>

section \<open>Closing streams\<close>

text \<open>The counters and the table once the callback was told.\<close>

definition drop_stream :: "i32 \<Rightarrow> ('z, 'u) spdylay_session \<Rightarrow> ('z, 'u) spdylay_session" where
  "drop_stream stream_id s =
     (let s1 = (if spdylay_session_is_my_stream_id s stream_id
                then s\<lparr>s_num_outgoing_streams := size_sub (s_num_outgoing_streams s) 1\<rparr>
                else s\<lparr>s_num_incoming_streams := size_sub (s_num_incoming_streams s) 1\<rparr>) in
      s1\<lparr>s_streams := snd (spdylay_map_remove (s_streams s1) stream_id)\<rparr>)"

definition spdylay_session_close_stream ::
    "('z, 'u) spdylay_session_callbacks \<Rightarrow> ('z, 'u) spdylay_session \<Rightarrow> i32 \<Rightarrow> u32 \<Rightarrow>
     (int \<times> ('z, 'u) spdylay_session) option" where
  "spdylay_session_close_stream cb s stream_id status_code =
     (case spdylay_session_get_stream s stream_id of
        None \<Rightarrow> Some (SPDYLAY_ERR_INVALID_ARGUMENT, s)
      | Some stream \<Rightarrow>
          do {
            s1 \<leftarrow> (if sm_state stream \<noteq> SPDYLAY_STREAM_INITIAL
                   then notify cb (OnStreamClose stream_id status_code) s else Some s);
            Some (0, drop_stream stream_id s1)
          })"

text \<open>The stream is given by its key; \<open>None\<close> when it is gone.\<close>

definition spdylay_session_close_stream_if_shut_rdwr ::
    "('z, 'u) spdylay_session_callbacks \<Rightarrow> ('z, 'u) spdylay_session \<Rightarrow> i32 \<Rightarrow>
     (int \<times> ('z, 'u) spdylay_session) option" where
  "spdylay_session_close_stream_if_shut_rdwr cb s stream_id =
     do {
       stream \<leftarrow> spdylay_session_get_stream s stream_id;
       if sm_shut_flags stream AND SPDYLAY_SHUT_RDWR = SPDYLAY_SHUT_RDWR
       then spdylay_session_close_stream cb s (sm_stream_id stream) SPDYLAY_OK
       else Some (0, s)
     }"

text \<open>The loop reads the list from the stream each time round, so the stream must stay.\<close>

fun close_pushed_loop ::
    "('z, 'u) spdylay_session_callbacks \<Rightarrow> i32 \<Rightarrow> u32 \<Rightarrow> i32 list \<Rightarrow> ('z, 'u) spdylay_session \<Rightarrow>
     ('z, 'u) spdylay_session option" where
  "close_pushed_loop cb stream_id status_code [] s = Some s"
| "close_pushed_loop cb stream_id status_code (p # ps) s =
     do {
       (r, s1) \<leftarrow> spdylay_session_close_stream cb s p status_code;
       stream \<leftarrow> spdylay_session_get_stream s1 stream_id;
       close_pushed_loop cb stream_id status_code ps s1
     }"

definition spdylay_session_close_pushed_streams ::
    "('z, 'u) spdylay_session_callbacks \<Rightarrow> ('z, 'u) spdylay_session \<Rightarrow> i32 \<Rightarrow> u32 \<Rightarrow>
     ('z, 'u) spdylay_session option" where
  "spdylay_session_close_pushed_streams cb s stream_id status_code =
     (case spdylay_session_get_stream s stream_id of
        None \<Rightarrow> Some s
      | Some stream \<Rightarrow> close_pushed_loop cb stream_id status_code (sm_pushed_streams stream) s)"

section \<open>Credentials\<close>

definition spdylay_session_get_credential_proof ::
    "(('z, 'u) spdylay_session \<Rightarrow> spdylay_origin \<Rightarrow> bytes) \<Rightarrow> ('z, 'u) spdylay_session \<Rightarrow> spdylay_origin \<Rightarrow>
     (int + bytes) \<times> ('z, 'u) spdylay_session" where
  "spdylay_session_get_credential_proof get_proof s origin =
     (case session_malloc s of (ok, s1) \<Rightarrow>
        if \<not> ok then (Inl SPDYLAY_ERR_NOMEM, s1) else (Inr (get_proof s1 origin), s1))"

fun credential_cert_loop ::
    "(('z, 'u) spdylay_session \<Rightarrow> spdylay_origin \<Rightarrow> nat \<Rightarrow> bytes) \<Rightarrow> spdylay_origin \<Rightarrow> nat list \<Rightarrow>
     ('z, 'u) spdylay_session \<Rightarrow> (int + bytes list) \<times> ('z, 'u) spdylay_session" where
  "credential_cert_loop get_cert origin [] s = (Inr [], s)"
| "credential_cert_loop get_cert origin (i # is) s =
     (case session_malloc s of (ok, s1) \<Rightarrow>
        if \<not> ok then (Inl SPDYLAY_ERR_NOMEM, s1)
        else (case credential_cert_loop get_cert origin is s1 of
                (Inl e, s2) \<Rightarrow> (Inl e, s2)
              | (Inr certs, s2) \<Rightarrow> (Inr (get_cert s1 origin i # certs), s2)))"

definition spdylay_session_get_credential_cert ::
    "(('z, 'u) spdylay_session \<Rightarrow> spdylay_origin \<Rightarrow> nat \<Rightarrow> bytes) \<Rightarrow> ('z, 'u) spdylay_session \<Rightarrow>
     spdylay_origin \<Rightarrow> nat \<Rightarrow> (int + bytes list) \<times> ('z, 'u) spdylay_session" where
  "spdylay_session_get_credential_cert get_cert s origin ncerts =
     (case session_malloc s of (ok, s1) \<Rightarrow>
        if \<not> ok then (Inl SPDYLAY_ERR_NOMEM, s1)
        else credential_cert_loop get_cert origin [0..<ncerts] s1)"

text \<open>
  The slot of the origin, 0, or an error. A failed allocation of the copy of the origin leaves
  \<open>rv\<close> at the 0 of \<open>spdylay_frame_nv_set_origin\<close>, which is what the function then returns. The
  fields of \<open>origin\<close> are all assigned when that function succeeds.
\<close>

definition spdylay_session_prep_credential ::
    "('z, 'u) spdylay_session_callbacks \<Rightarrow>
     (('z, 'u) spdylay_session \<Rightarrow> spdylay_origin \<Rightarrow> bytes) \<Rightarrow>
     (('z, 'u) spdylay_session \<Rightarrow> spdylay_origin \<Rightarrow> nat \<Rightarrow> bytes) \<Rightarrow>
     ('z, 'u) spdylay_session \<Rightarrow> nv \<Rightarrow> (int \<times> ('z, 'u) spdylay_session) option" where
  "spdylay_session_prep_credential cb get_proof get_cert s nv =
     (if cv_size (s_cli_certvec s) = 0 then Some (0, s)
      else case spdylay_frame_nv_set_origin nv \<lparr>or_scheme = [], or_host = [], or_port = 0\<rparr> of (rv, origin) \<Rightarrow>
      if rv \<noteq> 0 then Some (0, s)
      else
        let slot = spdylay_client_cert_vector_find (s_cli_certvec s) origin in
        if slot \<noteq> 0 then Some (int slot, s)
        else
          do {
            get_ncerts \<leftarrow> cb_get_credential_ncerts cb;
            let ncerts = get_ncerts s origin in
            if ncerts \<le> 0 then Some (0, s)
            else case session_malloc s of (ok, s1) \<Rightarrow>
            if \<not> ok then Some (SPDYLAY_ERR_NOMEM, s1)
            else case session_malloc s1 of (ok, s2) \<Rightarrow>
            if \<not> ok then Some (rv, s2)
            else case spdylay_client_cert_vector_put (s_cli_certvec s2) origin of (slot, cv) \<Rightarrow>
              let s3 = s2\<lparr>s_cli_certvec := cv\<rparr> in
              (case spdylay_session_get_credential_proof get_proof s3 origin of
                 (Inl e, s4) \<Rightarrow> Some (e, s4)
               | (Inr proof, s4) \<Rightarrow>
                   (case spdylay_session_get_credential_cert get_cert s4 origin (nat ncerts) of
                      (Inl e, s5) \<Rightarrow> Some (e, s5)
                    | (Inr certs, s5) \<Rightarrow>
                        (case spdylay_session_add_frame s5
                                (CtrlFrame (FCredential
                                   (spdylay_frame_credential_init (s_version s5) (of_nat slot) proof certs)))
                                NoAux of (rv, s6) \<Rightarrow>
                           if rv \<noteq> 0 then Some (rv, s6) else Some (SPDYLAY_ERR_CREDENTIAL_PENDING, s6))))
          })"

section \<open>Preparing a frame\<close>

text \<open>The frame buffer and the other buffers of the session around the packing functions.\<close>

definition put_framebuf :: "('z, 'u) spdylay_session \<Rightarrow> bytes \<Rightarrow> mem \<Rightarrow> ('z, 'u) spdylay_session" where
  "put_framebuf s buf m = s\<lparr>s_aob := (s_aob s)\<lparr>ao_framebuf := buf\<rparr>, s_mem := m\<rparr>"

definition pack_ctrl ::
    "(mem \<Rightarrow> bytes \<Rightarrow> 'f \<Rightarrow> int \<times> bytes \<times> mem) \<Rightarrow> ('z, 'u) spdylay_session \<Rightarrow> 'f \<Rightarrow>
     int \<times> ('z, 'u) spdylay_session" where
  "pack_ctrl pack s frame =
     (case pack (s_mem s) (ao_framebuf (s_aob s)) frame of (r, buf, m) \<Rightarrow> (r, put_framebuf s buf m))"

definition pack_ctrl_nv ::
    "(mem \<Rightarrow> bytes \<Rightarrow> bytes \<Rightarrow> 'f \<Rightarrow> 'z spdylay_zlib \<Rightarrow> (int \<times> 'f \<times> bytes \<times> bytes \<times> 'z spdylay_zlib \<times> mem) option) \<Rightarrow>
     ('z, 'u) spdylay_session \<Rightarrow> 'f \<Rightarrow> (int \<times> 'f \<times> ('z, 'u) spdylay_session) option" where
  "pack_ctrl_nv pack s frame =
     do {
       (r, frame', buf, nvbuf, deflater, m) \<leftarrow>
         pack (s_mem s) (ao_framebuf (s_aob s)) (s_nvbuf s) frame (s_hd_deflater s);
       Some (r, frame', (put_framebuf s buf m)\<lparr>s_nvbuf := nvbuf, s_hd_deflater := deflater\<rparr>)
     }"

text \<open>The header names of SPDY/2 for the wire, and back.\<close>

definition nv_for_wire :: "('z, 'u) spdylay_session \<Rightarrow> nv option \<Rightarrow> nv option" where
  "nv_for_wire s nv =
     (if s_version s = SPDYLAY_PROTO_SPDY2
      then map_option (\<lambda>nv. spdylay_frame_nv_sort (spdylay_frame_nv_3to2 nv)) nv else nv)"

definition nv_from_wire :: "('z, 'u) spdylay_session \<Rightarrow> nv option \<Rightarrow> nv option" where
  "nv_from_wire s nv =
     (if s_version s = SPDYLAY_PROTO_SPDY2
      then map_option (\<lambda>nv. spdylay_frame_nv_sort (spdylay_frame_nv_2to3 nv)) nv else nv)"

text \<open>
  The data frame in the output buffer: return value, frame, session. A provider without a
  callback is a call through NULL.
\<close>

definition spdylay_session_pack_data ::
    "('z, 'u) spdylay_session_callbacks \<Rightarrow> ('z, 'u) spdylay_session \<Rightarrow> nat \<Rightarrow> spdylay_data \<Rightarrow>
     (int \<times> spdylay_data \<times> ('z, 'u) spdylay_session) option" where
  "spdylay_session_pack_data cb s datamax frame =
     (case spdylay_reserve_buffer (s_mem s) (ao_framebuf (s_aob s)) (datamax + 8) of (r, buf, m) \<Rightarrow>
        let s1 = put_framebuf s buf m in
        if r \<noteq> 0 then Some (r, frame, s1)
        else if \<not> dp_read_callback (da_data_prd frame) then None
        else
          (case cb_read cb s1 (da_stream_id frame) datamax (dp_source (da_data_prd frame)) of
             ((r, data, eof, source), answer) \<Rightarrow>
               do {
                 s2 \<leftarrow> callback_effect s1 answer;
                 let buf1 = memcpy_at (ao_framebuf (s_aob s2)) 8 (take datamax data);
                     frame1 = frame\<lparr>da_data_prd := (da_data_prd frame)\<lparr>dp_source := source\<rparr>\<rparr> in
                 if r = SPDYLAY_ERR_DEFERRED \<or> r = SPDYLAY_ERR_TEMPORAL_CALLBACK_FAILURE
                 then Some (r, frame1, put_framebuf s2 buf1 (s_mem s2))
                 else if r < 0 \<or> int datamax < r
                 then Some (SPDYLAY_ERR_CALLBACK_FAILURE, frame1, put_framebuf s2 buf1 (s_mem s2))
                 else
                   let flags = (if eof then da_flags frame1 AND SPDYLAY_DATA_FLAG_FIN else 0);
                       frame2 = (if eof then frame1\<lparr>da_eof := True\<rparr> else frame1);
                       buf2 = memcpy_at buf1 0
                         (spdylay_put_uint32be (da_stream_id frame2) @
                          (spdylay_put_uint32be (word_of_int r))[0 := flags]) in
                   Some (r + 8, frame2, put_framebuf s2 buf2 (s_mem s2))
               }))"

text \<open>The slot of the client certificate, when this session sends certificates.\<close>

definition credential_slot ::
    "('z, 'u) spdylay_session_callbacks \<Rightarrow> ('z, 'u) spdylay_session \<Rightarrow> spdylay_syn_stream \<Rightarrow>
     (int option \<times> ('z, 'u) spdylay_session) option" where
  "credential_slot cb s frame =
     (case (cb_get_credential_proof cb, cb_get_credential_cert cb) of
        (Some get_proof, Some get_cert) \<Rightarrow>
          if s_version s = SPDYLAY_PROTO_SPDY3 \<and> \<not> s_server s then
            do {
              nv \<leftarrow> ss_nv frame;
              (k, s1) \<leftarrow> spdylay_session_prep_credential cb get_proof get_cert s nv;
              Some (Some k, s1)
            }
          else Some (None, s)
      | _ \<Rightarrow> Some (None, s))"

text \<open>
  The case of SYN_STREAM. The slot is the value of \<open>spdylay_session_prep_credential\<close> cut to a
  byte, errors other than a pending credential included, for the test after it looks at \<open>r\<close>.
\<close>

definition prep_syn_stream ::
    "'z zlib \<Rightarrow> ('z, 'u) spdylay_session_callbacks \<Rightarrow> ('z, 'u) spdylay_session \<Rightarrow> spdylay_outbound_item \<Rightarrow>
     spdylay_syn_stream \<Rightarrow> (int \<times> spdylay_outbound_item \<times> ('z, 'u) spdylay_session) option" where
  "prep_syn_stream zl cb s item frame =
     (let r = spdylay_session_predicate_syn_stream_send s frame in
      if r \<noteq> 0 then Some (r, item, s)
      else
        do {
          (slot_index, s1) \<leftarrow> credential_slot cb s frame;
          if slot_index = Some SPDYLAY_ERR_CREDENTIAL_PENDING then
            let item1 = item\<lparr>oi_pri := SPDYLAY_OB_PRI_AFTER_CREDENTIAL\<rparr> in
            (case push_ob_ss_pq s1 item1 of (r, s2) \<Rightarrow>
               Some (if r = 0 then SPDYLAY_ERR_CREDENTIAL_PENDING else r, item1, s2))
          else
            let frame1 = (case slot_index of Some k \<Rightarrow> frame\<lparr>ss_slot := word_of_int k\<rparr> | None \<Rightarrow> frame);
                stream_id = s_next_stream_id s1;
                s2 = s1\<lparr>s_next_stream_id := s_next_stream_id s1 + 2\<rparr>;
                frame2 = frame1\<lparr>ss_stream_id := stream_id, ss_nv := nv_for_wire s2 (ss_nv frame1)\<rparr> in
            do {
              (framebuflen, frame3, s3) \<leftarrow> pack_ctrl_nv (spdylay_frame_pack_syn_stream zl) s2 frame2;
              let frame4 = frame3\<lparr>ss_nv := nv_from_wire s3 (ss_nv frame3)\<rparr>;
                  item1 = item\<lparr>oi_frame := CtrlFrame (FSynStream frame4)\<rparr> in
              if framebuflen < 0 then Some (framebuflen, item1, s3)
              else
                (case oi_aux_data item of
                   SynStreamAux data_prd stream_user_data \<Rightarrow>
                     (case spdylay_session_open_stream s3 stream_id (hd_flags (ss_hd frame4)) (ss_pri frame4)
                             SPDYLAY_STREAM_INITIAL stream_user_data of
                        (ok, s4) \<Rightarrow> Some (if ok then framebuflen else SPDYLAY_ERR_NOMEM, item1, s4))
                 | _ \<Rightarrow> None)
            }
        })"

definition prep_data ::
    "('z, 'u) spdylay_session_callbacks \<Rightarrow> ('z, 'u) spdylay_session \<Rightarrow> spdylay_outbound_item \<Rightarrow>
     spdylay_data \<Rightarrow> (int \<times> spdylay_outbound_item \<times> ('z, 'u) spdylay_session) option" where
  "prep_data cb s item data_frame =
     (let stream_id = da_stream_id data_frame;
          r = spdylay_session_predicate_data_send s stream_id in
      if r \<noteq> 0 then Some (r, item, s)
      else
        do {
          stream \<leftarrow> spdylay_session_get_stream s stream_id;
          let next_readmax = spdylay_session_next_data_read s stream in
          if next_readmax = 0 then
            do {
              stream1 \<leftarrow> spdylay_stream_defer_data stream item SPDYLAY_DEFERRED_FLOW_CONTROL;
              Some (SPDYLAY_ERR_DEFERRED, item, put_stream stream_id (\<lambda>_. stream1) s)
            }
          else
            do {
              (framebuflen, data_frame1, s1) \<leftarrow> spdylay_session_pack_data cb s next_readmax data_frame;
              let item1 = item\<lparr>oi_frame := DataFrame data_frame1\<rparr> in
              if framebuflen = SPDYLAY_ERR_DEFERRED then
                do {
                  stream \<leftarrow> spdylay_session_get_stream s1 stream_id;
                  stream1 \<leftarrow> spdylay_stream_defer_data stream item1 SPDYLAY_DEFERRED_NONE;
                  Some (SPDYLAY_ERR_DEFERRED, item1, put_stream stream_id (\<lambda>_. stream1) s1)
                }
              else if framebuflen = SPDYLAY_ERR_TEMPORAL_CALLBACK_FAILURE then
                (case spdylay_session_add_rst_stream s1 stream_id SPDYLAY_INTERNAL_ERROR of (r, s2) \<Rightarrow>
                   Some (if r = 0 then framebuflen else r, item1, s2))
              else Some (framebuflen, item1, s1)
            }
        })"

text \<open>The return value, the item as it is afterwards and the session.\<close>

definition spdylay_session_prep_frame ::
    "'z zlib \<Rightarrow> ('z, 'u) spdylay_session_callbacks \<Rightarrow> ('z, 'u) spdylay_session \<Rightarrow> spdylay_outbound_item \<Rightarrow>
     (int \<times> spdylay_outbound_item \<times> ('z, 'u) spdylay_session) option" where
  "spdylay_session_prep_frame zl cb s item =
     (case oi_frame item of
        CtrlFrame (FSynStream frame) \<Rightarrow> prep_syn_stream zl cb s item frame
      | CtrlFrame (FSynReply frame) \<Rightarrow>
          (let r = spdylay_session_predicate_syn_reply_send s (sr_stream_id frame) in
           if r \<noteq> 0 then Some (r, item, s)
           else
             do {
               (r, frame1, s1) \<leftarrow> pack_ctrl_nv (spdylay_frame_pack_syn_reply zl) s
                 (frame\<lparr>sr_nv := nv_for_wire s (sr_nv frame)\<rparr>);
               Some (r, item\<lparr>oi_frame := CtrlFrame (FSynReply
                 (frame1\<lparr>sr_nv := nv_from_wire s1 (sr_nv frame1)\<rparr>))\<rparr>, s1)
             })
      | CtrlFrame (FRstStream frame) \<Rightarrow>
          (case pack_ctrl spdylay_frame_pack_rst_stream s frame of (r, s1) \<Rightarrow> Some (r, item, s1))
      | CtrlFrame (FSettings frame) \<Rightarrow>
          (case pack_ctrl spdylay_frame_pack_settings s frame of (r, s1) \<Rightarrow> Some (r, item, s1))
      | CtrlFrame (FPing frame) \<Rightarrow>
          (case pack_ctrl spdylay_frame_pack_ping s frame of (r, s1) \<Rightarrow> Some (r, item, s1))
      | CtrlFrame (FHeaders frame) \<Rightarrow>
          (let r = spdylay_session_predicate_headers_send s (hs_stream_id frame) in
           if r \<noteq> 0 then Some (r, item, s)
           else
             do {
               (r, frame1, s1) \<leftarrow> pack_ctrl_nv (spdylay_frame_pack_headers zl) s
                 (frame\<lparr>hs_nv := nv_for_wire s (hs_nv frame)\<rparr>);
               Some (r, item\<lparr>oi_frame := CtrlFrame (FHeaders
                 (frame1\<lparr>hs_nv := nv_from_wire s1 (hs_nv frame1)\<rparr>))\<rparr>, s1)
             })
      | CtrlFrame (FWindowUpdate frame) \<Rightarrow>
          (let r = spdylay_session_predicate_window_update_send s (wu_stream_id frame) in
           if r \<noteq> 0 then Some (r, item, s)
           else case pack_ctrl spdylay_frame_pack_window_update s frame of (r, s1) \<Rightarrow> Some (r, item, s1))
      | CtrlFrame (FGoaway frame) \<Rightarrow>
          if s_goaway_flags s AND SPDYLAY_GOAWAY_SEND \<noteq> 0
          then Some (SPDYLAY_ERR_GOAWAY_ALREADY_SENT, item, s)
          else (case pack_ctrl spdylay_frame_pack_goaway s frame of (r, s1) \<Rightarrow> Some (r, item, s1))
      | CtrlFrame (FCredential frame) \<Rightarrow>
          (case pack_ctrl spdylay_frame_pack_credential s frame of (r, s1) \<Rightarrow> Some (r, item, s1))
      | DataFrame data_frame \<Rightarrow> prep_data cb s item data_frame)"

section \<open>After a frame was sent\<close>

definition spdylay_active_outbound_item_reset ::
    "spdylay_active_outbound_item \<Rightarrow> spdylay_active_outbound_item" where
  "spdylay_active_outbound_item_reset aob =
     aob\<lparr>ao_item := None, ao_framebuflen := 0, ao_framebufoff := 0\<rparr>"

definition reset_aob :: "('z, 'u) spdylay_session \<Rightarrow> ('z, 'u) spdylay_session" where
  "reset_aob s = s\<lparr>s_aob := spdylay_active_outbound_item_reset (s_aob s)\<rparr>"

text \<open>The data that follows a SYN_STREAM or SYN_REPLY; \<open>assert\<close> takes every error to be fatal.\<close>

definition submit_data_after ::
    "('z, 'u) spdylay_session \<Rightarrow> i32 \<Rightarrow> spdylay_data_provider \<Rightarrow> (int \<times> ('z, 'u) spdylay_session) option" where
  "submit_data_after s stream_id data_prd =
     (case spdylay_submit_data s stream_id SPDYLAY_DATA_FLAG_FIN data_prd of (r, s1) \<Rightarrow>
        if r = 0 then Some (0, reset_aob s1)
        else if r < SPDYLAY_ERR_FATAL then Some (r, s1) else None)"

definition after_syn_stream_sent ::
    "('z, 'u) spdylay_session_callbacks \<Rightarrow> ('z, 'u) spdylay_session \<Rightarrow> spdylay_outbound_item \<Rightarrow>
     spdylay_syn_stream \<Rightarrow> (int \<times> ('z, 'u) spdylay_session) option" where
  "after_syn_stream_sent cb s item frame =
     (let stream_id = ss_stream_id frame; flags = hd_flags (ss_hd frame) in
      case spdylay_session_get_stream s stream_id of
        None \<Rightarrow> Some (0, reset_aob s)
      | Some _ \<Rightarrow>
          let s1 = put_stream stream_id (\<lambda>st. st\<lparr>sm_state := SPDYLAY_STREAM_OPENING\<rparr>) s;
              s2 = (if flags AND SPDYLAY_CTRL_FLAG_FIN \<noteq> 0
                    then put_stream stream_id (spdylay_stream_shutdown SPDYLAY_SHUT_WR) s1 else s1);
              s3 = (if flags AND SPDYLAY_CTRL_FLAG_UNIDIRECTIONAL \<noteq> 0
                    then put_stream stream_id (spdylay_stream_shutdown SPDYLAY_SHUT_RD) s2 else s2) in
          do {
            (r, s4) \<leftarrow> spdylay_session_close_stream_if_shut_rdwr cb s3 stream_id;
            case oi_aux_data item of
              SynStreamAux (Some data_prd) _ \<Rightarrow> submit_data_after s4 stream_id data_prd
            | SynStreamAux None _ \<Rightarrow> Some (0, reset_aob s4)
            | _ \<Rightarrow> None
          })"

definition after_syn_reply_sent ::
    "('z, 'u) spdylay_session_callbacks \<Rightarrow> ('z, 'u) spdylay_session \<Rightarrow> spdylay_outbound_item \<Rightarrow>
     spdylay_syn_reply \<Rightarrow> (int \<times> ('z, 'u) spdylay_session) option" where
  "after_syn_reply_sent cb s item frame =
     (let stream_id = sr_stream_id frame in
      case spdylay_session_get_stream s stream_id of
        None \<Rightarrow> Some (0, reset_aob s)
      | Some _ \<Rightarrow>
          let s1 = put_stream stream_id (\<lambda>st. st\<lparr>sm_state := SPDYLAY_STREAM_OPENED\<rparr>) s;
              s2 = (if hd_flags (sr_hd frame) AND SPDYLAY_CTRL_FLAG_FIN \<noteq> 0
                    then put_stream stream_id (spdylay_stream_shutdown SPDYLAY_SHUT_WR) s1 else s1) in
          do {
            (r, s3) \<leftarrow> spdylay_session_close_stream_if_shut_rdwr cb s2 stream_id;
            case oi_aux_data item of
              DataPrdAux data_prd \<Rightarrow> submit_data_after s3 stream_id data_prd
            | NoAux \<Rightarrow> Some (0, reset_aob s3)
            | SynStreamAux _ _ \<Rightarrow> None
          })"

definition after_rst_stream_sent ::
    "('z, 'u) spdylay_session_callbacks \<Rightarrow> ('z, 'u) spdylay_session \<Rightarrow> spdylay_rst_stream \<Rightarrow>
     (int \<times> ('z, 'u) spdylay_session) option" where
  "after_rst_stream_sent cb s frame =
     do {
       s1 \<leftarrow> (if \<not> s_server s \<and> spdylay_session_is_my_stream_id s (rs_stream_id frame) \<and>
                rs_status_code frame = SPDYLAY_CANCEL
              then spdylay_session_close_pushed_streams cb s (rs_stream_id frame) (rs_status_code frame)
              else Some s);
       (r, s2) \<leftarrow> spdylay_session_close_stream cb s1 (rs_stream_id frame) (rs_status_code frame);
       Some (0, reset_aob s2)
     }"

definition after_headers_sent ::
    "('z, 'u) spdylay_session_callbacks \<Rightarrow> ('z, 'u) spdylay_session \<Rightarrow> spdylay_headers \<Rightarrow>
     (int \<times> ('z, 'u) spdylay_session) option" where
  "after_headers_sent cb s frame =
     (let stream_id = hs_stream_id frame in
      case spdylay_session_get_stream s stream_id of
        None \<Rightarrow> Some (0, reset_aob s)
      | Some _ \<Rightarrow>
          let s1 = (if hd_flags (hs_hd frame) AND SPDYLAY_CTRL_FLAG_FIN \<noteq> 0
                    then put_stream stream_id (spdylay_stream_shutdown SPDYLAY_SHUT_WR) s else s) in
          do {
            (r, s2) \<leftarrow> spdylay_session_close_stream_if_shut_rdwr cb s1 stream_id;
            Some (0, reset_aob s2)
          })"

definition after_ctrl_sent ::
    "('z, 'u) spdylay_session_callbacks \<Rightarrow> ('z, 'u) spdylay_session \<Rightarrow> spdylay_outbound_item \<Rightarrow>
     spdylay_frame \<Rightarrow> (int \<times> ('z, 'u) spdylay_session) option" where
  "after_ctrl_sent cb s0 item frame =
     do {
       s \<leftarrow> notify cb (OnCtrlSend frame) s0;
       case frame of
         FSynStream f \<Rightarrow> after_syn_stream_sent cb s item f
       | FSynReply f \<Rightarrow> after_syn_reply_sent cb s item f
       | FRstStream f \<Rightarrow> after_rst_stream_sent cb s f
       | FSettings f \<Rightarrow> Some (0, reset_aob s)
       | FPing f \<Rightarrow> Some (0, reset_aob (s\<lparr>s_last_ping_unique_id := pg_unique_id f\<rparr>))
       | FGoaway f \<Rightarrow> Some (0, reset_aob (s\<lparr>s_goaway_flags := s_goaway_flags s OR SPDYLAY_GOAWAY_SEND\<rparr>))
       | FHeaders f \<Rightarrow> after_headers_sent cb s f
       | FWindowUpdate f \<Rightarrow> Some (0, reset_aob s)
       | FCredential f \<Rightarrow> Some (0, reset_aob s)
     }"

text \<open>The rest of a data frame chain: the next chunk at once, or the item goes back to the queue.\<close>

definition next_data_chunk ::
    "('z, 'u) spdylay_session_callbacks \<Rightarrow> ('z, 'u) spdylay_session \<Rightarrow> spdylay_outbound_item \<Rightarrow>
     spdylay_data \<Rightarrow> (int \<times> ('z, 'u) spdylay_session) option" where
  "next_data_chunk cb s item data_frame =
     do {
       let stream_id = da_stream_id data_frame;
       stream \<leftarrow> spdylay_session_get_stream s stream_id;
       let next_readmax = spdylay_session_next_data_read s stream;
       if next_readmax = 0 then
         do {
           stream1 \<leftarrow> spdylay_stream_defer_data stream item SPDYLAY_DEFERRED_FLOW_CONTROL;
           Some (0, reset_aob (put_stream stream_id (\<lambda>_. stream1) s))
         }
       else
         do {
           (r, data_frame1, s1) \<leftarrow> spdylay_session_pack_data cb s next_readmax data_frame;
           let item1 = item\<lparr>oi_frame := DataFrame data_frame1\<rparr>;
           if r = SPDYLAY_ERR_DEFERRED then
             do {
               stream \<leftarrow> spdylay_session_get_stream s1 stream_id;
               stream1 \<leftarrow> spdylay_stream_defer_data stream item1 SPDYLAY_DEFERRED_NONE;
               Some (0, reset_aob (put_stream stream_id (\<lambda>_. stream1) s1))
             }
           else if r = SPDYLAY_ERR_TEMPORAL_CALLBACK_FAILURE then
             (case spdylay_session_add_rst_stream s1 stream_id SPDYLAY_INTERNAL_ERROR of (r, s2) \<Rightarrow>
                Some (r, reset_aob s2))
           else if r < 0 then Some (r, reset_aob s1)
           else Some (0, s1\<lparr>s_aob := (s_aob s1)\<lparr>ao_item := Some item1, ao_framebuflen := nat r,
                                              ao_framebufoff := 0\<rparr>\<rparr>)
         }
     }"

text \<open>The last frame of a stream shuts our side, and maybe the stream.\<close>

definition shut_wr_at_eof ::
    "('z, 'u) spdylay_session_callbacks \<Rightarrow> ('z, 'u) spdylay_session \<Rightarrow> spdylay_data \<Rightarrow>
     ('z, 'u) spdylay_session option" where
  "shut_wr_at_eof cb s data_frame =
     (let stream_id = da_stream_id data_frame in
      if da_eof data_frame \<and> da_flags data_frame AND SPDYLAY_DATA_FLAG_FIN \<noteq> 0 \<and>
         spdylay_session_get_stream s stream_id \<noteq> None
      then map_option snd (spdylay_session_close_stream_if_shut_rdwr cb
             (put_stream stream_id (spdylay_stream_shutdown SPDYLAY_SHUT_WR) s) stream_id)
      else Some s)"

definition continue_data ::
    "('z, 'u) spdylay_session_callbacks \<Rightarrow> ('z, 'u) spdylay_session \<Rightarrow> spdylay_outbound_item \<Rightarrow>
     spdylay_data \<Rightarrow> (int \<times> ('z, 'u) spdylay_session) option" where
  "continue_data cb s item data_frame =
     (if da_eof data_frame \<or> spdylay_session_predicate_data_send s (da_stream_id data_frame) \<noteq> 0
      then Some (0, reset_aob s)
      else if (case spdylay_session_get_next_ob_item s of
                 None \<Rightarrow> True | Some next_item \<Rightarrow> oi_pri item \<le> oi_pri next_item)
      then next_data_chunk cb s item data_frame
      else case push_ob_pq s item of (r, s1) \<Rightarrow>
        if r = 0 then Some (0, reset_aob s1)
        else if r < SPDYLAY_ERR_FATAL then Some (r, reset_aob s1) else None)"

definition after_data_sent ::
    "('z, 'u) spdylay_session_callbacks \<Rightarrow> ('z, 'u) spdylay_session \<Rightarrow> spdylay_outbound_item \<Rightarrow>
     spdylay_data \<Rightarrow> (int \<times> ('z, 'u) spdylay_session) option" where
  "after_data_sent cb s item data_frame =
     do {
       s1 \<leftarrow> notify cb (OnDataSend (if da_eof data_frame then da_flags data_frame
                                    else da_flags data_frame AND NOT SPDYLAY_DATA_FLAG_FIN)
                       (da_stream_id data_frame)
                       (of_nat (size_sub (ao_framebuflen (s_aob s)) SPDYLAY_HEAD_LEN))) s;
       s2 \<leftarrow> shut_wr_at_eof cb s1 data_frame;
       continue_data cb s2 item data_frame
     }"

definition spdylay_session_after_frame_sent ::
    "('z, 'u) spdylay_session_callbacks \<Rightarrow> ('z, 'u) spdylay_session \<Rightarrow> (int \<times> ('z, 'u) spdylay_session) option" where
  "spdylay_session_after_frame_sent cb s =
     do {
       item \<leftarrow> ao_item (s_aob s);
       case oi_frame item of
         CtrlFrame frame \<Rightarrow> after_ctrl_sent cb s item frame
       | DataFrame data_frame \<Rightarrow> after_data_sent cb s item data_frame
     }"

section \<open>The send loop\<close>

text \<open>
  The first half of an iteration takes the next item when none is in flight. \<open>Next\<close> is a
  \<open>continue\<close>, \<open>Return\<close> a return from the function and \<open>Go\<close> falls through to the write.
\<close>

datatype 's step = Next 's | Return int 's | Go 's

definition send_prepare ::
    "'z zlib \<Rightarrow> ('z, 'u) spdylay_session_callbacks \<Rightarrow> ('z, 'u) spdylay_session \<Rightarrow>
     ('z, 'u) spdylay_session step option" where
  "send_prepare zl cb s =
     (case ao_item (s_aob s) of
        Some _ \<Rightarrow> Some (Go s)
      | None \<Rightarrow>
          (case spdylay_session_pop_next_ob_item s of
             (None, s1) \<Rightarrow> Some (Return 0 s1)
           | (Some item, s1) \<Rightarrow>
               do {
                 (framebuflen, item1, s2) \<leftarrow> spdylay_session_prep_frame zl cb s1 item;
                 if framebuflen = SPDYLAY_ERR_DEFERRED \<or> framebuflen = SPDYLAY_ERR_CREDENTIAL_PENDING
                 then Some (Next s2)
                 else if framebuflen < 0 then
                   do {
                     s3 \<leftarrow> (case oi_frame item1 of
                              CtrlFrame (FWindowUpdate f) \<Rightarrow> Some s2
                            | CtrlFrame f \<Rightarrow>
                                if spdylay_is_non_fatal framebuflen
                                then notify cb (OnCtrlNotSend f framebuflen) s2 else Some s2
                            | DataFrame d \<Rightarrow> Some s2);
                     Some (if spdylay_is_fatal framebuflen then Return framebuflen s3 else Next s3)
                   }
                 else
                   let s3 = s2\<lparr>s_aob := (s_aob s2)\<lparr>ao_item := Some item1, ao_framebuflen := nat framebuflen\<rparr>\<rparr> in
                   (case oi_frame item1 of
                      CtrlFrame f \<Rightarrow> map_option Go (notify cb (BeforeCtrlSend f) s3)
                    | DataFrame d \<Rightarrow> Some (Go s3))
               }))"

text \<open>
  With flow control, a write of a data frame takes the second word of the header from the
  window: the flags and the length of the whole frame, whatever the number of bytes written.
\<close>

definition charge_window :: "('z, 'u) spdylay_session \<Rightarrow> ('z, 'u) spdylay_session" where
  "charge_window s =
     (case ao_item (s_aob s) of
        Some item \<Rightarrow>
          (case oi_frame item of
             DataFrame frame \<Rightarrow>
               if s_flow_control s then
                 put_stream (da_stream_id frame)
                   (\<lambda>st. st\<lparr>sm_window_size := sm_window_size st -
                      spdylay_get_uint32 (drop 4 (ao_framebuf (s_aob s)))\<rparr>) s
               else s
           | CtrlFrame _ \<Rightarrow> s)
      | None \<Rightarrow> s)"

text \<open>
  The second half hands the rest of the buffer to the application. Its answer is not
  compared with the length: an offset past the frame is \<open>None\<close>, for the next read starts there.
\<close>

definition send_write ::
    "('z, 'u) spdylay_session_callbacks \<Rightarrow> ('z, 'u) spdylay_session \<Rightarrow> ('z, 'u) spdylay_session step option" where
  "send_write cb s =
     (let aob = s_aob s in
      if ao_framebufoff aob > ao_framebuflen aob \<or> ao_framebuflen aob > length (ao_framebuf aob) then None
      else
        let data = take (ao_framebuflen aob - ao_framebufoff aob) (drop (ao_framebufoff aob) (ao_framebuf aob)) in
        case cb_send cb s data of (sentlen, answer) \<Rightarrow>
          do {
            s1 \<leftarrow> callback_effect s answer;
            if sentlen < 0 then
              Some (Return (if sentlen = SPDYLAY_ERR_WOULDBLOCK then 0 else SPDYLAY_ERR_CALLBACK_FAILURE) s1)
            else
              let s2 = s1\<lparr>s_aob := (s_aob s1)\<lparr>ao_framebufoff := ao_framebufoff (s_aob s1) + nat sentlen\<rparr>\<rparr>;
                  s3 = charge_window s2 in
              if ao_framebufoff (s_aob s3) = ao_framebuflen (s_aob s3) then
                do {
                  (r, s4) \<leftarrow> spdylay_session_after_frame_sent cb s3;
                  if r < 0 then if r < SPDYLAY_ERR_FATAL then Some (Return r s4) else None
                  else Some (Next s4)
                }
              else Some (Next s3)
          })"

definition send_step ::
    "'z zlib \<Rightarrow> ('z, 'u) spdylay_session_callbacks \<Rightarrow> ('z, 'u) spdylay_session \<Rightarrow>
     ('z, 'u) spdylay_session step option" where
  "send_step zl cb s =
     do {
       p \<leftarrow> send_prepare zl cb s;
       case p of Go s1 \<Rightarrow> send_write cb s1 | _ \<Rightarrow> Some p
     }"

text \<open>The loop ends only when an iteration returns, which is for the callbacks to bring about.\<close>

partial_function (option) spdylay_session_send ::
    "'z zlib \<Rightarrow> ('z, 'u) spdylay_session_callbacks \<Rightarrow> ('z, 'u) spdylay_session \<Rightarrow>
     (int \<times> ('z, 'u) spdylay_session) option" where
  "spdylay_session_send zl cb s =
     Option.bind (send_step zl cb s) (\<lambda>p.
       case p of Next s1 \<Rightarrow> spdylay_session_send zl cb s1 | Return r s1 \<Rightarrow> Some (r, s1) | Go s1 \<Rightarrow> None)"

end
