(* ===== verification/Spdy_Session_Recv.thy ===== *)
theory Spdy_Session_Recv
  imports Spdy_Session_Send
begin

text \<open>
  The receiving half of \<open>lib/spdylay_session.c\<close>: one handler per frame type, the dispatch of a
  complete frame, flow control of received data, and the byte-wise state machine of
  \<open>spdylay_session_mem_recv\<close> with the loop of \<open>spdylay_session_recv\<close> around it.
\<close>

section \<open>Validation\<close>

definition spdylay_session_is_new_peer_stream_id :: "('z, 'u) spdylay_session \<Rightarrow> i32 \<Rightarrow> bool" where
  "spdylay_session_is_new_peer_stream_id s stream_id \<longleftrightarrow>
     (if stream_id = 0 then False
      else if s_server s then rem2 stream_id = 1 \<and> sint (s_last_recv_stream_id s) < sint stream_id
      else rem2 stream_id = 0 \<and> sint (s_last_recv_stream_id s) < sint stream_id)"

definition spdylay_session_check_version :: "('z, 'u) spdylay_session \<Rightarrow> u16 \<Rightarrow> bool" where
  "spdylay_session_check_version s version \<longleftrightarrow> s_version s = version"

definition spdylay_session_validate_syn_stream :: "('z, 'u) spdylay_session \<Rightarrow> spdylay_syn_stream \<Rightarrow> u32" where
  "spdylay_session_validate_syn_stream s frame =
     (if \<not> spdylay_session_check_version s (hd_version (ss_hd frame)) then SPDYLAY_UNSUPPORTED_VERSION
      else if s_server s \<and> ss_assoc_stream_id frame \<noteq> 0 then SPDYLAY_PROTOCOL_ERROR
      else if \<not> s_server s \<and> ss_assoc_stream_id frame = 0 then SPDYLAY_INVALID_STREAM
      else if \<not> s_server s \<and>
              (hd_flags (ss_hd frame) AND SPDYLAY_CTRL_FLAG_UNIDIRECTIONAL = 0 \<or>
               rem2 (ss_assoc_stream_id frame) = 0 \<or>
               spdylay_session_get_stream s (ss_assoc_stream_id frame) = None)
      then SPDYLAY_PROTOCOL_ERROR
      else if spdylay_session_is_incoming_concurrent_streams_max s then SPDYLAY_REFUSED_STREAM
      else 0)"

section \<open>Handlers of control frames\<close>

definition spdylay_session_handle_invalid_stream ::
    "('z, 'u) spdylay_session_callbacks \<Rightarrow> ('z, 'u) spdylay_session \<Rightarrow> i32 \<Rightarrow> spdylay_frame \<Rightarrow> u32 \<Rightarrow>
     (int \<times> ('z, 'u) spdylay_session) option" where
  "spdylay_session_handle_invalid_stream cb s stream_id frame status_code =
     (case spdylay_session_add_rst_stream s stream_id status_code of (r, s1) \<Rightarrow>
        if r \<noteq> 0 then Some (r, s1)
        else map_option (\<lambda>s2. (0, s2)) (notify cb (OnInvalidCtrlRecv frame status_code) s1))"

text \<open>A SYN_STREAM that was found valid: the stream, the callbacks.\<close>

definition accept_syn_stream ::
    "('z, 'u) spdylay_session_callbacks \<Rightarrow> ('z, 'u) spdylay_session \<Rightarrow> spdylay_syn_stream \<Rightarrow>
     (int \<times> ('z, 'u) spdylay_session) option" where
  "accept_syn_stream cb s frame =
     (let flags = hd_flags (ss_hd frame); stream_id = ss_stream_id frame;
          fin = flags AND SPDYLAY_CTRL_FLAG_FIN \<noteq> 0;
          uni = flags AND SPDYLAY_CTRL_FLAG_UNIDIRECTIONAL \<noteq> 0;
          s2 = (if fin \<and> uni then s
                else case spdylay_session_open_stream s stream_id flags (ss_pri frame)
                            SPDYLAY_STREAM_OPENING 0 of (ok, s1) \<Rightarrow>
                  if \<not> ok then s1
                  else
                    let s1' = (if fin then put_stream stream_id (spdylay_stream_shutdown SPDYLAY_SHUT_RD) s1
                               else s1) in
                    if uni then put_stream stream_id (spdylay_stream_shutdown SPDYLAY_SHUT_WR) s1' else s1') in
      do {
        s3 \<leftarrow> notify cb (OnCtrlRecv (FSynStream frame)) s2;
        s4 \<leftarrow> (if fin then notify cb (OnRequestRecv stream_id) s3 else Some s3);
        s5 \<leftarrow> (if fin \<and> uni then notify cb (OnStreamClose stream_id SPDYLAY_OK) s4 else Some s4);
        Some (0, s5)
      })"

definition spdylay_session_on_syn_stream_received ::
    "('z, 'u) spdylay_session_callbacks \<Rightarrow> ('z, 'u) spdylay_session \<Rightarrow> spdylay_syn_stream \<Rightarrow>
     (int \<times> ('z, 'u) spdylay_session) option" where
  "spdylay_session_on_syn_stream_received cb s frame =
     (let stream_id = ss_stream_id frame in
      if s_goaway_flags s \<noteq> 0 then Some (0, s)
      else if s_last_recv_stream_id s = stream_id then
        spdylay_session_handle_invalid_stream cb s stream_id (FSynStream frame) SPDYLAY_PROTOCOL_ERROR
      else if \<not> spdylay_session_is_new_peer_stream_id s stream_id then
        do {
          s1 \<leftarrow> notify cb (OnInvalidCtrlRecv (FSynStream frame) SPDYLAY_PROTOCOL_ERROR) s;
          Some (spdylay_session_fail_session s1 SPDYLAY_GOAWAY_PROTOCOL_ERROR)
        }
      else
        let s1 = s\<lparr>s_last_recv_stream_id := stream_id\<rparr>;
            status_code = spdylay_session_validate_syn_stream s1 frame in
        if status_code = 0 then accept_syn_stream cb s1 frame
        else spdylay_session_handle_invalid_stream cb s1 stream_id (FSynStream frame) status_code)"

text \<open>The last frame from the peer: nothing more is read, and the stream may be done.\<close>

definition shut_rd_and_close ::
    "('z, 'u) spdylay_session_callbacks \<Rightarrow> ('z, 'u) spdylay_session \<Rightarrow> i32 \<Rightarrow> ('z, 'u) spdylay_session option" where
  "shut_rd_and_close cb s stream_id =
     map_option snd (spdylay_session_close_stream_if_shut_rdwr cb
       (put_stream stream_id (spdylay_stream_shutdown SPDYLAY_SHUT_RD) s) stream_id)"

definition spdylay_session_on_syn_reply_received ::
    "('z, 'u) spdylay_session_callbacks \<Rightarrow> ('z, 'u) spdylay_session \<Rightarrow> spdylay_syn_reply \<Rightarrow>
     (int \<times> ('z, 'u) spdylay_session) option" where
  "spdylay_session_on_syn_reply_received cb s frame =
     (let stream_id = sr_stream_id frame;
          invalid = spdylay_session_handle_invalid_stream cb s stream_id (FSynReply frame) in
      if \<not> spdylay_session_check_version s (hd_version (sr_hd frame)) then Some (0, s)
      else case spdylay_session_get_stream s stream_id of
        None \<Rightarrow> invalid SPDYLAY_PROTOCOL_ERROR
      | Some stream \<Rightarrow>
          if sm_shut_flags stream AND SPDYLAY_SHUT_RD = 0 \<and> spdylay_session_is_my_stream_id s stream_id then
            (case sm_state stream of
               SPDYLAY_STREAM_OPENING \<Rightarrow>
                 do {
                   s2 \<leftarrow> notify cb (OnCtrlRecv (FSynReply frame))
                          (put_stream stream_id (\<lambda>st. st\<lparr>sm_state := SPDYLAY_STREAM_OPENED\<rparr>) s);
                   s3 \<leftarrow> (if hd_flags (sr_hd frame) AND SPDYLAY_CTRL_FLAG_FIN \<noteq> 0
                          then shut_rd_and_close cb s2 stream_id else Some s2);
                   Some (0, s3)
                 }
             | SPDYLAY_STREAM_CLOSING \<Rightarrow> Some (0, s)
             | _ \<Rightarrow> invalid (if s_version s = SPDYLAY_PROTO_SPDY3 then SPDYLAY_STREAM_IN_USE
                            else SPDYLAY_PROTOCOL_ERROR))
          else invalid SPDYLAY_PROTOCOL_ERROR)"

definition spdylay_session_on_rst_stream_received ::
    "('z, 'u) spdylay_session_callbacks \<Rightarrow> ('z, 'u) spdylay_session \<Rightarrow> spdylay_rst_stream \<Rightarrow>
     (int \<times> ('z, 'u) spdylay_session) option" where
  "spdylay_session_on_rst_stream_received cb s frame =
     (if \<not> spdylay_session_check_version s (hd_version (rs_hd frame)) then Some (0, s)
      else
        do {
          s1 \<leftarrow> notify cb (OnCtrlRecv (FRstStream frame)) s;
          s2 \<leftarrow> (if s_server s1 \<and> \<not> spdylay_session_is_my_stream_id s1 (rs_stream_id frame) \<and>
                    rs_status_code frame = SPDYLAY_CANCEL
                 then spdylay_session_close_pushed_streams cb s1 (rs_stream_id frame) (rs_status_code frame)
                 else Some s1);
          (r, s3) \<leftarrow> spdylay_session_close_stream cb s2 (rs_stream_id frame) (rs_status_code frame);
          Some (0, s3)
        })"

text \<open>
  The callback of \<open>spdylay_map_each\<close>: the stream of the entry and the session whose queue takes
  the data that waited for the window. A push fails with the fatal \<open>SPDYLAY_ERR_NOMEM\<close> only, as
  the \<open>assert\<close> says.
\<close>

definition spdylay_update_initial_window_size_func ::
    "i32 \<Rightarrow> i32 \<Rightarrow> spdylay_stream spdylay_map_entry \<Rightarrow> ('z, 'u) spdylay_session \<Rightarrow>
     int \<times> spdylay_stream \<times> ('z, 'u) spdylay_session" where
  "spdylay_update_initial_window_size_func new_window_size old_window_size entry s =
     (let stream = spdylay_stream_update_initial_window_size (e_val entry) new_window_size old_window_size in
      case sm_deferred_data stream of
        None \<Rightarrow> (0, stream, s)
      | Some item \<Rightarrow>
          if sint (sm_window_size stream) > 0 \<and>
             sm_deferred_flags stream AND SPDYLAY_DEFERRED_FLOW_CONTROL \<noteq> 0 then
            (case push_ob_pq s item of (rv, s1) \<Rightarrow>
               if rv = 0 then (0, spdylay_stream_detach_deferred_data stream, s1) else (rv, stream, s1))
          else (0, stream, s))"

definition spdylay_session_update_initial_window_size ::
    "('z, 'u) spdylay_session \<Rightarrow> i32 \<Rightarrow> int \<times> ('z, 'u) spdylay_session" where
  "spdylay_session_update_initial_window_size s new_initial_window_size =
     (case spdylay_map_each (s_streams s)
             (spdylay_update_initial_window_size_func new_initial_window_size
                (s_remote_settings s ! SPDYLAY_SETTINGS_INITIAL_WINDOW_SIZE)) s of
        (rv, streams, s1) \<Rightarrow> (rv, s1\<lparr>s_streams := streams\<rparr>))"

text \<open>
  One entry of a SETTINGS frame that passed the checks: the error, the entry, whose value may
  be capped, and the session.
\<close>

definition apply_setting ::
    "('z, 'u) spdylay_session \<Rightarrow> spdylay_settings_entry \<Rightarrow>
     int \<times> spdylay_settings_entry \<times> ('z, 'u) spdylay_session" where
  "apply_setting s entry =
     (let id = nat (sint (se_settings_id entry));
          store = (\<lambda>e s. s\<lparr>s_remote_settings := (s_remote_settings s)[id := se_value e]\<rparr>) in
      if id = SPDYLAY_SETTINGS_INITIAL_WINDOW_SIZE \<and> s_flow_control s then
        if se_value entry < push_bit 31 1 then
          (case spdylay_session_update_initial_window_size s (se_value entry) of (rv, s1) \<Rightarrow>
             if rv \<noteq> 0 then (rv, entry, s1) else (0, entry, store entry s1))
        else (0, entry, store entry s)
      else if id = SPDYLAY_SETTINGS_CLIENT_CERTIFICATE_VECTOR_SIZE \<and> \<not> s_server s then
        let entry1 = entry\<lparr>se_value := min (se_value entry) SPDYLAY_MAX_CLIENT_CERT_VECTOR_LENGTH\<rparr> in
        (case spdylay_client_cert_vector_resize (s_mem s) (s_cli_certvec s) (unat (se_value entry1)) of
           (rv, cv, m) \<Rightarrow>
             let s1 = s\<lparr>s_cli_certvec := cv, s_mem := m\<rparr> in
             if rv \<noteq> 0 then (rv, entry1, s1) else (0, entry1, store entry1 s1))
      else (0, entry, store entry s))"

text \<open>The loop over the entries; an index below zero, which the tests let through, is \<open>None\<close>.\<close>

fun apply_settings ::
    "bool list \<Rightarrow> spdylay_settings_entry list \<Rightarrow> ('z, 'u) spdylay_session \<Rightarrow>
     (int \<times> spdylay_settings_entry list \<times> ('z, 'u) spdylay_session) option" where
  "apply_settings check [] s = Some (0, [], s)"
| "apply_settings check (e # iv) s =
     (let id = sint (se_settings_id e) in
      if id > int SPDYLAY_SETTINGS_MAX \<or> id = 0 \<or> id > 0 \<and> check ! nat id then
        do { (rv, iv1, s1) \<leftarrow> apply_settings check iv s; Some (rv, e # iv1, s1) }
      else if id < 0 then None
      else case apply_setting s e of (rv, e1, s1) \<Rightarrow>
        if rv \<noteq> 0 then Some (rv, e1 # iv, s1)
        else do { (rv, iv1, s2) \<leftarrow> apply_settings (check[nat id := True]) iv s1; Some (rv, e1 # iv1, s2) })"

definition spdylay_session_on_settings_received ::
    "('z, 'u) spdylay_session_callbacks \<Rightarrow> ('z, 'u) spdylay_session \<Rightarrow> spdylay_settings \<Rightarrow>
     (int \<times> ('z, 'u) spdylay_session) option" where
  "spdylay_session_on_settings_received cb s frame =
     (if \<not> spdylay_session_check_version s (hd_version (st_hd frame)) then Some (0, s)
      else
        do {
          (rv, iv, s1) \<leftarrow> apply_settings (replicate (SPDYLAY_SETTINGS_MAX + 1) False) (st_iv frame) s;
          if rv \<noteq> 0 then Some (rv, s1)
          else do { s2 \<leftarrow> notify cb (OnCtrlRecv (FSettings (frame\<lparr>st_iv := iv\<rparr>))) s1; Some (0, s2) }
        })"

definition spdylay_session_on_ping_received ::
    "('z, 'u) spdylay_session_callbacks \<Rightarrow> ('z, 'u) spdylay_session \<Rightarrow> spdylay_ping \<Rightarrow>
     (int \<times> ('z, 'u) spdylay_session) option" where
  "spdylay_session_on_ping_received cb s frame =
     (let unique_id = pg_unique_id frame in
      if \<not> spdylay_session_check_version s (hd_version (pg_hd frame)) then Some (0, s)
      else if unique_id = 0 then Some (0, s)
      else if s_last_ping_unique_id s = unique_id then
        map_option (\<lambda>s1. (0, s1)) (notify cb (OnCtrlRecv (FPing frame)) (s\<lparr>s_last_ping_unique_id := 0\<rparr>))
      else if s_server s \<and> unique_id mod 2 = 1 \<or> \<not> s_server s \<and> unique_id mod 2 = 0 then
        (case spdylay_session_add_ping s unique_id of (r, s1) \<Rightarrow>
           map_option (\<lambda>s2. (r, s2)) (notify cb (OnCtrlRecv (FPing frame)) s1))
      else Some (0, s))"

definition spdylay_session_on_goaway_received ::
    "('z, 'u) spdylay_session_callbacks \<Rightarrow> ('z, 'u) spdylay_session \<Rightarrow> spdylay_goaway \<Rightarrow>
     (int \<times> ('z, 'u) spdylay_session) option" where
  "spdylay_session_on_goaway_received cb s frame =
     (if \<not> spdylay_session_check_version s (hd_version (ga_hd frame)) then Some (0, s)
      else map_option (\<lambda>s1. (0, s1))
        (notify cb (OnCtrlRecv (FGoaway frame))
           (s\<lparr>s_last_good_stream_id := ga_last_good_stream_id frame,
              s_goaway_flags := s_goaway_flags s OR SPDYLAY_GOAWAY_RECV\<rparr>)))"

text \<open>Data that waited for the window goes back to the queue once the window is positive.\<close>

definition release_deferred ::
    "('z, 'u) spdylay_session \<Rightarrow> i32 \<Rightarrow> int \<times> ('z, 'u) spdylay_session" where
  "release_deferred s stream_id =
     (case spdylay_session_get_stream s stream_id of
        None \<Rightarrow> (0, s)
      | Some stream \<Rightarrow>
          (case sm_deferred_data stream of
             None \<Rightarrow> (0, s)
           | Some item \<Rightarrow>
               if sint (sm_window_size stream) > 0 \<and>
                  sm_deferred_flags stream AND SPDYLAY_DEFERRED_FLOW_CONTROL \<noteq> 0 then
                 (case push_ob_pq s item of (r, s1) \<Rightarrow>
                    (r, if r = 0 then put_stream stream_id spdylay_stream_detach_deferred_data s1 else s1))
               else (0, s)))"

definition spdylay_session_on_window_update_received ::
    "('z, 'u) spdylay_session_callbacks \<Rightarrow> ('z, 'u) spdylay_session \<Rightarrow> spdylay_window_update \<Rightarrow>
     (int \<times> ('z, 'u) spdylay_session) option" where
  "spdylay_session_on_window_update_received cb s frame =
     (let stream_id = wu_stream_id frame; delta = wu_delta_window_size frame in
      if \<not> spdylay_session_check_version s (hd_version (wu_hd frame)) then Some (0, s)
      else if \<not> s_flow_control s then Some (0, s)
      else case spdylay_session_get_stream s stream_id of
        None \<Rightarrow> Some (0, s)
      | Some stream \<Rightarrow>
          if INT32_MAX - sint delta < sint (sm_window_size stream) then
            spdylay_session_handle_invalid_stream cb s stream_id (FWindowUpdate frame) SPDYLAY_FLOW_CONTROL_ERROR
          else
            let s1 = put_stream stream_id (\<lambda>st. st\<lparr>sm_window_size := sm_window_size st + delta\<rparr>) s in
            (case release_deferred s1 stream_id of (r, s2) \<Rightarrow>
               if r < 0 then if r < SPDYLAY_ERR_FATAL then Some (r, s2) else None
               else map_option (\<lambda>s3. (0, s3)) (notify cb (OnCtrlRecv (FWindowUpdate frame)) s2)))"

definition spdylay_session_on_credential_received ::
    "('z, 'u) spdylay_session_callbacks \<Rightarrow> ('z, 'u) spdylay_session \<Rightarrow> spdylay_credential \<Rightarrow>
     (int \<times> ('z, 'u) spdylay_session) option" where
  "spdylay_session_on_credential_received cb s frame =
     (if \<not> spdylay_session_check_version s (hd_version (cr_hd frame)) then Some (0, s)
      else map_option (\<lambda>s1. (0, s1)) (notify cb (OnCtrlRecv (FCredential frame)) s))"

definition spdylay_session_on_headers_received ::
    "('z, 'u) spdylay_session_callbacks \<Rightarrow> ('z, 'u) spdylay_session \<Rightarrow> spdylay_headers \<Rightarrow>
     (int \<times> ('z, 'u) spdylay_session) option" where
  "spdylay_session_on_headers_received cb s frame =
     (let stream_id = hs_stream_id frame;
          fin = hd_flags (hs_hd frame) AND SPDYLAY_CTRL_FLAG_FIN \<noteq> 0;
          invalid = spdylay_session_handle_invalid_stream cb s stream_id (FHeaders frame) SPDYLAY_PROTOCOL_ERROR in
      if \<not> spdylay_session_check_version s (hd_version (hs_hd frame)) then Some (0, s)
      else case spdylay_session_get_stream s stream_id of
        None \<Rightarrow> invalid
      | Some stream \<Rightarrow>
          if sm_shut_flags stream AND SPDYLAY_SHUT_RD \<noteq> 0 then invalid
          else if spdylay_session_is_my_stream_id s stream_id then
            (case sm_state stream of
               SPDYLAY_STREAM_OPENED \<Rightarrow>
                 do {
                   s1 \<leftarrow> notify cb (OnCtrlRecv (FHeaders frame)) s;
                   s2 \<leftarrow> (if fin then shut_rd_and_close cb s1 stream_id else Some s1);
                   Some (0, s2)
                 }
             | SPDYLAY_STREAM_CLOSING \<Rightarrow> Some (0, s)
             | _ \<Rightarrow> invalid)
          else if sm_state stream \<noteq> SPDYLAY_STREAM_CLOSING then
            do {
              s1 \<leftarrow> notify cb (OnCtrlRecv (FHeaders frame)) s;
              s2 \<leftarrow> (if fin then Option.bind (notify cb (OnRequestRecv stream_id) s1)
                                   (\<lambda>s. shut_rd_and_close cb s stream_id)
                     else Some s1);
              Some (0, s2)
            }
          else Some (0, s))"

section \<open>A complete control frame\<close>

definition iframe_payload :: "('z, 'u) spdylay_session \<Rightarrow> bytes" where
  "iframe_payload s = take (if_buflen (s_iframe s)) (if_buf (s_iframe s))"

definition spdylay_session_handle_parse_error ::
    "('z, 'u) spdylay_session_callbacks \<Rightarrow> ('z, 'u) spdylay_session \<Rightarrow> u16 \<Rightarrow> int \<Rightarrow>
     ('z, 'u) spdylay_session option" where
  "spdylay_session_handle_parse_error cb s type error_code =
     notify cb (OnCtrlRecvParseError type (if_headbuf (s_iframe s)) (iframe_payload s) error_code) s"

definition spdylay_get_status_code_from_error_code :: "int \<Rightarrow> u32" where
  "spdylay_get_status_code_from_error_code error_code =
     (if error_code = SPDYLAY_ERR_FRAME_TOO_LARGE then SPDYLAY_FRAME_TOO_LARGE else SPDYLAY_PROTOCOL_ERROR)"

text \<open>The parse error that ends every case: the callback, then GOAWAY; a fatal error is passed on.\<close>

definition fail_parse ::
    "('z, 'u) spdylay_session_callbacks \<Rightarrow> ('z, 'u) spdylay_session \<Rightarrow> u16 \<Rightarrow> int \<Rightarrow>
     (int \<times> ('z, 'u) spdylay_session) option" where
  "fail_parse cb s type r =
     (if spdylay_is_non_fatal r then
        do {
          s1 \<leftarrow> spdylay_session_handle_parse_error cb s type r;
          Some (spdylay_session_fail_session s1 SPDYLAY_GOAWAY_PROTOCOL_ERROR)
        }
      else Some (r, s))"

text \<open>
  Unpacking a frame with a header block: by the error that the reception left, the whole frame,
  the part before the block only, or nothing.
\<close>

definition unpack_nv_frame ::
    "(mem \<Rightarrow> bytes \<Rightarrow> bytes \<Rightarrow> spdylay_buffer \<Rightarrow> (int \<times> 'f \<times> mem) option) \<Rightarrow>
     (bytes \<Rightarrow> bytes \<Rightarrow> (int \<times> 'f) option) \<Rightarrow> ('z, 'u) spdylay_session \<Rightarrow>
     (int \<times> 'f option \<times> ('z, 'u) spdylay_session) option" where
  "unpack_nv_frame unpack unpack_without_nv s =
     (let iframe = s_iframe s in
      if if_error_code iframe = 0 then
        do {
          (r, frame, m) \<leftarrow> unpack (s_mem s) (if_headbuf iframe) (iframe_payload s) (if_inflatebuf iframe);
          Some (r, Some frame, s\<lparr>s_mem := m\<rparr>)
        }
      else if if_error_code iframe = SPDYLAY_ERR_FRAME_TOO_LARGE then
        do {
          (r, frame) \<leftarrow> unpack_without_nv (if_headbuf iframe) (iframe_payload s);
          Some (if r = 0 then if_error_code iframe else r, Some frame, s)
        }
      else Some (if_error_code iframe, None, s))"

definition process_nv_frame ::
    "('z, 'u) spdylay_session_callbacks \<Rightarrow> u16 \<Rightarrow> ('f \<Rightarrow> spdylay_frame) \<Rightarrow> ('f \<Rightarrow> i32) \<Rightarrow> ('f \<Rightarrow> 'f) \<Rightarrow>
     (('z, 'u) spdylay_session \<Rightarrow> 'f \<Rightarrow> (int \<times> ('z, 'u) spdylay_session) option) \<Rightarrow>
     int \<times> 'f option \<times> ('z, 'u) spdylay_session \<Rightarrow> (int \<times> ('z, 'u) spdylay_session) option" where
  "process_nv_frame cb type mk stream_id_of to3 on_received unpacked =
     (case unpacked of (r, frame, s) \<Rightarrow>
        if r = 0 then
          do {
            f \<leftarrow> frame;
            on_received s (if s_version s = SPDYLAY_PROTO_SPDY2 then to3 f else f)
          }
        else if r = SPDYLAY_ERR_INVALID_HEADER_BLOCK \<or> r = SPDYLAY_ERR_FRAME_TOO_LARGE then
          do {
            f \<leftarrow> frame;
            spdylay_session_handle_invalid_stream cb s (stream_id_of f) (mk f)
              (spdylay_get_status_code_from_error_code r)
          }
        else fail_parse cb s type r)"

definition process_plain_frame ::
    "('z, 'u) spdylay_session_callbacks \<Rightarrow> u16 \<Rightarrow>
     (('z, 'u) spdylay_session \<Rightarrow> 'f \<Rightarrow> (int \<times> ('z, 'u) spdylay_session) option) \<Rightarrow>
     (int + 'f) \<times> ('z, 'u) spdylay_session \<Rightarrow> (int \<times> ('z, 'u) spdylay_session) option" where
  "process_plain_frame cb type on_received unpacked =
     (case unpacked of
        (Inr f, s) \<Rightarrow> on_received s f
      | (Inl r, s) \<Rightarrow> fail_parse cb s type r)"

definition unpack_plain ::
    "(bytes \<Rightarrow> bytes \<Rightarrow> int + 'f) \<Rightarrow> ('z, 'u) spdylay_session \<Rightarrow> (int + 'f) \<times> ('z, 'u) spdylay_session" where
  "unpack_plain unpack s = (unpack (if_headbuf (s_iframe s)) (iframe_payload s), s)"

definition unpack_alloc ::
    "(mem \<Rightarrow> bytes \<Rightarrow> bytes \<Rightarrow> (int + 'f) \<times> mem) \<Rightarrow> ('z, 'u) spdylay_session \<Rightarrow>
     (int + 'f) \<times> ('z, 'u) spdylay_session" where
  "unpack_alloc unpack s =
     (case unpack (s_mem s) (if_headbuf (s_iframe s)) (iframe_payload s) of (res, m) \<Rightarrow> (res, s\<lparr>s_mem := m\<rparr>))"

text \<open>The switch of \<open>spdylay_session_process_ctrl_frame\<close>, without the last test.\<close>

definition dispatch_ctrl_frame ::
    "('z, 'u) spdylay_session_callbacks \<Rightarrow> ('z, 'u) spdylay_session \<Rightarrow> (int \<times> ('z, 'u) spdylay_session) option" where
  "dispatch_ctrl_frame cb s =
     (let type = spdylay_get_uint16 (drop 2 (if_headbuf (s_iframe s))) in
      if type = SPDYLAY_SYN_STREAM then
        Option.bind (unpack_nv_frame spdylay_frame_unpack_syn_stream
                       (\<lambda>h p. Some (spdylay_frame_unpack_syn_stream_without_nv h p)) s)
          (process_nv_frame cb type FSynStream ss_stream_id
             (\<lambda>f. f\<lparr>ss_nv := map_option spdylay_frame_nv_2to3 (ss_nv f)\<rparr>)
             (spdylay_session_on_syn_stream_received cb))
      else if type = SPDYLAY_SYN_REPLY then
        Option.bind (unpack_nv_frame spdylay_frame_unpack_syn_reply
                       spdylay_frame_unpack_syn_reply_without_nv s)
          (process_nv_frame cb type FSynReply sr_stream_id
             (\<lambda>f. f\<lparr>sr_nv := map_option spdylay_frame_nv_2to3 (sr_nv f)\<rparr>)
             (spdylay_session_on_syn_reply_received cb))
      else if type = SPDYLAY_RST_STREAM then
        process_plain_frame cb type (spdylay_session_on_rst_stream_received cb)
          (unpack_plain spdylay_frame_unpack_rst_stream s)
      else if type = SPDYLAY_SETTINGS then
        process_plain_frame cb type (spdylay_session_on_settings_received cb)
          (unpack_alloc spdylay_frame_unpack_settings s)
      else if type = SPDYLAY_NOOP then Some (0, s)
      else if type = SPDYLAY_PING then
        process_plain_frame cb type (spdylay_session_on_ping_received cb)
          (unpack_plain spdylay_frame_unpack_ping s)
      else if type = SPDYLAY_GOAWAY then
        process_plain_frame cb type (spdylay_session_on_goaway_received cb)
          (unpack_plain spdylay_frame_unpack_goaway s)
      else if type = SPDYLAY_HEADERS then
        Option.bind (unpack_nv_frame spdylay_frame_unpack_headers
                       spdylay_frame_unpack_headers_without_nv s)
          (process_nv_frame cb type FHeaders hs_stream_id
             (\<lambda>f. f\<lparr>hs_nv := map_option spdylay_frame_nv_2to3 (hs_nv f)\<rparr>)
             (spdylay_session_on_headers_received cb))
      else if type = SPDYLAY_WINDOW_UPDATE then
        process_plain_frame cb type (spdylay_session_on_window_update_received cb)
          (unpack_plain spdylay_frame_unpack_window_update s)
      else if type = SPDYLAY_CREDENTIAL then
        process_plain_frame cb type (spdylay_session_on_credential_received cb)
          (unpack_alloc spdylay_frame_unpack_credential s)
      else map_option (\<lambda>s1. (0, s1))
             (notify cb (OnUnknownCtrlRecv (if_headbuf (s_iframe s)) (iframe_payload s)) s))"

definition only_fatal :: "int \<times> 's \<Rightarrow> int \<times> 's" where
  "only_fatal res = (case res of (r, s) \<Rightarrow> (if spdylay_is_fatal r then r else 0, s))"

definition spdylay_session_process_ctrl_frame ::
    "('z, 'u) spdylay_session_callbacks \<Rightarrow> ('z, 'u) spdylay_session \<Rightarrow> (int \<times> ('z, 'u) spdylay_session) option" where
  "spdylay_session_process_ctrl_frame cb s = map_option only_fatal (dispatch_ctrl_frame cb s)"

section \<open>Data frames\<close>

definition spdylay_session_on_data_received ::
    "('z, 'u) spdylay_session_callbacks \<Rightarrow> ('z, 'u) spdylay_session \<Rightarrow> u8 \<Rightarrow> i32 \<Rightarrow> i32 \<Rightarrow>
     (int \<times> ('z, 'u) spdylay_session) option" where
  "spdylay_session_on_data_received cb s flags len stream_id =
     (let fin = flags AND SPDYLAY_DATA_FLAG_FIN \<noteq> 0 in
      case spdylay_session_get_stream s stream_id of
        None \<Rightarrow> Some (spdylay_session_add_rst_stream s stream_id SPDYLAY_INVALID_STREAM)
      | Some stream \<Rightarrow>
          if sm_shut_flags stream AND SPDYLAY_SHUT_RD \<noteq> 0
          then Some (spdylay_session_add_rst_stream s stream_id SPDYLAY_PROTOCOL_ERROR)
          else if spdylay_session_is_my_stream_id s stream_id then
            (case sm_state stream of
               SPDYLAY_STREAM_OPENED \<Rightarrow>
                 do {
                   s1 \<leftarrow> notify cb (OnDataRecv flags stream_id len) s;
                   s2 \<leftarrow> (if fin then shut_rd_and_close cb s1 stream_id else Some s1);
                   Some (0, s2)
                 }
             | SPDYLAY_STREAM_CLOSING \<Rightarrow> Some (0, s)
             | _ \<Rightarrow> Some (spdylay_session_add_rst_stream s stream_id SPDYLAY_PROTOCOL_ERROR))
          else if sm_state stream \<noteq> SPDYLAY_STREAM_CLOSING then
            do {
              s1 \<leftarrow> notify cb (OnDataRecv flags stream_id len) s;
              s2 \<leftarrow> (if fin then Option.bind (notify cb (OnRequestRecv stream_id) s1)
                                   (\<lambda>s. shut_rd_and_close cb s stream_id)
                     else Some s1);
              Some (0, s2)
            }
          else Some (0, s))"

definition spdylay_session_process_data_frame ::
    "('z, 'u) spdylay_session_callbacks \<Rightarrow> ('z, 'u) spdylay_session \<Rightarrow> (int \<times> ('z, 'u) spdylay_session) option" where
  "spdylay_session_process_data_frame cb s =
     (let headbuf = if_headbuf (s_iframe s);
          stream_id = spdylay_get_uint32 headbuf AND SPDYLAY_STREAM_ID_MASK;
          flags = headbuf ! 4;
          len = spdylay_get_uint32 (drop 4 headbuf) AND SPDYLAY_LENGTH_MASK in
      map_option only_fatal (spdylay_session_on_data_received cb s flags len stream_id))"

text \<open>The sum saturates; WINDOW_UPDATE goes out once half the local window was received.\<close>

definition spdylay_session_update_recv_window_size ::
    "('z, 'u) spdylay_session \<Rightarrow> i32 \<Rightarrow> i32 \<Rightarrow> int \<times> ('z, 'u) spdylay_session" where
  "spdylay_session_update_recv_window_size s stream_id delta_size =
     (case spdylay_session_get_stream s stream_id of
        None \<Rightarrow> (0, s)
      | Some stream \<Rightarrow>
          let recv_window_size =
                (if sint (sm_recv_window_size stream) > INT32_MAX - sint delta_size
                 then word_of_int INT32_MAX else sm_recv_window_size stream + delta_size);
              s1 = put_stream stream_id (\<lambda>st. st\<lparr>sm_recv_window_size := recv_window_size\<rparr>) s in
          if s_opt_flags s1 AND SPDYLAY_OPTMASK_NO_AUTO_WINDOW_UPDATE = 0 \<and>
             nat (sint recv_window_size mod int SIZE_MAX1) * 2 mod SIZE_MAX1
               \<ge> unat (s_local_settings s1 ! SPDYLAY_SETTINGS_INITIAL_WINDOW_SIZE)
          then (case spdylay_session_add_window_update s1 stream_id recv_window_size of (r, s2) \<Rightarrow>
                  if r = 0
                  then (0, put_stream stream_id (\<lambda>st. st\<lparr>sm_recv_window_size := 0\<rparr>) s2)
                  else (r, s2))
          else (0, s1))"

definition spdylay_session_check_data_recv_allowed :: "('z, 'u) spdylay_session \<Rightarrow> i32 \<Rightarrow> bool" where
  "spdylay_session_check_data_recv_allowed s stream_id \<longleftrightarrow>
     (case spdylay_session_get_stream s stream_id of
        None \<Rightarrow> False
      | Some stream \<Rightarrow>
          sm_shut_flags stream AND SPDYLAY_SHUT_RD = 0 \<and>
          (if spdylay_session_is_my_stream_id s stream_id then sm_state stream = SPDYLAY_STREAM_OPENED
           else sm_state stream \<noteq> SPDYLAY_STREAM_CLOSING))"

section \<open>The byte stream\<close>

text \<open>
  One turn of the loop of \<open>spdylay_session_mem_recv\<close>: \<open>RBreak\<close> leaves the loop, \<open>RReturn\<close> the
  function, \<open>RNext\<close> takes the next turn and \<open>RGo\<close> passes from the header to the payload part.
  The input is what is left from \<open>inmark\<close> to \<open>inlimit\<close>. A copy past the end of a buffer is \<open>None\<close>.
\<close>

datatype 's recv_step = RBreak 's bytes | RReturn int 's | RNext 's bytes | RGo 's bytes

definition put_iframe ::
    "('z, 'u) spdylay_session \<Rightarrow> (spdylay_inbound_frame \<Rightarrow> spdylay_inbound_frame) \<Rightarrow> ('z, 'u) spdylay_session" where
  "put_iframe s f = s\<lparr>s_iframe := f (s_iframe s)\<rparr>"

text \<open>The state, the error and the number of bytes to buffer for a control frame with this header.\<close>

definition ctrl_frame_plan ::
    "('z, 'u) spdylay_session \<Rightarrow> nat \<Rightarrow> spdylay_inbound_state \<times> int \<times> nat" where
  "ctrl_frame_plan s payloadlen =
     (let iframe = s_iframe s; buflen = spdylay_inbound_frame_payload_nv_offset iframe;
          too_large = payloadlen > unat (s_max_recv_ctrl_frame_buf s) in
      if buflen = -1 then
        if too_large then (SPDYLAY_RECV_PAYLOAD_IGN, SPDYLAY_ERR_FRAME_TOO_LARGE, 0)
        else (SPDYLAY_RECV_PAYLOAD, if_error_code iframe, payloadlen)
      else if buflen < int payloadlen then
        (SPDYLAY_RECV_PAYLOAD_PRE_NV,
         if too_large then SPDYLAY_ERR_FRAME_TOO_LARGE else if_error_code iframe, nat buflen)
      else (SPDYLAY_RECV_PAYLOAD, if_error_code iframe, nat buflen))"

definition recv_head_done ::
    "('z, 'u) spdylay_session \<Rightarrow> bytes \<Rightarrow> ('z, 'u) spdylay_session recv_step option" where
  "recv_head_done s inp =
     (let headbuf = if_headbuf (s_iframe s);
          payloadlen = unat (spdylay_get_uint32 (drop 4 headbuf) AND SPDYLAY_LENGTH_MASK);
          s1 = put_iframe s (\<lambda>f. f\<lparr>if_state := SPDYLAY_RECV_PAYLOAD, if_payloadlen := payloadlen\<rparr>) in
      if spdylay_frame_is_ctrl_frame (headbuf ! 0) then
        (case ctrl_frame_plan s1 payloadlen of (state, error_code, buflen) \<Rightarrow>
           case spdylay_reserve_buffer (s_mem s1) (if_buf (s_iframe s1)) buflen of (r, buf, m) \<Rightarrow>
             let s2 = (put_iframe s1 (\<lambda>f. f\<lparr>if_state := state, if_error_code := error_code,
                         if_buflen := buflen, if_buf := buf\<rparr>))\<lparr>s_mem := m\<rparr> in
             if r \<noteq> 0 then if r < SPDYLAY_ERR_FATAL then Some (RReturn r s2) else None
             else Some (RGo s2 inp))
      else
        let stream_id = spdylay_get_uint32 headbuf in
        Some (RGo (if spdylay_session_check_data_recv_allowed s1 stream_id then s1
                   else put_iframe s1 (\<lambda>f. f\<lparr>if_state := SPDYLAY_RECV_PAYLOAD_IGN\<rparr>)) inp))"

definition recv_head ::
    "('z, 'u) spdylay_session \<Rightarrow> bytes \<Rightarrow> ('z, 'u) spdylay_session recv_step option" where
  "recv_head s inp =
     (let iframe = s_iframe s in
      if if_state iframe \<noteq> SPDYLAY_RECV_HEAD then Some (RGo s inp)
      else if inp = [] then Some (RBreak s inp)
      else if if_headbufoff iframe > SPDYLAY_HEAD_LEN then None
      else
        let readlen = min (SPDYLAY_HEAD_LEN - if_headbufoff iframe) (length inp);
            s1 = put_iframe s (\<lambda>f. f\<lparr>if_headbuf := memcpy_at (if_headbuf f) (if_headbufoff f) (take readlen inp),
                                      if_headbufoff := if_headbufoff f + readlen\<rparr>) in
        if if_headbufoff (s_iframe s1) = SPDYLAY_HEAD_LEN then recv_head_done s1 (drop readlen inp)
        else Some (RBreak s1 (drop readlen inp)))"

text \<open>The copy of payload bytes into the frame buffer.\<close>

definition buffer_payload ::
    "('z, 'u) spdylay_session \<Rightarrow> bytes \<Rightarrow> ('z, 'u) spdylay_session option" where
  "buffer_payload s bs =
     (if if_off (s_iframe s) + length bs > length (if_buf (s_iframe s)) then None
      else Some (put_iframe s (\<lambda>f. f\<lparr>if_buf := memcpy_at (if_buf f) (if_off f) bs\<rparr>)))"

text \<open>The bytes before the header block: the session, the input left and the length left to read.\<close>

definition recv_pre_nv ::
    "('z, 'u) spdylay_session \<Rightarrow> bytes \<Rightarrow> nat \<Rightarrow> (('z, 'u) spdylay_session \<times> bytes \<times> nat) option" where
  "recv_pre_nv s inp readlen =
     (if if_state (s_iframe s) = SPDYLAY_RECV_PAYLOAD_PRE_NV then
        let pnvlen = nat (spdylay_inbound_frame_payload_nv_offset (s_iframe s) mod int SIZE_MAX1);
            rpnvlen = size_sub pnvlen (if_off (s_iframe s));
            readpnvlen = min rpnvlen readlen in
        do {
          s1 \<leftarrow> buffer_payload s (take readpnvlen inp);
          let s2 = put_iframe s1 (\<lambda>f. f\<lparr>if_off := if_off f + readpnvlen\<rparr>);
              s3 = (if if_off (s_iframe s2) = pnvlen
                    then put_iframe s2 (\<lambda>f. f\<lparr>if_state := SPDYLAY_RECV_PAYLOAD_NV\<rparr>) else s2) in
          Some (s3, drop readpnvlen inp, readlen - readpnvlen)
        }
      else Some (s, inp, readlen))"

text \<open>The compressed header block is inflated as it comes; once it failed the rest is dropped.\<close>

definition recv_nv ::
    "'z zlib \<Rightarrow> ('z, 'u) spdylay_session \<Rightarrow> bytes \<Rightarrow> ('z, 'u) spdylay_session option" where
  "recv_nv zl s chunk =
     (let iframe = s_iframe s in
      if if_error_code iframe = 0 \<or> if_error_code iframe = SPDYLAY_ERR_FRAME_TOO_LARGE then
        let b = (if if_error_code iframe = SPDYLAY_ERR_FRAME_TOO_LARGE
                 then spdylay_buffer_reset (if_inflatebuf iframe) else if_inflatebuf iframe) in
        do {
          (decomplen, inflater, b1, m) \<leftarrow> spdylay_zlib_inflate_hd zl (s_mem s) (s_hd_inflater s) b chunk;
          let s1 = (put_iframe s (\<lambda>f. f\<lparr>if_inflatebuf := b1\<rparr>))\<lparr>s_hd_inflater := inflater, s_mem := m\<rparr> in
          Some (if decomplen < 0 then put_iframe s1 (\<lambda>f. f\<lparr>if_error_code := decomplen\<rparr>)
                else if spdylay_buffer_length b1 > unat (s_max_recv_ctrl_frame_buf s1)
                then put_iframe s1 (\<lambda>f. f\<lparr>if_error_code := SPDYLAY_ERR_FRAME_TOO_LARGE\<rparr>)
                else s1)
        }
      else Some s)"

definition iframe_is_ctrl :: "('z, 'u) spdylay_session \<Rightarrow> bool" where
  "iframe_is_ctrl s \<longleftrightarrow> spdylay_frame_is_ctrl_frame (if_headbuf (s_iframe s) ! 0)"

definition data_stream_id :: "('z, 'u) spdylay_session \<Rightarrow> i32" where
  "data_stream_id s = spdylay_get_uint32 (if_headbuf (s_iframe s)) AND SPDYLAY_STREAM_ID_MASK"

definition data_flags :: "('z, 'u) spdylay_session \<Rightarrow> u8" where
  "data_flags s = if_headbuf (s_iframe s) ! 4"

definition recv_chunk ::
    "'z zlib \<Rightarrow> ('z, 'u) spdylay_session_callbacks \<Rightarrow> ('z, 'u) spdylay_session \<Rightarrow> bytes \<Rightarrow>
     ('z, 'u) spdylay_session option" where
  "recv_chunk zl cb s chunk =
     (let state = if_state (s_iframe s) in
      if state = SPDYLAY_RECV_PAYLOAD_NV then recv_nv zl s chunk
      else if iframe_is_ctrl s then
        if state \<noteq> SPDYLAY_RECV_PAYLOAD_IGN then buffer_payload s chunk else Some s
      else if state \<noteq> SPDYLAY_RECV_PAYLOAD_IGN
      then notify cb (OnDataChunkRecv (data_flags s) (data_stream_id s) chunk) s
      else Some s)"

text \<open>Flow control for the bytes of a data frame, except for those that end the stream.\<close>

definition recv_flow_control ::
    "('z, 'u) spdylay_session \<Rightarrow> nat \<Rightarrow> int \<times> ('z, 'u) spdylay_session" where
  "recv_flow_control s readlen =
     (let iframe = s_iframe s in
      if s_flow_control s \<and> if_state iframe \<noteq> SPDYLAY_RECV_PAYLOAD_IGN \<and> \<not> iframe_is_ctrl s \<and>
         readlen > 0 \<and>
         (if_payloadlen iframe \<noteq> if_off iframe \<or> data_flags s AND SPDYLAY_DATA_FLAG_FIN = 0)
      then spdylay_session_update_recv_window_size s (data_stream_id s) (of_nat readlen)
      else (0, s))"

definition recv_payload ::
    "'z zlib \<Rightarrow> ('z, 'u) spdylay_session_callbacks \<Rightarrow> ('z, 'u) spdylay_session \<Rightarrow> bytes \<Rightarrow>
     ('z, 'u) spdylay_session recv_step option" where
  "recv_payload zl cb s inp =
     (let rempayloadlen = size_sub (if_payloadlen (s_iframe s)) (if_off (s_iframe s)) in
      if rempayloadlen > 0 \<and> inp = [] then Some (RBreak s inp)
      else
        do {
          (s1, inp1, readlen) \<leftarrow> recv_pre_nv s inp (min (length inp) rempayloadlen);
          s2 \<leftarrow> recv_chunk zl cb s1 (take readlen inp1);
          let s3 = put_iframe s2 (\<lambda>f. f\<lparr>if_off := if_off f + readlen\<rparr>); rest = drop readlen inp1 in
          (case recv_flow_control s3 readlen of (r, s4) \<Rightarrow>
             if r < 0 then if r < SPDYLAY_ERR_FATAL then Some (RReturn r s4) else None
             else if if_payloadlen (s_iframe s4) = if_off (s_iframe s4) then
               do {
                 (r, s5) \<leftarrow> (if iframe_is_ctrl s4 then spdylay_session_process_ctrl_frame cb s4
                            else spdylay_session_process_data_frame cb s4);
                 if r < 0 then if r < SPDYLAY_ERR_FATAL then Some (RReturn r s5) else None
                 else Some (RNext (put_iframe s5 spdylay_inbound_frame_reset) rest)
               }
             else Some (RNext s4 rest))
        })"

definition recv_step ::
    "'z zlib \<Rightarrow> ('z, 'u) spdylay_session_callbacks \<Rightarrow> ('z, 'u) spdylay_session \<Rightarrow> bytes \<Rightarrow>
     ('z, 'u) spdylay_session recv_step option" where
  "recv_step zl cb s inp =
     do {
       p \<leftarrow> recv_head s inp;
       case p of RGo s1 inp1 \<Rightarrow> recv_payload zl cb s1 inp1 | _ \<Rightarrow> Some p
     }"

partial_function (option) mem_recv_loop ::
    "'z zlib \<Rightarrow> ('z, 'u) spdylay_session_callbacks \<Rightarrow> ('z, 'u) spdylay_session \<Rightarrow> bytes \<Rightarrow>
     ((int + bytes) \<times> ('z, 'u) spdylay_session) option" where
  "mem_recv_loop zl cb s inp =
     Option.bind (recv_step zl cb s inp) (\<lambda>p.
       case p of RBreak s1 rest \<Rightarrow> Some (Inr rest, s1) | RReturn r s1 \<Rightarrow> Some (Inl r, s1)
       | RNext s1 rest \<Rightarrow> mem_recv_loop zl cb s1 rest | RGo s1 rest \<Rightarrow> None)"

text \<open>An error, or the distance from the start of the input to \<open>inmark\<close>.\<close>

definition spdylay_session_mem_recv ::
    "'z zlib \<Rightarrow> ('z, 'u) spdylay_session_callbacks \<Rightarrow> ('z, 'u) spdylay_session \<Rightarrow> bytes \<Rightarrow>
     (int \<times> ('z, 'u) spdylay_session) option" where
  "spdylay_session_mem_recv zl cb s inp =
     do {
       (res, s1) \<leftarrow> mem_recv_loop zl cb s inp;
       Some (case res of Inl r \<Rightarrow> r | Inr rest \<Rightarrow> int (length inp) - int (length rest), s1)
     }"

definition SPDYLAY_INBOUND_BUFFER_LENGTH :: nat where
  [simp]: "SPDYLAY_INBOUND_BUFFER_LENGTH = 16384"

text \<open>The receive callback with its answer checked; the bytes are those it stored.\<close>

definition spdylay_recv ::
    "('z, 'u) spdylay_session_callbacks \<Rightarrow> ('z, 'u) spdylay_session \<Rightarrow> nat \<Rightarrow>
     (int \<times> bytes \<times> ('z, 'u) spdylay_session) option" where
  "spdylay_recv cb s len =
     (case cb_recv cb s len of ((r, bs), answer) \<Rightarrow>
        do {
          s1 \<leftarrow> callback_effect s answer;
          Some (if r > 0 then if r > int len then SPDYLAY_ERR_CALLBACK_FAILURE else r
                else if r < 0 \<and> r \<noteq> SPDYLAY_ERR_WOULDBLOCK \<and> r \<noteq> SPDYLAY_ERR_EOF
                then SPDYLAY_ERR_CALLBACK_FAILURE else r, bs, s1)
        })"

text \<open>The \<open>assert\<close> on the length, and a callback that stored less than it says, are \<open>None\<close>.\<close>

partial_function (option) spdylay_session_recv ::
    "'z zlib \<Rightarrow> ('z, 'u) spdylay_session_callbacks \<Rightarrow> ('z, 'u) spdylay_session \<Rightarrow>
     (int \<times> ('z, 'u) spdylay_session) option" where
  "spdylay_session_recv zl cb s =
     Option.bind (spdylay_recv cb s SPDYLAY_INBOUND_BUFFER_LENGTH) (\<lambda>(readlen, bs, s1).
       if readlen > 0 then
         if int (length bs) < readlen then None
         else Option.bind (spdylay_session_mem_recv zl cb s1 (take (nat readlen) bs)) (\<lambda>(proclen, s2).
           if proclen < 0 then Some (proclen, s2)
           else if proclen = readlen then spdylay_session_recv zl cb s2 else None)
       else if readlen = 0 \<or> readlen = SPDYLAY_ERR_WOULDBLOCK then Some (0, s1)
       else if readlen = SPDYLAY_ERR_EOF then Some (readlen, s1)
       else Some (SPDYLAY_ERR_CALLBACK_FAILURE, s1))"

end
