(* ===== verification/Spdy_Session_Contract.thy ===== *)
theory Spdy_Session_Contract
  imports Spdy_Session_Recv
begin

text \<open>
  Invariants of a session. \<open>table_inv\<close> ties the stream table to the counters and to the
  stream identifiers given out and seen; \<open>queue_inv\<close> says what the queues, the active item and
  the deferred data hold. The locale \<open>session_contract\<close> reduces the preservation of an
  invariant by sending and receiving to the few assignments that they make; the theories
  \<open>Spdy_Session_Inv\<close> and \<open>Spdy_Goaway\<close> interpret it.
\<close>

section \<open>The stream table\<close>

text \<open>Stream IDs are positive; ours were given out, the peer's were seen.\<close>

definition id_ok :: "('z, 'u) spdylay_session \<Rightarrow> i32 \<Rightarrow> bool" where
  "id_ok s k \<longleftrightarrow> 0 < sint k \<and>
     (if spdylay_session_is_my_stream_id s k then uint k < uint (s_next_stream_id s)
      else sint k \<le> sint (s_last_recv_stream_id s))"

definition next_ok :: "('z, 'u) spdylay_session \<Rightarrow> bool" where
  "next_ok s \<longleftrightarrow> uint (s_next_stream_id s) mod 2 = (if s_server s then 0 else 1) \<and>
     0 < uint (s_next_stream_id s) \<and> uint (s_next_stream_id s) \<le> INT32_MAX + 2 \<and>
     0 \<le> sint (s_last_recv_stream_id s)"

definition count_ids :: "(i32 \<Rightarrow> bool) \<Rightarrow> spdylay_stream spdylay_map \<Rightarrow> nat" where
  "count_ids P m = size (filter_mset P (image_mset sm_stream_id (map_vals m)))"

definition table_inv :: "('z, 'u) spdylay_session \<Rightarrow> bool" where
  "table_inv s \<longleftrightarrow> map_inv (s_streams s) \<and> next_ok s \<and>
     (\<forall>k st. spdylay_session_get_stream s k = Some st \<longrightarrow> sm_stream_id st = k \<and> id_ok s k) \<and>
     s_num_outgoing_streams s = count_ids (spdylay_session_is_my_stream_id s) (s_streams s) \<and>
     s_num_incoming_streams s = count_ids (\<lambda>k. \<not> spdylay_session_is_my_stream_id s k) (s_streams s)"

lemma sint_i32: "sint (w :: i32) = (if uint w < 2 ^ 31 then uint w else uint w - 2 ^ 32)"
proof -
  have b: "0 \<le> uint w" "uint w < 2 ^ 32" using uint_bounded [of w] by simp_all
  then have "uint w div 2 ^ 31 = (if uint w < 2 ^ 31 then 0 else 1)"
    by (auto simp: div_pos_pos_trivial intro!: int_div_pos_eq [of _ _ 1 "uint w - 2 ^ 31"])
  then have "bit (uint w) 31 \<longleftrightarrow> \<not> uint w < 2 ^ 31" by (simp add: bit_iff_odd)
  moreover have "sint w = take_bit 32 (uint w) - 2 ^ 32 * of_bool (bit (uint w) 31)"
    by (simp add: sint_uint signed_take_bit_eq_take_bit_minus)
  moreover have "take_bit 32 (uint w) = uint w" using b by (simp add: take_bit_int_eq_self_iff)
  ultimately show ?thesis by simp
qed

lemma sint_nonneg_uint: "0 \<le> sint (w :: i32) \<Longrightarrow> sint w = uint w"
  by (simp add: sint_i32 split: if_splits) (use uint_bounded [of w] in simp)

lemma rem2_pos: "0 \<le> sint k \<Longrightarrow> rem2 k = uint k mod 2"
  by (simp add: rem2_def smod_int_alt_def sint_nonneg_uint) (cases "k = 0"; simp)

lemma my_id_pos:
  "0 < sint k \<Longrightarrow> spdylay_session_is_my_stream_id s k \<longleftrightarrow> uint k mod 2 = (if s_server s then 0 else 1)"
  by (auto simp: spdylay_session_is_my_stream_id_def rem2_pos)

lemma my_id_cong:
  "s_server s' = s_server s \<Longrightarrow> spdylay_session_is_my_stream_id s' = spdylay_session_is_my_stream_id s"
  by (simp add: spdylay_session_is_my_stream_id_def fun_eq_iff)

text \<open>The next ID of ours is new, and so is an ID of the peer that passes the test.\<close>

lemma next_id_fresh:
  assumes inv: "table_inv s" and le: "uint (s_next_stream_id s) \<le> INT32_MAX"
  shows "spdylay_session_get_stream s (s_next_stream_id s) = None"
    "spdylay_session_is_my_stream_id s (s_next_stream_id s)" "0 < sint (s_next_stream_id s)"
proof -
  show pos: "0 < sint (s_next_stream_id s)"
    using inv le by (simp add: table_inv_def next_ok_def sint_i32)
  show my: "spdylay_session_is_my_stream_id s (s_next_stream_id s)"
    using inv by (simp add: my_id_pos [OF pos] table_inv_def next_ok_def)
  show "spdylay_session_get_stream s (s_next_stream_id s) = None"
    using inv my by (cases "spdylay_session_get_stream s (s_next_stream_id s)")
      (fastforce simp: table_inv_def id_ok_def)+
qed

lemma peer_id_fresh:
  assumes inv: "table_inv s" and new: "spdylay_session_is_new_peer_stream_id s i"
  shows "spdylay_session_get_stream s i = None" "\<not> spdylay_session_is_my_stream_id s i" "0 < sint i"
proof -
  have lt: "sint (s_last_recv_stream_id s) < sint i"
    using new by (auto simp: spdylay_session_is_new_peer_stream_id_def split: if_splits)
  then show pos: "0 < sint i" using inv by (simp add: table_inv_def next_ok_def)
  show my: "\<not> spdylay_session_is_my_stream_id s i"
    using new pos by (auto simp: spdylay_session_is_new_peer_stream_id_def my_id_pos rem2_pos split: if_splits)
  show "spdylay_session_get_stream s i = None"
    using inv my lt by (cases "spdylay_session_get_stream s i") (fastforce simp: table_inv_def id_ok_def)+
qed

lemma table_inv_counts: "table_inv s \<Longrightarrow>
    spdylay_map_size (s_streams s) = s_num_outgoing_streams s + s_num_incoming_streams s"
  by (simp add: table_inv_def count_ids_def treap.sz_vals)
    (metis multiset_partition size_image_mset size_union)

section \<open>What is in the queues\<close>

definition item_ok :: "spdylay_outbound_item \<Rightarrow> bool" where
  "item_ok it \<longleftrightarrow> frame_aux_ok (oi_frame it) (oi_aux_data it)"

fun is_syn_stream :: "item_frame \<Rightarrow> bool" where
  "is_syn_stream (CtrlFrame (FSynStream f)) \<longleftrightarrow> True"
| "is_syn_stream _ \<longleftrightarrow> False"

text \<open>Deferred data of a stream is a data frame of that stream.\<close>

definition deferred_ok :: "spdylay_stream \<Rightarrow> bool" where
  "deferred_ok st \<longleftrightarrow> (\<forall>it. sm_deferred_data st = Some it \<longrightarrow>
     item_ok it \<and> (\<exists>d. oi_frame it = DataFrame d \<and> da_stream_id d = sm_stream_id st))"

definition queue_inv :: "('z, 'u) spdylay_session \<Rightarrow> bool" where
  "queue_inv s \<longleftrightarrow>
     pq_inv spdylay_outbound_item_compar (s_ob_pq s) \<and> pq_inv spdylay_outbound_item_compar (s_ob_ss_pq s) \<and>
     (\<forall>it\<in>set (pq_q (s_ob_pq s)). item_ok it \<and> \<not> is_syn_stream (oi_frame it)) \<and>
     (\<forall>it\<in>set (pq_q (s_ob_ss_pq s)). item_ok it \<and> is_syn_stream (oi_frame it)) \<and>
     (\<forall>it. ao_item (s_aob s) = Some it \<longrightarrow> item_ok it) \<and>
     (\<forall>k st. spdylay_session_get_stream s k = Some st \<longrightarrow> deferred_ok st) \<and>
     length (s_remote_settings s) = 9 \<and> length (s_local_settings s) = 9 \<and> certvec_inv (s_cli_certvec s)"

section \<open>From assignments to operations\<close>

text \<open>
  The assignments that sending and receiving are made of. What they may do to a stream keeps
  its ID and does not bring deferred data; deferring is an assignment of its own.
\<close>

definition gentle :: "(spdylay_stream \<Rightarrow> spdylay_stream) \<Rightarrow> bool" where
  "gentle f \<longleftrightarrow> (\<forall>st. sm_stream_id (f st) = sm_stream_id st \<and>
     (sm_deferred_data (f st) = sm_deferred_data st \<or> sm_deferred_data (f st) = None))"

locale handler_contract = api_rel "\<lambda>s s'. I s \<longrightarrow> I s'"
  for I :: "('z, 'u) spdylay_session \<Rightarrow> bool" +
  assumes I_table: "I s \<Longrightarrow> table_inv s"
    and I_drop: "I s \<Longrightarrow> spdylay_session_get_stream s i = Some st \<Longrightarrow> I (drop_stream i s)"
    and I_open: "I s \<Longrightarrow> s_goaway_flags s = 0 \<Longrightarrow> spdylay_session_get_stream s i = None \<Longrightarrow> id_ok s i \<Longrightarrow>
      spdylay_session_open_stream s i fl p st0 ud = (ok, s') \<Longrightarrow> I s'"
    and I_next_id: "I s \<Longrightarrow> s_goaway_flags s = 0 \<Longrightarrow> uint (s_next_stream_id s) \<le> INT32_MAX \<Longrightarrow>
      I (s\<lparr>s_next_stream_id := s_next_stream_id s + 2\<rparr>)"
    and I_last_recv: "I s \<Longrightarrow> s_goaway_flags s = 0 \<Longrightarrow> spdylay_session_is_new_peer_stream_id s i \<Longrightarrow>
      I (s\<lparr>s_last_recv_stream_id := i\<rparr>)"
    and I_put: "I s \<Longrightarrow> gentle f \<Longrightarrow> I (put_stream i f s)"
    and I_defer: "I s \<Longrightarrow> spdylay_session_get_stream s i = Some st \<Longrightarrow> item_ok it \<Longrightarrow>
      oi_frame it = DataFrame d \<Longrightarrow> da_stream_id d = i \<Longrightarrow>
      spdylay_stream_defer_data st it fl = Some st' \<Longrightarrow> I (put_stream i (\<lambda>_. st') s)"
    and I_pop: "I s \<Longrightarrow> spdylay_session_pop_next_ob_item s = (itm, s') \<Longrightarrow>
      I s' \<and> (\<forall>it. itm = Some it \<longrightarrow> item_ok it)"
    and I_push: "I s \<Longrightarrow> item_ok it \<Longrightarrow> \<not> is_syn_stream (oi_frame it) \<Longrightarrow> push_ob_pq s it = (r, s') \<Longrightarrow> I s'"
    and I_push_ss: "I s \<Longrightarrow> item_ok it \<Longrightarrow> is_syn_stream (oi_frame it) \<Longrightarrow> push_ob_ss_pq s it = (r, s') \<Longrightarrow> I s'"
    and I_aob: "I s \<Longrightarrow> (\<And>it. ao_item a = Some it \<Longrightarrow> item_ok it) \<Longrightarrow> I (s\<lparr>s_aob := a\<rparr>)"
    and I_aob_item: "I s \<Longrightarrow> ao_item (s_aob s) = Some it \<Longrightarrow> item_ok it"
    and I_deferred: "I s \<Longrightarrow> spdylay_session_get_stream s i = Some st \<Longrightarrow> sm_deferred_data st = Some it \<Longrightarrow>
      item_ok it \<and> \<not> is_syn_stream (oi_frame it)"
    and I_fields: "I s \<Longrightarrow> I (s\<lparr>s_nvbuf := nvb\<rparr>)" "I s \<Longrightarrow> I (s\<lparr>s_hd_deflater := z\<rparr>)"
      "I s \<Longrightarrow> I (s\<lparr>s_hd_inflater := z\<rparr>)"
      "I s \<Longrightarrow> I (s\<lparr>s_last_ping_unique_id := u\<rparr>)" "I s \<Longrightarrow> I (s\<lparr>s_goaway_flags := s_goaway_flags s OR g\<rparr>)"
      "I s \<Longrightarrow> I (s\<lparr>s_last_good_stream_id := l\<rparr>)"
    and I_remote: "I s \<Longrightarrow> length rs = length (s_remote_settings s) \<Longrightarrow> I (s\<lparr>s_remote_settings := rs\<rparr>)"
    and I_resize: "I s \<Longrightarrow> spdylay_client_cert_vector_resize (s_mem s) (s_cli_certvec s) n = (r, cv, m) \<Longrightarrow>
      I (s\<lparr>s_cli_certvec := cv, s_mem := m\<rparr>)"
    and I_window: "I s \<Longrightarrow> spdylay_session_update_initial_window_size s w = (rv, s') \<Longrightarrow> I s'"
begin

lemma I_mem: "I s \<Longrightarrow> I (s\<lparr>s_mem := m\<rparr>)"
  using R_mem by blast

lemma I_notify: "notify cb ev s = Some s' \<Longrightarrow> I s \<Longrightarrow> I s'"
  using R_notify by blast

lemma I_callback: "callback_effect s ans = Some s' \<Longrightarrow> I s \<Longrightarrow> I s'"
  using R_callback by blast

lemma I_map: "I s \<Longrightarrow> map_inv (s_streams s)"
  using I_table by (auto simp: table_inv_def)

lemma notify_get:
  assumes "notify cb ev s = Some s'" "I s"
  shows "spdylay_session_get_stream s' i = None \<longleftrightarrow> spdylay_session_get_stream s i = None"
  using keeps_streams_get(2) [OF frame_rule.R_notify [OF assms(1)] I_map [OF assms(2)], of i]
  by (cases "spdylay_session_get_stream s i"; cases "spdylay_session_get_stream s' i") auto

lemma I_close_stream:
  assumes "spdylay_session_close_stream cb s i c = Some (r, s')" "I s"
  shows "I s'"
proof (cases "spdylay_session_get_stream s i")
  case None
  with assms show ?thesis by (simp add: spdylay_session_close_stream_def)
next
  case (Some st)
  then obtain s1 where s1: "(if sm_state st \<noteq> SPDYLAY_STREAM_INITIAL then notify cb (OnStreamClose i c) s else Some s) = Some s1"
      and s': "s' = drop_stream i s1"
    using assms(1) by (auto simp: spdylay_session_close_stream_def bind_eq_Some_conv)
  have "I s1 \<and> spdylay_session_get_stream s1 i \<noteq> None"
  proof (cases "sm_state st = SPDYLAY_STREAM_INITIAL")
    case False
    then have n: "notify cb (OnStreamClose i c) s = Some s1" using s1 by simp
    show ?thesis using I_notify [OF n assms(2)] notify_get [OF n assms(2), of i] Some by simp
  qed (use s1 Some assms(2) in simp)
  then show ?thesis using I_drop s' by auto
qed

lemma I_close_if_shut:
  "spdylay_session_close_stream_if_shut_rdwr cb s i = Some (r, s') \<Longrightarrow> I s \<Longrightarrow> I s'"
  by (auto simp: spdylay_session_close_stream_if_shut_rdwr_def bind_eq_Some_conv
      split: if_splits dest: I_close_stream)

lemma I_close_pushed_loop: "close_pushed_loop cb i c ps s = Some s' \<Longrightarrow> I s \<Longrightarrow> I s'"
  by (induction ps arbitrary: s) (auto simp: bind_eq_Some_conv dest: I_close_stream)

lemma I_close_pushed: "spdylay_session_close_pushed_streams cb s i c = Some s' \<Longrightarrow> I s \<Longrightarrow> I s'"
  by (auto simp: spdylay_session_close_pushed_streams_def split: option.splits dest: I_close_pushed_loop)

end

context queue_rel
begin

lemma R_credential_proof: "spdylay_session_get_credential_proof g s org = (p, s') \<Longrightarrow> R s s'"
  by (auto simp: spdylay_session_get_credential_proof_def split: prod.splits if_splits dest!: R_malloc)

lemma R_cert_loop: "credential_cert_loop g org is s = (c, s') \<Longrightarrow> R s s'"
  by (induction "is" arbitrary: s c)
    (auto split: prod.splits sum.splits if_splits dest!: R_malloc intro: R_trans R_refl)

lemma R_credential_cert: "spdylay_session_get_credential_cert g s org n = (c, s') \<Longrightarrow> R s s'"
  by (auto simp: spdylay_session_get_credential_cert_def split: prod.splits if_splits
      dest!: R_malloc R_cert_loop intro: R_trans)

lemma R_prep_credential:
  assumes "spdylay_session_prep_credential cb gp gc s nv = Some (k, s')"
  shows "R s s'"
proof -
  obtain rv org where o: "spdylay_frame_nv_set_origin nv \<lparr>or_scheme = [], or_host = [], or_port = 0\<rparr> = (rv, org)"
    by fastforce
  obtain ok1 s1 where 1: "session_malloc s = (ok1, s1)" by fastforce
  obtain ok2 s2 where 2: "session_malloc s1 = (ok2, s2)" by fastforce
  obtain slot cv where p: "spdylay_client_cert_vector_put (s_cli_certvec s2) org = (slot, cv)" by fastforce
  define s3 where "s3 = s2\<lparr>s_cli_certvec := cv\<rparr>"
  obtain pr s4 where 4: "spdylay_session_get_credential_proof gp s3 org = (pr, s4)" by fastforce
  define ncerts where "ncerts = the (cb_get_credential_ncerts cb) s org"
  obtain cs s5 where 5: "spdylay_session_get_credential_cert gc s4 org (nat ncerts) = (cs, s5)" by fastforce
  define f where "f = FCredential (spdylay_frame_credential_init (s_version s5) (of_nat slot) (projr pr) (projr cs))"
  obtain r s6 where 6: "spdylay_session_add_frame s5 (CtrlFrame f) NoAux = (r, s6)" by fastforce
  have R1: "R s s1" "R s1 s2" "R s2 s3" "R s3 s4" "R s4 s5" "R s5 s6"
    using R_malloc [OF 1] R_malloc [OF 2] R_cert [OF p] R_credential_proof [OF 4] R_credential_cert [OF 5]
      R_add_frame [OF _ 6] by (simp_all add: s3_def f_def)
  have "s' = s \<or> s' = s1 \<or> s' = s2 \<or> s' = s4 \<or> s' = s5 \<or> s' = s6"
    using assms o 1 2 p 4 5 6
    by (auto simp: spdylay_session_prep_credential_def s3_def f_def ncerts_def Let_def bind_eq_Some_conv
        split: if_splits sum.splits)
  then show ?thesis using R1 by (metis R_trans R_refl)
qed

lemma R_credential_slot: "credential_slot cb s f = Some (si, s') \<Longrightarrow> R s s'"
  by (auto simp: credential_slot_def bind_eq_Some_conv split: option.split_asm if_splits dest: R_prep_credential intro: R_refl)

end

text \<open>Queueing a frame, and so asking for a credential, leaves the GOAWAY flags as they are.\<close>

lemma goaway_push:
  "push_ob_pq s it = (r, s') \<Longrightarrow> s_goaway_flags s' = s_goaway_flags s"
  "push_ob_ss_pq s it = (r, s') \<Longrightarrow> s_goaway_flags s' = s_goaway_flags s"
  by (auto simp: push_ob_pq_def push_ob_ss_pq_def split: prod.splits)

interpretation goaway_rule: queue_rel "\<lambda>s s'. s_goaway_flags s' = s_goaway_flags s"
proof (unfold_locales, goal_cases)
  case (5 frame aux s r s')
  then show ?case
    by (auto simp: spdylay_session_add_frame_def Let_def session_malloc_def put_stream_def
        split: prod.split_asm if_splits item_frame.split_asm spdylay_frame.split_asm dest!: goaway_push)
qed simp_all

section \<open>Sending keeps the invariant\<close>

lemma pack_keeps_frame:
  "spdylay_frame_pack_syn_stream zl m b nvb f z = Some (r, f', b', nvb', z', m') \<Longrightarrow>
     ss_nv f' = ss_nv f \<and> ss_stream_id f' = ss_stream_id f \<and> ss_pri f' = ss_pri f"
  by (auto simp: spdylay_frame_pack_syn_stream_def Let_def bind_eq_Some_conv split: if_splits)

lemma item_ok_data: "oi_frame it = DataFrame d \<Longrightarrow> item_ok (it\<lparr>oi_frame := DataFrame d'\<rparr>) = item_ok it"
  by (simp add: item_ok_def)

lemma gentle_intros [simp, intro]:
  "gentle (\<lambda>st. st\<lparr>sm_state := x\<rparr>)" "gentle (spdylay_stream_shutdown fl)"
  "gentle spdylay_stream_detach_deferred_data" "gentle (\<lambda>st. st\<lparr>sm_window_size := w st\<rparr>)"
  "gentle (\<lambda>st. st\<lparr>sm_recv_window_size := w st\<rparr>)" "gentle (\<lambda>st. st\<lparr>sm_assoc_content := k st\<rparr>)"
  by (simp_all add: gentle_def spdylay_stream_shutdown_def spdylay_stream_detach_deferred_data_def)

lemma pack_data_frame:
  "spdylay_session_pack_data cb s n d = Some (r, d', s') \<Longrightarrow> da_stream_id d' = da_stream_id d"
  by (auto simp: spdylay_session_pack_data_def Let_def bind_eq_Some_conv split: prod.split_asm if_splits)

lemma no_abort_after: "submit_data_after s i prd = Some (r, s') \<Longrightarrow>
    \<exists>q s1. spdylay_submit_data s i SPDYLAY_DATA_FLAG_FIN prd = (q, s1) \<and> (s' = s1 \<or> s' = reset_aob s1)"
  by (auto simp: submit_data_after_def split: prod.split_asm if_splits)

context handler_contract
begin

lemma I_framebuf: "I s \<Longrightarrow> I (put_framebuf s buf m)"
  unfolding put_framebuf_def by (intro I_mem I_aob) (auto dest: I_aob_item)

lemma I_reset: "I s \<Longrightarrow> I (reset_aob s)"
  unfolding reset_aob_def by (rule I_aob) (simp_all add: spdylay_active_outbound_item_reset_def)

lemma I_pack_ctrl: "pack_ctrl pack s f = (r, s') \<Longrightarrow> I s \<Longrightarrow> I s'"
  by (auto simp: pack_ctrl_def intro: I_framebuf split: prod.split_asm)

lemma I_pack_ctrl_nv: "pack_ctrl_nv pack s f = Some (r, f', s') \<Longrightarrow> I s \<Longrightarrow> I s'"
  by (auto simp: pack_ctrl_nv_def bind_eq_Some_conv intro!: I_framebuf I_fields)

lemma I_pack_data: "spdylay_session_pack_data cb s n d = Some (r, d', s') \<Longrightarrow> I s \<Longrightarrow> I s'"
  by (auto simp: spdylay_session_pack_data_def Let_def bind_eq_Some_conv intro: I_framebuf
      split: prod.split_asm if_splits dest: I_callback [OF _ I_framebuf])

lemma I_submit_data_after: "submit_data_after s i prd = Some (r, s') \<Longrightarrow> I s \<Longrightarrow> I s'"
  by (drule no_abort_after) (auto dest: R_submit_data intro: I_reset)

lemma I_prep_syn_stream:
  assumes "prep_syn_stream zl cb s it f = Some (r, it', s')" "I s" "item_ok it" "oi_frame it = CtrlFrame (FSynStream f)"
  shows "I s' \<and> item_ok it'"
proof (cases "spdylay_session_predicate_syn_stream_send s f = 0")
  case False
  with assms show ?thesis by (auto simp: prep_syn_stream_def Let_def)
next
  case True
  then have le: "uint (s_next_stream_id s) \<le> INT32_MAX" and g: "s_goaway_flags s = 0"
    by (auto simp: spdylay_session_predicate_syn_stream_send_def split: if_splits)
  obtain si s1 where c: "credential_slot cb s f = Some (si, s1)"
    using assms(1) True by (auto simp: prep_syn_stream_def Let_def bind_eq_Some_conv)
  then have I1: "I s1" and k: "keeps_streams s s1"
    using assms(2) R_credential_slot frame_rule.R_credential_slot by blast+
  from k have n: "s_next_stream_id s1 = s_next_stream_id s" by (simp add: keeps_streams_def keeps_fields_def)
  have g1: "s_goaway_flags s1 = 0" using goaway_rule.R_credential_slot [OF c] g by simp
  note fr = next_id_fresh [OF I_table [OF I1] le [folded n]]
  define s2 where "s2 = s1\<lparr>s_next_stream_id := s_next_stream_id s1 + 2\<rparr>"
  have I2: "I s2" unfolding s2_def using I_next_id [OF I1 g1 le [folded n]] .
  show ?thesis
  proof (cases "si = Some SPDYLAY_ERR_CREDENTIAL_PENDING")
    case True
    obtain q s3 where p: "push_ob_ss_pq s1 (it\<lparr>oi_pri := SPDYLAY_OB_PRI_AFTER_CREDENTIAL\<rparr>) = (q, s3)" by fastforce
    have "item_ok (it\<lparr>oi_pri := SPDYLAY_OB_PRI_AFTER_CREDENTIAL\<rparr>)" using assms(3) by (simp add: item_ok_def)
    with I_push_ss [OF I1 _ _ p] assms(1,4) c p True \<open>spdylay_session_predicate_syn_stream_send s f = 0\<close>
    show ?thesis by (simp add: prep_syn_stream_def Let_def)
  next
    case False
    define f1 where "f1 = (case si of Some k \<Rightarrow> f\<lparr>ss_slot := word_of_int k\<rparr> | None \<Rightarrow> f)"
    define f2 where "f2 = f1\<lparr>ss_stream_id := s_next_stream_id s1, ss_nv := nv_for_wire s2 (ss_nv f1)\<rparr>"
    obtain len f3 s3 where p: "pack_ctrl_nv (spdylay_frame_pack_syn_stream zl) s2 f2 = Some (len, f3, s3)"
      using assms(1) c False True by (auto simp: prep_syn_stream_def Let_def bind_eq_Some_conv s2_def f1_def f2_def)
    have I3: "I s3" using I_pack_ctrl_nv [OF p I2] .
    have same: "s_streams s3 = s_streams s1" "s_next_stream_id s3 = s_next_stream_id s1 + 2" "s_server s3 = s_server s1"
        "s_goaway_flags s3 = s_goaway_flags s1" "ss_nv f3 = ss_nv f2"
      using p by (auto simp: pack_ctrl_nv_def put_framebuf_def s2_def bind_eq_Some_conv dest: pack_keeps_frame)
    define f4 where "f4 = f3\<lparr>ss_nv := nv_from_wire s3 (ss_nv f3)\<rparr>"
    define it1 where "it1 = it\<lparr>oi_frame := CtrlFrame (FSynStream f4)\<rparr>"
    have nv: "ss_nv f \<noteq> None" "item_ok it1 \<longleftrightarrow> ss_nv f4 \<noteq> None"
      using assms(3,4) by (auto simp: item_ok_def it1_def)
    then have ok: "item_ok it1"
      using same by (auto simp: f4_def f2_def f1_def nv_for_wire_def nv_from_wire_def split: option.splits)
    have id: "id_ok s3 (s_next_stream_id s1)" "spdylay_session_get_stream s3 (s_next_stream_id s1) = None"
      using fr same le n my_id_cong [OF same(3)]
      by (simp_all add: id_ok_def spdylay_session_get_stream_def uint_word_ariths(1) mod_pos_pos_trivial)
    obtain prd ud where aux: "oi_aux_data it = SynStreamAux prd ud"
      using assms(3,4) by (auto simp: item_ok_def)
    obtain ok' s4 where o: "spdylay_session_open_stream s3 (s_next_stream_id s1) (hd_flags (ss_hd f4)) (ss_pri f4)
        SPDYLAY_STREAM_INITIAL ud = (ok', s4)" by fastforce
    have "I s4" using I_open [OF I3 _ id(2,1) o] same(4) g1 by simp
    moreover have "it' = it1 \<and> (s' = s3 \<or> s' = s4)"
      using assms(1) c False True p o aux
      by (auto simp: prep_syn_stream_def Let_def bind_eq_Some_conv s2_def f1_def f2_def f4_def it1_def split: if_splits)
    ultimately show ?thesis using ok I3 by auto
  qed
qed

end

context handler_contract
begin

lemma I_defer_data:
  assumes "spdylay_session_get_stream s i = Some st" "spdylay_stream_defer_data st it fl = Some st'"
    "I s" "item_ok it" "oi_frame it = DataFrame d" "da_stream_id d = i"
  shows "I (put_stream i (\<lambda>_. st') s)"
  using I_defer assms by blast

lemma I_defer_packed:
  "spdylay_session_get_stream s i = Some st \<Longrightarrow>
   spdylay_stream_defer_data st (it\<lparr>oi_frame := DataFrame d\<rparr>) fl = Some st' \<Longrightarrow> I s \<Longrightarrow>
   item_ok (it\<lparr>oi_frame := DataFrame d\<rparr>) \<Longrightarrow> da_stream_id d = i \<Longrightarrow> I (put_stream i (\<lambda>_. st') s)"
  using I_defer_data [of s i st "it\<lparr>oi_frame := DataFrame d\<rparr>" fl st' d] by simp

lemma I_prep_data:
  assumes "prep_data cb s it d = Some (r, it', s')" "I s" "item_ok it" "oi_frame it = DataFrame d"
  shows "I s' \<and> item_ok it'"
proof (cases "spdylay_session_predicate_data_send s (da_stream_id d) = 0")
  case True
  then obtain st where st: "spdylay_session_get_stream s (da_stream_id d) = Some st"
    using assms(1) by (auto simp: prep_data_def Let_def bind_eq_Some_conv)
  show ?thesis
  proof (cases "spdylay_session_next_data_read s st = 0")
    case z: True
    then show ?thesis using assms True st
      by (auto simp: prep_data_def Let_def bind_eq_Some_conv intro: I_defer_data)
  next
    case nz: False
    then obtain len d' s1 where p: "spdylay_session_pack_data cb s (spdylay_session_next_data_read s st) d = Some (len, d', s1)"
      using assms(1) True st by (auto simp: prep_data_def Let_def bind_eq_Some_conv)
    note I1 = I_pack_data [OF p assms(2)] and id = pack_data_frame [OF p]
    have ok: "item_ok (it\<lparr>oi_frame := DataFrame d'\<rparr>)" using assms(3,4) by (simp add: item_ok_data)
    show ?thesis using assms(1) True st nz p I1 id ok
      by (auto simp: prep_data_def Let_def bind_eq_Some_conv split: if_splits prod.split_asm
          intro: I_defer_packed dest: R_add_rst_stream)
  qed
qed (use assms in \<open>auto simp: prep_data_def Let_def\<close>)

lemma I_prep_frame:
  assumes "spdylay_session_prep_frame zl cb s it = Some (r, it', s')" "I s" "item_ok it"
  shows "I s' \<and> item_ok it'"
proof (cases "oi_frame it")
  case (CtrlFrame f)
  show ?thesis
  proof (cases f)
    case (FSynStream x)
    with assms CtrlFrame I_prep_syn_stream show ?thesis by (simp add: spdylay_session_prep_frame_def)
  qed (use assms CtrlFrame in \<open>auto simp: spdylay_session_prep_frame_def Let_def item_ok_def bind_eq_Some_conv
      split: if_splits prod.split_asm dest: I_pack_ctrl I_pack_ctrl_nv\<close>)
next
  case (DataFrame d)
  with assms I_prep_data show ?thesis by (simp add: spdylay_session_prep_frame_def)
qed

lemma I_after_syn_stream:
  assumes "after_syn_stream_sent cb s it f = Some (r, s')" "I s"
  shows "I s'"
proof (cases "oi_aux_data it")
  case (SynStreamAux prd u)
  then show ?thesis using assms
    by (cases prd) (auto simp: after_syn_stream_sent_def Let_def bind_eq_Some_conv
        split: if_splits option.split_asm
        intro: I_reset I_put dest!: I_close_if_shut dest: I_submit_data_after)
qed (use assms in \<open>auto simp: after_syn_stream_sent_def Let_def bind_eq_Some_conv
      split: if_splits option.split_asm intro: I_reset\<close>)

lemma I_after_syn_reply: "after_syn_reply_sent cb s it f = Some (r, s') \<Longrightarrow> I s \<Longrightarrow> I s'"
  by (cases "oi_aux_data it") (auto simp: after_syn_reply_sent_def Let_def bind_eq_Some_conv
      split: if_splits option.split_asm
      intro: I_reset I_put dest!: I_close_if_shut dest: I_submit_data_after)

lemma I_after_rst_stream: "after_rst_stream_sent cb s f = Some (r, s') \<Longrightarrow> I s \<Longrightarrow> I s'"
  by (auto simp: after_rst_stream_sent_def bind_eq_Some_conv split: if_splits
      intro: I_reset dest: I_close_stream I_close_pushed)

lemma I_after_headers: "after_headers_sent cb s f = Some (r, s') \<Longrightarrow> I s \<Longrightarrow> I s'"
  by (auto simp: after_headers_sent_def Let_def bind_eq_Some_conv split: if_splits option.split_asm
      intro: I_reset I_put dest!: I_close_if_shut)

lemma I_after_ctrl:
  assumes "after_ctrl_sent cb s it f = Some (r, s')" "I s"
  shows "I s'"
proof -
  obtain s1 where n: "notify cb (OnCtrlSend f) s = Some s1"
    using assms(1) by (auto simp: after_ctrl_sent_def bind_eq_Some_conv)
  with assms(2) I_notify have "I s1" by blast
  with assms(1) n show ?thesis
    by (cases f) (auto simp: after_ctrl_sent_def intro: I_reset I_fields
        dest: I_after_syn_stream I_after_syn_reply I_after_rst_stream I_after_headers)
qed

lemma I_next_chunk:
  assumes "next_data_chunk cb s it d = Some (r, s')" "I s" "item_ok it" "oi_frame it = DataFrame d"
  shows "I s'"
proof -
  obtain st where st: "spdylay_session_get_stream s (da_stream_id d) = Some st"
    using assms(1) by (auto simp: next_data_chunk_def Let_def bind_eq_Some_conv)
  show ?thesis
  proof (cases "spdylay_session_next_data_read s st = 0")
    case True
    then show ?thesis using assms st
      by (auto simp: next_data_chunk_def Let_def bind_eq_Some_conv intro: I_reset I_defer_data)
  next
    case nz: False
    then obtain len d' s1 where p: "spdylay_session_pack_data cb s (spdylay_session_next_data_read s st) d = Some (len, d', s1)"
      using assms(1) st by (auto simp: next_data_chunk_def Let_def bind_eq_Some_conv)
    note I1 = I_pack_data [OF p assms(2)] and id = pack_data_frame [OF p]
    have ok: "item_ok (it\<lparr>oi_frame := DataFrame d'\<rparr>)" using assms(3,4) by (simp add: item_ok_data)
    show ?thesis using assms(1) st nz p I1 id ok
      by (auto simp: next_data_chunk_def Let_def bind_eq_Some_conv split: if_splits prod.split_asm
          intro: I_reset I_defer_packed I_aob dest: R_add_rst_stream)
  qed
qed

lemma I_shut_wr_at_eof: "shut_wr_at_eof cb s d = Some s' \<Longrightarrow> I s \<Longrightarrow> I s'"
  by (auto simp: shut_wr_at_eof_def Let_def split: if_splits dest!: I_close_if_shut intro: I_put)

lemma I_continue_data:
  "continue_data cb s it d = Some (r, s') \<Longrightarrow> I s \<Longrightarrow> item_ok it \<Longrightarrow> oi_frame it = DataFrame d \<Longrightarrow> I s'"
  by (auto simp: continue_data_def split: if_splits prod.split_asm intro: I_reset dest: I_next_chunk I_push)

lemma I_after_data:
  "after_data_sent cb s it d = Some (r, s') \<Longrightarrow> I s \<Longrightarrow> item_ok it \<Longrightarrow> oi_frame it = DataFrame d \<Longrightarrow> I s'"
  by (auto simp: after_data_sent_def bind_eq_Some_conv dest!: I_notify I_shut_wr_at_eof intro: I_continue_data)

lemma I_after_frame:
  assumes "spdylay_session_after_frame_sent cb s = Some (r, s')" "I s"
  shows "I s'"
proof -
  obtain it where it: "ao_item (s_aob s) = Some it"
    using assms(1) by (auto simp: spdylay_session_after_frame_sent_def bind_eq_Some_conv)
  note ok = I_aob_item [OF assms(2) it]
  show ?thesis
    using assms it ok I_after_ctrl I_after_data
    by (cases "oi_frame it") (auto simp: spdylay_session_after_frame_sent_def)
qed

end

text \<open>The session that an iteration of the send loop leaves.\<close>

fun step_session :: "'s step \<Rightarrow> 's" where
  "step_session (Next s) = s" | "step_session (Return r s) = s" | "step_session (Go s) = s"

context handler_contract
begin

lemma I_send_fail:
  assumes "(case fr of CtrlFrame (FWindowUpdate f) \<Rightarrow> Some s
     | CtrlFrame f \<Rightarrow> if nf then notify cb (OnCtrlNotSend f n) s else Some s | DataFrame d \<Rightarrow> Some s) = Some s'" "I s"
  shows "I s'"
proof (cases fr)
  case (CtrlFrame f)
  with assms show ?thesis by (cases f) (auto split: if_splits dest: I_notify)
qed (use assms in simp)

lemma I_send_prepare:
  assumes "send_prepare zl cb s = Some p" "I s"
  shows "I (step_session p)"
proof (cases "ao_item (s_aob s)")
  case None
  obtain itm s1 where pop: "spdylay_session_pop_next_ob_item s = (itm, s1)" by fastforce
  note I1 = I_pop [OF assms(2) pop]
  show ?thesis
  proof (cases itm)
    case (Some it)
    then obtain len it1 s2 where f: "spdylay_session_prep_frame zl cb s1 it = Some (len, it1, s2)"
      using assms(1) None pop by (auto simp: send_prepare_def bind_eq_Some_conv)
    have I2: "I s2" "item_ok it1" using I_prep_frame [OF f] I1 Some by auto
    have I3: "I (s2\<lparr>s_aob := (s_aob s2)\<lparr>ao_item := Some it1, ao_framebuflen := n\<rparr>\<rparr>)" for n
      using I2 by (auto intro: I_aob)
    show ?thesis
    proof (cases "len < 0")
      case True
      then show ?thesis using assms(1) None pop Some f I2
        by (auto simp: send_prepare_def bind_eq_Some_conv split: if_splits dest: I_send_fail)
    next
      case False
      then show ?thesis using assms(1) None pop Some f I2 I3
        by (auto simp: send_prepare_def Let_def split: item_frame.split_asm dest: I_notify)
    qed
  qed (use assms(1) None pop I1 in \<open>auto simp: send_prepare_def\<close>)
qed (use assms in \<open>auto simp: send_prepare_def\<close>)

lemma I_charge_window: "I s \<Longrightarrow> I (charge_window s)"
  by (auto simp: charge_window_def split: option.split item_frame.split intro: I_put)

lemma I_send_write:
  assumes "send_write cb s = Some p" "I s"
  shows "I (step_session p)"
proof -
  obtain n ans where c: "cb_send cb s (take (ao_framebuflen (s_aob s) - ao_framebufoff (s_aob s))
      (drop (ao_framebufoff (s_aob s)) (ao_framebuf (s_aob s)))) = (n, ans)" by (meson prod.exhaust)
  obtain s1 where e: "callback_effect s ans = Some s1"
    using assms(1) c by (auto simp: send_write_def Let_def bind_eq_Some_conv split: if_splits)
  have I1: "I s1" using I_callback [OF e assms(2)] .
  define s2 where "s2 = s1\<lparr>s_aob := (s_aob s1)\<lparr>ao_framebufoff := ao_framebufoff (s_aob s1) + nat n\<rparr>\<rparr>"
  have I2: "I s2" unfolding s2_def by (rule I_aob [OF I1]) (simp add: I_aob_item [OF I1])
  show ?thesis
  proof (cases "n < 0")
    case False
    show ?thesis using assms(1) c e False I_charge_window [OF I2]
      by (auto simp: send_write_def Let_def bind_eq_Some_conv s2_def [symmetric] split: if_splits dest: I_after_frame)
  qed (use assms(1) c e I1 in \<open>auto simp: send_write_def Let_def split: if_splits\<close>)
qed

lemma I_send_step:
  assumes "send_step zl cb s = Some p" "I s"
  shows "I (step_session p)"
proof -
  obtain q where q: "send_prepare zl cb s = Some q"
    using assms(1) by (auto simp: send_step_def bind_eq_Some_conv)
  have "I (step_session q)" using I_send_prepare [OF q assms(2)] .
  with assms(1) q show ?thesis by (cases q) (auto simp: send_step_def dest: I_send_write)
qed

lemma I_send:
  assumes "spdylay_session_send zl cb s = Some (r, s')" "I s"
  shows "I s'"
proof -
  have "I s \<longrightarrow> I (snd res)" if "spdylay_session_send zl cb s = Some res" for res
  proof (rule spdylay_session_send.raw_induct [of "\<lambda>zl cb s res. I s \<longrightarrow> I (snd res)", OF _ that], goal_cases)
    case (1 rec zl cb s res)
    obtain p where p: "send_step zl cb s = Some p" using 1(2) by (auto simp: bind_eq_Some_conv)
    with 1 I_send_step [OF p] show ?case by (cases p) auto
  qed
  with assms show ?thesis by fastforce
qed

end

section \<open>Receiving keeps the invariant\<close>

context handler_contract
begin

lemma I_invalid_stream:
  "spdylay_session_handle_invalid_stream cb s i f c = Some (r, s') \<Longrightarrow> I s \<Longrightarrow> I s'"
  by (auto simp: spdylay_session_handle_invalid_stream_def split: prod.split_asm if_splits
      dest: I_notify R_add_rst_stream)

lemma I_fail_session: "spdylay_session_fail_session s c = (r, s') \<Longrightarrow> I s \<Longrightarrow> I s'"
  using R_fail_session by blast

text \<open>The part of an accepted SYN_STREAM before the callbacks.\<close>

lemma I_accept_syn_stream:
  assumes "accept_syn_stream cb s f = Some (r, s')" "I s" "s_goaway_flags s = 0"
    "spdylay_session_get_stream s (ss_stream_id f) = None" "id_ok s (ss_stream_id f)"
  shows "I s'"
proof -
  obtain ok s1 where o: "spdylay_session_open_stream s (ss_stream_id f) (hd_flags (ss_hd f)) (ss_pri f)
      SPDYLAY_STREAM_OPENING 0 = (ok, s1)" by fastforce
  note I1 = I_open [OF assms(2-5) o]
  have I2: "I (put_stream i (spdylay_stream_shutdown a) s1)"
      "I (put_stream i (spdylay_stream_shutdown a) (put_stream i (spdylay_stream_shutdown b) s1))" for i a b
    by (intro I_put I1 gentle_intros)+
  show ?thesis using assms(1,2) o I1 I2
    by (auto simp: accept_syn_stream_def Let_def bind_eq_Some_conv split: if_splits dest: I_notify)
qed

lemma I_on_syn_stream:
  assumes "spdylay_session_on_syn_stream_received cb s f = Some (r, s')" "I s"
  shows "I s'"
proof (cases "s_goaway_flags s = 0 \<and> s_last_recv_stream_id s \<noteq> ss_stream_id f \<and>
    spdylay_session_is_new_peer_stream_id s (ss_stream_id f)")
  case True
  define s1 where "s1 = s\<lparr>s_last_recv_stream_id := ss_stream_id f\<rparr>"
  have I1: "I s1" unfolding s1_def using I_last_recv assms(2) True by blast
  note fresh = peer_id_fresh [OF I_table [OF assms(2)], of "ss_stream_id f"]
  have "s_goaway_flags s1 = 0" "id_ok s1 (ss_stream_id f)" "spdylay_session_get_stream s1 (ss_stream_id f) = None"
    using fresh True my_id_cong [of s1 s] by (simp_all add: s1_def id_ok_def spdylay_session_get_stream_def)
  with assms(1) True I1 show ?thesis
    by (auto simp: spdylay_session_on_syn_stream_received_def Let_def s1_def [symmetric]
        split: if_splits dest: I_accept_syn_stream I_invalid_stream)
next
  case False
  then show ?thesis using assms
    by (auto simp: spdylay_session_on_syn_stream_received_def Let_def bind_eq_Some_conv
        split: if_splits dest: I_invalid_stream I_notify I_fail_session)
qed

lemma I_shut_rd: "shut_rd_and_close cb s i = Some s' \<Longrightarrow> I s \<Longrightarrow> I s'"
  by (auto simp: shut_rd_and_close_def intro: I_put dest!: I_close_if_shut)

lemma I_on_syn_reply: "spdylay_session_on_syn_reply_received cb s f = Some (r, s') \<Longrightarrow> I s \<Longrightarrow> I s'"
  by (auto simp: spdylay_session_on_syn_reply_received_def Let_def bind_eq_Some_conv
      split: option.split_asm if_splits spdylay_stream_state.split_asm
      intro: I_put dest!: I_notify dest: I_shut_rd I_invalid_stream)

lemma I_on_rst_stream: "spdylay_session_on_rst_stream_received cb s f = Some (r, s') \<Longrightarrow> I s \<Longrightarrow> I s'"
  by (auto simp: spdylay_session_on_rst_stream_received_def bind_eq_Some_conv split: if_splits
      dest: I_notify I_close_pushed I_close_stream)

lemma I_apply_setting:
  assumes "apply_setting s e = (rv, e', s')" "I s"
  shows "I s'"
proof -
  obtain r1 s1 where w: "spdylay_session_update_initial_window_size s (se_value e) = (r1, s1)" by fastforce
  define n where "n = unat (min (se_value e) SPDYLAY_MAX_CLIENT_CERT_VECTOR_LENGTH)"
  obtain r2 cv m where c: "spdylay_client_cert_vector_resize (s_mem s) (s_cli_certvec s) n = (r2, cv, m)"
    by (metis prod_cases3)
  have I1: "I s1" "I (s\<lparr>s_cli_certvec := cv, s_mem := m\<rparr>)"
    using I_window [OF assms(2) w] I_resize [OF assms(2) c] .
  have store: "I t \<Longrightarrow> I (t\<lparr>s_remote_settings := (s_remote_settings t)[i := v]\<rparr>)" for t i v
    by (rule I_remote) simp_all
  from assms w c I1 store [OF assms(2)] store [OF I1(1)] store [OF I1(2)] show ?thesis
    by (auto simp: apply_setting_def Let_def n_def split: if_splits)
qed

lemma I_apply_settings: "apply_settings chk iv s = Some (rv, iv', s') \<Longrightarrow> I s \<Longrightarrow> I s'"
proof (induction chk iv s arbitrary: rv iv' s' rule: apply_settings.induct)
  case (2 check e iv s)
  obtain r1 e1 s1 where a: "apply_setting s e = (r1, e1, s1)" by (metis prod_cases3)
  have "I s1" using I_apply_setting [OF a] 2 by simp
  with 2 a show ?case by (auto simp: Let_def bind_eq_Some_conv split: if_splits)
qed simp

lemma I_on_settings: "spdylay_session_on_settings_received cb s f = Some (r, s') \<Longrightarrow> I s \<Longrightarrow> I s'"
  by (auto simp: spdylay_session_on_settings_received_def bind_eq_Some_conv split: if_splits
      dest: I_apply_settings I_notify)

lemma I_on_ping: "spdylay_session_on_ping_received cb s f = Some (r, s') \<Longrightarrow> I s \<Longrightarrow> I s'"
  by (auto simp: spdylay_session_on_ping_received_def Let_def split: if_splits prod.split_asm
      intro: I_fields dest!: I_notify dest: R_add_ping)

lemma I_on_goaway: "spdylay_session_on_goaway_received cb s f = Some (r, s') \<Longrightarrow> I s \<Longrightarrow> I s'"
  using I_fields(5) [OF I_fields(6), of s "ga_last_good_stream_id f" SPDYLAY_GOAWAY_RECV]
  by (auto simp: spdylay_session_on_goaway_received_def split: if_splits dest!: I_notify)

end

text \<open>The session that a turn of the receive loop leaves.\<close>

fun recv_session :: "'s recv_step \<Rightarrow> 's" where
  "recv_session (RBreak s i) = s" | "recv_session (RReturn r s) = s"
| "recv_session (RNext s i) = s" | "recv_session (RGo s i) = s"

context handler_contract
begin

lemma I_release: "release_deferred s i = (r, s') \<Longrightarrow> I s \<Longrightarrow> I s'"
proof -
  assume a: "release_deferred s i = (r, s')" "I s"
  show "I s'"
  proof (cases "s' = s")
    case False
    then obtain st it s1 where st: "spdylay_session_get_stream s i = Some st" "sm_deferred_data st = Some it"
        and p: "push_ob_pq s it = (r, s1)"
        and s': "s' = s1 \<or> s' = put_stream i spdylay_stream_detach_deferred_data s1"
      using a(1) by (auto simp: release_deferred_def split: option.split_asm if_splits prod.split_asm)
    have "item_ok it" "\<not> is_syn_stream (oi_frame it)" using I_deferred [OF a(2) st] by auto
    with I_push [OF a(2) _ _ p] s' show ?thesis by (auto intro: I_put)
  qed (use a in simp)
qed

lemma I_on_window_update: "spdylay_session_on_window_update_received cb s f = Some (r, s') \<Longrightarrow> I s \<Longrightarrow> I s'"
  by (auto simp: spdylay_session_on_window_update_received_def Let_def
      split: if_splits option.split_asm prod.split_asm
      intro: I_put dest: I_invalid_stream dest!: I_release I_notify)

lemma I_on_credential: "spdylay_session_on_credential_received cb s f = Some (r, s') \<Longrightarrow> I s \<Longrightarrow> I s'"
  by (auto simp: spdylay_session_on_credential_received_def split: if_splits dest: I_notify)

lemma I_on_headers: "spdylay_session_on_headers_received cb s f = Some (r, s') \<Longrightarrow> I s \<Longrightarrow> I s'"
  by (auto simp: spdylay_session_on_headers_received_def Let_def bind_eq_Some_conv
      split: option.split_asm if_splits spdylay_stream_state.split_asm
      dest: I_notify I_shut_rd I_invalid_stream)

lemma I_on_data: "spdylay_session_on_data_received cb s fl n i = Some (r, s') \<Longrightarrow> I s \<Longrightarrow> I s'"
  by (auto simp: spdylay_session_on_data_received_def Let_def bind_eq_Some_conv
      split: option.split_asm if_splits spdylay_stream_state.split_asm
      dest: I_notify I_shut_rd R_add_rst_stream)

lemma I_fail_parse: "fail_parse cb s t n = Some (r, s') \<Longrightarrow> I s \<Longrightarrow> I s'"
  by (auto simp: fail_parse_def spdylay_session_handle_parse_error_def bind_eq_Some_conv split: if_splits
      dest: I_notify I_fail_session)

lemma I_unpack_nv_frame: "unpack_nv_frame u w s = Some (r, f, s') \<Longrightarrow> I s \<Longrightarrow> I s'"
  by (auto simp: unpack_nv_frame_def Let_def bind_eq_Some_conv split: if_splits intro: I_mem)

lemma I_process_nv_frame:
  assumes "process_nv_frame cb t mk sid to3 on_recv (n, fo, s) = Some (r, s')" "I s"
    "\<And>f. on_recv s f = Some (r, s') \<Longrightarrow> I s'"
  shows "I s'"
  using assms(1,2) by (auto simp: process_nv_frame_def bind_eq_Some_conv split: if_splits
      dest: assms(3) I_invalid_stream I_fail_parse)

lemma I_process_plain_frame:
  assumes "process_plain_frame cb t on_recv (res, s) = Some (r, s')" "I s"
    "\<And>f. on_recv s f = Some (r, s') \<Longrightarrow> I s'"
  shows "I s'"
  using assms(1,2) by (auto simp: process_plain_frame_def split: sum.split_asm dest: assms(3) I_fail_parse)

lemma I_unpack:
  "unpack_plain u s = (res, s') \<Longrightarrow> I s \<Longrightarrow> I s'" "unpack_alloc v s = (res2, s') \<Longrightarrow> I s \<Longrightarrow> I s'"
  by (auto simp: unpack_plain_def unpack_alloc_def split: prod.split_asm intro: I_mem)

lemma I_nv_dispatch:
  assumes "Option.bind (unpack_nv_frame u w s) (process_nv_frame cb t mk sid to3 on_recv) = Some (r, s')" "I s"
    "\<And>s f. on_recv s f = Some (r, s') \<Longrightarrow> I s \<Longrightarrow> I s'"
  shows "I s'"
proof -
  obtain n fo s1 where u: "unpack_nv_frame u w s = Some (n, fo, s1)"
      and p: "process_nv_frame cb t mk sid to3 on_recv (n, fo, s1) = Some (r, s')"
    using assms(1) by (auto simp: bind_eq_Some_conv)
  have I1: "I s1" using I_unpack_nv_frame [OF u assms(2)] .
  show ?thesis by (rule I_process_nv_frame [OF p I1]) (rule assms(3) [OF _ I1])
qed

lemma I_plain_dispatch:
  assumes "process_plain_frame cb t on_recv (unpack_plain u s) = Some (r, s') \<or>
     process_plain_frame cb t on_recv (unpack_alloc v s) = Some (r, s')" "I s"
    "\<And>s f. on_recv s f = Some (r, s') \<Longrightarrow> I s \<Longrightarrow> I s'"
  shows "I s'"
proof -
  obtain res s1 where p: "process_plain_frame cb t on_recv (res, s1) = Some (r, s')" and I1: "I s1"
    using assms(1,2) I_unpack by (metis surj_pair)
  show ?thesis by (rule I_process_plain_frame [OF p I1]) (rule assms(3) [OF _ I1])
qed

lemma I_dispatch:
  assumes "dispatch_ctrl_frame cb s = Some (r, s')" "I s"
  shows "I s'"
  using assms unfolding dispatch_ctrl_frame_def Let_def
  apply (simp only: split: if_split_asm)
            apply (erule I_nv_dispatch, assumption, erule (1) I_on_syn_stream)
           apply (erule I_nv_dispatch, assumption, erule (1) I_on_syn_reply)
          apply (erule I_plain_dispatch [OF disjI1], assumption, erule (1) I_on_rst_stream)
         apply (erule I_plain_dispatch [OF disjI2], assumption, erule (1) I_on_settings)
        apply simp
       apply (erule I_plain_dispatch [OF disjI1], assumption, erule (1) I_on_ping)
      apply (erule I_plain_dispatch [OF disjI1], assumption, erule (1) I_on_goaway)
     apply (erule I_nv_dispatch, assumption, erule (1) I_on_headers)
    apply (erule I_plain_dispatch [OF disjI1], assumption, erule (1) I_on_window_update)
   apply (erule I_plain_dispatch [OF disjI2], assumption, erule (1) I_on_credential)
  apply (auto dest: I_notify)
  done

lemma I_process_ctrl: "spdylay_session_process_ctrl_frame cb s = Some (r, s') \<Longrightarrow> I s \<Longrightarrow> I s'"
  by (auto simp: spdylay_session_process_ctrl_frame_def only_fatal_def split: prod.split_asm dest: I_dispatch)

lemma I_process_data: "spdylay_session_process_data_frame cb s = Some (r, s') \<Longrightarrow> I s \<Longrightarrow> I s'"
  by (auto simp: spdylay_session_process_data_frame_def only_fatal_def Let_def split: prod.split_asm dest: I_on_data)

end

context handler_contract
begin

lemma I_recv_window: "spdylay_session_update_recv_window_size s i d = (r, s') \<Longrightarrow> I s \<Longrightarrow> I s'"
  by (auto simp: spdylay_session_update_recv_window_size_def Let_def split: option.split_asm if_splits prod.split_asm
      intro: I_put dest!: R_add_window_update)

lemma I_flow_control: "recv_flow_control s n = (r, s') \<Longrightarrow> I s \<Longrightarrow> I s'"
  by (auto simp: recv_flow_control_def Let_def split: if_splits dest: I_recv_window)

end

text \<open>The handlers leave the inbound frame alone; the receive loop assigns it.\<close>

locale session_contract = handler_contract I for I :: "('z, 'u) spdylay_session \<Rightarrow> bool" +
  assumes I_inbound: "I s \<Longrightarrow> I (s\<lparr>s_iframe := fr\<rparr>)"
begin

lemma I_iframe: "I s \<Longrightarrow> I (put_iframe s f)"
  unfolding put_iframe_def by (rule I_inbound)

lemma I_recv_head:
  assumes "recv_head s inp = Some p" "I s"
  shows "I (recv_session p)"
proof -
  have header: "I (recv_session q)" if d: "recv_head_done t inp' = Some q" and t: "I t" for t inp' q
  proof -
    define n where "n = unat (spdylay_get_uint32 (drop 4 (if_headbuf (s_iframe t))) AND SPDYLAY_LENGTH_MASK)"
    define t1 where "t1 = put_iframe t (\<lambda>f. f\<lparr>if_state := SPDYLAY_RECV_PAYLOAD, if_payloadlen := n\<rparr>)"
    have I1: "I t1" unfolding t1_def using t by (rule I_iframe)
    from d I1 show ?thesis
      by (auto simp: recv_head_done_def Let_def n_def [symmetric] t1_def [symmetric]
          split: if_splits prod.split_asm intro!: I_iframe I_mem)
  qed
  from assms show ?thesis
    by (auto simp: recv_head_def Let_def split: if_splits intro: I_iframe header)
qed

lemma I_buffer_payload: "buffer_payload s bs = Some s' \<Longrightarrow> I s \<Longrightarrow> I s'"
  by (auto simp: buffer_payload_def split: if_splits intro: I_iframe)

lemma I_pre_nv: "recv_pre_nv s inp n = Some (s', inp', n') \<Longrightarrow> I s \<Longrightarrow> I s'"
  by (auto simp: recv_pre_nv_def Let_def bind_eq_Some_conv split: if_splits dest!: I_buffer_payload intro: I_iframe)

lemma I_nv:
  assumes "recv_nv zl s ch = Some s'" "I s"
  shows "I s'"
proof (cases "if_error_code (s_iframe s) = 0 \<or> if_error_code (s_iframe s) = SPDYLAY_ERR_FRAME_TOO_LARGE")
  case True
  then obtain d z b m where e: "s' = (let s1 = (put_iframe s (\<lambda>f. f\<lparr>if_inflatebuf := b\<rparr>))\<lparr>s_hd_inflater := z, s_mem := m\<rparr> in
      if d < 0 then put_iframe s1 (\<lambda>f. f\<lparr>if_error_code := d\<rparr>)
      else if spdylay_buffer_length b > unat (s_max_recv_ctrl_frame_buf s1)
      then put_iframe s1 (\<lambda>f. f\<lparr>if_error_code := SPDYLAY_ERR_FRAME_TOO_LARGE\<rparr>) else s1)"
    using assms(1) by (auto simp: recv_nv_def Let_def bind_eq_Some_conv)
  have "I ((put_iframe s (\<lambda>f. f\<lparr>if_inflatebuf := b\<rparr>))\<lparr>s_hd_inflater := z, s_mem := m\<rparr>)"
    by (intro I_mem I_fields I_iframe assms(2))
  then show ?thesis unfolding e Let_def by (simp add: I_iframe)
qed (use assms in \<open>auto simp: recv_nv_def Let_def\<close>)

lemma I_chunk: "recv_chunk zl cb s ch = Some s' \<Longrightarrow> I s \<Longrightarrow> I s'"
  by (auto simp: recv_chunk_def Let_def split: if_splits dest: I_nv I_buffer_payload I_notify)

lemma I_recv_payload:
  assumes "recv_payload zl cb s inp = Some p" "I s"
  shows "I (recv_session p)"
proof (cases "size_sub (if_payloadlen (s_iframe s)) (if_off (s_iframe s)) > 0 \<and> inp = []")
  case False
  then obtain s1 inp1 n s2 where 1: "recv_pre_nv s inp (min (length inp) (size_sub (if_payloadlen (s_iframe s)) (if_off (s_iframe s)))) = Some (s1, inp1, n)"
      and 2: "recv_chunk zl cb s1 (take n inp1) = Some s2"
    using assms(1) by (auto simp: recv_payload_def Let_def bind_eq_Some_conv)
  define s3 where "s3 = put_iframe s2 (\<lambda>f. f\<lparr>if_off := if_off f + n\<rparr>)"
  obtain r s4 where 4: "recv_flow_control s3 n = (r, s4)" by fastforce
  have "I s3" unfolding s3_def by (rule I_iframe [OF I_chunk [OF 2 I_pre_nv [OF 1 assms(2)]]])
  with 4 have I4: "I s4" by (rule I_flow_control)
  show ?thesis using assms(1) False 1 2 4 I4
    by (auto simp: recv_payload_def Let_def bind_eq_Some_conv s3_def [symmetric] split: if_splits
        intro!: I_iframe dest: I_process_ctrl I_process_data)
qed (use assms in \<open>auto simp: recv_payload_def\<close>)

lemma I_recv_step:
  assumes "recv_step zl cb s inp = Some p" "I s"
  shows "I (recv_session p)"
proof -
  obtain q where q: "recv_head s inp = Some q" using assms(1) by (auto simp: recv_step_def bind_eq_Some_conv)
  have "I (recv_session q)" using I_recv_head [OF q assms(2)] .
  with assms(1) q show ?thesis by (cases q) (auto simp: recv_step_def dest: I_recv_payload)
qed

end

section \<open>From one turn of the receive loop to all\<close>

text \<open>
  A property that one turn of the receive loop and the calls of a callback keep is kept by the
  two receive functions.
\<close>

locale recv_invariant =
  fixes zl :: "'z zlib" and P :: "('z, 'u) spdylay_session \<Rightarrow> bool"
  assumes P_step: "recv_step zl cb s inp = Some p \<Longrightarrow> P s \<Longrightarrow> P (recv_session p)"
    and P_callback: "callback_effect s answer = Some s' \<Longrightarrow> P s \<Longrightarrow> P s'"
begin

lemma P_mem_recv_loop:
  assumes "mem_recv_loop zl cb s inp = Some (r, s')" "P s"
  shows "P s'"
proof -
  have "P (snd res)" if "mem_recv_loop zl cb s inp = Some res" "P s" for res
  proof (rule mem_recv_loop.raw_induct
      [of "\<lambda>zl' cb s inp res. zl' = zl \<longrightarrow> P s \<longrightarrow> P (snd res)", rule_format, OF _ that(1) refl that(2)], goal_cases)
    case (1 rec zl' cb s inp res)
    obtain p where p: "recv_step zl cb s inp = Some p" using 1(2,3) by (auto simp: bind_eq_Some_conv)
    with 1 P_step [OF p] show ?case by (cases p) auto
  qed
  with assms show ?thesis by fastforce
qed

lemma P_mem_recv: "spdylay_session_mem_recv zl cb s inp = Some (r, s') \<Longrightarrow> P s \<Longrightarrow> P s'"
  by (auto simp: spdylay_session_mem_recv_def bind_eq_Some_conv dest: P_mem_recv_loop)

lemma P_recv:
  assumes "spdylay_session_recv zl cb s = Some (r, s')" "P s"
  shows "P s'"
proof -
  have "P (snd res)" if "spdylay_session_recv zl cb s = Some res" "P s" for res
  proof (rule spdylay_session_recv.raw_induct
      [of "\<lambda>zl' cb s res. zl' = zl \<longrightarrow> P s \<longrightarrow> P (snd res)", rule_format, OF _ that(1) refl that(2)], goal_cases)
    case (1 rec zl' cb s res)
    obtain n bs s1 where p: "spdylay_recv cb s SPDYLAY_INBOUND_BUFFER_LENGTH = Some (n, bs, s1)"
      using 1(2) by (auto simp: bind_eq_Some_conv)
    have I1: "P s \<Longrightarrow> P s1"
      using p by (auto simp: spdylay_recv_def bind_eq_Some_conv split: prod.split_asm dest: P_callback)
    note I1 = I1 [OF 1(4)]
    show ?case
    proof (cases "n > 0 \<and> \<not> int (length bs) < n")
      case True
      then obtain q s2 where m: "spdylay_session_mem_recv zl cb s1 (take (nat n) bs) = Some (q, s2)"
        using 1(2,3) p by (auto simp: bind_eq_Some_conv)
      from 1 p m P_mem_recv [OF m I1] True show ?thesis by (auto split: if_splits)
    qed (use 1(2) p I1 in \<open>auto split: if_splits\<close>)
  qed
  with assms show ?thesis by fastforce
qed

end

sublocale session_contract \<subseteq> run: recv_invariant zl I for zl
  by unfold_locales (blast intro: I_recv_step I_callback)+

context session_contract
begin

lemmas I_mem_recv = run.P_mem_recv and I_recv = run.P_recv

end

end
