(* ===== verification/Spdy_Session_Inv.thy ===== *)
theory Spdy_Session_Inv
  imports Spdy_Session_Contract
begin

text \<open>
  The two invariants of a session, of the stream table and of the queues, meet the contract of
  \<open>Spdy_Session_Contract\<close>: each assignment that sending, receiving and the API make keeps
  them. So every operation does, and every session that can be reached satisfies both.
\<close>

section \<open>The two invariants meet the contract\<close>

definition session_inv :: "('z, 'u) spdylay_session \<Rightarrow> bool" where
  "session_inv s \<longleftrightarrow> table_inv s \<and> queue_inv s"

lemma get_put_stream:
  "map_inv (s_streams s) \<Longrightarrow> spdylay_session_get_stream (put_stream i f s) k =
     (if k = i then map_option f (spdylay_session_get_stream s i) else spdylay_session_get_stream s k)"
  by (simp add: spdylay_session_get_stream_def put_stream_def treap.wr_find)

lemma put_stream_fields [simp]:
  "s_server (put_stream i f s) = s_server s" "s_next_stream_id (put_stream i f s) = s_next_stream_id s"
  "s_last_recv_stream_id (put_stream i f s) = s_last_recv_stream_id s"
  "s_num_outgoing_streams (put_stream i f s) = s_num_outgoing_streams s"
  "s_num_incoming_streams (put_stream i f s) = s_num_incoming_streams s"
  "s_ob_pq (put_stream i f s) = s_ob_pq s" "s_ob_ss_pq (put_stream i f s) = s_ob_ss_pq s"
  "s_aob (put_stream i f s) = s_aob s" "s_remote_settings (put_stream i f s) = s_remote_settings s"
  "s_local_settings (put_stream i f s) = s_local_settings s" "s_cli_certvec (put_stream i f s) = s_cli_certvec s"
  "s_mem (put_stream i f s) = s_mem s" "s_version (put_stream i f s) = s_version s"
  "s_streams (put_stream i f s) = map_write i f (s_streams s)"
  by (simp_all add: put_stream_def)

subsection \<open>The stream table\<close>

text \<open>
  The table only sees the IDs of the streams, so whatever keeps them, the counters and the
  identifiers keeps it.
\<close>

lemma table_inv_same:
  assumes "table_inv s" "map_inv (s_streams s')"
    and ids: "image_mset sm_stream_id (map_vals (s_streams s')) = image_mset sm_stream_id (map_vals (s_streams s))"
    and get: "\<And>k. rel_option (\<lambda>a b. sm_stream_id b = sm_stream_id a) (spdylay_session_get_stream s k) (spdylay_session_get_stream s' k)"
    and f: "s_server s' = s_server s" "s_next_stream_id s' = s_next_stream_id s"
      "s_last_recv_stream_id s' = s_last_recv_stream_id s" "s_num_outgoing_streams s' = s_num_outgoing_streams s"
      "s_num_incoming_streams s' = s_num_incoming_streams s"
  shows "table_inv s'"
proof -
  have "sm_stream_id st = k \<and> id_ok s' k" if "spdylay_session_get_stream s' k = Some st" for k st
    using get [of k] that assms(1) f my_id_cong [OF f(1)]
    by (cases "spdylay_session_get_stream s k") (auto simp: table_inv_def id_ok_def)
  with assms my_id_cong [OF f(1)] show ?thesis
    by (simp add: table_inv_def next_ok_def count_ids_def)
qed

lemma table_inv_keeps:
  assumes k: "keeps_streams s s'" and inv: "table_inv s"
  shows "table_inv s'"
proof (rule table_inv_same [OF inv])
  have m: "map_inv (s_streams s)" using inv by (simp add: table_inv_def)
  show "map_inv (s_streams s')"
    "image_mset sm_stream_id (map_vals (s_streams s')) = image_mset sm_stream_id (map_vals (s_streams s))"
    using keeps_streams_get [OF k m] by simp_all
  show "rel_option (\<lambda>a b. sm_stream_id b = sm_stream_id a) (spdylay_session_get_stream s i) (spdylay_session_get_stream s' i)" for i
    using keeps_streams_get(2) [OF k m, of i] by (rule option.rel_mono_strong) (simp add: same_stream_def)
qed (use k in \<open>simp_all add: keeps_streams_def keeps_fields_def\<close>)

lemma table_inv_put:
  assumes "table_inv s" "\<And>st. spdylay_session_get_stream s i = Some st \<Longrightarrow> sm_stream_id (f st) = sm_stream_id st"
  shows "table_inv (put_stream i f s)"
proof -
  have inv: "map_inv (s_streams s)" using assms(1) by (simp add: table_inv_def)
  have "keeps_table (\<lambda>a b. sm_stream_id b = sm_stream_id a) (s_streams s) (map_write i f (s_streams s))"
    by (rule keeps_table_write) (use assms(2) in \<open>auto simp: spdylay_session_get_stream_def\<close>)
  with inv have k: "map_inv (map_write i f (s_streams s))"
      "image_mset sm_stream_id (map_vals (map_write i f (s_streams s))) = image_mset sm_stream_id (map_vals (s_streams s))"
      "rel_option (\<lambda>a b. sm_stream_id b = sm_stream_id a) (map_get (s_streams s) j) (map_get (map_write i f (s_streams s)) j)" for j
    by (simp_all add: keeps_table_def)
  show ?thesis
    by (rule table_inv_same [OF assms(1)]) (simp_all add: k spdylay_session_get_stream_def)
qed

lemma table_inv_drop:
  assumes inv: "table_inv s" and st: "spdylay_session_get_stream s i = Some st"
  shows "table_inv (drop_stream i s)"
proof -
  have m: "map_inv (s_streams s)" and id: "sm_stream_id st = i" using inv st by (auto simp: table_inv_def)
  obtain m' where m': "spdylay_map_remove (s_streams s) i = (0, m')" "map_inv m'"
      "map_get m' = (map_get (s_streams s))(i := None)" "map_vals (s_streams s) = add_mset st (map_vals m')"
    using treap.rem_found [OF m] st by (auto simp: spdylay_session_get_stream_def)
  have c: "count_ids P (s_streams s) = count_ids P m' + (if P i then 1 else 0)" for P
    by (simp add: count_ids_def m'(4) id)
  let ?d = "drop_stream i s"
  have f: "s_streams ?d = m'" "s_server ?d = s_server s" "s_next_stream_id ?d = s_next_stream_id s"
      "s_last_recv_stream_id ?d = s_last_recv_stream_id s"
    by (simp_all add: drop_stream_def Let_def m'(1))
  have "spdylay_session_is_my_stream_id ?d = spdylay_session_is_my_stream_id s" by (rule my_id_cong [OF f(2)])
  moreover have "s_num_outgoing_streams ?d = count_ids (spdylay_session_is_my_stream_id s) m'"
      "s_num_incoming_streams ?d = count_ids (\<lambda>k. \<not> spdylay_session_is_my_stream_id s k) m'"
    using inv c by (simp_all add: table_inv_def drop_stream_def Let_def)
  ultimately show ?thesis using inv f m'(2,3)
    by (auto simp: table_inv_def next_ok_def id_ok_def spdylay_session_get_stream_def split: if_splits)
qed

lemma table_inv_open:
  assumes inv: "table_inv s" and new: "spdylay_session_get_stream s i = None" "id_ok s i"
    and o: "spdylay_session_open_stream s i fl p st0 ud = (ok, s')"
  shows "table_inv s'"
proof -
  obtain b s1 where b: "session_malloc s = (b, s1)" by fastforce
  have inv1: "table_inv s1" and get1: "spdylay_session_get_stream s1 i = None" and id1: "id_ok s1 i"
    using table_inv_keeps [OF keeps_streams_malloc [OF b] inv] new b
    by (auto simp: session_malloc_def id_ok_def spdylay_session_get_stream_def
        spdylay_session_is_my_stream_id_def split: prod.splits)
  show ?thesis
  proof (cases b)
    case True
    define st where "st = spdylay_stream_init i fl p st0 (s_remote_settings s1 ! 7) ud"
    obtain m' where m': "map_ins (s_streams s1) i st = (0, m')" "map_inv m'"
        "map_get m' = (map_get (s_streams s1))(i \<mapsto> st)" "map_vals m' = add_mset st (map_vals (s_streams s1))"
      using treap.ins_new [of "s_streams s1" i st] inv1 get1
      by (auto simp: table_inv_def spdylay_session_get_stream_def)
    have id: "sm_stream_id st = i" by (simp add: st_def)
    have c: "count_ids P m' = count_ids P (s_streams s1) + (if P i then 1 else 0)" for P
      by (simp add: count_ids_def m'(4) id)
    have f: "s_streams s' = m'" "s_server s' = s_server s1" "s_next_stream_id s' = s_next_stream_id s1"
        "s_last_recv_stream_id s' = s_last_recv_stream_id s1"
        "s_num_outgoing_streams s' = count_ids (spdylay_session_is_my_stream_id s1) m'"
        "s_num_incoming_streams s' = count_ids (\<lambda>k. \<not> spdylay_session_is_my_stream_id s1 k) m'"
      using o b True m'(1) inv1 c my_id_cong [of "s1\<lparr>s_streams := m'\<rparr>" s1]
      by (cases "spdylay_session_is_my_stream_id s1 i";
          simp add: spdylay_session_open_stream_def Let_def st_def [symmetric] table_inv_def; fastforce)+
    with inv1 id1 m'(2,3) id my_id_cong [OF f(2)] show ?thesis
      by (auto simp: table_inv_def next_ok_def id_ok_def spdylay_session_get_stream_def)
  next
    case False
    with o b inv1 show ?thesis by (simp add: spdylay_session_open_stream_def)
  qed
qed

subsection \<open>The queues\<close>

definition ob_pq_ok :: "spdylay_outbound_item spdylay_pq \<Rightarrow> bool" where
  "ob_pq_ok pq \<longleftrightarrow> pq_inv spdylay_outbound_item_compar pq \<and>
     (\<forall>it\<in>set (pq_q pq). item_ok it \<and> \<not> is_syn_stream (oi_frame it))"

definition ob_ss_pq_ok :: "spdylay_outbound_item spdylay_pq \<Rightarrow> bool" where
  "ob_ss_pq_ok pq \<longleftrightarrow> pq_inv spdylay_outbound_item_compar pq \<and>
     (\<forall>it\<in>set (pq_q pq). item_ok it \<and> is_syn_stream (oi_frame it))"

lemma queue_inv_alt:
  "queue_inv s \<longleftrightarrow> ob_pq_ok (s_ob_pq s) \<and> ob_ss_pq_ok (s_ob_ss_pq s) \<and>
     (\<forall>it. ao_item (s_aob s) = Some it \<longrightarrow> item_ok it) \<and>
     (\<forall>k st. spdylay_session_get_stream s k = Some st \<longrightarrow> deferred_ok st) \<and>
     length (s_remote_settings s) = 9 \<and> length (s_local_settings s) = 9 \<and> certvec_inv (s_cli_certvec s)"
  by (auto simp: queue_inv_def ob_pq_ok_def ob_ss_pq_ok_def)

lemma pq_push_set:
  assumes "pq_inv spdylay_outbound_item_compar pq" "spdylay_pq_push m pq it = (r, pq', m')"
  shows "pq_inv spdylay_outbound_item_compar pq' \<and> set (pq_q pq') \<subseteq> insert it (set (pq_q pq))"
proof (cases "r = 0")
  case True
  have "set_mset (mset (pq_q pq')) = insert it (set (pq_q pq))"
    using item_order.heap_pq.push_ok [OF assms(1)] assms(2) True by fastforce
  then show ?thesis using item_order.heap_pq.push_ok [OF assms(1)] assms(2) True by fastforce
next
  case False
  then show ?thesis using item_order.heap_pq.push_fail [OF assms(2)] assms(1) by auto
qed

lemma ob_pq_push:
  "ob_pq_ok pq \<Longrightarrow> item_ok it \<Longrightarrow> \<not> is_syn_stream (oi_frame it) \<Longrightarrow> spdylay_pq_push m pq it = (r, pq', m') \<Longrightarrow> ob_pq_ok pq'"
  "ob_ss_pq_ok pq \<Longrightarrow> item_ok it \<Longrightarrow> is_syn_stream (oi_frame it) \<Longrightarrow> spdylay_pq_push m pq it = (r, pq', m') \<Longrightarrow> ob_ss_pq_ok pq'"
  using pq_push_set [of pq m it r pq' m'] by (auto simp: ob_pq_ok_def ob_ss_pq_ok_def)

lemma pq_pop_set:
  assumes "pq_inv spdylay_outbound_item_compar pq" "spdylay_pq_top pq = Some it"
  shows "pq_inv spdylay_outbound_item_compar (spdylay_pq_pop pq) \<and> it \<in> set (pq_q pq) \<and>
     set (pq_q (spdylay_pq_pop pq)) \<subseteq> set (pq_q pq)"
proof -
  have "set_mset (mset (pq_q (spdylay_pq_pop pq))) \<subseteq> set (pq_q pq)"
    using item_order.heap_pq.pop_top [OF assms(2)] by (auto dest: in_diffD)
  with item_order.heap_pq.invar_pop [OF assms(1)] item_order.heap_pq.top_min [OF assms] show ?thesis by simp
qed

lemma ob_pq_pop:
  "ob_pq_ok pq \<Longrightarrow> spdylay_pq_top pq = Some it \<Longrightarrow> ob_pq_ok (spdylay_pq_pop pq) \<and> item_ok it"
  "ob_ss_pq_ok pq \<Longrightarrow> spdylay_pq_top pq = Some it \<Longrightarrow> ob_ss_pq_ok (spdylay_pq_pop pq) \<and> item_ok it"
  using pq_pop_set [of pq it] by (auto simp: ob_pq_ok_def ob_ss_pq_ok_def)

lemma queue_inv_push:
  "queue_inv s \<Longrightarrow> item_ok it \<Longrightarrow> \<not> is_syn_stream (oi_frame it) \<Longrightarrow> push_ob_pq s it = (r, s') \<Longrightarrow> queue_inv s'"
  "queue_inv s \<Longrightarrow> item_ok it \<Longrightarrow> is_syn_stream (oi_frame it) \<Longrightarrow> push_ob_ss_pq s it = (r, s') \<Longrightarrow> queue_inv s'"
  by (auto simp: push_ob_pq_def push_ob_ss_pq_def queue_inv_alt spdylay_session_get_stream_def
      split: prod.split_asm dest: ob_pq_push)

lemma queue_inv_pop:
  "queue_inv s \<Longrightarrow> spdylay_session_pop_next_ob_item s = (itm, s') \<Longrightarrow>
   queue_inv s' \<and> (\<forall>it. itm = Some it \<longrightarrow> item_ok it)"
  by (auto simp: spdylay_session_pop_next_ob_item_def queue_inv_alt spdylay_session_get_stream_def
      split: option.split_asm if_splits dest: ob_pq_pop ob_pq_pop [OF _ sym])

lemma queue_inv_put:
  assumes "map_inv (s_streams s)" "queue_inv s"
    "\<And>st. spdylay_session_get_stream s i = Some st \<Longrightarrow> deferred_ok st \<Longrightarrow> deferred_ok (f st)"
  shows "queue_inv (put_stream i f s)"
  using assms by (auto simp: queue_inv_alt get_put_stream split: if_splits)

lemma gentle_deferred: "gentle f \<Longrightarrow> deferred_ok st \<Longrightarrow> deferred_ok (f st)"
  by (auto simp: gentle_def deferred_ok_def) (metis option.distinct(1))+

lemma queue_inv_gentle:
  "map_inv (s_streams s) \<Longrightarrow> queue_inv s \<Longrightarrow> gentle f \<Longrightarrow> queue_inv (put_stream i f s)"
  by (rule queue_inv_put) (auto intro: gentle_deferred)

lemma queue_inv_add_frame:
  assumes "frame_aux_ok frame aux" "spdylay_session_add_frame s frame aux = (r, s')" "map_inv (s_streams s)" "queue_inv s"
  shows "queue_inv s'"
proof -
  obtain ok m where m: "malloc (s_mem s) = (ok, m)" by fastforce
  define s2 where "s2 = s\<lparr>s_mem := m, s_next_seq := s_next_seq s + 1\<rparr>"
  define it where "it = \<lparr>oi_frame = frame, oi_aux_data = aux, oi_pri = frame_pri (s\<lparr>s_mem := m\<rparr>) frame, oi_seq = s_next_seq s\<rparr>"
  define s3 where "s3 = (case frame of CtrlFrame (FRstStream f) \<Rightarrow>
      put_stream (rs_stream_id f) (\<lambda>st. st\<lparr>sm_state := SPDYLAY_STREAM_CLOSING\<rparr>) s2 | _ \<Rightarrow> s2)"
  have 2: "map_inv (s_streams s2)" "queue_inv s2"
    using assms(3,4) by (simp_all add: s2_def queue_inv_alt spdylay_session_get_stream_def)
  have 3: "queue_inv s3"
    using queue_inv_gentle [OF 2] 2 by (auto simp: s3_def split: item_frame.split spdylay_frame.split)
  have "item_ok it" using assms(1) by (simp add: item_ok_def it_def)
  moreover have "s' = s\<lparr>s_mem := m\<rparr> \<or> push_ob_pq s3 it = (r, s') \<and> \<not> is_syn_stream frame \<or>
      push_ob_ss_pq s3 it = (r, s') \<and> is_syn_stream frame"
    using assms(2) m
    by (auto simp: spdylay_session_add_frame_def session_malloc_def Let_def s3_def s2_def it_def
        split: if_splits item_frame.splits spdylay_frame.splits)
  moreover have "queue_inv (s\<lparr>s_mem := m\<rparr>)" using assms(4) by (simp add: queue_inv_alt spdylay_session_get_stream_def)
  ultimately show ?thesis using queue_inv_push [OF 3, of it] by (auto simp: it_def)
qed

lemma queue_inv_resume:
  assumes "spdylay_session_resume_data s i = (r, s')" "map_inv (s_streams s)" "queue_inv s"
  shows "queue_inv s'"
proof (cases "s' = s")
  case False
  then obtain st it s1 where st: "spdylay_session_get_stream s i = Some st" "sm_deferred_data st = Some it"
      and p: "push_ob_pq s it = (r, s1)"
      and s': "s' = s1 \<or> s' = put_stream i spdylay_stream_detach_deferred_data s1"
    using assms(1) by (auto simp: spdylay_session_resume_data_def split: option.split_asm if_splits prod.split_asm)
  have "deferred_ok st" using assms(3) st(1) by (auto simp: queue_inv_alt)
  then have ok: "item_ok it" "\<not> is_syn_stream (oi_frame it)" using st(2) by (auto simp: deferred_ok_def)
  note q1 = queue_inv_push(1) [OF assms(3) ok p]
  have "map_inv (s_streams s1)" using p assms(2) by (auto simp: push_ob_pq_def split: prod.split_asm)
  from queue_inv_gentle [OF this q1] q1 s' show ?thesis by auto
qed (use assms in simp)

subsection \<open>The walk over the table\<close>

lemma each_list_inv:
  assumes "each_list func es s = (rv, es', s')" "Q s" "\<And>e. e \<in> set es \<Longrightarrow> V (e_val e)"
    and step: "\<And>e s rv v s'. Q s \<Longrightarrow> V (e_val e) \<Longrightarrow> func e s = (rv, v, s') \<Longrightarrow> Q s' \<and> P (e_val e) v"
    and refl: "\<And>v. P v v"
  shows "Q s' \<and> list_all2 (\<lambda>e e'. e_key e' = e_key e \<and> P (e_val e) (e_val e')) es es'"
  using assms(1-3)
proof (induction es arbitrary: s es')
  case (Cons e es)
  obtain r v s1 where f: "func e s = (r, v, s1)" by (metis prod_cases3)
  have 1: "Q s1 \<and> P (e_val e) v" using step [OF _ _ f] Cons.prems by simp
  show ?case
  proof (cases "r = 0")
    case True
    then show ?thesis using Cons f 1 by (auto split: prod.split_asm)
  next
    case False
    have "list_all2 (\<lambda>e e'. e_key e' = e_key e \<and> P (e_val e) (e_val e')) es es"
      by (simp add: list_all2_same refl)
    with Cons.prems f 1 False show ?thesis by auto
  qed
qed simp

lemma map_each_keeps:
  assumes e: "spdylay_map_each m func s = (rv, m', s')" "map_inv m" "Q s"
    "\<And>k v. map_get m k = Some v \<Longrightarrow> V v"
    "\<And>e s rv v s'. Q s \<Longrightarrow> V (e_val e) \<Longrightarrow> func e s = (rv, v, s') \<Longrightarrow> Q s' \<and> P (e_val e) v" "\<And>v. P v v"
    and id: "\<And>a b. P a b \<Longrightarrow> sm_stream_id b = sm_stream_id a"
  shows "Q s'" "keeps_table P m m'"
proof -
  have V: "V (e_val x)" if "x \<in> set (entries m)" for x
    using that e(2) lookup_mem [of "entries m" x] map_find_lookup [of m "e_key x"] e(4) [of "e_key x" "e_val x"]
    by (simp add: map_get_def map_inv_def)
  have l: "Q s' \<and> list_all2 (\<lambda>e e'. e_key e' = e_key e \<and> P (e_val e) (e_val e')) (entries m) (entries m')"
    using map_each_entries(1) [OF e(1)] e(3) V
    by (rule each_list_inv [where Q = Q and V = V and P = P]) (use e(5,6) in blast)+
  then show "Q s'" by simp
  have m': "map_inv m'" using map_inv_each [OF e(2,1)] by simp
  have "rel_option (\<lambda>x y. P (e_val x) (e_val y)) (lookup es k) (lookup es' k)"
    if "list_all2 (\<lambda>e e'. e_key e' = e_key e \<and> P (e_val e) (e_val e')) es es'" for es es' k
    using that by (induction rule: list_all2_induct) (auto simp: lookup_def)
  with l e(2) m' have get: "rel_option P (map_get m k) (map_get m' k)" for k
    by (simp add: map_get_def map_find_lookup option.rel_map)
  have "map (sm_stream_id \<circ> e_val) es' = map (sm_stream_id \<circ> e_val) es"
    if "list_all2 (\<lambda>e e'. e_key e' = e_key e \<and> P (e_val e) (e_val e')) es es'" for es es'
    using that by (induction rule: list_all2_induct) (auto simp: id)
  from this [of "entries m" "entries m'"] l
  have "image_mset sm_stream_id (map_vals m') = image_mset sm_stream_id (map_vals m)"
    by (simp add: map_vals_def image_mset.compositionality flip: mset_map)
  with m' get show "keeps_table P m m'" by (simp add: keeps_table_def)
qed

text \<open>A stream of the table after the walk of a new initial window.\<close>

definition gentler :: "spdylay_stream \<Rightarrow> spdylay_stream \<Rightarrow> bool" where
  "gentler st st' \<longleftrightarrow> sm_stream_id st' = sm_stream_id st \<and>
     (sm_deferred_data st' = sm_deferred_data st \<or> sm_deferred_data st' = None)"

lemma window_func_inv:
  assumes "spdylay_update_initial_window_size_func w w0 e t = (rv, v, t')" "deferred_ok (e_val e)"
    "\<exists>pq m. t = s\<lparr>s_ob_pq := pq, s_mem := m\<rparr> \<and> ob_pq_ok pq"
  shows "(\<exists>pq m. t' = s\<lparr>s_ob_pq := pq, s_mem := m\<rparr> \<and> ob_pq_ok pq) \<and> gentler (e_val e) v"
proof -
  obtain pq m where t: "t = s\<lparr>s_ob_pq := pq, s_mem := m\<rparr>" "ob_pq_ok pq" using assms(3) by blast
  have push: "\<exists>pq m. t'' = s\<lparr>s_ob_pq := pq, s_mem := m\<rparr> \<and> ob_pq_ok pq"
    if p: "push_ob_pq t it = (r, t'')" and d: "sm_deferred_data (e_val e) = Some it" for it r t''
    using p t assms(2) d
    by (auto simp: push_ob_pq_def deferred_ok_def split: prod.split_asm intro!: exI dest: ob_pq_push(1) [rotated 3])
  show ?thesis using assms(1,3) push
    by (auto simp: spdylay_update_initial_window_size_func_def Let_def gentler_def
        spdylay_stream_update_initial_window_size_def spdylay_stream_detach_deferred_data_def
        split: option.split_asm if_splits prod.split_asm)
qed

lemma initial_window_shape:
  fixes s :: "('z, 'u) spdylay_session"
  assumes u: "spdylay_session_update_initial_window_size s w = (rv, s')" and inv: "session_inv s"
  obtains pq m tbl where "s' = s\<lparr>s_ob_pq := pq, s_mem := m, s_streams := tbl\<rparr>" "ob_pq_ok pq"
    "keeps_table gentler (s_streams s) tbl"
proof -
  define F :: "spdylay_stream spdylay_map_entry \<Rightarrow> ('z, 'u) spdylay_session \<Rightarrow> _" where
    "F = spdylay_update_initial_window_size_func w (s_remote_settings s ! SPDYLAY_SETTINGS_INITIAL_WINDOW_SIZE)"
  obtain m' s1 where e: "spdylay_map_each (s_streams s) F s = (rv, m', s1)" and s': "s' = s1\<lparr>s_streams := m'\<rparr>"
    using u by (auto simp: spdylay_session_update_initial_window_size_def F_def split: prod.split_asm)
  let ?Q = "\<lambda>t. \<exists>pq m. t = s\<lparr>s_ob_pq := pq, s_mem := m\<rparr> \<and> ob_pq_ok pq"
  have m: "map_inv (s_streams s)" using inv by (simp add: session_inv_def table_inv_def)
  have Q: "?Q s"
    using inv by (intro exI [of _ "s_ob_pq s"] exI [of _ "s_mem s"]) (simp add: session_inv_def queue_inv_alt)
  have V: "deferred_ok st" if "map_get (s_streams s) k = Some st" for k st
    using inv that by (auto simp: session_inv_def queue_inv_alt spdylay_session_get_stream_def)
  have step: "?Q t' \<and> gentler (e_val x) v" if "?Q t" "deferred_ok (e_val x)" "F x t = (r, v, t')" for x t r v t'
    using window_func_inv [OF that(3) [unfolded F_def] that(2,1)] .
  have gr: "gentler v v" "\<And>a b. gentler a b \<Longrightarrow> sm_stream_id b = sm_stream_id a" for v
    by (simp_all add: gentler_def)
  have "?Q s1" "keeps_table gentler (s_streams s) m'"
    using map_each_keeps [where Q = ?Q and V = deferred_ok and P = gentler, OF e m Q V step gr] by - assumption+
  then show thesis using that s' by auto
qed

lemma session_inv_window:
  assumes u: "spdylay_session_update_initial_window_size s w = (rv, s')" and inv: "session_inv s"
  shows "session_inv s'"
proof -
  obtain pq m tbl where s': "s' = s\<lparr>s_ob_pq := pq, s_mem := m, s_streams := tbl\<rparr>" "ob_pq_ok pq"
      and k: "keeps_table gentler (s_streams s) tbl"
    using initial_window_shape [OF u inv] .
  have m: "map_inv (s_streams s)" using inv by (simp add: session_inv_def table_inv_def)
  have V: "deferred_ok st" if "map_get (s_streams s) k = Some st" for k st
    using inv that by (auto simp: session_inv_def queue_inv_alt spdylay_session_get_stream_def)
  have rel: "rel_option gentler (map_get (s_streams s) k) (map_get tbl k)" for k
    using k m by (simp add: keeps_table_def)
  have "table_inv s'"
  proof (rule table_inv_same [of s])
    show "rel_option (\<lambda>a b. sm_stream_id b = sm_stream_id a) (spdylay_session_get_stream s i) (spdylay_session_get_stream s' i)" for i
      using rel [of i] by (auto simp: s' spdylay_session_get_stream_def gentler_def elim: option.rel_mono_strong)
  qed (use inv k m s' in \<open>simp_all add: session_inv_def keeps_table_def\<close>)
  moreover have "deferred_ok st'" if st': "map_get tbl i = Some st'" for i st'
    using rel [of i] V [of i] st' by (cases "map_get (s_streams s) i") (auto simp: gentler_def deferred_ok_def)
  then have "queue_inv s'"
    using inv s' by (auto simp: session_inv_def queue_inv_alt spdylay_session_get_stream_def)
  ultimately show ?thesis by (simp add: session_inv_def)
qed

subsection \<open>The interpretation\<close>

lemma session_inv_cong:
  assumes "session_inv s" "s_streams s' = s_streams s" "s_server s' = s_server s"
    "s_next_stream_id s' = s_next_stream_id s" "s_last_recv_stream_id s' = s_last_recv_stream_id s"
    "s_num_outgoing_streams s' = s_num_outgoing_streams s" "s_num_incoming_streams s' = s_num_incoming_streams s"
    "s_ob_pq s' = s_ob_pq s" "s_ob_ss_pq s' = s_ob_ss_pq s" "\<And>it. ao_item (s_aob s') = Some it \<Longrightarrow> item_ok it"
    "length (s_remote_settings s') = length (s_remote_settings s)"
    "length (s_local_settings s') = length (s_local_settings s)" "certvec_inv (s_cli_certvec s')"
  shows "session_inv s'"
proof -
  have "table_inv s'"
    by (rule table_inv_same [of s])
      (use assms in \<open>auto simp: session_inv_def table_inv_def spdylay_session_get_stream_def option.rel_refl\<close>)
  moreover have "queue_inv s'"
    using assms by (auto simp: session_inv_def queue_inv_alt spdylay_session_get_stream_def)
  ultimately show ?thesis by (simp add: session_inv_def)
qed

lemma session_inv_parts:
  assumes "session_inv s"
  shows "table_inv s" "queue_inv s" "map_inv (s_streams s)" "certvec_inv (s_cli_certvec s)"
    "\<And>it. ao_item (s_aob s) = Some it \<Longrightarrow> item_ok it"
  using assms by (auto simp: session_inv_def table_inv_def queue_inv_alt)

lemma session_inv_gentle: "session_inv s \<Longrightarrow> gentle f \<Longrightarrow> session_inv (put_stream i f s)"
  using queue_inv_gentle [of s f i] table_inv_put [of s i f]
  by (simp add: session_inv_def gentle_def table_inv_def)

lemma session_inv_push:
  "session_inv s \<Longrightarrow> item_ok it \<Longrightarrow> \<not> is_syn_stream (oi_frame it) \<Longrightarrow> push_ob_pq s it = (r, s') \<Longrightarrow> session_inv s'"
  "session_inv s \<Longrightarrow> item_ok it \<Longrightarrow> is_syn_stream (oi_frame it) \<Longrightarrow> push_ob_ss_pq s it = (r, s') \<Longrightarrow> session_inv s'"
  using queue_inv_push [of s it r s'] table_inv_keeps [of s s'] keeps_streams_push [of s it r s']
  by (simp_all add: session_inv_def)

lemma session_inv_pop:
  assumes "session_inv s" "spdylay_session_pop_next_ob_item s = (itm, s')"
  shows "session_inv s' \<and> (\<forall>it. itm = Some it \<longrightarrow> item_ok it)"
proof -
  have "keeps_streams s s'"
    using assms(2) by (auto simp: spdylay_session_pop_next_ob_item_def keeps_fields_def
        intro!: keeps_streamsI split: option.split_asm if_splits)
  then show ?thesis
    using assms queue_inv_pop [of s itm s'] table_inv_keeps by (auto simp: session_inv_def)
qed

lemma session_inv_defer:
  assumes inv: "session_inv s" and st: "spdylay_session_get_stream s i = Some st" and it: "item_ok it"
    "oi_frame it = DataFrame d" "da_stream_id d = i" and d: "spdylay_stream_defer_data st it fl = Some st'"
  shows "session_inv (put_stream i (\<lambda>_. st') s)"
proof -
  have id: "sm_stream_id st' = i" "sm_stream_id st = i"
    using st inv stream_defer_id [OF d] by (auto simp: session_inv_def table_inv_def)
  have "deferred_ok st'"
    using d it id by (auto simp: spdylay_stream_defer_data_def deferred_ok_def split: if_splits)
  then have "queue_inv (put_stream i (\<lambda>_. st') s)"
    by (intro queue_inv_put session_inv_parts [OF inv])
  moreover have "table_inv (put_stream i (\<lambda>_. st') s)"
    using id st by (intro table_inv_put session_inv_parts [OF inv]) simp
  ultimately show ?thesis by (simp add: session_inv_def)
qed

lemma session_inv_open:
  assumes "session_inv s" "spdylay_session_get_stream s i = None" "id_ok s i"
    and o: "spdylay_session_open_stream s i fl p st0 ud = (ok, s')"
  shows "session_inv s'"
proof -
  have "table_inv s'" using table_inv_open assms by (auto simp: session_inv_def)
  moreover have "queue_inv s'"
  proof -
    obtain b m where b: "malloc (s_mem s) = (b, m)" by fastforce
    define st where "st = spdylay_stream_init i fl p st0 (s_remote_settings s ! 7) ud"
    obtain m' where m': "map_ins (s_streams s) i st = (0, m')" "map_get m' = (map_get (s_streams s))(i \<mapsto> st)"
      using treap.ins_new [of "s_streams s" i st] assms(1,2)
      by (auto simp: session_inv_def table_inv_def spdylay_session_get_stream_def)
    have "deferred_ok st" by (simp add: st_def spdylay_stream_init_def deferred_ok_def)
    with o b m' assms(1) show ?thesis
      by (auto simp: spdylay_session_open_stream_def session_malloc_def Let_def st_def [symmetric]
          session_inv_def queue_inv_alt spdylay_session_get_stream_def split: if_splits)
  qed
  ultimately show ?thesis by (simp add: session_inv_def)
qed

lemma session_inv_drop:
  assumes "session_inv s" "spdylay_session_get_stream s i = Some st"
  shows "session_inv (drop_stream i s)"
proof -
  obtain m' where "spdylay_map_remove (s_streams s) i = (0, m')" "map_get m' = (map_get (s_streams s))(i := None)"
    using treap.rem_found [of "s_streams s" i st] assms
    by (auto simp: session_inv_def table_inv_def spdylay_session_get_stream_def)
  then have "queue_inv (drop_stream i s)"
    using assms(1) by (auto simp: session_inv_def queue_inv_alt drop_stream_def Let_def
        spdylay_session_get_stream_def split: if_splits)
  with table_inv_drop assms show ?thesis by (auto simp: session_inv_def)
qed

lemma session_inv_next_id:
  assumes "session_inv s" "uint (s_next_stream_id s) \<le> INT32_MAX"
  shows "session_inv (s\<lparr>s_next_stream_id := s_next_stream_id s + 2\<rparr>)"
proof -
  let ?t = "s\<lparr>s_next_stream_id := s_next_stream_id s + 2\<rparr>"
  have u: "uint (s_next_stream_id s + 2) = uint (s_next_stream_id s) + 2"
    using assms(2) by (simp add: uint_word_ariths(1) mod_pos_pos_trivial)
  have "next_ok ?t" using assms by (simp add: session_inv_def table_inv_def next_ok_def u)
  then have "table_inv ?t"
    using assms(1) u my_id_cong [of ?t s]
    by (auto simp: session_inv_def table_inv_def id_ok_def spdylay_session_get_stream_def split: if_splits)
      fastforce+
  then show ?thesis using assms(1) by (simp add: session_inv_def queue_inv_alt spdylay_session_get_stream_def)
qed

lemma session_inv_last_recv:
  assumes "session_inv s" "spdylay_session_is_new_peer_stream_id s i"
  shows "session_inv (s\<lparr>s_last_recv_stream_id := i\<rparr>)"
proof -
  let ?t = "s\<lparr>s_last_recv_stream_id := i\<rparr>"
  have lt: "sint (s_last_recv_stream_id s) < sint i"
    using assms(2) by (auto simp: spdylay_session_is_new_peer_stream_id_def split: if_splits)
  have "table_inv ?t"
    using assms(1) lt my_id_cong [of ?t s]
    by (auto simp: session_inv_def table_inv_def next_ok_def id_ok_def spdylay_session_get_stream_def split: if_splits)
  then show ?thesis using assms(1) by (simp add: session_inv_def queue_inv_alt spdylay_session_get_stream_def)
qed

lemma session_inv_assign:
  assumes inv: "session_inv s"
  shows "session_inv (s\<lparr>s_mem := m\<rparr>)" "session_inv (s\<lparr>s_user_data := d\<rparr>)"
    "session_inv (s\<lparr>s_next_unique_id := i\<rparr>)" "session_inv (s\<lparr>s_goaway_flags := g\<rparr>)"
    "session_inv (s\<lparr>s_opt_flags := o1\<rparr>)" "session_inv (s\<lparr>s_max_recv_ctrl_frame_buf := mx\<rparr>)"
    "session_inv (s\<lparr>s_nvbuf := nvb\<rparr>)" "session_inv (s\<lparr>s_hd_deflater := z\<rparr>)"
    "session_inv (s\<lparr>s_hd_inflater := z\<rparr>)" "session_inv (s\<lparr>s_iframe := fr\<rparr>)"
    "session_inv (s\<lparr>s_last_ping_unique_id := u\<rparr>)" "session_inv (s\<lparr>s_last_good_stream_id := l\<rparr>)"
    "length ls = length (s_local_settings s) \<Longrightarrow> session_inv (s\<lparr>s_local_settings := ls\<rparr>)"
    "length rs = length (s_remote_settings s) \<Longrightarrow> session_inv (s\<lparr>s_remote_settings := rs\<rparr>)"
    "certvec_inv cv \<Longrightarrow> session_inv (s\<lparr>s_cli_certvec := cv\<rparr>)"
    "(\<And>it. ao_item a = Some it \<Longrightarrow> item_ok it) \<Longrightarrow> session_inv (s\<lparr>s_aob := a\<rparr>)"
  by (rule session_inv_cong [OF inv]; simp add: session_inv_parts [OF inv])+

interpretation session: session_contract session_inv
proof (unfold_locales, goal_cases)
  case (2 s t u)
  then show ?case by simp
next
  case (4 s org slot cv)
  show ?case
    by (intro impI session_inv_assign(15) certvec_put_inv [OF session_inv_parts(4) 4])
next
  case (5 frame aux s r s')
  show ?case
    using queue_inv_add_frame [OF 5 session_inv_parts(3)] table_inv_keeps [OF keeps_streams_add_frame [OF 5(2)]]
    by (auto simp: session_inv_def)
next
  case (12 s i w)
  then show ?case by (simp add: session_inv_gentle)
next
  case (13 s i k)
  then show ?case by (simp add: session_inv_gentle)
next
  case (14 s i r s')
  show ?case
    using queue_inv_resume [OF 14 session_inv_parts(3)] table_inv_keeps [OF keeps_streams_resume [OF 14]]
    by (auto simp: session_inv_def)
next
  case (17 s i fl p st0 ud ok s')
  then show ?case by (blast intro: session_inv_open)
next
  case (21 s i st it d fl st')
  then show ?case by (rule session_inv_defer)
next
  case (27 s i st it)
  then have "deferred_ok st" by (auto simp: session_inv_def queue_inv_alt)
  with 27(3) show ?case by (auto simp: deferred_ok_def)
next
  case (35 s n r cv m)
  have "certvec_inv cv" using certvec_resize_inv [OF session_inv_parts(4) [OF 35(1)] 35(2)] .
  from session_inv_assign(1) [OF session_inv_assign(15) [OF 35(1) this], of m] show ?case by simp
qed (auto simp: session_inv_parts(1,5) intro: session_inv_drop session_inv_next_id session_inv_last_recv
    session_inv_gentle session_inv_push session_inv_window session_inv_assign dest: session_inv_pop)

end
