(* ===== verification/Spdy_Session_Reach.thy ===== *)
theory Spdy_Session_Reach
  imports Spdy_Session_Inv
begin

text \<open>
  The runs of a session as a step relation: a call of the API, a run of the send loop or a run
  of a receive function. \<open>session_reach\<close> are the sessions that a program can get from the two
  constructors. What the contract gives for one operation is lifted to all of them, once for the
  invariants of \<open>Spdy_Session_Inv\<close> and once for a session that has begun to go away.
\<close>

section \<open>Runs\<close>

inductive session_step :: "'z zlib \<Rightarrow> ('z, 'u) spdylay_session \<Rightarrow> ('z, 'u) spdylay_session \<Rightarrow> bool"
  for zl :: "'z zlib" where
  api: "exec_api s c = Some s' \<Longrightarrow> session_step zl s s'"
| send: "spdylay_session_send zl cb s = Some (r, s') \<Longrightarrow> session_step zl s s'"
| mem_recv: "spdylay_session_mem_recv zl cb s inp = Some (n, s') \<Longrightarrow> session_step zl s s'"
| recv: "spdylay_session_recv zl cb s = Some (r, s') \<Longrightarrow> session_step zl s s'"

inductive session_reach :: "'z zlib \<Rightarrow> ('z, 'u) spdylay_session \<Rightarrow> bool" for zl :: "'z zlib" where
  client: "spdylay_session_client_new zl m version ud = (Inr s, m') \<Longrightarrow> session_reach zl s"
| server: "spdylay_session_server_new zl m version ud = (Inr s, m') \<Longrightarrow> session_reach zl s"
| step: "session_reach zl s \<Longrightarrow> session_step zl s s' \<Longrightarrow> session_reach zl s'"

inductive_cases session_stepE: "session_step zl s s'"

context session_contract
begin

lemma I_step: "session_step zl s s' \<Longrightarrow> I s \<Longrightarrow> I s'"
  by (erule session_stepE) (use R_exec_api I_send I_mem_recv I_recv in blast)+

lemma I_steps: "(session_step zl)\<^sup>*\<^sup>* s s' \<Longrightarrow> I s \<Longrightarrow> I s'"
  by (induction rule: rtranclp_induct) (auto dest: I_step)

end

section \<open>The constructors establish the invariants\<close>

lemma map_init_inv: "map_inv spdylay_map_init"
  by (rule treap.invar_init)

lemma pq_init_inv: "spdylay_pq_init m cmp = (r, Some pq, m') \<Longrightarrow> pq_inv cmp pq \<and> pq_q pq = []"
  by (auto simp: spdylay_pq_init_def pq_inv_def pq_heap_def Let_def split: prod.split_asm if_splits)

lemma session_new_shape:
  assumes "spdylay_session_new zl m v ud cl hc = (Inr s, m')"
  shows "s_streams s = spdylay_map_init" "s_num_outgoing_streams s = 0" "s_num_incoming_streams s = 0"
    "pq_inv spdylay_outbound_item_compar (s_ob_pq s)" "pq_q (s_ob_pq s) = []"
    "pq_inv spdylay_outbound_item_compar (s_ob_ss_pq s)" "pq_q (s_ob_ss_pq s) = []"
    "ao_item (s_aob s) = None" "length (s_remote_settings s) = 9" "length (s_local_settings s) = 9"
    "certvec_inv (s_cli_certvec s)" "\<not> s_server s"
  using assms
  by (auto simp: spdylay_session_new_def Let_def split: prod.split_asm option.split_asm if_splits
      dest: pq_init_inv certvec_init_inv)

lemma new_session_inv:
  assumes n: "spdylay_session_new zl m v ud cl hc = (Inr s, m')" and t: "next_ok t"
    and same: "s_streams t = s_streams s" "s_num_outgoing_streams t = s_num_outgoing_streams s"
      "s_num_incoming_streams t = s_num_incoming_streams s" "s_ob_pq t = s_ob_pq s" "s_ob_ss_pq t = s_ob_ss_pq s"
      "s_aob t = s_aob s" "s_remote_settings t = s_remote_settings s" "s_local_settings t = s_local_settings s"
      "s_cli_certvec t = s_cli_certvec s"
  shows "session_inv t"
proof -
  note sh = session_new_shape [OF n]
  have e: "spdylay_session_get_stream t k = None" for k
    by (simp add: spdylay_session_get_stream_def same sh(1) treap.find_init)
  have v: "map_vals spdylay_map_init = {#}" by (rule treap.vals_init)
  show ?thesis
    using t e sh map_init_inv by (simp add: session_inv_def table_inv_def queue_inv_def same count_ids_def v)
qed

lemma client_new_inv:
  assumes "spdylay_session_client_new zl m v ud = (Inr s, m')"
  shows "session_inv s"
proof -
  obtain t where t: "spdylay_session_new zl m v ud SPDYLAY_INITIAL_CLIENT_CERT_VECTOR_LENGTH False = (Inr t, m')"
      and s: "s = t\<lparr>s_next_stream_id := 1, s_last_recv_stream_id := 0, s_next_unique_id := 1\<rparr>"
    using assms by (auto simp: spdylay_session_client_new_def split: prod.split_asm sum.split_asm)
  show ?thesis
    by (rule new_session_inv [OF t]) (simp_all add: s next_ok_def session_new_shape(12) [OF t])
qed

lemma server_new_inv: "spdylay_session_server_new zl m v ud = (Inr s, m') \<Longrightarrow> session_inv s"
  by (auto simp: spdylay_session_server_new_def next_ok_def split: prod.split_asm sum.split_asm
      elim!: new_session_inv)

lemma reach_inv: "session_reach zl s \<Longrightarrow> session_inv s"
  by (induction rule: session_reach.induct) (auto dest: client_new_inv server_new_inv session.I_step)

section \<open>Properties beside the invariant\<close>

text \<open>
  Apart from the three assignments that open a stream, everything that a call, a callback or a
  handler assigns is calm: it leaves the inbound frame and the two identifiers alone, adds GOAWAY
  flags only and opens no stream. So a property that calm changes keep holds along with the
  session invariant, provided that opening a stream keeps it.
\<close>

definition calm :: "('z, 'u) spdylay_session \<Rightarrow> ('z, 'u) spdylay_session \<Rightarrow> bool" where
  "calm s s' \<longleftrightarrow> s_iframe s' = s_iframe s \<and> s_next_stream_id s' = s_next_stream_id s \<and>
     s_last_recv_stream_id s' = s_last_recv_stream_id s \<and>
     (\<exists>g. s_goaway_flags s' = s_goaway_flags s OR g) \<and>
     (\<forall>k. spdylay_session_get_stream s' k \<noteq> None \<longrightarrow> spdylay_session_get_stream s k \<noteq> None)"

lemma calm_assign:
  assumes "s_streams s' = s_streams s" "s_iframe s' = s_iframe s" "s_goaway_flags s' = s_goaway_flags s OR g"
    "s_next_stream_id s' = s_next_stream_id s" "s_last_recv_stream_id s' = s_last_recv_stream_id s"
  shows "calm s s'"
  using assms by (auto simp: calm_def spdylay_session_get_stream_def)

lemma calm_keeps:
  assumes "keeps_streams s s'" "session_inv s"
  shows "calm s s'"
proof -
  have "spdylay_session_get_stream s k \<noteq> None" if "spdylay_session_get_stream s' k \<noteq> None" for k
    using keeps_streams_get(2) [OF assms(1) session_inv_parts(3) [OF assms(2)], of k] that
    by (cases "spdylay_session_get_stream s k") auto
  moreover have "\<exists>g. s_goaway_flags s' = s_goaway_flags s OR g"
    using assms(1) unfolding keeps_streams_def keeps_fields_def by (metis or.right_neutral)
  ultimately show ?thesis using assms(1) by (simp add: calm_def keeps_streams_def keeps_fields_def)
qed

lemma calm_put:
  assumes "session_inv s"
  shows "calm s (put_stream i f s)"
proof -
  have "s_goaway_flags (put_stream i f s) = s_goaway_flags s OR 0" "s_iframe (put_stream i f s) = s_iframe s"
    by (simp_all add: put_stream_def)
  then show ?thesis
    using get_put_stream [OF session_inv_parts(3) [OF assms], of i f]
    by (auto simp: calm_def intro!: exI [of _ 0])
qed

lemma calm_drop:
  assumes "session_inv s" "spdylay_session_get_stream s i = Some st"
  shows "calm s (drop_stream i s)"
proof -
  obtain m' where "spdylay_map_remove (s_streams s) i = (0, m')" "map_get m' = (map_get (s_streams s))(i := None)"
    using treap.rem_found [OF session_inv_parts(3) [OF assms(1)], of i st] assms(2)
    by (auto simp: spdylay_session_get_stream_def)
  then show ?thesis
    by (auto simp: calm_def drop_stream_def Let_def spdylay_session_get_stream_def
        intro!: exI [of _ 0] split: if_splits)
qed

lemma calm_window:
  assumes u: "spdylay_session_update_initial_window_size s w = (rv, s')" and inv: "session_inv s"
  shows "calm s s'"
proof -
  obtain pq m tbl where s': "s' = s\<lparr>s_ob_pq := pq, s_mem := m, s_streams := tbl\<rparr>"
      and k: "keeps_table gentler (s_streams s) tbl"
    using initial_window_shape [OF u inv] .
  have "rel_option gentler (map_get (s_streams s) k) (map_get tbl k)" for k
    using k session_inv_parts(3) [OF inv] by (simp add: keeps_table_def)
  then have "map_get tbl k \<noteq> None \<Longrightarrow> map_get (s_streams s) k \<noteq> None" for k
    by (metis option.rel_distinct(1) option.exhaust)
  then show ?thesis by (auto simp: calm_def s' spdylay_session_get_stream_def intro!: exI [of _ 0])
qed

lemma calm_pop: "spdylay_session_pop_next_ob_item s = (itm, s') \<Longrightarrow> calm s s'"
  by (auto simp: spdylay_session_pop_next_ob_item_def intro!: calm_assign [where g = 0]
      split: option.split_asm if_splits)

locale calm_property =
  fixes Q :: "('z, 'u) spdylay_session \<Rightarrow> bool"
  assumes Q_calm: "Q s \<Longrightarrow> calm s s' \<Longrightarrow> Q s'"
    and Q_open: "Q s \<Longrightarrow> s_goaway_flags s = 0 \<Longrightarrow> spdylay_session_get_stream s i = None \<Longrightarrow>
      spdylay_session_open_stream s i fl p st0 ud = (ok, s') \<Longrightarrow> Q s'"
    and Q_next_id: "Q s \<Longrightarrow> s_goaway_flags s = 0 \<Longrightarrow> Q (s\<lparr>s_next_stream_id := s_next_stream_id s + 2\<rparr>)"
    and Q_last_recv: "Q s \<Longrightarrow> s_goaway_flags s = 0 \<Longrightarrow> Q (s\<lparr>s_last_recv_stream_id := i\<rparr>)"
begin

lemma Q_rel:
  "keeps_streams s s' \<Longrightarrow> session_inv s \<longrightarrow> session_inv s' \<Longrightarrow> session_inv s \<and> Q s \<longrightarrow> session_inv s' \<and> Q s'"
  using Q_calm calm_keeps by blast

lemma Q_assign:
  "Q s \<Longrightarrow> s_streams s' = s_streams s \<Longrightarrow> s_iframe s' = s_iframe s \<Longrightarrow> s_goaway_flags s' = s_goaway_flags s OR g \<Longrightarrow>
   s_next_stream_id s' = s_next_stream_id s \<Longrightarrow> s_last_recv_stream_id s' = s_last_recv_stream_id s \<Longrightarrow> Q s'"
  by (blast intro: Q_calm calm_assign)

end

lemmas frame_assigns = frame_rule.R_mem frame_rule.R_user frame_rule.R_unique frame_rule.R_fail
  frame_rule.R_opt frame_rule.R_max frame_rule.R_recv_window frame_rule.R_assoc

lemmas session_assigns = session.R_mem session.R_user session.R_unique session.R_fail
  session.R_opt session.R_max session.R_recv_window session.R_assoc

sublocale calm_property \<subseteq> api: api_rel "\<lambda>s s'. session_inv s \<and> Q s \<longrightarrow> session_inv s' \<and> Q s'"
  by unfold_locales
    (blast | rule Q_rel, rule frame_assigns, rule session_assigns
     | rule Q_rel, erule frame_rule.R_cert, erule session.R_cert
     | rule Q_rel, erule (1) frame_rule.R_add_frame, erule (1) session.R_add_frame
     | rule Q_rel, erule frame_rule.R_local, erule session.R_local
     | rule Q_rel, erule frame_rule.R_resume, erule session.R_resume)+

sublocale calm_property \<subseteq> both: handler_contract "\<lambda>s. session_inv s \<and> Q s"
proof (unfold_locales, goal_cases)
  case (8 s itm s')
  then show ?case using session.I_pop Q_calm calm_pop by blast
next
  case (21 s n r cv m)
  then show ?case using session.I_resize [of s n r cv m] Q_assign [of s _ 0] by simp
qed (auto intro: session.I_table session.I_drop session.I_open session.I_next_id session.I_last_recv session.I_put
    session.I_defer session.I_push session.I_push_ss session.I_aob session.I_aob_item session.I_fields session.I_remote
    session.I_window Q_calm calm_drop calm_put calm_keeps keeps_streams_push calm_window
    Q_open Q_next_id Q_last_recv Q_assign [where g = 0] Q_assign dest: session.I_deferred)

section \<open>Going away\<close>

text \<open>
  Once a GOAWAY was sent, received or decided on, streams are only closed: the table holds no key
  that is not in \<open>K\<close>, and the two identifiers that new streams come from stand still.
\<close>

definition going_away :: "i32 set \<Rightarrow> u32 \<Rightarrow> i32 \<Rightarrow> ('z, 'u) spdylay_session \<Rightarrow> bool" where
  "going_away K nxt lst s \<longleftrightarrow> s_goaway_flags s \<noteq> 0 \<and> s_next_stream_id s = nxt \<and>
     s_last_recv_stream_id s = lst \<and> {k. spdylay_session_get_stream s k \<noteq> None} \<subseteq> K"

lemma or_nonzero: "w \<noteq> 0 \<Longrightarrow> w OR v \<noteq> (0 :: u8)"
  by (metis or_eq_0_iff)

interpretation away: calm_property "going_away K nxt lst" for K nxt lst
  by unfold_locales (auto simp: going_away_def calm_def or_nonzero)

interpretation away_session: session_contract "\<lambda>s. session_inv s \<and> going_away K nxt lst s" for K nxt lst
  by unfold_locales (auto intro: session.I_inbound simp: going_away_def spdylay_session_get_stream_def)

text \<open>What a client of the invariant sees: no identifier is given out or accepted, no stream opens.\<close>

lemma going_away_steps:
  assumes "session_inv s" "s_goaway_flags s \<noteq> 0" "(session_step zl)\<^sup>*\<^sup>* s s'"
  shows "going_away {k. spdylay_session_get_stream s k \<noteq> None} (s_next_stream_id s) (s_last_recv_stream_id s) s'"
proof -
  have "going_away {k. spdylay_session_get_stream s k \<noteq> None} (s_next_stream_id s) (s_last_recv_stream_id s) s"
    using assms(2) by (simp add: going_away_def)
  with assms(1) show ?thesis using away_session.I_steps [OF assms(3)] by blast
qed

end
