(* ===== verification/Spdy_Inbound.thy ===== *)
theory Spdy_Inbound
  imports Spdy_Session_Reach
begin

text \<open>
  The inbound frame of a session. \<open>iframe_inv\<close> bounds the offsets of the receive loop by the
  buffers that they index; every turn of the loop keeps it, because the handlers do not assign
  the inbound frame. It follows that no copy of received bytes leaves its buffer, that the loop
  ends, and that \<open>spdylay_session_mem_recv\<close> takes all of its input unless it fails.
\<close>

section \<open>Bounds of the inbound frame\<close>

definition iframe_nv_offset :: "spdylay_inbound_frame \<Rightarrow> nat" where
  "iframe_nv_offset f = nat (spdylay_inbound_frame_payload_nv_offset f)"

definition iframe_inv :: "spdylay_inbound_frame \<Rightarrow> bool" where
  "iframe_inv f \<longleftrightarrow> length (if_headbuf f) = SPDYLAY_HEAD_LEN \<and> if_payloadlen f < 2 ^ 24 \<and>
     (case if_state f of
        SPDYLAY_RECV_HEAD \<Rightarrow> if_headbufoff f < SPDYLAY_HEAD_LEN \<and> if_off f = 0
      | SPDYLAY_RECV_PAYLOAD \<Rightarrow> if_off f \<le> if_payloadlen f \<and>
          (spdylay_frame_is_ctrl_frame (if_headbuf f ! 0) \<longrightarrow> if_payloadlen f \<le> length (if_buf f))
      | SPDYLAY_RECV_PAYLOAD_PRE_NV \<Rightarrow> spdylay_frame_is_ctrl_frame (if_headbuf f ! 0) \<and>
          0 \<le> spdylay_inbound_frame_payload_nv_offset f \<and> if_off f < iframe_nv_offset f \<and>
          iframe_nv_offset f < if_payloadlen f \<and> iframe_nv_offset f \<le> length (if_buf f)
      | _ \<Rightarrow> if_off f \<le> if_payloadlen f)"

lemma nv_offset_simps [simp]:
  "spdylay_inbound_frame_payload_nv_offset (f\<lparr>if_state := a\<rparr>) = spdylay_inbound_frame_payload_nv_offset f"
  "spdylay_inbound_frame_payload_nv_offset (f\<lparr>if_payloadlen := n\<rparr>) = spdylay_inbound_frame_payload_nv_offset f"
  "spdylay_inbound_frame_payload_nv_offset (f\<lparr>if_error_code := e\<rparr>) = spdylay_inbound_frame_payload_nv_offset f"
  "spdylay_inbound_frame_payload_nv_offset (f\<lparr>if_buflen := n\<rparr>) = spdylay_inbound_frame_payload_nv_offset f"
  "spdylay_inbound_frame_payload_nv_offset (f\<lparr>if_buf := b\<rparr>) = spdylay_inbound_frame_payload_nv_offset f"
  "spdylay_inbound_frame_payload_nv_offset (f\<lparr>if_off := n\<rparr>) = spdylay_inbound_frame_payload_nv_offset f"
  "spdylay_inbound_frame_payload_nv_offset (f\<lparr>if_inflatebuf := ib\<rparr>) = spdylay_inbound_frame_payload_nv_offset f"
  by (simp_all add: spdylay_inbound_frame_payload_nv_offset_def)

lemma nv_offset_range:
  "spdylay_inbound_frame_payload_nv_offset f = -1 \<or>
   0 < spdylay_inbound_frame_payload_nv_offset f \<and> spdylay_inbound_frame_payload_nv_offset f < 2 ^ 16"
  by (auto simp: spdylay_inbound_frame_payload_nv_offset_def spdylay_frame_nv_offset_def Let_def)

lemma payloadlen_bound: "unat (w AND SPDYLAY_LENGTH_MASK) < 2 ^ 24"
proof -
  have "w AND SPDYLAY_LENGTH_MASK = take_bit 24 w"
    by (simp add: SPDYLAY_LENGTH_MASK_def take_bit_eq_mask mask_eq_exp_minus_1)
  then have "unat (w AND SPDYLAY_LENGTH_MASK) = take_bit 24 (unat w)" by (simp add: unsigned_take_bit_eq)
  then show ?thesis using take_bit_nat_less_exp [of 24 "unat w"] by simp
qed

section \<open>The handlers keep the inbound frame\<close>

interpretation inbound: calm_property "\<lambda>s. s_iframe s = fr" for fr
  by unfold_locales
    (auto simp: calm_def spdylay_session_open_stream_def session_malloc_def Let_def split: prod.split_asm if_splits)

lemma notify_iframe: "notify cb ev s = Some s' \<Longrightarrow> s_iframe s' = s_iframe s"
  using frame_rule.R_notify by (auto simp: keeps_streams_def keeps_fields_def)

lemma callback_iframe: "callback_effect s ans = Some s' \<Longrightarrow> s_iframe s' = s_iframe s"
  by (drule frame_rule.R_callback) (simp add: keeps_streams_def keeps_fields_def)

section \<open>A turn of the loop keeps the bounds\<close>

text \<open>An allocation that fails leaves the frame buffer too small, but then the loop is left with an error.\<close>

lemma head_done_inv:
  assumes "recv_head_done s inp = Some (RGo s' inp')" "length (if_headbuf (s_iframe s)) = 8" "if_off (s_iframe s) = 0"
  shows "iframe_inv (s_iframe s') \<and> if_state (s_iframe s') \<noteq> SPDYLAY_RECV_HEAD" "inp' = inp"
proof -
  let ?f = "s_iframe s"
  define n where "n = unat (spdylay_get_uint32 (drop 4 (if_headbuf ?f)) AND SPDYLAY_LENGTH_MASK)"
  define s1 where "s1 = put_iframe s (\<lambda>f. f\<lparr>if_state := SPDYLAY_RECV_PAYLOAD, if_payloadlen := n\<rparr>)"
  have n: "n < 2 ^ 24" unfolding n_def by (rule payloadlen_bound)
  have f1: "s_iframe s1 = ?f\<lparr>if_state := SPDYLAY_RECV_PAYLOAD, if_payloadlen := n\<rparr>"
    by (simp add: s1_def put_iframe_def)
  show "inp' = inp" using assms(1)
    by (auto simp: recv_head_done_def Let_def split: if_splits prod.split_asm)
  show "iframe_inv (s_iframe s') \<and> if_state (s_iframe s') \<noteq> SPDYLAY_RECV_HEAD"
  proof (cases "spdylay_frame_is_ctrl_frame (if_headbuf ?f ! 0)")
    case False
    then show ?thesis using assms n
      by (auto simp: recv_head_done_def Let_def n_def [symmetric] s1_def [symmetric] f1 put_iframe_def iframe_inv_def
          split: if_splits)
  next
    case ctrl: True
    obtain st er bl where pl: "ctrl_frame_plan s1 n = (st, er, bl)" by (metis prod_cases3)
    obtain r buf m where res: "spdylay_reserve_buffer (s_mem s1) (if_buf (s_iframe s1)) bl = (r, buf, m)"
      by (metis prod_cases3)
    let ?g = "(s_iframe s1)\<lparr>if_state := st, if_error_code := er, if_buflen := bl, if_buf := buf\<rparr>"
    have "recv_head_done s inp =
        (let s2 = s1\<lparr>s_iframe := ?g, s_mem := m\<rparr> in
         if r \<noteq> 0 then if r < SPDYLAY_ERR_FATAL then Some (RReturn r s2) else None else Some (RGo s2 inp))"
      using ctrl pl res unfolding recv_head_done_def Let_def n_def [symmetric] s1_def [symmetric]
      by (simp add: put_iframe_def [of s1])
    then have g: "s_iframe s' = ?g" and "r = 0"
      using assms(1) by (auto simp: Let_def split: if_splits)
    then have bl: "bl \<le> length buf" using reserve_frame_cases [OF res] by auto
    show ?thesis
      unfolding g using pl bl n ctrl assms(2,3) nv_offset_range [of "s_iframe s1"]
      by (auto simp: ctrl_frame_plan_def Let_def iframe_inv_def iframe_nv_offset_def f1 split: if_splits)
  qed
qed

lemma recv_head_inv:
  assumes "recv_head s inp = Some (RGo s' inp')" "iframe_inv (s_iframe s)"
  shows "iframe_inv (s_iframe s')" "length inp' \<le> length inp" "if_state (s_iframe s') \<noteq> SPDYLAY_RECV_HEAD"
    "if_state (s_iframe s) = SPDYLAY_RECV_HEAD \<Longrightarrow> length inp' < length inp"
    "if_state (s_iframe s) \<noteq> SPDYLAY_RECV_HEAD \<Longrightarrow> s' = s \<and> inp' = inp"
proof -
  have "iframe_inv (s_iframe s') \<and> if_state (s_iframe s') \<noteq> SPDYLAY_RECV_HEAD \<and> length inp' < length inp" if h: "if_state (s_iframe s) = SPDYLAY_RECV_HEAD"
  proof -
    define k where "k = min (SPDYLAY_HEAD_LEN - if_headbufoff (s_iframe s)) (length inp)"
    define s1 where "s1 = put_iframe s (\<lambda>f. f\<lparr>if_headbuf := memcpy_at (if_headbuf f) (if_headbufoff f) (take k inp),
      if_headbufoff := if_headbufoff f + k\<rparr>)"
    have b: "length (if_headbuf (s_iframe s)) = 8" "if_headbufoff (s_iframe s) < 8" "if_off (s_iframe s) = 0"
      using assms(2) h by (auto simp: iframe_inv_def)
    have k: "if_headbufoff (s_iframe s) + k \<le> 8" "k \<le> length inp" using b by (auto simp: k_def)
    have f1: "length (if_headbuf (s_iframe s1)) = 8" "if_off (s_iframe s1) = 0"
      using b k by (simp_all add: s1_def put_iframe_def)
    have "inp \<noteq> []" using assms(1) h by (auto simp: recv_head_def)
    moreover have "recv_head_done s1 (drop k inp) = Some (RGo s' inp')"
      using assms(1) h unfolding recv_head_def Let_def k_def [symmetric] s1_def [symmetric]
      by (auto split: if_splits)
    ultimately show ?thesis
      using head_done_inv [OF _ f1, of "drop k inp" s' inp'] b by (simp add: k_def)
  qed
  then show "iframe_inv (s_iframe s')" "length inp' \<le> length inp" "if_state (s_iframe s') \<noteq> SPDYLAY_RECV_HEAD"
    "if_state (s_iframe s) = SPDYLAY_RECV_HEAD \<Longrightarrow> length inp' < length inp"
    "if_state (s_iframe s) \<noteq> SPDYLAY_RECV_HEAD \<Longrightarrow> s' = s \<and> inp' = inp"
    using assms by (cases "if_state (s_iframe s) = SPDYLAY_RECV_HEAD"; auto simp: recv_head_def)+
qed

lemma recv_head_break:
  assumes "recv_head s inp = Some (RBreak s' rest)" "iframe_inv (s_iframe s)"
  shows "iframe_inv (s_iframe s')" "rest = []"
proof -
  have h: "if_state (s_iframe s) = SPDYLAY_RECV_HEAD"
    using assms(1) by (cases "if_state (s_iframe s) = SPDYLAY_RECV_HEAD") (auto simp: recv_head_def)
  then have b: "length (if_headbuf (s_iframe s)) = 8" "if_headbufoff (s_iframe s) < 8" "if_off (s_iframe s) = 0"
    using assms(2) by (auto simp: iframe_inv_def)
  have "\<not> recv_head_done t inp' = Some (RBreak s' rest)" for t inp'
    by (auto simp: recv_head_done_def Let_def split: prod.splits if_splits)
  with assms b h show "iframe_inv (s_iframe s')" "rest = []"
    by (auto simp: recv_head_def Let_def put_iframe_def iframe_inv_def min_def split: if_splits)
qed

section \<open>No copy leaves its buffer\<close>

text \<open>The part of the payload before the header block.\<close>

lemma pre_nv_inv:
  assumes inv: "iframe_inv (s_iframe s)" "if_state (s_iframe s) \<noteq> SPDYLAY_RECV_HEAD"
    and n: "n = min (length inp) (if_payloadlen (s_iframe s) - if_off (s_iframe s))"
  obtains s1 k where "recv_pre_nv s inp n = Some (s1, drop k inp, n - k)" "k \<le> n"
    "iframe_inv (s_iframe s1)" "if_off (s_iframe s1) = if_off (s_iframe s) + k"
    "if_payloadlen (s_iframe s1) = if_payloadlen (s_iframe s)" "if_state (s_iframe s1) \<noteq> SPDYLAY_RECV_HEAD"
    "if_state (s_iframe s1) = SPDYLAY_RECV_PAYLOAD_PRE_NV \<Longrightarrow> k = n"
proof (cases "if_state (s_iframe s) = SPDYLAY_RECV_PAYLOAD_PRE_NV")
  case False
  then show ?thesis using inv that [of s 0] by (simp add: recv_pre_nv_def)
next
  case True
  let ?f = "s_iframe s"
  define p where "p = iframe_nv_offset ?f"
  have b: "if_off ?f < p" "p < if_payloadlen ?f" "p \<le> length (if_buf ?f)" "length (if_headbuf ?f) = 8"
      "0 \<le> spdylay_inbound_frame_payload_nv_offset ?f" "spdylay_frame_is_ctrl_frame (if_headbuf ?f ! 0)"
      "if_payloadlen ?f < 2 ^ 24"
    using inv(1) True by (auto simp: iframe_inv_def p_def)
  have p: "nat (spdylay_inbound_frame_payload_nv_offset ?f mod int SIZE_MAX1) = p"
    using nv_offset_range [of ?f] b(5) by (simp add: p_def iframe_nv_offset_def SIZE_MAX1_def)
  define k where "k = min (p - if_off ?f) n"
  have k: "if_off ?f + k \<le> p" "k \<le> n" "k \<le> length inp" using b(1) n by (auto simp: k_def)
  define f1 where "f1 = ?f\<lparr>if_buf := memcpy_at (if_buf ?f) (if_off ?f) (take k inp), if_off := if_off ?f + k\<rparr>"
  define g where "g = (if if_off ?f + k = p then f1\<lparr>if_state := SPDYLAY_RECV_PAYLOAD_NV\<rparr> else f1)"
  have "size_sub p (if_off ?f) = p - if_off ?f" using b(1) by simp
  then have e: "recv_pre_nv s inp n = Some (s\<lparr>s_iframe := g\<rparr>, drop k inp, n - k)"
    using True b(3) k
    by (simp add: recv_pre_nv_def Let_def p k_def [symmetric] buffer_payload_def put_iframe_def g_def f1_def)
  have "length (memcpy_at (if_buf ?f) (if_off ?f) (take k inp)) = length (if_buf ?f)" using b k by simp
  then have g: "iframe_inv g"
    using b k p_def True by (auto simp: iframe_inv_def iframe_nv_offset_def g_def f1_def)
  have "if_off g = if_off ?f + k" "if_payloadlen g = if_payloadlen ?f" "if_state g \<noteq> SPDYLAY_RECV_HEAD"
      "if_state g = SPDYLAY_RECV_PAYLOAD_PRE_NV \<Longrightarrow> if_off ?f + k \<noteq> p"
    using True by (auto simp: g_def f1_def)
  then show ?thesis
    by (intro that [of "s\<lparr>s_iframe := g\<rparr>" k]) (use e g k b(1) in \<open>auto simp: k_def min_def\<close>)
qed

text \<open>The chunk behind it: what is buffered fits, and nothing else of the frame changes.\<close>

lemma chunk_in_bounds:
  assumes "iframe_inv (s_iframe s)" "if_state (s_iframe s) \<noteq> SPDYLAY_RECV_HEAD"
    "length ch \<le> if_payloadlen (s_iframe s) - if_off (s_iframe s)"
    "if_state (s_iframe s) = SPDYLAY_RECV_PAYLOAD_PRE_NV \<Longrightarrow> ch = []"
    "if_state (s_iframe s) \<noteq> SPDYLAY_RECV_PAYLOAD_NV" "if_state (s_iframe s) \<noteq> SPDYLAY_RECV_PAYLOAD_IGN" "iframe_is_ctrl s"
  shows "buffer_payload s ch \<noteq> None"
  using assms
  by (cases "if_state (s_iframe s)") (auto simp: iframe_inv_def buffer_payload_def iframe_is_ctrl_def)

definition same_iframe :: "spdylay_inbound_frame \<Rightarrow> spdylay_inbound_frame \<Rightarrow> bool" where
  "same_iframe f g \<longleftrightarrow> if_state g = if_state f \<and> if_headbuf g = if_headbuf f \<and> if_headbufoff g = if_headbufoff f \<and>
     if_payloadlen g = if_payloadlen f \<and> if_off g = if_off f \<and> length (if_buf g) = length (if_buf f)"

lemma same_iframe_refl [simp]: "same_iframe f f"
  by (simp add: same_iframe_def)

lemma same_iframe_nv_offset:
  "same_iframe f g \<Longrightarrow> spdylay_inbound_frame_payload_nv_offset g = spdylay_inbound_frame_payload_nv_offset f"
  by (simp add: same_iframe_def spdylay_inbound_frame_payload_nv_offset_def)

lemma recv_nv_iframe:
  assumes "recv_nv zl s ch = Some s'"
  shows "same_iframe (s_iframe s) (s_iframe s')"
proof (cases "if_error_code (s_iframe s) = 0 \<or> if_error_code (s_iframe s) = SPDYLAY_ERR_FRAME_TOO_LARGE")
  case True
  then obtain d z b m where "s' = (let s1 = (put_iframe s (\<lambda>f. f\<lparr>if_inflatebuf := b\<rparr>))\<lparr>s_hd_inflater := z, s_mem := m\<rparr> in
      if d < 0 then put_iframe s1 (\<lambda>f. f\<lparr>if_error_code := d\<rparr>)
      else if spdylay_buffer_length b > unat (s_max_recv_ctrl_frame_buf s1)
      then put_iframe s1 (\<lambda>f. f\<lparr>if_error_code := SPDYLAY_ERR_FRAME_TOO_LARGE\<rparr>) else s1)"
    using assms by (auto simp: recv_nv_def Let_def bind_eq_Some_conv)
  then show ?thesis by (simp add: Let_def put_iframe_def same_iframe_def)
qed (use assms in \<open>simp add: recv_nv_def Let_def\<close>)

lemma chunk_same:
  assumes "recv_chunk zl cb s ch = Some s'"
  shows "same_iframe (s_iframe s) (s_iframe s')"
proof -
  have "same_iframe (s_iframe s) (s_iframe t)" if "buffer_payload s ch = Some t" for t
    using that by (auto simp: buffer_payload_def put_iframe_def same_iframe_def split: if_splits)
  then show ?thesis using assms
    by (auto simp: recv_chunk_def Let_def split: if_splits dest: recv_nv_iframe notify_iframe)
qed

lemma chunk_inv:
  assumes "recv_chunk zl cb s ch = Some s'" "iframe_inv (s_iframe s)" "if_state (s_iframe s) \<noteq> SPDYLAY_RECV_HEAD"
    "k \<le> if_payloadlen (s_iframe s) - if_off (s_iframe s)"
    "if_state (s_iframe s) = SPDYLAY_RECV_PAYLOAD_PRE_NV \<Longrightarrow> k = 0"
  shows "iframe_inv ((s_iframe s')\<lparr>if_off := if_off (s_iframe s') + k\<rparr>)"
  using assms(2-) same_iframe_nv_offset [OF chunk_same [OF assms(1)]] chunk_same [OF assms(1)]
  by (cases "if_state (s_iframe s)") (auto simp: iframe_inv_def same_iframe_def iframe_nv_offset_def)

section \<open>A turn of the loop\<close>

lemma flow_control_iframe:
  "session_inv s \<Longrightarrow> recv_flow_control s n = (r, s') \<Longrightarrow> s_iframe s' = s_iframe s"
  using inbound.both.I_flow_control [of s n r s' "s_iframe s"] by simp

lemma process_iframe:
  "session_inv s \<Longrightarrow> spdylay_session_process_ctrl_frame cb s = Some (r, s') \<Longrightarrow> s_iframe s' = s_iframe s"
  "session_inv s \<Longrightarrow> spdylay_session_process_data_frame cb s = Some (r, s') \<Longrightarrow> s_iframe s' = s_iframe s"
  using inbound.both.I_process_ctrl [of cb s r s' "s_iframe s"] inbound.both.I_process_data [of cb s r s' "s_iframe s"]
  by simp_all

lemma reset_inv:
  "length (if_headbuf f) = 8 \<Longrightarrow> iframe_inv (spdylay_inbound_frame_reset f)"
  "if_state (spdylay_inbound_frame_reset f) = SPDYLAY_RECV_HEAD"
  by (simp_all add: iframe_inv_def spdylay_inbound_frame_reset_def)

text \<open>
  What a turn that goes on leaves behind, from a frame whose header is complete: the bounds hold
  and the input got shorter, or a frame without payload was finished.
\<close>

lemma recv_payload_inv:
  assumes run: "recv_payload zl cb s inp = Some p" and inv: "session_inv s" "iframe_inv (s_iframe s)"
    "if_state (s_iframe s) \<noteq> SPDYLAY_RECV_HEAD"
  shows "case p of RBreak s' rest \<Rightarrow> iframe_inv (s_iframe s') \<and> rest = []
    | RNext s' rest \<Rightarrow> iframe_inv (s_iframe s') \<and> length rest \<le> length inp \<and>
        (length rest < length inp \<or> if_state (s_iframe s') = SPDYLAY_RECV_HEAD)
    | RReturn r s' \<Rightarrow> r < 0 | RGo _ _ \<Rightarrow> False"
proof -
  let ?f = "s_iframe s"
  have le: "if_off ?f \<le> if_payloadlen ?f" and len: "if_payloadlen ?f < 2 ^ 24" "length (if_headbuf ?f) = 8"
    using inv(2,3) by (auto simp: iframe_inv_def split: spdylay_inbound_state.splits)
  then have rem: "size_sub (if_payloadlen ?f) (if_off ?f) = if_payloadlen ?f - if_off ?f" by simp
  show ?thesis
  proof (cases "if_off ?f < if_payloadlen ?f \<and> inp = []")
    case True
    then have "p = RBreak s inp" using run by (simp add: recv_payload_def rem)
    then show ?thesis using True inv(2) by simp
  next
    case False
    define n where "n = min (length inp) (if_payloadlen ?f - if_off ?f)"
    obtain s1 k j where pre: "recv_pre_nv s inp n = Some (s1, drop k inp, j)" "j + k = n"
        and f1: "iframe_inv (s_iframe s1)" "if_off (s_iframe s1) = if_off ?f + k"
          "if_payloadlen (s_iframe s1) = if_payloadlen ?f" "if_state (s_iframe s1) \<noteq> SPDYLAY_RECV_HEAD"
          "if_state (s_iframe s1) = SPDYLAY_RECV_PAYLOAD_PRE_NV \<Longrightarrow> j = 0"
      using pre_nv_inv [OF inv(2,3) n_def] by (metis diff_self_eq_0 le_add_diff_inverse2)
    obtain s2 where ch: "recv_chunk zl cb s1 (take j (drop k inp)) = Some s2"
      using run False pre by (auto simp: recv_payload_def Let_def rem n_def [symmetric] bind_eq_Some_conv)
    define s3 where "s3 = put_iframe s2 (\<lambda>f. f\<lparr>if_off := if_off f + j\<rparr>)"
    obtain r s4 where fc: "recv_flow_control s3 j = (r, s4)" by fastforce
    have i2: "session_inv s2" using session.I_chunk [OF ch session.I_pre_nv [OF pre(1) inv(1)]] .
    then have i3: "session_inv s3" and i4: "session_inv s4"
      using session.I_iframe session.I_flow_control [OF fc] by (auto simp: s3_def)
    have "j \<le> if_payloadlen (s_iframe s1) - if_off (s_iframe s1)" using f1(2,3) pre(2) by (auto simp: n_def)
    then have f3: "iframe_inv (s_iframe s3)"
      unfolding s3_def put_iframe_def using chunk_inv [OF ch f1(1,4)] f1(5) by simp
    have f4: "s_iframe s4 = s_iframe s3" using flow_control_iframe [OF i3 fc] .
    have hb: "length (if_headbuf (s_iframe s3)) = 8" using f3 by (simp add: iframe_inv_def)
    have off: "if_off (s_iframe s3) = if_off ?f + n" "if_payloadlen (s_iframe s3) = if_payloadlen ?f"
      using chunk_same [OF ch] f1(2,3) pre(2) by (auto simp: same_iframe_def s3_def put_iframe_def)
    have "n = 0 \<Longrightarrow> if_payloadlen (s_iframe s3) = if_off (s_iframe s3)"
      using False le off by (auto simp: n_def min_def split: if_splits)
    then have prog: "length (drop n inp) < length inp \<or> if_payloadlen (s_iframe s3) = if_off (s_iframe s3)"
      by (cases "n = 0") (auto simp: n_def)
    have proc: "s_iframe s5 = s_iframe s4" if "(if iframe_is_ctrl s4 then spdylay_session_process_ctrl_frame cb s4
        else spdylay_session_process_data_frame cb s4) = Some (q, s5)" for q s5
      using that process_iframe [OF i4] by (auto split: if_splits)
    have "recv_payload zl cb s inp =
        (if r < 0 then if r < SPDYLAY_ERR_FATAL then Some (RReturn r s4) else None
         else if if_payloadlen (s_iframe s4) = if_off (s_iframe s4) then
           Option.bind (if iframe_is_ctrl s4 then spdylay_session_process_ctrl_frame cb s4
             else spdylay_session_process_data_frame cb s4) (\<lambda>(r, s5).
               if r < 0 then if r < SPDYLAY_ERR_FATAL then Some (RReturn r s5) else None
               else Some (RNext (put_iframe s5 spdylay_inbound_frame_reset) (drop j (drop k inp))))
         else Some (RNext s4 (drop j (drop k inp))))"
      using False pre(1) ch fc by (auto simp: recv_payload_def Let_def rem n_def [symmetric] s3_def [symmetric])
    with run proc f3 f4 hb prog pre(2) show ?thesis
      by (auto simp: bind_eq_Some_conv put_iframe_def reset_inv split: if_splits)
  qed
qed

text \<open>The input left, and one for a frame that is under way.\<close>

definition recv_measure :: "('z, 'u) spdylay_session \<Rightarrow> bytes \<Rightarrow> nat" where
  "recv_measure s inp = 2 * length inp + (if if_state (s_iframe s) = SPDYLAY_RECV_HEAD then 0 else 1)"

lemma recv_measure_le: "recv_measure s inp \<le> 2 * length inp + 1"
  by (simp add: recv_measure_def)

lemma recv_step_inv:
  assumes run: "recv_step zl cb s inp = Some p" and inv: "session_inv s" "iframe_inv (s_iframe s)"
  shows "case p of RBreak s' rest \<Rightarrow> iframe_inv (s_iframe s') \<and> rest = []
    | RNext s' rest \<Rightarrow> iframe_inv (s_iframe s') \<and> recv_measure s' rest < recv_measure s inp
    | RReturn r s' \<Rightarrow> r < 0 | RGo _ _ \<Rightarrow> False"
proof -
  obtain q where q: "recv_head s inp = Some q" using run by (auto simp: recv_step_def bind_eq_Some_conv)
  show ?thesis
  proof (cases q)
    case (RBreak s1 rest)
    then show ?thesis using run q recv_head_break [OF _ inv(2), of inp s1 rest] by (auto simp: recv_step_def)
  next
    case (RReturn r s1)
    then have "r < 0" using q
      by (auto simp: recv_head_def recv_head_done_def Let_def split: if_splits prod.split_asm)
    then show ?thesis using run q RReturn by (auto simp: recv_step_def)
  next
    case (RNext s1 rest)
    then show ?thesis using q
      by (auto simp: recv_head_def recv_head_done_def Let_def split: if_splits prod.split_asm)
  next
    case (RGo s1 inp1)
    note h = recv_head_inv [OF q [unfolded RGo] inv(2)]
    have s1: "session_inv s1" using session.I_recv_head [OF q inv(1)] RGo by simp
    have "recv_payload zl cb s1 inp1 = Some p" using run q RGo by (simp add: recv_step_def)
    from recv_payload_inv [OF this s1 h(1,3)] h(2,4,5) show ?thesis
      by (cases p; cases "if_state (s_iframe s) = SPDYLAY_RECV_HEAD") (auto simp: recv_measure_def)
  qed
qed

section \<open>Copies into the buffers\<close>

lemma recv_head_total:
  assumes "iframe_inv (s_iframe s)"
  shows "recv_head s inp \<noteq> None"
proof -
  have "recv_head_done t i \<noteq> None" for t :: "('z, 'u) spdylay_session" and i
    unfolding recv_head_done_def
    by (auto simp: Let_def split: prod.split elim!: reserve_buffer_cases)
  moreover have "if_state (s_iframe s) = SPDYLAY_RECV_HEAD \<Longrightarrow> if_headbufoff (s_iframe s) \<le> 8"
    using assms by (simp add: iframe_inv_def)
  ultimately show ?thesis by (auto simp: recv_head_def Let_def)
qed

lemma payload_copies:
  assumes "iframe_inv (s_iframe s)" "if_state (s_iframe s) \<noteq> SPDYLAY_RECV_HEAD"
  shows "\<exists>s2 rest n. recv_pre_nv s inp (min (length inp) (if_payloadlen (s_iframe s) - if_off (s_iframe s))) =
      Some (s2, rest, n) \<and>
    (iframe_is_ctrl s2 \<and> if_state (s_iframe s2) \<noteq> SPDYLAY_RECV_PAYLOAD_NV \<and>
     if_state (s_iframe s2) \<noteq> SPDYLAY_RECV_PAYLOAD_IGN \<longrightarrow> buffer_payload s2 (take n rest) \<noteq> None)"
proof -
  define n where "n = min (length inp) (if_payloadlen (s_iframe s) - if_off (s_iframe s))"
  obtain s1 k where k: "recv_pre_nv s inp n = Some (s1, drop k inp, n - k)" "k \<le> n"
    "iframe_inv (s_iframe s1)" "if_off (s_iframe s1) = if_off (s_iframe s) + k"
    "if_payloadlen (s_iframe s1) = if_payloadlen (s_iframe s)" "if_state (s_iframe s1) \<noteq> SPDYLAY_RECV_HEAD"
    "if_state (s_iframe s1) = SPDYLAY_RECV_PAYLOAD_PRE_NV \<Longrightarrow> k = n"
    using pre_nv_inv [OF assms n_def] by metis
  have "length (take (n - k) (drop k inp)) \<le> if_payloadlen (s_iframe s1) - if_off (s_iframe s1)"
    using k(2,4,5) by (auto simp: n_def)
  with chunk_in_bounds [OF k(3,6) this] k(1,7) show ?thesis unfolding n_def [symmetric] by auto
qed

section \<open>The receive loop ends and takes its input\<close>

text \<open>A turn that goes on; the loop makes a finite number of them.\<close>

definition recv_turn :: "'z zlib \<Rightarrow> ('z, 'u) spdylay_session_callbacks \<Rightarrow>
    ('z, 'u) spdylay_session \<times> bytes \<Rightarrow> ('z, 'u) spdylay_session \<times> bytes \<Rightarrow> bool" where
  "recv_turn zl cb a b \<longleftrightarrow> recv_step zl cb (fst a) (snd a) = Some (RNext (fst b) (snd b))"

lemma mem_recv_loop_ends:
  assumes "session_inv s" "iframe_inv (s_iframe s)" "mem_recv_loop zl cb s inp = None"
  shows "\<exists>k t rest. k \<le> recv_measure s inp \<and> (recv_turn zl cb ^^ k) (s, inp) (t, rest) \<and> recv_step zl cb t rest = None"
  using assms
proof (induction "recv_measure s inp" arbitrary: s inp rule: less_induct)
  case less
  show ?case
  proof (cases "recv_step zl cb s inp")
    case (Some p)
    note i = recv_step_inv [OF Some less.prems(1,2)]
    from i less.prems(3) Some obtain s' rest where p: "p = RNext s' rest"
      by (cases p) (auto simp: mem_recv_loop.simps)
    then have "mem_recv_loop zl cb s' rest = None" using less.prems(3) Some by (subst (asm) mem_recv_loop.simps) simp
    moreover have "session_inv s'" using session.I_recv_step [OF Some less.prems(1)] p by simp
    ultimately obtain k t u where k: "k \<le> recv_measure s' rest" "(recv_turn zl cb ^^ k) (s', rest) (t, u)"
        "recv_step zl cb t u = None"
      using less.hyps [of s' rest] i p by auto
    moreover have "recv_turn zl cb (s, inp) (s', rest)" using Some p by (simp add: recv_turn_def)
    ultimately have "(recv_turn zl cb ^^ Suc k) (s, inp) (t, u)" by (metis relpowp_Suc_I2)
    moreover have "Suc k \<le> recv_measure s inp" using k(1) i p by simp
    ultimately show ?thesis using k(3) by blast
  qed (intro exI [of _ 0], simp)
qed

lemma mem_recv_loop_consumes:
  assumes "session_inv s" "iframe_inv (s_iframe s)" "mem_recv_loop zl cb s inp = Some (res, s')"
  shows "case res of Inl r \<Rightarrow> r < 0 | Inr rest \<Rightarrow> rest = [] \<and> iframe_inv (s_iframe s')"
  using assms
proof (induction "recv_measure s inp" arbitrary: s inp rule: less_induct)
  case less
  obtain p where p: "recv_step zl cb s inp = Some p"
    using less.prems(3) by (subst (asm) mem_recv_loop.simps) (auto simp: bind_eq_Some_conv)
  note i = recv_step_inv [OF p less.prems(1,2)]
  show ?case
  proof (cases p)
    case (RNext s1 rest)
    have "session_inv s1" using session.I_recv_step [OF p less.prems(1)] RNext by simp
    moreover have "mem_recv_loop zl cb s1 rest = Some (res, s')"
      using less.prems(3) p RNext by (subst (asm) mem_recv_loop.simps) simp
    ultimately show ?thesis using less.hyps [of s1 rest] i RNext by auto
  qed (use i p less.prems(3) in \<open>auto simp: mem_recv_loop.simps\<close>)
qed

section \<open>Live sessions\<close>

text \<open>
  A session that was constructed, used, and received from without an error so far, at any turn of
  the receive loop. An error of a receive function is fatal and ends the use of a session.
\<close>

inductive session_live :: "'z zlib \<Rightarrow> ('z, 'u) spdylay_session \<Rightarrow> bool" for zl :: "'z zlib" where
  client: "spdylay_session_client_new zl m version ud = (Inr s, m') \<Longrightarrow> session_live zl s"
| server: "spdylay_session_server_new zl m version ud = (Inr s, m') \<Longrightarrow> session_live zl s"
| calls: "session_live zl s \<Longrightarrow> callback_effect s answer = Some s' \<Longrightarrow> session_live zl s'"
| send: "session_live zl s \<Longrightarrow> spdylay_session_send zl cb s = Some (r, s') \<Longrightarrow> session_live zl s'"
| turn: "session_live zl s \<Longrightarrow> recv_step zl cb s inp = Some (RNext s' rest) \<Longrightarrow> session_live zl s'"
| wait: "session_live zl s \<Longrightarrow> recv_step zl cb s inp = Some (RBreak s' rest) \<Longrightarrow> session_live zl s'"

lemma new_iframe_inv:
  "spdylay_session_new zl m v ud cl hc = (Inr s, m') \<Longrightarrow> iframe_inv (s_iframe s)"
  by (auto simp: spdylay_session_new_def Let_def iframe_inv_def spdylay_inbound_frame_reset_def
      split: prod.split_asm option.split_asm if_splits)

lemma live_inv: "session_live zl s \<Longrightarrow> session_inv s \<and> iframe_inv (s_iframe s)"
proof (induction rule: session_live.induct)
  case (client m version ud s m')
  then have "iframe_inv (s_iframe s)"
    by (auto simp: spdylay_session_client_new_def split: prod.split_asm sum.split_asm dest: new_iframe_inv)
  with client_new_inv [OF client] show ?case ..
next
  case (server m version ud s m')
  then have "iframe_inv (s_iframe s)"
    by (auto simp: spdylay_session_server_new_def split: prod.split_asm sum.split_asm dest: new_iframe_inv)
  with server_new_inv [OF server] show ?case ..
next
  case (calls s answer s')
  then show ?case using session.I_callback callback_iframe by metis
next
  case (send s cb r s')
  then show ?case using inbound.both.I_send [of zl cb s r s' "s_iframe s"] by simp
next
  case (turn s cb inp s' rest)
  then show ?case using recv_step_inv [of zl cb s inp "RNext s' rest"] session.I_recv_step [of zl cb s inp] by fastforce
next
  case (wait s cb inp s' rest)
  then show ?case using recv_step_inv [of zl cb s inp "RBreak s' rest"] session.I_recv_step [of zl cb s inp] by fastforce
qed

text \<open>A receive that succeeds leaves a live session.\<close>

lemma mem_recv_live:
  assumes "mem_recv_loop zl cb s inp = Some (Inr rest, s')" "session_live zl s"
  shows "session_live zl s'"
  using assms
proof (induction "recv_measure s inp" arbitrary: s inp rule: less_induct)
  case less
  obtain p where p: "recv_step zl cb s inp = Some p"
    using less.prems(1) by (subst (asm) mem_recv_loop.simps) (auto simp: bind_eq_Some_conv)
  show ?case
  proof (cases p)
    case (RNext s1 rest1)
    have "mem_recv_loop zl cb s1 rest1 = Some (Inr rest, s')"
      using less.prems(1) p RNext by (subst (asm) mem_recv_loop.simps) simp
    moreover have "recv_measure s1 rest1 < recv_measure s inp"
      using recv_step_inv [OF p] live_inv [OF less.prems(2)] RNext by simp
    ultimately show ?thesis using less.hyps session_live.turn [OF less.prems(2) p [unfolded RNext]] by blast
  next
    case (RBreak s1 rest1)
    then show ?thesis
      using p less.prems session_live.wait [of zl s cb inp s1 rest1] by (auto simp: mem_recv_loop.simps)
  qed (use p less.prems(1) in \<open>auto simp: mem_recv_loop.simps\<close>)
qed

end
