(* ===== verification/Spdy_Fixtures.thy ===== *)
theory Spdy_Fixtures
  imports Spdy_Inbound Spdy_Gzip Spdy_NPN
begin

text \<open>
  Concrete instances on which the properties are exercised: a zlib that stores its input, an
  application whose callbacks do nothing, and fresh client and server sessions.
\<close>

section \<open>A zlib that stores\<close>

definition stored_zlib :: "unit zlib" where
  "stored_zlib =
     \<lparr>z_deflateInit2 = (\<lambda>_. Some ()), z_deflateSetDictionary = (\<lambda>_ _. Some ()),
      z_deflate = (\<lambda>_ inp n. (Z_OK, take n inp, ())), z_deflateBound = (\<lambda>_ n. n),
      z_inflateInit = Some (), z_inflateSetDictionary = (\<lambda>_ _. Some ()),
      z_inflate = (\<lambda>_ inp n. (Z_OK, min n (length inp), take n inp, ()))\<rparr>"

lemma stored_zlib_bounds: "zlib_bounds stored_zlib"
  by (simp add: zlib_bounds_def stored_zlib_def)

section \<open>An application that does nothing\<close>

definition quiet_callbacks :: "('z, 'u) spdylay_session_callbacks" where
  "quiet_callbacks =
     \<lparr>cb_send = (\<lambda>s bs. (int (length bs), s_user_data s, [])),
      cb_recv = (\<lambda>s n. ((SPDYLAY_ERR_WOULDBLOCK, []), s_user_data s, [])),
      cb_read = (\<lambda>s i n src. ((0, [], True, src), s_user_data s, [])),
      cb_event = (\<lambda>s ev. (s_user_data s, [])),
      cb_get_credential_ncerts = None, cb_get_credential_proof = None, cb_get_credential_cert = None\<rparr>"

section \<open>Fresh sessions\<close>

definition demo_client :: "(unit, unit) spdylay_session" where
  "demo_client = projr (fst (spdylay_session_client_new stored_zlib good_mem SPDYLAY_PROTO_SPDY3 ()))"

definition demo_server :: "(unit, unit) spdylay_session" where
  "demo_server = projr (fst (spdylay_session_server_new stored_zlib good_mem SPDYLAY_PROTO_SPDY3 ()))"

text \<open>Evaluating the constructors: every allocation succeeds, so there is a session.\<close>

lemmas new_session_eval = spdylay_session_new_def stored_zlib_def good_mem_def malloc_def
  spdylay_zlib_deflate_hd_init_def spdylay_zlib_inflate_hd_init_def spdylay_select_hd_dict_def
  spdylay_pq_init_def spdylay_client_cert_vector_init_def SPDYLAY_PROTO_SPDY2_def SPDYLAY_PROTO_SPDY3_def
  SPDYLAY_INITIAL_CLIENT_CERT_VECTOR_LENGTH_def

lemma demo_client_new:
  "spdylay_session_client_new stored_zlib good_mem SPDYLAY_PROTO_SPDY3 () = (Inr demo_client, good_mem\<lparr>mem_next := 7\<rparr>)"
  unfolding demo_client_def by (simp add: spdylay_session_client_new_def new_session_eval Let_def)

lemma demo_server_new:
  "spdylay_session_server_new stored_zlib good_mem SPDYLAY_PROTO_SPDY3 () = (Inr demo_server, good_mem\<lparr>mem_next := 6\<rparr>)"
  unfolding demo_server_def by (simp add: spdylay_session_server_new_def new_session_eval Let_def)

lemma demo_reach: "session_reach stored_zlib demo_client" "session_reach stored_zlib demo_server"
  using demo_client_new demo_server_new by (auto intro: session_reach.client session_reach.server)

lemma demo_live: "session_live stored_zlib demo_client" "session_live stored_zlib demo_server"
  using demo_client_new demo_server_new by (auto intro: session_live.client session_live.server)

lemma demo_client_simps [simp]:
  "s_version demo_client = SPDYLAY_PROTO_SPDY3" "\<not> s_server demo_client" "s_next_stream_id demo_client = 1"
  "s_last_recv_stream_id demo_client = 0" "s_streams demo_client = spdylay_map_init"
  "s_goaway_flags demo_client = 0" "s_flow_control demo_client" "s_opt_flags demo_client = 0"
  "s_next_unique_id demo_client = 1" "s_last_ping_unique_id demo_client = 0" "s_next_seq demo_client = 0"
  "s_num_outgoing_streams demo_client = 0" "s_num_incoming_streams demo_client = 0"
  unfolding demo_client_def
  by (simp_all add: spdylay_session_client_new_def new_session_eval Let_def)

lemma demo_server_simps [simp]:
  "s_version demo_server = SPDYLAY_PROTO_SPDY3" "s_server demo_server" "s_next_stream_id demo_server = 2"
  "s_last_recv_stream_id demo_server = 0" "s_streams demo_server = spdylay_map_init"
  "s_goaway_flags demo_server = 0" "s_flow_control demo_server" "s_opt_flags demo_server = 0"
  "s_next_unique_id demo_server = 2" "s_last_ping_unique_id demo_server = 0" "s_next_seq demo_server = 0"
  "s_num_outgoing_streams demo_server = 0" "s_num_incoming_streams demo_server = 0"
  unfolding demo_server_def
  by (simp_all add: spdylay_session_server_new_def new_session_eval Let_def)

lemma demo_iframe:
  "if_state (s_iframe demo_client) = SPDYLAY_RECV_HEAD" "if_headbufoff (s_iframe demo_client) = 0"
  "if_state (s_iframe demo_server) = SPDYLAY_RECV_HEAD" "if_headbufoff (s_iframe demo_server) = 0"
  unfolding demo_client_def demo_server_def
  by (simp_all add: spdylay_session_client_new_def spdylay_session_server_new_def new_session_eval Let_def
      spdylay_inbound_frame_reset_def)

text \<open>Three bytes of a frame header: the loop takes them and waits.\<close>

lemma demo_recv_part:
  "\<exists>s'. spdylay_session_mem_recv stored_zlib quiet_callbacks demo_client [0x80, 3, 0] = Some (3, s')"
proof -
  obtain s' where "recv_step stored_zlib quiet_callbacks demo_client [0x80, 3, 0] = Some (RBreak s' [])"
    by (simp add: recv_step_def recv_head_def Let_def demo_iframe put_iframe_def)
  then show ?thesis by (simp add: spdylay_session_mem_recv_def mem_recv_loop.simps)
qed

lemma fail_session_goaway:
  "s_goaway_flags (snd (spdylay_session_fail_session s c)) = s_goaway_flags s OR SPDYLAY_GOAWAY_FAIL_ON_SEND"
  using goaway_rule.R_add_goaway [of "s\<lparr>s_goaway_flags := s_goaway_flags s OR SPDYLAY_GOAWAY_FAIL_ON_SEND\<rparr>"
      "s_last_recv_stream_id s" c]
  by (simp add: spdylay_session_fail_session_def spdylay_submit_goaway_def prod_eq_iff)

lemma demo_no_stream [simp]:
  "spdylay_session_get_stream demo_client i = None" "spdylay_session_get_stream demo_server i = None"
  by (simp_all add: spdylay_session_get_stream_def treap.find_init)

end
