(* ===== verification/Spdy_Lifecycle.thy ===== *)
theory Spdy_Lifecycle
  imports Spdy_Fixtures
begin

text \<open>
  The life of a stream: how it enters and leaves the table, which SYN_STREAM of the peer opens
  one and which is refused, and what a PING, a GOAWAY and a failure do to the session. Callbacks
  are arbitrary; what they can change is bounded by the frame rule of \<open>Spdy_Submit\<close>.
\<close>

section \<open>The table\<close>

lemma session_malloc_ok:
  "mem_ok (s_mem s) (mem_next (s_mem s)) \<Longrightarrow> \<exists>m. session_malloc s = (True, s\<lparr>s_mem := m\<rparr>)"
  by (auto simp: session_malloc_def malloc_def)

lemma open_stream_fresh:
  assumes inv: "map_inv (s_streams s)" and new: "spdylay_session_get_stream s i = None"
    and mem: "mem_ok (s_mem s) (mem_next (s_mem s))"
  obtains s' where "spdylay_session_open_stream s i fl p st0 ud = (True, s')"
    "map_inv (s_streams s')"
    "\<And>k. spdylay_session_get_stream s' k = (if k = i
       then Some (spdylay_stream_init i fl p st0 (s_remote_settings s ! SPDYLAY_SETTINGS_INITIAL_WINDOW_SIZE) ud)
       else spdylay_session_get_stream s k)"
    "s_num_outgoing_streams s' = s_num_outgoing_streams s + (if spdylay_session_is_my_stream_id s i then 1 else 0)"
    "s_num_incoming_streams s' = s_num_incoming_streams s + (if spdylay_session_is_my_stream_id s i then 0 else 1)"
    "s_last_recv_stream_id s' = s_last_recv_stream_id s" "s_goaway_flags s' = s_goaway_flags s"
    "s_ob_pq s' = s_ob_pq s" "s_ob_ss_pq s' = s_ob_ss_pq s" "s_server s' = s_server s"
proof -
  obtain m where m: "session_malloc s = (True, s\<lparr>s_mem := m\<rparr>)" using session_malloc_ok [OF mem] by blast
  let ?st = "spdylay_stream_init i fl p st0 (s_remote_settings s ! SPDYLAY_SETTINGS_INITIAL_WINDOW_SIZE) ud"
  have "map_get (s_streams s) i = None" using new by (simp add: spdylay_session_get_stream_def)
  then obtain t where t: "map_ins (s_streams s) i ?st = (0, t)" "map_inv t" "map_get t = (map_get (s_streams s))(i \<mapsto> ?st)"
    using treap.ins_new [OF inv, of i ?st] by blast
  show ?thesis
    by (rule that [of "(let s2 = s\<lparr>s_mem := m, s_streams := t\<rparr> in
        if spdylay_session_is_my_stream_id s2 i then s2\<lparr>s_num_outgoing_streams := s_num_outgoing_streams s2 + 1\<rparr>
        else s2\<lparr>s_num_incoming_streams := s_num_incoming_streams s2 + 1\<rparr>)"])
      (use t in \<open>auto simp: spdylay_session_open_stream_def m Let_def spdylay_session_get_stream_def
         spdylay_session_is_my_stream_id_def\<close>)
qed

lemma drop_stream_effect:
  assumes inv: "table_inv s" and st: "spdylay_session_get_stream s i = Some st"
  shows "spdylay_session_get_stream (drop_stream i s) k = (if k = i then None else spdylay_session_get_stream s k)"
    "s_num_outgoing_streams (drop_stream i s) + (if spdylay_session_is_my_stream_id s i then 1 else 0) = s_num_outgoing_streams s"
    "s_num_incoming_streams (drop_stream i s) + (if spdylay_session_is_my_stream_id s i then 0 else 1) = s_num_incoming_streams s"
proof -
  have m: "map_inv (s_streams s)" "map_get (s_streams s) i = Some st"
    using inv st by (simp_all add: table_inv_def spdylay_session_get_stream_def)
  obtain t where t: "spdylay_map_remove (s_streams s) i = (0, t)" "map_inv t"
      "map_get t = (map_get (s_streams s))(i := None)" "map_vals (s_streams s) = add_mset st (map_vals t)"
    using treap.rem_found [OF m] by blast
  show "spdylay_session_get_stream (drop_stream i s) k = (if k = i then None else spdylay_session_get_stream s k)"
    using t by (auto simp: drop_stream_def Let_def spdylay_session_get_stream_def)
  have "sm_stream_id st = i" using inv st by (simp add: table_inv_def)
  then have "0 < (if spdylay_session_is_my_stream_id s i then s_num_outgoing_streams s else s_num_incoming_streams s)"
    using inv t(4) by (simp add: table_inv_def count_ids_def)
  then show "s_num_outgoing_streams (drop_stream i s) + (if spdylay_session_is_my_stream_id s i then 1 else 0) = s_num_outgoing_streams s"
    "s_num_incoming_streams (drop_stream i s) + (if spdylay_session_is_my_stream_id s i then 0 else 1) = s_num_incoming_streams s"
    by (auto simp: drop_stream_def Let_def split: if_splits)
qed

text \<open>What the callbacks of a notification leave alone.\<close>

lemma notify_keeps: "notify cb ev s = Some s' \<Longrightarrow> keeps_streams s s'"
  by (rule frame_rule.R_notify)

lemma keeps_dom:
  assumes "keeps_streams s s'" "map_inv (s_streams s)"
  shows "spdylay_session_get_stream s' k = None \<longleftrightarrow> spdylay_session_get_stream s k = None"
  using keeps_streams_get(2) [OF assms, of k] by (auto simp: option_rel_Some1 option_rel_Some2)

lemma keeps_stream:
  assumes "keeps_streams s s'" "map_inv (s_streams s)" "spdylay_session_get_stream s k = Some st"
  obtains st' where "spdylay_session_get_stream s' k = Some st'" "same_stream st st'"
  using keeps_streams_get(2) [OF assms(1,2), of k] assms(3) by (auto simp: option_rel_Some1)

lemma keeps_counts:
  assumes "keeps_streams s s'"
  shows "s_num_outgoing_streams s' = s_num_outgoing_streams s" "s_num_incoming_streams s' = s_num_incoming_streams s"
    "s_server s' = s_server s" "s_last_recv_stream_id s' = s_last_recv_stream_id s"
    "s_next_stream_id s' = s_next_stream_id s" "s_version s' = s_version s"
    "s_remote_settings s' = s_remote_settings s" "s_flow_control s' = s_flow_control s"
  using assms by (simp_all add: keeps_streams_def keeps_fields_def)

lemma close_stream_effect:
  assumes "spdylay_session_close_stream cb s i c = Some (r, s')" "session_inv s" "spdylay_session_get_stream s i \<noteq> None"
  shows "r = 0" "spdylay_session_get_stream s' k = None \<longleftrightarrow> k = i \<or> spdylay_session_get_stream s k = None"
    "s_num_outgoing_streams s' + (if spdylay_session_is_my_stream_id s i then 1 else 0) = s_num_outgoing_streams s"
    "s_num_incoming_streams s' + (if spdylay_session_is_my_stream_id s i then 0 else 1) = s_num_incoming_streams s"
proof -
  obtain st t where st: "spdylay_session_get_stream s i = Some st"
    and t: "(if sm_state st \<noteq> SPDYLAY_STREAM_INITIAL then notify cb (OnStreamClose i c) s else Some s) = Some t"
      "r = 0" "s' = drop_stream i t"
    using assms(1,3) by (auto simp: spdylay_session_close_stream_def bind_eq_Some_conv)
  have k: "keeps_streams s t" and ti: "session_inv t"
    using t(1) notify_keeps frame_rule.R_refl session.I_notify assms(2) by (auto split: if_splits)
  note m = session_inv_parts(3) [OF assms(2)]
  obtain st' where st': "spdylay_session_get_stream t i = Some st'" using keeps_stream [OF k m st] by blast
  note d = drop_stream_effect [OF session_inv_parts(1) [OF ti] st']
  have "spdylay_session_is_my_stream_id t = spdylay_session_is_my_stream_id s"
    by (rule my_id_cong) (simp add: keeps_counts(3) [OF k])
  then show "r = 0" "spdylay_session_get_stream s' k = None \<longleftrightarrow> k = i \<or> spdylay_session_get_stream s k = None"
    "s_num_outgoing_streams s' + (if spdylay_session_is_my_stream_id s i then 1 else 0) = s_num_outgoing_streams s"
    "s_num_incoming_streams s' + (if spdylay_session_is_my_stream_id s i then 0 else 1) = s_num_incoming_streams s"
    using d t(2,3) keeps_counts(1,2) [OF k] keeps_dom [OF k m] by auto
qed

section \<open>The queues only grow\<close>

text \<open>Calls and callbacks add items to the queues and take none out.\<close>

definition queues_grow :: "('z, 'u) spdylay_session \<Rightarrow> ('z, 'u) spdylay_session \<Rightarrow> bool" where
  "queues_grow s s' \<longleftrightarrow> mset (pq_q (s_ob_pq s)) \<subseteq># mset (pq_q (s_ob_pq s')) \<and>
     mset (pq_q (s_ob_ss_pq s)) \<subseteq># mset (pq_q (s_ob_ss_pq s'))"

lemma pq_push_mset:
  assumes "spdylay_pq_push m pq x = (r, pq', m')"
  shows "mset (pq_q pq') = (if r = 0 then add_mset x (mset (pq_q pq)) else mset (pq_q pq))" "r = 0 \<or> r = SPDYLAY_ERR_NOMEM"
  using assms by (auto elim!: pq_push_cases simp: mset_bubble_up)

lemma push_ob_mset:
  "push_ob_pq s it = (r, s') \<Longrightarrow> mset (pq_q (s_ob_pq s')) = (if r = 0 then add_mset it else id) (mset (pq_q (s_ob_pq s))) \<and>
     s_ob_ss_pq s' = s_ob_ss_pq s"
  "push_ob_ss_pq s it = (r, s') \<Longrightarrow> mset (pq_q (s_ob_ss_pq s')) = (if r = 0 then add_mset it else id) (mset (pq_q (s_ob_ss_pq s))) \<and>
     s_ob_pq s' = s_ob_pq s"
  by (auto simp: push_ob_pq_def push_ob_ss_pq_def split: prod.split_asm dest: pq_push_mset(1))

lemma queues_grow_push:
  "push_ob_pq s it = (r, s') \<Longrightarrow> queues_grow s s'" "push_ob_ss_pq s it = (r, s') \<Longrightarrow> queues_grow s s'"
  by (auto simp: queues_grow_def dest!: push_ob_mset split: if_splits)

lemma queues_grow_same: "s_ob_pq s' = s_ob_pq s \<Longrightarrow> s_ob_ss_pq s' = s_ob_ss_pq s \<Longrightarrow> queues_grow s s'"
  by (simp add: queues_grow_def)

lemma queues_grow_trans: "queues_grow s t \<Longrightarrow> queues_grow t u \<Longrightarrow> queues_grow s u"
  unfolding queues_grow_def by (meson subset_mset.order_trans)

text \<open>Queueing a frame: its item has the priority of the frame and the next sequence number.\<close>

lemma add_frame_cases:
  assumes "spdylay_session_add_frame s frame aux = (r, s')"
  obtains (nomem) "r = SPDYLAY_ERR_NOMEM" "queues_grow s s'"
  | (queued) it where "r = 0" "queues_grow s s'" "oi_frame it = frame" "oi_aux_data it = aux" "oi_seq it = s_next_seq s"
      "oi_pri it = frame_pri s frame" "s_next_seq s' = s_next_seq s + 1"
      "it \<in># mset (pq_q (if is_syn_stream frame then s_ob_ss_pq s' else s_ob_pq s'))"
proof -
  obtain ok m where m: "session_malloc s = (ok, s\<lparr>s_mem := m\<rparr>)"
    by (cases "malloc (s_mem s)") (simp add: session_malloc_def)
  show ?thesis
  proof (cases ok)
    case False
    then show ?thesis using assms m that(1) by (auto simp: spdylay_session_add_frame_def queues_grow_def)
  next
    case True
    define s1 where "s1 = s\<lparr>s_mem := m\<rparr>"
    define it where "it = \<lparr>oi_frame = frame, oi_aux_data = aux, oi_pri = frame_pri s1 frame, oi_seq = s_next_seq s1\<rparr>"
    define s3 where "s3 = (case frame of CtrlFrame (FRstStream f) \<Rightarrow>
        put_stream (rs_stream_id f) (\<lambda>st. st\<lparr>sm_state := SPDYLAY_STREAM_CLOSING\<rparr>) (s1\<lparr>s_next_seq := s_next_seq s1 + 1\<rparr>)
      | _ \<Rightarrow> s1\<lparr>s_next_seq := s_next_seq s1 + 1\<rparr>)"
    have p: "frame_pri s1 frame = frame_pri s frame"
      by (auto simp: frame_pri_def s1_def stream_pri_def spdylay_session_get_stream_def spdylay_session_get_pri_lowest_def
          split: item_frame.split spdylay_frame.split)
    have "s_ob_pq s3 = s_ob_pq s" "s_ob_ss_pq s3 = s_ob_ss_pq s" "s_next_seq s3 = s_next_seq s + 1"
      by (auto simp: s3_def s1_def put_stream_def split: item_frame.split spdylay_frame.split)
    note q3 = this
    have run: "(if is_syn_stream frame then push_ob_ss_pq s3 it else push_ob_pq s3 it) = (r, s')"
      using assms m True unfolding spdylay_session_add_frame_def Let_def s1_def [symmetric]
      by (auto simp: it_def s3_def s1_def split: item_frame.splits spdylay_frame.splits)
    then have "queues_grow s3 s'" using queues_grow_push by (auto split: if_splits)
    then have g: "queues_grow s s'" using q3 by (simp add: queues_grow_def)
    have r: "r = 0 \<or> r = SPDYLAY_ERR_NOMEM" "s_next_seq s' = s_next_seq s + 1"
      using run q3(3) by (auto simp: push_ob_pq_def push_ob_ss_pq_def split: if_splits prod.split_asm dest: pq_push_mset(2))
    have "r = 0 \<Longrightarrow> it \<in># mset (pq_q (if is_syn_stream frame then s_ob_ss_pq s' else s_ob_pq s'))"
      using run by (auto split: if_splits simp del: set_mset_mset dest!: push_ob_mset)
    then show ?thesis using r g p that(1) that(2) [of it] by (auto simp: it_def s1_def)
  qed
qed

interpretation growing: api_rel queues_grow
proof (unfold_locales, goal_cases)
  case (5 frame aux s r s')
  then show ?case by (auto elim!: add_frame_cases)
next
  case (14 s i r s')
  then show ?case
    by (auto simp: spdylay_session_resume_data_def put_stream_def queues_grow_def
        split: option.split_asm if_splits prod.split_asm dest!: push_ob_mset)
qed (auto simp: queues_grow_def put_stream_def intro: subset_mset.order_trans)

text \<open>The frame waits in the queue of the frames other than SYN_STREAM.\<close>

definition queued :: "('z, 'u) spdylay_session \<Rightarrow> spdylay_frame \<Rightarrow> bool" where
  "queued s f \<longleftrightarrow> (\<exists>it\<in>set (pq_q (s_ob_pq s)). oi_frame it = CtrlFrame f)"

lemma queued_grow: "queued s f \<Longrightarrow> queues_grow s s' \<Longrightarrow> queued s' f"
  unfolding queued_def queues_grow_def by (metis mset_subset_eqD set_mset_mset)

lemma alloc_add_frame_queued:
  assumes "alloc_add_frame s f = (0, s')" "\<not> is_syn_stream (CtrlFrame f)"
  shows "queued s' f"
proof -
  obtain t where "spdylay_session_add_frame t (CtrlFrame f) NoAux = (0, s')"
    using assms(1) by (auto simp: alloc_add_frame_def split: prod.split_asm if_splits)
  then show ?thesis by (rule add_frame_cases) (use assms(2) in \<open>auto simp: queued_def\<close>)
qed

lemma alloc_add_frame_result: "alloc_add_frame s f = (r, s') \<Longrightarrow> r = 0 \<or> r = SPDYLAY_ERR_NOMEM"
  by (auto simp: alloc_add_frame_def split: prod.split_asm if_splits elim!: add_frame_cases)

lemma add_rst_stream_queued:
  "spdylay_session_add_rst_stream s i c = (0, s') \<Longrightarrow> queued s' (FRstStream (spdylay_frame_rst_stream_init (s_version s) i c))"
  unfolding spdylay_session_add_rst_stream_def by (rule alloc_add_frame_queued) simp_all

section \<open>SYN_STREAM from the peer\<close>

lemma handle_invalid_effect:
  assumes "spdylay_session_handle_invalid_stream cb s i f c = Some (r, s')"
  shows "keeps_streams s s'" "r = 0 \<Longrightarrow> queued s' (FRstStream (spdylay_frame_rst_stream_init (s_version s) i c))"
    "r = 0 \<or> r = SPDYLAY_ERR_NOMEM"
proof -
  obtain q t where t: "spdylay_session_add_rst_stream s i c = (q, t)" by fastforce
  note k = frame_rule.R_add_rst_stream [OF t]
  consider "q \<noteq> 0" "r = q" "s' = t" | "q = 0" "r = 0" "notify cb (OnInvalidCtrlRecv f c) t = Some s'"
    using assms t by (auto simp: spdylay_session_handle_invalid_stream_def split: if_splits)
  then have "keeps_streams s s' \<and> (r = 0 \<longrightarrow> queued s' (FRstStream (spdylay_frame_rst_stream_init (s_version s) i c))) \<and>
      (r = 0 \<or> r = SPDYLAY_ERR_NOMEM)"
  proof cases
    case 1
    then show ?thesis using k t alloc_add_frame_result by (auto simp: spdylay_session_add_rst_stream_def)
  next
    case 2
    then show ?thesis
      using keeps_streams_trans [OF k notify_keeps [OF 2(3)]] t add_rst_stream_queued
        queued_grow [OF _ growing.R_notify [OF 2(3)]] by blast
  qed
  then show "keeps_streams s s'" "r = 0 \<Longrightarrow> queued s' (FRstStream (spdylay_frame_rst_stream_init (s_version s) i c))"
    "r = 0 \<or> r = SPDYLAY_ERR_NOMEM" by blast+
qed

lemma shutdown_flags [simp]:
  "sm_shut_flags (spdylay_stream_shutdown fl st) = sm_shut_flags st OR fl"
  "sm_flags (spdylay_stream_shutdown fl st) = sm_flags st" "sm_pri (spdylay_stream_shutdown fl st) = sm_pri st"
  "sm_window_size (spdylay_stream_shutdown fl st) = sm_window_size st"
  "sm_state (spdylay_stream_shutdown fl st) = sm_state st"
  by (simp_all add: spdylay_stream_shutdown_def)

lemma stream_init_simps [simp]:
  "sm_flags (spdylay_stream_init i f p st0 w u) = f" "sm_pri (spdylay_stream_init i f p st0 w u) = p"
  "sm_shut_flags (spdylay_stream_init i f p st0 w u) = 0" "sm_window_size (spdylay_stream_init i f p st0 w u) = w"
  "sm_state (spdylay_stream_init i f p st0 w u) = st0" "sm_deferred_data (spdylay_stream_init i f p st0 w u) = None"
  "sm_recv_window_size (spdylay_stream_init i f p st0 w u) = 0"
  by (simp_all add: spdylay_stream_init_def)

text \<open>The stream that a SYN_STREAM asks for.\<close>

definition syn_stream_shut :: "u8 \<Rightarrow> u8" where
  "syn_stream_shut flags =
     (if flags AND SPDYLAY_CTRL_FLAG_FIN \<noteq> 0 then SPDYLAY_SHUT_RD else 0) OR
     (if flags AND SPDYLAY_CTRL_FLAG_UNIDIRECTIONAL \<noteq> 0 then SPDYLAY_SHUT_WR else 0)"

lemma accept_syn_stream_effect:
  assumes inv: "map_inv (s_streams s)" and new: "spdylay_session_get_stream s (ss_stream_id f) = None"
    and mem: "mem_ok (s_mem s) (mem_next (s_mem s))" and run: "accept_syn_stream cb s f = Some (r, s')"
    and fl: "hd_flags (ss_hd f) AND SPDYLAY_CTRL_FLAG_FIN = 0 \<or> hd_flags (ss_hd f) AND SPDYLAY_CTRL_FLAG_UNIDIRECTIONAL = 0"
    and peer: "\<not> spdylay_session_is_my_stream_id s (ss_stream_id f)"
  obtains st where "r = 0" "spdylay_session_get_stream s' (ss_stream_id f) = Some st"
    "sm_flags st = hd_flags (ss_hd f)" "sm_pri st = ss_pri f" "sm_shut_flags st = syn_stream_shut (hd_flags (ss_hd f))"
    "sm_window_size st = s_remote_settings s ! SPDYLAY_SETTINGS_INITIAL_WINDOW_SIZE"
    "s_num_incoming_streams s' = s_num_incoming_streams s + 1" "s_num_outgoing_streams s' = s_num_outgoing_streams s"
    "s_last_recv_stream_id s' = s_last_recv_stream_id s"
proof -
  define i where "i = ss_stream_id f"
  define fin where "fin \<longleftrightarrow> hd_flags (ss_hd f) AND SPDYLAY_CTRL_FLAG_FIN \<noteq> 0"
  define uni where "uni \<longleftrightarrow> hd_flags (ss_hd f) AND SPDYLAY_CTRL_FLAG_UNIDIRECTIONAL \<noteq> 0"
  obtain t where t: "spdylay_session_open_stream s i (hd_flags (ss_hd f)) (ss_pri f) SPDYLAY_STREAM_OPENING 0 = (True, t)"
    "map_inv (s_streams t)"
    "\<And>k. spdylay_session_get_stream t k = (if k = i
       then Some (spdylay_stream_init i (hd_flags (ss_hd f)) (ss_pri f) SPDYLAY_STREAM_OPENING
              (s_remote_settings s ! SPDYLAY_SETTINGS_INITIAL_WINDOW_SIZE) 0)
       else spdylay_session_get_stream s k)"
    "s_num_outgoing_streams t = s_num_outgoing_streams s + (if spdylay_session_is_my_stream_id s i then 1 else 0)"
    "s_num_incoming_streams t = s_num_incoming_streams s + (if spdylay_session_is_my_stream_id s i then 0 else 1)"
    "s_last_recv_stream_id t = s_last_recv_stream_id s"
    using open_stream_fresh [OF inv new mem] unfolding i_def by metis
  define t1 where "t1 = (if fin then put_stream i (spdylay_stream_shutdown SPDYLAY_SHUT_RD) t else t)"
  define t2 where "t2 = (if uni then put_stream i (spdylay_stream_shutdown SPDYLAY_SHUT_WR) t1 else t1)"
  have fu: "\<not> (fin \<and> uni)" using fl by (auto simp: fin_def uni_def)
  define st where "st = (if uni then spdylay_stream_shutdown SPDYLAY_SHUT_WR else id)
    ((if fin then spdylay_stream_shutdown SPDYLAY_SHUT_RD else id)
      (spdylay_stream_init i (hd_flags (ss_hd f)) (ss_pri f) SPDYLAY_STREAM_OPENING
        (s_remote_settings s ! SPDYLAY_SETTINGS_INITIAL_WINDOW_SIZE) 0))"
  have st: "spdylay_session_get_stream t2 i = Some st" "sm_flags st = hd_flags (ss_hd f)" "sm_pri st = ss_pri f"
    "sm_window_size st = s_remote_settings s ! SPDYLAY_SETTINGS_INITIAL_WINDOW_SIZE"
    using t(2,3) by (simp_all add: st_def t2_def t1_def get_put_stream map_inv_write)
  have "syn_stream_shut (hd_flags (ss_hd f)) = (if fin then SPDYLAY_SHUT_RD else 0) OR (if uni then SPDYLAY_SHUT_WR else 0)"
    by (simp add: syn_stream_shut_def fin_def uni_def)
  then have shut: "sm_shut_flags st = syn_stream_shut (hd_flags (ss_hd f))" by (simp add: st_def)
  have c: "s_num_incoming_streams t2 = s_num_incoming_streams s + 1" "s_num_outgoing_streams t2 = s_num_outgoing_streams s"
     "s_last_recv_stream_id t2 = s_last_recv_stream_id s" "map_inv (s_streams t2)"
    using t(2,4-6) peer by (auto simp: t2_def t1_def i_def map_inv_write)
  have "Option.bind (notify cb (OnCtrlRecv (FSynStream f)) t2)
      (\<lambda>s3. Option.bind (if fin then notify cb (OnRequestRecv i) s3 else Some s3) (\<lambda>s4. Some (0, s4))) = Some (r, s')"
    using run t(1) fu unfolding accept_syn_stream_def Let_def i_def [symmetric] fin_def [symmetric] uni_def [symmetric]
    by (simp add: t1_def [symmetric] t2_def [symmetric] del: SPDYLAY_SHUT_RD_def SPDYLAY_SHUT_WR_def cong: if_cong)
  then obtain t3 where n: "notify cb (OnCtrlRecv (FSynStream f)) t2 = Some t3" "r = 0"
    "(if fin then notify cb (OnRequestRecv i) t3 else Some t3) = Some s'"
    by (auto simp: bind_eq_Some_conv)
  have k: "keeps_streams t2 s'"
    using notify_keeps [OF n(1)] n(3) notify_keeps [of cb "OnRequestRecv i" t3 s'] keeps_streams_trans
    by (auto split: if_splits)
  obtain st' where st': "spdylay_session_get_stream s' i = Some st'" "same_stream st st'"
    using keeps_stream [OF k c(4) st(1)] by blast
  show ?thesis
    by (rule that [of st']) (use n(2) st shut st' c keeps_counts [OF k] in \<open>simp_all add: same_stream_def i_def\<close>)
qed

section \<open>Failing and the ping\<close>

lemma fail_session_effect:
  assumes "spdylay_session_fail_session s c = (r, s')"
  shows "keeps_streams s s'" "s_goaway_flags s' = s_goaway_flags s OR SPDYLAY_GOAWAY_FAIL_ON_SEND"
    "r = 0 \<Longrightarrow> queued s' (FGoaway (spdylay_frame_goaway_init (s_version s) (s_last_recv_stream_id s) c))"
    "r = 0 \<or> r = SPDYLAY_ERR_NOMEM"
proof -
  show "keeps_streams s s'" by (rule frame_rule.R_fail_session [OF assms])
  show "s_goaway_flags s' = s_goaway_flags s OR SPDYLAY_GOAWAY_FAIL_ON_SEND"
    using fail_session_goaway [of s c] assms by simp
  have run: "alloc_add_frame (s\<lparr>s_goaway_flags := s_goaway_flags s OR SPDYLAY_GOAWAY_FAIL_ON_SEND\<rparr>)
      (FGoaway (spdylay_frame_goaway_init (s_version s) (s_last_recv_stream_id s) c)) = (r, s')"
    using assms by (simp add: spdylay_session_fail_session_def spdylay_submit_goaway_def spdylay_session_add_goaway_def)
  show "r = 0 \<Longrightarrow> queued s' (FGoaway (spdylay_frame_goaway_init (s_version s) (s_last_recv_stream_id s) c))"
    using run alloc_add_frame_queued by fastforce
  show "r = 0 \<or> r = SPDYLAY_ERR_NOMEM" using alloc_add_frame_result [OF run] .
qed

lemma add_ping_queued:
  "spdylay_session_add_ping s u = (0, s') \<Longrightarrow> queued s' (FPing (spdylay_frame_ping_init (s_version s) u))"
  unfolding spdylay_session_add_ping_def by (rule alloc_add_frame_queued) simp_all

section \<open>A server with one stream\<close>

lemma notify_quiet [simp]: "notify quiet_callbacks ev s = Some s"
  by (simp add: notify_def callback_effect_def quiet_callbacks_def)

definition demo_busy :: "(unit, unit) spdylay_session" where
  "demo_busy = snd (spdylay_session_open_stream (demo_server\<lparr>s_last_recv_stream_id := 1\<rparr>) 1 0 0
     SPDYLAY_STREAM_OPENING 0)"

lemma demo_server_mem: "mem_ok (s_mem demo_server) n"
  unfolding demo_server_def by (simp add: spdylay_session_server_new_def new_session_eval Let_def)

lemma demo_server_settings: "s_remote_settings demo_server = [0, 0, 0, 0, 250, 0, 0, 1048576, 0]"
  unfolding demo_server_def
  by (simp add: spdylay_session_server_new_def new_session_eval Let_def SPDYLAY_INITIAL_MAX_CONCURRENT_STREAMS_def
      SPDYLAY_INITIAL_WINDOW_SIZE_def numeral_eq_Suc)

lemma demo_ids [simp]:
  "spdylay_session_is_new_peer_stream_id demo_server 1" "\<not> spdylay_session_is_my_stream_id demo_server 1"
  by (simp_all add: spdylay_session_is_new_peer_stream_id_def spdylay_session_is_my_stream_id_def rem2_def
      signed_modulo_int_def)

lemma demo_busy_open:
  "session_inv demo_busy"
  "spdylay_session_get_stream demo_busy k = (if k = 1
     then Some (spdylay_stream_init 1 0 0 SPDYLAY_STREAM_OPENING 1048576 0) else None)"
  "s_num_incoming_streams demo_busy = 1" "s_num_outgoing_streams demo_busy = 0"
  "\<not> spdylay_session_is_my_stream_id demo_busy 1"
proof -
  let ?s = "demo_server\<lparr>s_last_recv_stream_id := 1\<rparr>"
  have inv: "session_inv ?s" by (rule session_inv_last_recv [OF reach_inv [OF demo_reach(2)]]) simp
  have new: "spdylay_session_get_stream ?s 1 = None"
    using demo_no_stream(2) [of 1] by (simp add: spdylay_session_get_stream_def)
  have my: "\<not> spdylay_session_is_my_stream_id ?s 1"
    by (simp add: spdylay_session_is_my_stream_id_def rem2_def signed_modulo_int_def)
  obtain t where t: "spdylay_session_open_stream ?s 1 0 0 SPDYLAY_STREAM_OPENING 0 = (True, t)"
    "\<And>k. spdylay_session_get_stream t k = (if k = 1
       then Some (spdylay_stream_init 1 0 0 SPDYLAY_STREAM_OPENING 1048576 0) else spdylay_session_get_stream ?s k)"
    "s_num_outgoing_streams t = 0" "s_num_incoming_streams t = 1" "s_server t"
    by (rule open_stream_fresh [OF session_inv_parts(3) [OF inv] new, of 0 0 SPDYLAY_STREAM_OPENING 0])
      (use my in \<open>auto simp: demo_server_mem demo_server_settings\<close>)
  have d: "demo_busy = t" by (simp add: demo_busy_def t(1))
  have "id_ok ?s 1" using my by (simp add: id_ok_def)
  from session_inv_open [OF inv new this t(1)] show "session_inv demo_busy" by (simp add: d)
  show "spdylay_session_get_stream demo_busy k = (if k = 1
     then Some (spdylay_stream_init 1 0 0 SPDYLAY_STREAM_OPENING 1048576 0) else None)"
    using t(2) demo_no_stream(2) [of k] by (auto simp: d spdylay_session_get_stream_def)
  show "s_num_incoming_streams demo_busy = 1" "s_num_outgoing_streams demo_busy = 0" using t by (simp_all add: d)
  show "\<not> spdylay_session_is_my_stream_id demo_busy 1"
    using t(5) by (simp add: d spdylay_session_is_my_stream_id_def rem2_def signed_modulo_int_def)
qed

section \<open>Properties\<close>

text \<open>
  C7. Closing a stream that is in the table takes exactly that stream out, tells the application
  only, lowers the counter of its side by one and keeps the session invariant; for any other ID
  the call answers \<open>SPDYLAY_ERR_INVALID_ARGUMENT\<close> and changes nothing.
\<close>

theorem close_stream_exact:
  assumes "session_inv s" "spdylay_session_close_stream cb s i c = Some (r, s')"
  shows "if spdylay_session_get_stream s i = None then r = SPDYLAY_ERR_INVALID_ARGUMENT \<and> s' = s
    else r = 0 \<and> session_inv s' \<and>
      {k. spdylay_session_get_stream s' k \<noteq> None} = {k. spdylay_session_get_stream s k \<noteq> None} - {i} \<and>
      s_num_outgoing_streams s' = s_num_outgoing_streams s - (if spdylay_session_is_my_stream_id s i then 1 else 0) \<and>
      s_num_incoming_streams s' = s_num_incoming_streams s - (if spdylay_session_is_my_stream_id s i then 0 else 1)"
proof (cases "spdylay_session_get_stream s i")
  case None
  then show ?thesis using assms(2) by (simp add: spdylay_session_close_stream_def)
next
  case (Some st)
  note e = close_stream_effect [OF assms(2,1)]
  show ?thesis using e(1,3,4) e(2) session.I_close_stream [OF assms(2,1)] Some by (auto split: if_splits)
qed

theorem close_stream_exact_witness:
  "\<exists>s'. spdylay_session_close_stream quiet_callbacks demo_busy 1 0 = Some (0, s') \<and>
     {k. spdylay_session_get_stream s' k \<noteq> None} = {} \<and> s_num_incoming_streams s' = 0"
proof -
  obtain s' where s': "spdylay_session_close_stream quiet_callbacks demo_busy 1 0 = Some (0, s')"
    by (simp add: spdylay_session_close_stream_def demo_busy_open)
  have "{k. spdylay_session_get_stream s' k \<noteq> None} = {k. spdylay_session_get_stream demo_busy k \<noteq> None} - {1} \<and>
      s_num_incoming_streams s' = 0"
    using close_stream_exact [OF demo_busy_open(1) s'] by (simp add: demo_busy_open(2) [of 1] demo_busy_open(3-5))
  moreover have "{k. spdylay_session_get_stream demo_busy k \<noteq> None} = {1}" by (auto simp: demo_busy_open(2))
  ultimately show ?thesis using s' by simp
qed


text \<open>The SYN_STREAM for stream 1 that a server accepts.\<close>

definition demo_syn :: spdylay_syn_stream where
  "demo_syn = spdylay_frame_syn_stream_init SPDYLAY_PROTO_SPDY3 SPDYLAY_CTRL_FLAG_FIN 1 0 3 []"

lemma demo_syn_simps [simp]:
  "ss_stream_id demo_syn = 1" "ss_assoc_stream_id demo_syn = 0" "ss_pri demo_syn = 3"
  "ss_hd demo_syn = \<lparr>hd_version = SPDYLAY_PROTO_SPDY3, hd_type = SPDYLAY_SYN_STREAM, hd_flags = 1, hd_length = 0\<rparr>"
  by (simp_all add: demo_syn_def spdylay_frame_syn_stream_init_def)

lemma demo_server_local: "s_local_settings demo_server = [0, 0, 0, 0, 250, 0, 0, 1048576, 0]"
  unfolding demo_server_def
  by (simp add: spdylay_session_server_new_def new_session_eval Let_def SPDYLAY_INITIAL_MAX_CONCURRENT_STREAMS_def
      SPDYLAY_INITIAL_WINDOW_SIZE_def numeral_eq_Suc)

lemma demo_valid: "spdylay_session_validate_syn_stream (demo_server\<lparr>s_last_recv_stream_id := 1\<rparr>) demo_syn = 0"
  by (simp add: spdylay_session_validate_syn_stream_def spdylay_session_check_version_def
      spdylay_session_is_incoming_concurrent_streams_max_def demo_server_local)






text \<open>
  A PING of the session's version: one that answers the session's own last PING closes that
  exchange; one with an ID of the peer is answered by a PING with the same ID, queued ahead of
  every stream, or memory ran out; any other is ignored. No PING changes a stream.
\<close>

theorem ping_received:
  assumes "session_inv s" "spdylay_session_on_ping_received cb s f = Some (r, s')" "hd_version (pg_hd f) = s_version s"
    and "u = pg_unique_id f"
  shows "{k. spdylay_session_get_stream s' k \<noteq> None} = {k. spdylay_session_get_stream s k \<noteq> None} \<and>
    (if u \<noteq> 0 \<and> s_last_ping_unique_id s = u then r = 0 \<and> s_last_ping_unique_id s' = 0
     else if u \<noteq> 0 \<and> (s_server s \<longleftrightarrow> u mod 2 = 1)
     then (r = SPDYLAY_ERR_NOMEM \<or> r = 0 \<and> queued s' (FPing (spdylay_frame_ping_init (s_version s) u))) \<and>
          s_last_ping_unique_id s' = s_last_ping_unique_id s
     else r = 0 \<and> s' = s)"
proof -
  note m = session_inv_parts(3) [OF assms(1)]
  define peer where "peer \<longleftrightarrow> (s_server s \<longleftrightarrow> u mod 2 = 1)"
  have odd: "s_server s \<and> u mod 2 = 1 \<or> \<not> s_server s \<and> u mod 2 = 0 \<longleftrightarrow> peer"
    unfolding peer_def by (metis even_iff_mod_2_eq_zero odd_iff_mod_2_eq_one zero_neq_one)
  have run: "(if u = 0 then Some (0, s)
      else if s_last_ping_unique_id s = u then
        map_option (\<lambda>s1. (0, s1)) (notify cb (OnCtrlRecv (FPing f)) (s\<lparr>s_last_ping_unique_id := 0\<rparr>))
      else if peer then
        (case spdylay_session_add_ping s u of (r, s1) \<Rightarrow> map_option (\<lambda>s2. (r, s2)) (notify cb (OnCtrlRecv (FPing f)) s1))
      else Some (0, s)) = Some (r, s')"
    using assms(2) unfolding spdylay_session_on_ping_received_def Let_def assms(4) [symmetric] odd
    by (simp add: spdylay_session_check_version_def assms(3) split del: if_split)
  show ?thesis
  proof (cases "u \<noteq> 0 \<and> s_last_ping_unique_id s = u")
    case True
    then have n: "notify cb (OnCtrlRecv (FPing f)) (s\<lparr>s_last_ping_unique_id := 0\<rparr>) = Some s'" "r = 0"
      using run by auto
    note k = notify_keeps [OF n(1)]
    have "map_inv (s_streams (s\<lparr>s_last_ping_unique_id := 0\<rparr>))" using m by simp
    from keeps_dom [OF k this] k show ?thesis unfolding peer_def [symmetric] using True n(2)
      by (simp add: spdylay_session_get_stream_def keeps_streams_def keeps_fields_def)
  next
    case False
    show ?thesis
    proof (cases "u \<noteq> 0 \<and> peer")
      case True
      obtain t where t: "spdylay_session_add_ping s u = (r, t)" "notify cb (OnCtrlRecv (FPing f)) t = Some s'"
        using run False True by (auto split: prod.split_asm)
      note k = keeps_streams_trans [OF frame_rule.R_add_ping [OF t(1)] notify_keeps [OF t(2)]]
      have "r = SPDYLAY_ERR_NOMEM \<or> r = 0 \<and> queued s' (FPing (spdylay_frame_ping_init (s_version s) u))"
        using alloc_add_frame_result t(1) add_ping_queued queued_grow [OF _ growing.R_notify [OF t(2)]]
        unfolding spdylay_session_add_ping_def by blast
      then show ?thesis unfolding peer_def [symmetric] using False True keeps_dom [OF k m] k by (simp add: keeps_streams_def keeps_fields_def)
    next
      case False': False
      then have "r = 0 \<and> s' = s"
        using run False by (auto split: if_splits)
      then show ?thesis unfolding peer_def [symmetric] using False False' by auto
    qed
  qed
qed

theorem ping_received_witness:
  "\<exists>r s'. spdylay_session_on_ping_received quiet_callbacks demo_server (spdylay_frame_ping_init SPDYLAY_PROTO_SPDY3 7) = Some (r, s') \<and>
     (r = SPDYLAY_ERR_NOMEM \<or> r = 0 \<and> queued s' (FPing (spdylay_frame_ping_init SPDYLAY_PROTO_SPDY3 7)))"
proof -
  let ?f = "spdylay_frame_ping_init SPDYLAY_PROTO_SPDY3 7"
  have f: "hd_version (pg_hd ?f) = s_version demo_server" "7 = pg_unique_id ?f" by (simp_all add: spdylay_frame_ping_init_def)
  obtain r s' where s': "spdylay_session_on_ping_received quiet_callbacks demo_server ?f = Some (r, s')"
    using f by (cases "spdylay_session_add_ping demo_server 7")
      (auto simp: spdylay_session_on_ping_received_def spdylay_session_check_version_def Let_def)
  from ping_received [OF reach_inv [OF demo_reach(2)] s' f] s' show ?thesis by simp
qed

text \<open>With memory at hand every frame is queued.\<close>

definition mem_plenty :: "('z, 'u) spdylay_session \<Rightarrow> bool" where
  "mem_plenty s \<longleftrightarrow> (\<forall>n. mem_ok (s_mem s) n)"

lemma push_ob_plenty:
  assumes "mem_plenty s"
  shows "\<exists>s'. push_ob_pq s it = (0, s') \<and> mem_plenty s'" "\<exists>s'. push_ob_ss_pq s it = (0, s') \<and> mem_plenty s'"
  using assms by (auto simp: push_ob_pq_def push_ob_ss_pq_def spdylay_pq_push_def malloc_def mem_plenty_def Let_def)

lemma malloc_plenty: "mem_plenty s \<Longrightarrow> \<exists>m. session_malloc s = (True, s\<lparr>s_mem := m\<rparr>) \<and> mem_plenty (s\<lparr>s_mem := m\<rparr>)"
  by (auto simp: session_malloc_def malloc_def mem_plenty_def)

lemma add_frame_plenty:
  assumes "mem_plenty s"
  shows "\<exists>s'. spdylay_session_add_frame s frame aux = (0, s') \<and> mem_plenty s'"
proof -
  obtain m where m: "session_malloc s = (True, s\<lparr>s_mem := m\<rparr>)" "mem_plenty (s\<lparr>s_mem := m\<rparr>)"
    using malloc_plenty [OF assms] by blast
  have p: "mem_plenty (put_stream i f (t :: ('a, 'b) spdylay_session)) = mem_plenty t"
    "mem_plenty (t\<lparr>s_next_seq := n\<rparr>) = mem_plenty t" for i f n and t :: "('a, 'b) spdylay_session"
    by (simp_all add: mem_plenty_def put_stream_def)
  show ?thesis unfolding spdylay_session_add_frame_def Let_def
    using m by (auto simp: p split: item_frame.split spdylay_frame.split intro!: push_ob_plenty)
qed

lemma alloc_add_frame_plenty:
  assumes "mem_plenty s"
  shows "\<exists>s'. alloc_add_frame s f = (0, s') \<and> mem_plenty s'"
  using malloc_plenty [OF assms] add_frame_plenty by (fastforce simp: alloc_add_frame_def)

lemma demo_plenty: "mem_plenty demo_client" "mem_plenty demo_server"
  unfolding demo_client_def demo_server_def
  by (simp_all add: spdylay_session_client_new_def spdylay_session_server_new_def new_session_eval Let_def mem_plenty_def)

text \<open>
  On a session without streams \<open>spdylay_session_fail_session\<close> queues a GOAWAY that is never
  sent by a program that follows the documentation: \<open>spdylay_session_want_write\<close> and
  \<open>spdylay_session_want_read\<close> both say no, so the connection is dropped with the frame in the queue.
\<close>

theorem fail_session_goaway_unsent:
  assumes "session_inv s" "spdylay_map_size (s_streams s) = 0" "spdylay_session_fail_session s c = (0, s')"
  shows "queued s' (FGoaway (spdylay_frame_goaway_init (s_version s) (s_last_recv_stream_id s) c)) \<and>
    \<not> spdylay_session_want_write s' \<and> \<not> spdylay_session_want_read s'"
proof -
  note e = fail_session_effect [OF assms(3)]
  have inv: "session_inv s'" by (rule session.I_fail_session [OF assms(3,1)])
  have "s_num_outgoing_streams s' + s_num_incoming_streams s' = s_num_outgoing_streams s + s_num_incoming_streams s"
    using keeps_counts [OF e(1)] by simp
  then have z: "spdylay_map_size (s_streams s') = 0"
    using table_inv_counts [OF session_inv_parts(1) [OF assms(1)]] table_inv_counts [OF session_inv_parts(1) [OF inv]] assms(2) by simp
  have "s_goaway_flags s' AND 4 = 4" unfolding e(2) by (simp add: word_ao_absorbs)
  then have "s_goaway_flags s' \<noteq> 0" by auto
  then show ?thesis using e(3) z by (simp add: spdylay_session_want_write_def spdylay_session_want_read_def)
qed

theorem fail_session_goaway_unsent_witness:
  "\<exists>s'. spdylay_session_fail_session demo_client 1 = (0, s') \<and> pq_q (s_ob_pq s') \<noteq> [] \<and> \<not> spdylay_session_want_write s'"
proof -
  obtain s' where s': "spdylay_session_fail_session demo_client 1 = (0, s')"
    using alloc_add_frame_plenty [of "demo_client\<lparr>s_goaway_flags := 4\<rparr>"
        "FGoaway (spdylay_frame_goaway_init SPDYLAY_PROTO_SPDY3 0 1)"] demo_plenty(1)
    by (auto simp: spdylay_session_fail_session_def spdylay_submit_goaway_def spdylay_session_add_goaway_def mem_plenty_def)
  have "spdylay_map_size (s_streams demo_client) = 0" by (simp add: spdylay_map_size_def spdylay_map_init_def)
  from fail_session_goaway_unsent [OF reach_inv [OF demo_reach(1)] this s'] show ?thesis using s' by (auto simp: queued_def)
qed

section \<open>Which frame is next\<close>

lemma queue_items:
  assumes "session_inv s"
  shows "pq_inv spdylay_outbound_item_compar (s_ob_pq s)" "pq_inv spdylay_outbound_item_compar (s_ob_ss_pq s)"
    "\<And>it. it \<in> set (pq_q (s_ob_pq s)) \<Longrightarrow> \<not> is_syn_stream (oi_frame it)"
    "\<And>it. it \<in> set (pq_q (s_ob_ss_pq s)) \<Longrightarrow> is_syn_stream (oi_frame it)"
  using session_inv_parts(2) [OF assms] by (auto simp: queue_inv_alt ob_pq_ok_def ob_ss_pq_ok_def)

lemma pq_top_min:
  assumes "pq_inv spdylay_outbound_item_compar pq" "spdylay_pq_top pq = Some it"
  shows "it \<in># mset (pq_q pq)" "x \<in># mset (pq_q pq) \<Longrightarrow> oi_pri it < oi_pri x \<or> oi_pri it = oi_pri x \<and> oi_seq it \<le> oi_seq x"
    "mset (pq_q (spdylay_pq_pop pq)) = mset (pq_q pq) - {#it#}"
proof -
  show "it \<in># mset (pq_q pq)" "mset (pq_q (spdylay_pq_pop pq)) = mset (pq_q pq) - {#it#}"
    using item_order.heap_pq.top_min [OF assms] item_order.heap_pq.pop_top [OF assms(2)] by auto
  show "oi_pri it < oi_pri x \<or> oi_pri it = oi_pri x \<and> oi_seq it \<le> oi_seq x" if "x \<in># mset (pq_q pq)"
    using item_order.heap_pq.top_min [OF assms] that item_compar_le by auto
qed

text \<open>A client with a SYN_STREAM and a PING to send whose peer allows no stream.\<close>

lemma demo_two_queues:
  obtains s :: "(unit, unit) spdylay_session" where "session_inv s" "pq_q (s_ob_pq s) \<noteq> []" "pq_q (s_ob_ss_pq s) \<noteq> []"
    "spdylay_session_is_outgoing_concurrent_streams_max s"
proof -
  obtain s1 where s1: "spdylay_session_add_frame demo_client (CtrlFrame (FSynStream demo_syn)) (SynStreamAux None 0) = (0, s1)"
    "mem_plenty s1"
    using add_frame_plenty [OF demo_plenty(1)] by blast
  have ok: "frame_aux_ok (CtrlFrame (FSynStream demo_syn)) (SynStreamAux None 0)"
    by (simp add: demo_syn_def spdylay_frame_syn_stream_init_def)
  obtain s2 where s2: "spdylay_session_add_ping s1 1 = (0, s2)"
    using alloc_add_frame_plenty [OF s1(2)] by (fastforce simp: spdylay_session_add_ping_def)
  have inv: "session_inv s2"
    using session.R_add_frame [OF ok s1(1)] session.R_add_ping [OF s2] reach_inv [OF demo_reach(1)] by blast
  have "pq_q (s_ob_ss_pq s1) \<noteq> []" by (rule add_frame_cases [OF s1(1)]) auto
  then have ss: "pq_q (s_ob_ss_pq s2) \<noteq> []" using growing.R_add_ping [OF s2] by (auto simp: queues_grow_def)
  have pg: "pq_q (s_ob_pq s2) \<noteq> []" using add_ping_queued [OF s2] by (auto simp: queued_def)
  have "session_inv (s2\<lparr>s_remote_settings := replicate 9 0\<rparr>)"
    using inv by (intro session_inv_assign(14)) (auto simp: session_inv_def queue_inv_alt)
  then show ?thesis
    by (rule that) (use ss pg in \<open>simp_all add: spdylay_session_is_outgoing_concurrent_streams_max_def\<close>)
qed

text \<open>
  The item taken out for sending is the first of its queue, by priority and then by age, and
  exactly this item leaves the queues. It is a SYN_STREAM exactly when the queue of the SYN_STREAM
  frames had an item.
\<close>

theorem pop_next_takes_first:
  assumes "session_inv s" "spdylay_session_pop_next_ob_item s = (Some it, s')"
    and "Q = (if pq_q (s_ob_ss_pq s) = [] then s_ob_pq s else s_ob_ss_pq s)"
  shows "it \<in># mset (pq_q Q) \<and>
    (\<forall>x\<in>#mset (pq_q Q). oi_pri it < oi_pri x \<or> oi_pri it = oi_pri x \<and> oi_seq it \<le> oi_seq x) \<and>
    is_syn_stream (oi_frame it) = (pq_q (s_ob_ss_pq s) \<noteq> []) \<and>
    mset (pq_q (s_ob_pq s')) + mset (pq_q (s_ob_ss_pq s')) = mset (pq_q (s_ob_pq s)) + mset (pq_q (s_ob_ss_pq s)) - {#it#}"
proof -
  note q = queue_items [OF assms(1)]
  have top: "spdylay_pq_top pq = None \<longleftrightarrow> pq_q pq = []" for pq :: "spdylay_outbound_item spdylay_pq"
    using item_order.heap_pq.top_none [of pq] by simp
  have c: "spdylay_pq_top Q = Some it" "pq_inv spdylay_outbound_item_compar Q"
    "s' = (if pq_q (s_ob_ss_pq s) = [] then s\<lparr>s_ob_pq := spdylay_pq_pop Q\<rparr> else s\<lparr>s_ob_ss_pq := spdylay_pq_pop Q\<rparr>)"
    using assms(2) q(1,2) top [of "s_ob_ss_pq s"] unfolding assms(3)
    by (auto simp: spdylay_session_pop_next_ob_item_def split: option.split_asm if_splits)
  note t = pq_top_min [OF c(2,1)]
  have "is_syn_stream (oi_frame it) = (pq_q (s_ob_ss_pq s) \<noteq> [])" using t(1) q(3,4) unfolding assms(3) by (auto split: if_splits)
  moreover have "mset (pq_q (s_ob_pq s')) + mset (pq_q (s_ob_ss_pq s')) = mset (pq_q (s_ob_pq s)) + mset (pq_q (s_ob_ss_pq s)) - {#it#}"
    using t(1,3) unfolding c(3) assms(3) by (auto split: if_splits)
  ultimately show ?thesis using t(1,2) by blast
qed

theorem pop_next_takes_first_witness:
  "\<exists>(s :: (unit, unit) spdylay_session) it. fst (spdylay_session_pop_next_ob_item s) = Some it \<and> is_syn_stream (oi_frame it) \<and>
     pq_q (s_ob_pq s) \<noteq> []"
proof -
  obtain s :: "(unit, unit) spdylay_session" where s: "session_inv s" "pq_q (s_ob_pq s) \<noteq> []" "pq_q (s_ob_ss_pq s) \<noteq> []"
    using demo_two_queues by blast
  obtain it s' where it: "spdylay_session_pop_next_ob_item s = (Some it, s')"
    using s(2,3) by (auto simp: spdylay_session_pop_next_ob_item_def spdylay_pq_top_def split: option.splits list.splits)
  with pop_next_takes_first [OF s(1) it refl] s have "is_syn_stream (oi_frame it)" by simp
  then show ?thesis using it s(2) by (intro exI [of _ s] exI [of _ it]) simp
qed

text \<open>
  \<open>spdylay_session_pop_next_ob_item\<close> does not take the item that
  \<open>spdylay_session_get_next_ob_item\<close> announces: with frames in both queues and the limit on
  concurrent streams reached, the former takes a SYN_STREAM out and the latter returns a frame of
  another type.
\<close>

theorem pop_next_ignores_limit:
  assumes "session_inv s" "pq_q (s_ob_pq s) \<noteq> []" "pq_q (s_ob_ss_pq s) \<noteq> []"
    and "spdylay_session_is_outgoing_concurrent_streams_max s"
  shows "\<exists>it it'. spdylay_session_get_next_ob_item s = Some it \<and> \<not> is_syn_stream (oi_frame it) \<and>
    fst (spdylay_session_pop_next_ob_item s) = Some it' \<and> is_syn_stream (oi_frame it')"
proof -
  note q = queue_items [OF assms(1)]
  obtain a b where "spdylay_pq_top (s_ob_pq s) = Some a" "spdylay_pq_top (s_ob_ss_pq s) = Some b"
    using assms(2,3) item_order.heap_pq.top_none by (metis mset_zero_iff not_Some_eq)
  moreover from this have "a \<in> set (pq_q (s_ob_pq s))" "b \<in> set (pq_q (s_ob_ss_pq s))"
    using pq_top_min(1) [OF q(1)] pq_top_min(1) [OF q(2)] by auto
  ultimately show ?thesis using q(3,4) assms(4)
    by (auto simp: spdylay_session_get_next_ob_item_def spdylay_session_pop_next_ob_item_def)
qed

theorem pop_next_ignores_limit_witness:
  "\<exists>(s :: (unit, unit) spdylay_session) it. spdylay_session_is_outgoing_concurrent_streams_max s \<and>
     fst (spdylay_session_pop_next_ob_item s) = Some it \<and> is_syn_stream (oi_frame it)"
proof -
  obtain s :: "(unit, unit) spdylay_session" where s: "session_inv s" "pq_q (s_ob_pq s) \<noteq> []" "pq_q (s_ob_ss_pq s) \<noteq> []"
      "spdylay_session_is_outgoing_concurrent_streams_max s"
    using demo_two_queues by blast
  from pop_next_ignores_limit [OF s] s(4) show ?thesis by blast
qed

end
