(* ===== verification/Spdy_Flow.thy ===== *)
theory Spdy_Flow
  imports Spdy_Lifecycle
begin

text \<open>
  Flow control in both directions: how WINDOW_UPDATE and SETTINGS move the send window of a
  stream, how much a data frame may carry and what it looks like on the wire, and how received
  bytes are given back to the peer.
\<close>

section \<open>Signed sums\<close>

lemma sint_i32_range: "- (2 ^ 31) \<le> sint (w :: i32)" "sint (w :: i32) < 2 ^ 31"
  using uint_bounded [of w] order_trans [OF _ uint_ge_0, of "- 2147483648" w] by (simp_all add: sint_i32)

lemma sint_add_no_overflow:
  fixes a b :: i32
  assumes "sint a + sint b \<le> INT32_MAX" "0 \<le> sint b"
  shows "sint (a + b) = sint a + sint b"
proof -
  have r: "- (2 ^ 31) \<le> sint a + sint b" "sint a + sint b < 2 ^ 31"
    using assms sint_i32_range [of a] by auto
  have "sint (a + b) = sint (word_of_int (sint a + sint b) :: i32)" by simp
  also have "\<dots> = signed_take_bit 31 (sint a + sint b)" by (simp add: sint_sbintrunc' del: of_int_add)
  finally show ?thesis using r by (simp add: signed_take_bit_int_eq_self)
qed

section \<open>WINDOW_UPDATE\<close>

lemma release_deferred_effect:
  assumes "release_deferred s i = (r, s')" "session_inv s" "spdylay_session_get_stream s i = Some st"
  obtains st' where "spdylay_session_get_stream s' i = Some st'" "sm_window_size st' = sm_window_size st"
    "r = 0 \<or> r = SPDYLAY_ERR_NOMEM" "queues_grow s s'" "map_inv (s_streams s')" "s_version s' = s_version s"
    "\<And>it. r = 0 \<Longrightarrow> sm_deferred_data st = Some it \<Longrightarrow> 0 < sint (sm_window_size st) \<Longrightarrow>
       sm_deferred_flags st AND SPDYLAY_DEFERRED_FLOW_CONTROL \<noteq> 0 \<Longrightarrow> it \<in> set (pq_q (s_ob_pq s'))"
proof -
  note m = session_inv_parts(3) [OF assms(2)]
  show ?thesis
  proof (cases "\<exists>it. sm_deferred_data st = Some it \<and> 0 < sint (sm_window_size st) \<and>
      sm_deferred_flags st AND SPDYLAY_DEFERRED_FLOW_CONTROL \<noteq> 0")
    case False
    then have "r = 0" "s' = s" using assms(1,3) by (auto simp: release_deferred_def split: option.split_asm if_splits)
    then show ?thesis using that assms(3) m False queues_grow_same [of s s] by auto
  next
    case True
    then obtain it s1 where it: "sm_deferred_data st = Some it" "push_ob_pq s it = (r, s1)"
      "s' = (if r = 0 then put_stream i spdylay_stream_detach_deferred_data s1 else s1)"
      using assms(1,3) by (auto simp: release_deferred_def split: prod.split_asm)
    have s1: "s_streams s1 = s_streams s" "s_version s1 = s_version s" "r = 0 \<or> r = SPDYLAY_ERR_NOMEM"
      "r = 0 \<Longrightarrow> it \<in># mset (pq_q (s_ob_pq s1))"
      using it(2) push_ob_mset(1) [OF it(2)]
      by (auto simp: push_ob_pq_def simp del: set_mset_mset split: prod.split_asm dest!: pq_push_mset(2))
    then have g: "spdylay_session_get_stream s1 i = Some st" "map_inv (s_streams s1)"
      using assms(3) m by (simp_all add: spdylay_session_get_stream_def)
    have "queues_grow s s'"
      using queues_grow_push(1) [OF it(2)] by (simp add: it(3) queues_grow_def put_stream_def)
    then show ?thesis
      using s1 g it(1,3) that [of "if r = 0 then spdylay_stream_detach_deferred_data st else st"]
      by (auto simp: get_put_stream map_inv_write spdylay_stream_detach_deferred_data_def)
  qed
qed

text \<open>
  C10. A WINDOW_UPDATE for a stream of the table: the send window grows by exactly the amount of
  the frame, as an integer, and data that waited for the window is queued again once the window is
  positive; an amount that would take the window past \<open>2 ^ 31 - 1\<close> leaves it and is answered by a
  RST_STREAM of status FLOW_CONTROL_ERROR.
\<close>

theorem window_update_received:
  assumes "session_inv s" "spdylay_session_on_window_update_received cb s f = Some (r, s')"
    and "hd_version (wu_hd f) = s_version s" "s_flow_control s" "0 \<le> sint (wu_delta_window_size f)"
    and "spdylay_session_get_stream s (wu_stream_id f) = Some st"
  shows "\<exists>st'. spdylay_session_get_stream s' (wu_stream_id f) = Some st' \<and> (r = 0 \<or> r = SPDYLAY_ERR_NOMEM) \<and>
    (if INT32_MAX < sint (sm_window_size st) + sint (wu_delta_window_size f)
     then sm_window_size st' = sm_window_size st \<and> (r = 0 \<longrightarrow>
       queued s' (FRstStream (spdylay_frame_rst_stream_init (s_version s) (wu_stream_id f) SPDYLAY_FLOW_CONTROL_ERROR)))
     else sint (sm_window_size st') = sint (sm_window_size st) + sint (wu_delta_window_size f) \<and>
       (\<forall>it. r = 0 \<and> sm_deferred_data st = Some it \<and> 0 < sint (sm_window_size st') \<and>
          sm_deferred_flags st AND SPDYLAY_DEFERRED_FLOW_CONTROL \<noteq> 0 \<longrightarrow> it \<in> set (pq_q (s_ob_pq s'))))"
proof (cases "INT32_MAX < sint (sm_window_size st) + sint (wu_delta_window_size f)")
  case True
  have run: "spdylay_session_handle_invalid_stream cb s (wu_stream_id f) (FWindowUpdate f) SPDYLAY_FLOW_CONTROL_ERROR = Some (r, s')"
    using assms(2-4,6) True by (simp add: spdylay_session_on_window_update_received_def spdylay_session_check_version_def)
  note e = handle_invalid_effect [OF run]
  obtain st' where "spdylay_session_get_stream s' (wu_stream_id f) = Some st'" "same_stream st st'"
    using keeps_stream [OF e(1) session_inv_parts(3) [OF assms(1)] assms(6)] by blast
  then show ?thesis using e(2,3) True by (auto simp: same_stream_def)
next
  case False
  let ?i = "wu_stream_id f"
  define g where "g = (\<lambda>st :: spdylay_stream. st\<lparr>sm_window_size := sm_window_size st + wu_delta_window_size f\<rparr>)"
  define s1 where "s1 = put_stream ?i g s"
  have inv1: "session_inv s1" unfolding s1_def g_def by (rule session_inv_gentle [OF assms(1)]) simp
  have st1: "spdylay_session_get_stream s1 ?i = Some (g st)"
    using assms(6) by (simp add: s1_def get_put_stream [OF session_inv_parts(3) [OF assms(1)]])
  have w: "sint (sm_window_size (g st)) = sint (sm_window_size st) + sint (wu_delta_window_size f)"
    using False sint_add_no_overflow [of "sm_window_size st" "wu_delta_window_size f"] assms(5) by (simp add: g_def)
  obtain q s2 where q: "release_deferred s1 ?i = (q, s2)" by fastforce
  have run: "(if q < 0 then if q < SPDYLAY_ERR_FATAL then Some (q, s2) else None
      else map_option (\<lambda>s3. (0, s3)) (notify cb (OnCtrlRecv (FWindowUpdate f)) s2)) = Some (r, s')"
    using assms(2-4,6) False q unfolding spdylay_session_on_window_update_received_def Let_def
    by (simp add: spdylay_session_check_version_def g_def [symmetric] s1_def [symmetric])
  obtain st2 where e: "spdylay_session_get_stream s2 ?i = Some st2" "sm_window_size st2 = sm_window_size (g st)"
    "q = 0 \<or> q = SPDYLAY_ERR_NOMEM" "map_inv (s_streams s2)"
    "\<And>it. q = 0 \<Longrightarrow> sm_deferred_data (g st) = Some it \<Longrightarrow> 0 < sint (sm_window_size (g st)) \<Longrightarrow>
       sm_deferred_flags (g st) AND SPDYLAY_DEFERRED_FLOW_CONTROL \<noteq> 0 \<Longrightarrow> it \<in> set (pq_q (s_ob_pq s2))"
    using release_deferred_effect [OF q inv1 st1] by metis
  have d: "sm_deferred_data (g st) = sm_deferred_data st" "sm_deferred_flags (g st) = sm_deferred_flags st"
    by (simp_all add: g_def)
  show ?thesis
  proof (cases "q = 0")
    case True
    then have n: "notify cb (OnCtrlRecv (FWindowUpdate f)) s2 = Some s'" "r = 0" using run by auto
    obtain st' where st': "spdylay_session_get_stream s' ?i = Some st'" "same_stream st2 st'"
      using keeps_stream [OF notify_keeps [OF n(1)] e(4,1)] by blast
    have "set (pq_q (s_ob_pq s2)) \<subseteq> set (pq_q (s_ob_pq s'))"
      using growing.R_notify [OF n(1)] by (metis queues_grow_def set_mset_mono set_mset_mset)
    then show ?thesis using st' n(2) e(2,5) True False w d by (auto simp: same_stream_def)
  next
    case q0: False
    then have "r = q" "s' = s2" using run e(3) by auto
    then show ?thesis using e q0 False w by auto
  qed
qed

lemma demo_busy_fields: "s_version demo_busy = SPDYLAY_PROTO_SPDY3" "s_flow_control demo_busy" "mem_plenty demo_busy"
  "s_local_settings demo_busy = [0, 0, 0, 0, 250, 0, 0, 1048576, 0]" "s_opt_flags demo_busy = 0"
  "s_remote_settings demo_busy = [0, 0, 0, 0, 250, 0, 0, 1048576, 0]"
  using demo_plenty(2) demo_server_local demo_server_settings
  by (auto simp: demo_busy_def spdylay_session_open_stream_def session_malloc_def malloc_def mem_plenty_def Let_def
      split: prod.split)

theorem window_update_received_witness:
  "\<exists>r s' st'. spdylay_session_on_window_update_received quiet_callbacks demo_busy
       (spdylay_frame_window_update_init SPDYLAY_PROTO_SPDY3 1 1000) = Some (r, s') \<and>
     spdylay_session_get_stream s' 1 = Some st' \<and> sint (sm_window_size st') = 1049576"
proof -
  let ?f = "spdylay_frame_window_update_init SPDYLAY_PROTO_SPDY3 1 1000"
  have f: "hd_version (wu_hd ?f) = s_version demo_busy" "s_flow_control demo_busy" "0 \<le> sint (wu_delta_window_size ?f)"
    "spdylay_session_get_stream demo_busy (wu_stream_id ?f) =
       Some (spdylay_stream_init 1 0 0 SPDYLAY_STREAM_OPENING 1048576 0)"
    by (simp_all add: spdylay_frame_window_update_init_def demo_busy_fields demo_busy_open)
  have "spdylay_session_on_window_update_received quiet_callbacks demo_busy ?f \<noteq> None"
    using f session_inv_parts(3) [OF demo_busy_open(1)]
    by (auto simp: spdylay_session_on_window_update_received_def spdylay_session_check_version_def Let_def
        release_deferred_def get_put_stream spdylay_frame_window_update_init_def split: prod.split)
  then obtain r s' where s': "spdylay_session_on_window_update_received quiet_callbacks demo_busy ?f = Some (r, s')" by auto
  from window_update_received [OF demo_busy_open(1) s' f] s' show ?thesis
    by (auto simp: spdylay_frame_window_update_init_def)
qed

section \<open>Received data\<close>

lemma push_ob_streams:
  "push_ob_pq s it = (r, s') \<Longrightarrow> s_streams s' = s_streams s" "push_ob_ss_pq s it = (r, s') \<Longrightarrow> s_streams s' = s_streams s"
  by (auto simp: push_ob_pq_def push_ob_ss_pq_def split: prod.split_asm)

lemma add_frame_streams:
  assumes "spdylay_session_add_frame s frame aux = (r, s')" "\<And>f. frame \<noteq> CtrlFrame (FRstStream f)"
  shows "s_streams s' = s_streams s"
proof -
  have "s_streams t = s_streams s" if "session_malloc s = (ok, t)" for ok t
    using that by (auto simp: session_malloc_def split: prod.split_asm)
  then show ?thesis using assms unfolding spdylay_session_add_frame_def Let_def
    by (auto split: prod.split_asm if_splits item_frame.split_asm spdylay_frame.split_asm dest!: push_ob_streams)
qed

lemma alloc_add_frame_streams:
  assumes "alloc_add_frame s f = (r, s')" "\<And>g. f \<noteq> FRstStream g"
  shows "s_streams s' = s_streams s"
proof -
  have "s_streams t = s_streams s" if "session_malloc s = (ok, t)" for ok t
    using that by (auto simp: session_malloc_def split: prod.split_asm)
  then show ?thesis using assms
    by (auto simp: alloc_add_frame_def split: prod.split_asm if_splits dest!: add_frame_streams)
qed

lemma add_window_update_effect:
  assumes "spdylay_session_add_window_update s i d = (q, s')"
  shows "q = 0 \<or> q = SPDYLAY_ERR_NOMEM" "s_streams s' = s_streams s"
    "q = 0 \<Longrightarrow> queued s' (FWindowUpdate (spdylay_frame_window_update_init (s_version s) i d))"
  using assms alloc_add_frame_result alloc_add_frame_streams alloc_add_frame_queued
  by (fastforce simp: spdylay_session_add_window_update_def)+

text \<open>
  C18. Received bytes are counted without overflow: the count saturates at \<open>2 ^ 31 - 1\<close>, and once
  it is at least half of the window that this end announced a WINDOW_UPDATE for the whole count is
  queued and the count starts again from zero, unless the application turned that off.
\<close>

theorem recv_window_counts:
  assumes "session_inv s" "spdylay_session_get_stream s i = Some st"
    and "0 \<le> sint (sm_recv_window_size st)" "0 \<le> sint d"
    and "spdylay_session_update_recv_window_size s i d = (r, s')"
    and "w = min INT32_MAX (sint (sm_recv_window_size st) + sint d)"
  shows "\<exists>st'. spdylay_session_get_stream s' i = Some st' \<and>
    (if s_opt_flags s AND SPDYLAY_OPTMASK_NO_AUTO_WINDOW_UPDATE = 0 \<and>
        uint (s_local_settings s ! SPDYLAY_SETTINGS_INITIAL_WINDOW_SIZE) \<le> 2 * w
     then r = SPDYLAY_ERR_NOMEM \<and> sint (sm_recv_window_size st') = w \<or>
       r = 0 \<and> sm_recv_window_size st' = 0 \<and>
       queued s' (FWindowUpdate (spdylay_frame_window_update_init (s_version s) i (word_of_int w)))
     else r = 0 \<and> sint (sm_recv_window_size st') = w)"
proof -
  note m = session_inv_parts(3) [OF assms(1)]
  define rw where "rw = (if sint (sm_recv_window_size st) > INT32_MAX - sint d
     then word_of_int INT32_MAX else sm_recv_window_size st + d)"
  have w: "sint rw = w"
    using sint_add_no_overflow [of "sm_recv_window_size st" d] assms(4,6) by (auto simp: rw_def)
  have wr: "0 \<le> w" "w \<le> INT32_MAX" using assms(3,4,6) by auto
  have rw: "rw = word_of_int w" by (simp flip: w)
  define s1 where "s1 = put_stream i (\<lambda>st. st\<lparr>sm_recv_window_size := rw\<rparr>) s"
  have st1: "spdylay_session_get_stream s1 i = Some (st\<lparr>sm_recv_window_size := rw\<rparr>)" "map_inv (s_streams s1)"
    using assms(2) m by (simp_all add: s1_def get_put_stream map_inv_write)
  have cmp: "nat (sint rw mod int SIZE_MAX1) * 2 mod SIZE_MAX1 = nat (2 * w)"
    using wr by (simp add: w SIZE_MAX1_def nat_mult_distrib)
  have f: "s_opt_flags s1 = s_opt_flags s" "s_local_settings s1 = s_local_settings s" "s_version s1 = s_version s"
    by (simp_all add: s1_def put_stream_def)
  let ?c = "s_opt_flags s AND SPDYLAY_OPTMASK_NO_AUTO_WINDOW_UPDATE = 0 \<and>
        uint (s_local_settings s ! SPDYLAY_SETTINGS_INITIAL_WINDOW_SIZE) \<le> 2 * w"
  have "unat (s_local_settings s ! SPDYLAY_SETTINGS_INITIAL_WINDOW_SIZE) \<le> nat (2 * w) \<longleftrightarrow>
      uint (s_local_settings s ! SPDYLAY_SETTINGS_INITIAL_WINDOW_SIZE) \<le> 2 * w"
    using wr by (simp add: le_nat_iff)
  then have run: "(if ?c then (case spdylay_session_add_window_update s1 i rw of (r, s2) \<Rightarrow>
        if r = 0 then (0, put_stream i (\<lambda>st. st\<lparr>sm_recv_window_size := 0\<rparr>) s2) else (r, s2)) else (0, s1)) = (r, s')"
    using assms(5) unfolding spdylay_session_update_recv_window_size_def Let_def assms(2) option.case
      rw_def [symmetric] s1_def [symmetric] f cmp by simp
  show ?thesis
  proof (cases ?c)
    case False
    then have "r = 0" "s' = s1" using run by (auto simp del: SPDYLAY_OPTMASK_NO_AUTO_WINDOW_UPDATE_def)
    then show ?thesis using False st1 w by auto
  next
    case True
    obtain q s2 where q: "spdylay_session_add_window_update s1 i rw = (q, s2)" by fastforce
    note wu = add_window_update_effect [OF q, unfolded f]
    have s': "r = q" "s' = (if q = 0 then put_stream i (\<lambda>st. st\<lparr>sm_recv_window_size := 0\<rparr>) s2 else s2)"
      using run True q by (auto split: if_splits)
    have g: "spdylay_session_get_stream s2 i = Some (st\<lparr>sm_recv_window_size := rw\<rparr>)" "map_inv (s_streams s2)"
      using st1 wu(2) by (simp_all add: spdylay_session_get_stream_def)
    show ?thesis
    proof (cases "q = 0")
      case q0: True
      then have "queued s' (FWindowUpdate (spdylay_frame_window_update_init (s_version s) i rw))"
        using wu(3) by (simp add: s' queued_def put_stream_def)
      then show ?thesis using True q0 s' g rw by (simp add: get_put_stream)
    qed (use True wu(1) s' g w in simp)
  qed
qed

theorem recv_window_counts_witness:
  "\<exists>r s' st'. spdylay_session_update_recv_window_size demo_busy 1 1000 = (r, s') \<and>
     spdylay_session_get_stream s' 1 = Some st' \<and> sint (sm_recv_window_size st') = 1000"
proof -
  let ?st = "spdylay_stream_init 1 0 0 SPDYLAY_STREAM_OPENING 1048576 0"
  have st: "spdylay_session_get_stream demo_busy 1 = Some ?st" by (simp add: demo_busy_open)
  obtain r s' where s': "spdylay_session_update_recv_window_size demo_busy 1 1000 = (r, s')" by fastforce
  from recv_window_counts [OF demo_busy_open(1) st _ _ s' refl] s' show ?thesis
    by (auto simp: demo_busy_fields)
qed

section \<open>Sent data\<close>

text \<open>
  A data frame takes at most 4096 bytes, with flow control never more than the send window,
  and none while the window is not positive.
\<close>

theorem next_data_read_bounds:
  "spdylay_session_next_data_read s st \<le> SPDYLAY_DATA_PAYLOAD_LENGTH \<and>
   (s_flow_control s \<longrightarrow> int (spdylay_session_next_data_read s st) \<le> max 0 (sint (sm_window_size st)) \<and>
     (spdylay_session_next_data_read s st = 0 \<longleftrightarrow> sint (sm_window_size st) \<le> 0))"
  by (auto simp: spdylay_session_next_data_read_def)

theorem next_data_read_bounds_witness:
  "s_flow_control demo_busy \<and> int (spdylay_session_next_data_read demo_busy (spdylay_stream_init 1 0 0 SPDYLAY_STREAM_OPENING 100 0)) \<le> 100"
  using next_data_read_bounds [of demo_busy "spdylay_stream_init 1 0 0 SPDYLAY_STREAM_OPENING 100 0"] demo_busy_fields(2) by simp

lemma length_bits:
  assumes "0 \<le> k" "k < 2 ^ 24"
  shows "uint ((word_of_int k :: u32) AND SPDYLAY_LENGTH_MASK) = k"
proof -
  have "(word_of_int k :: u32) AND SPDYLAY_LENGTH_MASK = take_bit 24 (word_of_int k)"
    by (simp add: take_bit_eq_mask mask_eq_exp_minus_1 SPDYLAY_LENGTH_MASK_def)
  then have "uint ((word_of_int k :: u32) AND SPDYLAY_LENGTH_MASK) = take_bit 24 (take_bit 32 k)"
    by (simp add: unsigned_take_bit_eq uint_word_of_int_eq)
  also have "\<dots> = k" using assms by (simp add: take_bit_int_eq_self)
  finally show ?thesis .
qed

lemma callback_aob: "callback_effect s answer = Some s' \<Longrightarrow> s_aob s' = s_aob s"
  using frame_rule.R_callback [of s answer s'] by (simp add: keeps_streams_def keeps_fields_def)

text \<open>
  C20. A data frame on the wire: the stream ID, the FIN flag of the submission at the end of the
  data and no flag before, the length, which is what the application's provider returned and at
  most what it was asked for, and then the bytes it provided.
\<close>

theorem pack_data_wire:
  assumes "spdylay_session_pack_data cb s n d = Some (r, d', s')" "0 \<le> r" "n < 2 ^ 24"
  shows "\<exists>t k data eof src ans. r = int k + 8 \<and> k \<le> n \<and>
    cb_read cb t (da_stream_id d) n (dp_source (da_data_prd d)) = ((int k, data, eof, src), ans) \<and>
    (let buf = ao_framebuf (s_aob s') in
     spdylay_get_uint32 buf = da_stream_id d \<and> buf ! 4 = (if eof then da_flags d AND SPDYLAY_DATA_FLAG_FIN else 0) \<and>
     unat (spdylay_get_uint32 (drop 4 buf) AND SPDYLAY_LENGTH_MASK) = k \<and>
     (k \<le> length data \<longrightarrow> take k (drop 8 buf) = take k data))"
proof -
  obtain q buf m where res: "spdylay_reserve_buffer (s_mem s) (ao_framebuf (s_aob s)) (n + 8) = (q, buf, m)"
    by (metis prod_cases3)
  define t where "t = put_framebuf s buf m"
  obtain k data eof src ans where rd: "cb_read cb t (da_stream_id d) n (dp_source (da_data_prd d)) = ((k, data, eof, src), ans)"
    by (metis prod_cases3 prod.collapse)
  have q: "q = 0 \<and> n + 8 \<le> length buf"
    by (rule reserve_frame_cases [OF res]) (use assms(1,2) res in \<open>auto simp: spdylay_session_pack_data_def\<close>)
  define fl where "fl = (if eof then da_flags d AND SPDYLAY_DATA_FLAG_FIN else 0)"
  have "\<exists>t2. callback_effect t ans = Some t2 \<and> 0 \<le> k \<and> k \<le> int n \<and> r = k + 8 \<and>
      ao_framebuf (s_aob s') = memcpy_at (memcpy_at (ao_framebuf (s_aob t2)) 8 (take n data)) 0
       (spdylay_put_uint32be (da_stream_id d) @ (spdylay_put_uint32be (word_of_int k))[0 := fl])"
    using assms(1,2) q unfolding spdylay_session_pack_data_def res prod.case Let_def t_def [symmetric]
    by (auto simp: rd bind_eq_Some_conv put_framebuf_def fl_def split: if_splits)
  then obtain t2 where t2: "callback_effect t ans = Some t2" and ok: "0 \<le> k" "k \<le> int n" "r = k + 8"
    and s': "ao_framebuf (s_aob s') = memcpy_at (memcpy_at (ao_framebuf (s_aob t2)) 8 (take n data)) 0
       (spdylay_put_uint32be (da_stream_id d) @ (spdylay_put_uint32be (word_of_int k))[0 := fl])"
    by blast
  have b: "ao_framebuf (s_aob t2) = buf" using callback_aob [OF t2] by (simp add: t_def put_framebuf_def)
  define rest where "rest = drop (8 + length (take n data)) buf"
  have "ao_framebuf (s_aob s') = spdylay_put_uint32be (da_stream_id d) @
      (spdylay_put_uint32be (word_of_int k))[0 := fl] @ take n data @ rest"
    using q unfolding s' b by (simp add: memcpy_at_def rest_def)
  note w = this
  have f: "(spdylay_put_uint32be x)[0 := fl] ! 0 = fl" for x
    by (rule nth_list_update_eq) simp
  have len: "unat (spdylay_get_uint32 (drop 4 (ao_framebuf (s_aob s'))) AND SPDYLAY_LENGTH_MASK) = nat k"
    using length_bits [of k] ok assms(3) by (simp add: w get_length_bits unat_eq_nat_uint)
  have "take (nat k) (drop 8 (ao_framebuf (s_aob s'))) = take (nat k) data" if "nat k \<le> length data"
    using ok that by (simp add: w min_absorb1)
  moreover have "ao_framebuf (s_aob s') ! 4 = fl" using f by (simp add: w nth_append)
  ultimately show ?thesis using ok rd len
    by (intro exI [of _ t] exI [of _ "nat k"] exI [of _ data] exI [of _ eof] exI [of _ src] exI [of _ ans])
      (auto simp: Let_def w fl_def)
qed

lemma reserve_plenty: "\<forall>k. mem_ok m k \<Longrightarrow> \<exists>buf' m'. spdylay_reserve_buffer m buf n = (0, buf', m')"
  by (auto simp: spdylay_reserve_buffer_def malloc_def Let_def)

theorem pack_data_wire_witness:
  "\<exists>d' s'. spdylay_session_pack_data quiet_callbacks demo_busy 100
       (spdylay_frame_data_init 1 1 \<lparr>dp_read_callback = True, dp_source = 0\<rparr>) = Some (8, d', s') \<and>
     spdylay_get_uint32 (ao_framebuf (s_aob s')) = 1"
proof -
  let ?d = "spdylay_frame_data_init 1 1 \<lparr>dp_read_callback = True, dp_source = 0\<rparr>"
  obtain buf m where b: "spdylay_reserve_buffer (s_mem demo_busy) (ao_framebuf (s_aob demo_busy)) 108 = (0, buf, m)"
    using reserve_plenty demo_busy_fields(3) unfolding mem_plenty_def by blast
  obtain d' s' where run: "spdylay_session_pack_data quiet_callbacks demo_busy 100 ?d = Some (8, d', s')"
    by (simp add: spdylay_session_pack_data_def b quiet_callbacks_def callback_effect_def spdylay_frame_data_init_def Let_def)
  from pack_data_wire [OF run] run show ?thesis by (auto simp: Let_def spdylay_frame_data_init_def)
qed

section \<open>A new initial window\<close>

lemma each_list_all:
  assumes "each_list func es s = (0, es', s')"
    and "\<And>e s v s'. func e s = (0, v, s') \<Longrightarrow> P (e_val e) v"
  shows "list_all2 (\<lambda>e e'. e_key e' = e_key e \<and> P (e_val e) (e_val e')) es es'"
  using assms(1)
proof (induction es arbitrary: s es')
  case (Cons e es)
  obtain r v s1 where f: "func e s = (r, v, s1)" by (metis prod_cases3)
  then show ?case using Cons assms(2) by (auto split: prod.split_asm if_splits)
qed simp

lemma each_lookup:
  "list_all2 (\<lambda>e e'. e_key e' = e_key e \<and> P (e_val e) (e_val e')) es es' \<Longrightarrow>
   rel_option (\<lambda>x y. P (e_val x) (e_val y)) (lookup es k) (lookup es' k)"
  by (induction rule: list_all2_induct) (auto simp: lookup_def)

lemma map_each_get:
  assumes "spdylay_map_each m func s = (0, m', s')" "map_inv m"
    and "\<And>e s v s'. func e s = (0, v, s') \<Longrightarrow> P (e_val e) v"
  shows "rel_option P (map_get m k) (map_get m' k)"
proof -
  have "map_inv m'" using map_inv_each [OF assms(2,1)] by simp
  moreover have "rel_option (\<lambda>x y. P (e_val x) (e_val y)) (lookup (entries m) k) (lookup (entries m') k)"
    by (rule each_lookup [OF each_list_all]) (use map_each_entries(1) [OF assms(1)] assms(3) in auto)
  ultimately show ?thesis using assms(2) by (simp add: map_get_def map_find_lookup option.rel_map)
qed

lemma window_func_releases:
  assumes "spdylay_update_initial_window_size_func w w0 e s = (r, v, s')"
  shows "queues_grow s s'" "r = 0 \<Longrightarrow> sm_window_size v = sm_window_size (e_val e) + (w - w0)"
    "r = 0 \<Longrightarrow> sm_deferred_data (e_val e) = Some it \<Longrightarrow> sm_deferred_flags (e_val e) AND SPDYLAY_DEFERRED_FLOW_CONTROL \<noteq> 0 \<Longrightarrow>
      0 < sint (sm_window_size v) \<Longrightarrow> it \<in># mset (pq_q (s_ob_pq s'))"
proof -
  let ?st = "spdylay_stream_update_initial_window_size (e_val e) w w0"
  have st: "sm_window_size ?st = sm_window_size (e_val e) + (w - w0)" "sm_deferred_data ?st = sm_deferred_data (e_val e)"
    "sm_deferred_flags ?st = sm_deferred_flags (e_val e)"
    by (simp_all add: spdylay_stream_update_initial_window_size_def)
  show "queues_grow s s'" "r = 0 \<Longrightarrow> sm_window_size v = sm_window_size (e_val e) + (w - w0)"
    using assms st by (auto simp: spdylay_update_initial_window_size_func_def Let_def spdylay_stream_detach_deferred_data_def
        split: option.split_asm if_splits prod.split_asm intro: queues_grow_push queues_grow_same)
  show "it \<in># mset (pq_q (s_ob_pq s'))" if "r = 0" "sm_deferred_data (e_val e) = Some it"
    "sm_deferred_flags (e_val e) AND SPDYLAY_DEFERRED_FLOW_CONTROL \<noteq> 0" "0 < sint (sm_window_size v)"
    using assms st that by (auto simp: spdylay_update_initial_window_size_func_def Let_def spdylay_stream_detach_deferred_data_def
        simp del: set_mset_mset split: if_splits prod.split_asm dest!: push_ob_mset(1))
qed

lemma each_list_releases:
  assumes "each_list (spdylay_update_initial_window_size_func w w0) es s = (0, es', s')"
  shows "queues_grow s s' \<and> (\<forall>e\<in>set es. \<forall>it. sm_deferred_data (e_val e) = Some it \<and>
    sm_deferred_flags (e_val e) AND SPDYLAY_DEFERRED_FLOW_CONTROL \<noteq> 0 \<and>
    0 < sint (sm_window_size (e_val e) + (w - w0)) \<longrightarrow> it \<in># mset (pq_q (s_ob_pq s')))"
  using assms
proof (induction es arbitrary: s es')
  case Nil
  then show ?case by (simp add: queues_grow_same)
next
  case (Cons e es)
  obtain r v s1 where f: "spdylay_update_initial_window_size_func w w0 e s = (r, v, s1)" by (metis prod_cases3)
  then obtain es2 where r: "r = 0" "each_list (spdylay_update_initial_window_size_func w w0) es s1 = (0, es2, s')"
    using Cons.prems by (auto split: prod.split_asm if_splits)
  note ih = Cons.IH [OF r(2)] and e = window_func_releases [OF f]
  have g: "queues_grow s s'" using queues_grow_trans [OF e(1)] ih by blast
  have "it \<in># mset (pq_q (s_ob_pq s'))" if "it \<in># mset (pq_q (s_ob_pq s1))" for it
    using ih that unfolding queues_grow_def by (meson mset_subset_eqD)
  then show ?case using g ih e(2,3) r(1) by (metis set_ConsD)
qed

text \<open>
  C19. A new initial window moves the send window of every stream of the table by the difference
  to the old one, and the data that waited for the window of a stream is queued again where the
  new window is positive.
\<close>

theorem initial_window_moves:
  assumes "session_inv s" "spdylay_session_update_initial_window_size s w = (0, s')"
    and "spdylay_session_get_stream s k = Some st"
  shows "\<exists>st'. spdylay_session_get_stream s' k = Some st' \<and>
    sm_window_size st' = sm_window_size st + (w - s_remote_settings s ! SPDYLAY_SETTINGS_INITIAL_WINDOW_SIZE) \<and>
    (\<forall>it. sm_deferred_data st = Some it \<and> sm_deferred_flags st AND SPDYLAY_DEFERRED_FLOW_CONTROL \<noteq> 0 \<and>
       0 < sint (sm_window_size st') \<longrightarrow> it \<in> set (pq_q (s_ob_pq s')))"
proof -
  let ?w0 = "s_remote_settings s ! SPDYLAY_SETTINGS_INITIAL_WINDOW_SIZE"
  note m = session_inv_parts(3) [OF assms(1)]
  obtain tbl t where t: "spdylay_map_each (s_streams s) (spdylay_update_initial_window_size_func w ?w0) s = (0, tbl, t)"
    "s' = t\<lparr>s_streams := tbl\<rparr>"
    using assms(2) by (auto simp: spdylay_session_update_initial_window_size_def split: prod.split_asm)
  have "rel_option (\<lambda>st st'. sm_window_size st' = sm_window_size st + (w - ?w0)) (map_get (s_streams s) k) (map_get tbl k)"
    by (rule map_each_get [OF t(1) m]) (use window_func_releases(2) in blast)
  then obtain st' where st': "spdylay_session_get_stream s' k = Some st'" "sm_window_size st' = sm_window_size st + (w - ?w0)"
    using assms(3) t(2) by (auto simp: spdylay_session_get_stream_def option_rel_Some1)
  obtain e where e: "e \<in> set (entries (s_streams s))" "e_val e = st"
    using assms(3) m lookup_Some_mem by (fastforce simp: spdylay_session_get_stream_def map_get_def map_find_lookup)
  from each_list_releases [OF map_each_entries(1) [OF t(1)]] e st' t(2) show ?thesis by auto
qed

lemma each_list_no_deferred:
  "\<forall>e\<in>set es. sm_deferred_data (e_val e) = None \<Longrightarrow>
   fst (each_list (spdylay_update_initial_window_size_func w w0) es s) = 0"
proof (induction es arbitrary: s)
  case (Cons e es)
  then have "sm_deferred_data (spdylay_stream_update_initial_window_size (e_val e) w w0) = None"
    by (simp add: spdylay_stream_update_initial_window_size_def)
  then obtain v where f: "spdylay_update_initial_window_size_func w w0 e s = (0, v, s)"
    by (simp add: spdylay_update_initial_window_size_func_def)
  have "fst (each_list (spdylay_update_initial_window_size_func w w0) es s) = 0" using Cons by simp
  then show ?case by (auto simp: f split: prod.split)
qed simp

theorem initial_window_moves_witness:
  "\<exists>s' st'. spdylay_session_update_initial_window_size demo_busy 65536 = (0, s') \<and>
     spdylay_session_get_stream s' 1 = Some st' \<and> sm_window_size st' = 65536"
proof -
  let ?st = "spdylay_stream_init 1 0 0 SPDYLAY_STREAM_OPENING 1048576 0"
  have st: "spdylay_session_get_stream demo_busy 1 = Some ?st" by (simp add: demo_busy_open)
  have m: "map_inv (s_streams demo_busy)" using session_inv_parts(3) [OF demo_busy_open(1)] .
  have "sm_deferred_data (e_val e) = None" if "e \<in> set (entries (s_streams demo_busy))" for e
  proof -
    have "map_get (s_streams demo_busy) (e_key e) = Some (e_val e)"
      using m lookup_mem [OF _ that] by (simp add: map_get_def map_find_lookup map_inv_def)
    then show ?thesis using demo_busy_open(2) [of "e_key e"] by (auto simp: spdylay_session_get_stream_def split: if_splits)
  qed
  then have z: "fst (each_list (spdylay_update_initial_window_size_func 65536 1048576) (entries (s_streams demo_busy)) demo_busy) = 0"
    by (intro each_list_no_deferred) blast
  obtain r tbl t where e: "spdylay_map_each (s_streams demo_busy) (spdylay_update_initial_window_size_func 65536 1048576) demo_busy = (r, tbl, t)"
    by (metis prod_cases3)
  then have "r = 0" using z map_each_entries(1) [OF e] by simp
  then obtain s' where s': "spdylay_session_update_initial_window_size demo_busy 65536 = (0, s')"
    using e by (simp add: spdylay_session_update_initial_window_size_def demo_busy_fields(6))
  from initial_window_moves [OF demo_busy_open(1) s' st] s' show ?thesis by (auto simp: demo_busy_fields(6))
qed

section \<open>SETTINGS\<close>

text \<open>The value that a client or a server takes over from an entry.\<close>

definition setting_value :: "('z, 'u) spdylay_session \<Rightarrow> spdylay_settings_entry \<Rightarrow> u32" where
  "setting_value s e =
     (if sint (se_settings_id e) = int SPDYLAY_SETTINGS_CLIENT_CERTIFICATE_VECTOR_SIZE \<and> \<not> s_server s
      then min (se_value e) SPDYLAY_MAX_CLIENT_CERT_VECTOR_LENGTH else se_value e)"

lemma initial_window_keeps:
  assumes "spdylay_session_update_initial_window_size s w = (rv, s')" "session_inv s"
  shows "s_remote_settings s' = s_remote_settings s" "s_server s' = s_server s"
proof -
  obtain pq m tbl where "s' = s\<lparr>s_ob_pq := pq, s_mem := m, s_streams := tbl\<rparr>"
    using initial_window_shape [OF assms] by blast
  then show "s_remote_settings s' = s_remote_settings s" "s_server s' = s_server s" by simp_all
qed

lemma apply_setting_stores:
  assumes "apply_setting s e = (0, e', s')" "session_inv s" "0 < sint (se_settings_id e)"
  shows "s_remote_settings s' = (s_remote_settings s)[nat (sint (se_settings_id e)) := setting_value s e]"
    "s_server s' = s_server s"
proof -
  let ?id = "nat (sint (se_settings_id e))"
  have "s_remote_settings s' = (s_remote_settings s)[?id := setting_value s e] \<and> s_server s' = s_server s"
  proof (cases "?id = SPDYLAY_SETTINGS_INITIAL_WINDOW_SIZE \<and> s_flow_control s \<and> se_value e < push_bit 31 1")
    case True
    then obtain s1 where s1: "spdylay_session_update_initial_window_size s (se_value e) = (0, s1)"
      "s' = s1\<lparr>s_remote_settings := (s_remote_settings s1)[?id := se_value e]\<rparr>"
      using assms(1) by (auto simp: apply_setting_def Let_def split: prod.split_asm if_splits)
    have "setting_value s e = se_value e" using True by (auto simp: setting_value_def)
    with s1 initial_window_keeps [OF s1(1) assms(2)] show ?thesis by simp
  next
    case False
    then show ?thesis using assms(1,3)
      by (auto simp: apply_setting_def Let_def setting_value_def split: if_splits prod.split_asm)
  qed
  then show "s_remote_settings s' = (s_remote_settings s)[?id := setting_value s e]" "s_server s' = s_server s" by simp_all
qed

lemma apply_settings_first:
  assumes "apply_settings chk iv s = Some (0, iv', s')" "session_inv s" "length chk = 9" "0 < k" "k < 9"
  shows "s_remote_settings s' ! k = (if chk ! k then s_remote_settings s ! k
    else case find (\<lambda>e. sint (se_settings_id e) = int k) iv of None \<Rightarrow> s_remote_settings s ! k | Some e \<Rightarrow> setting_value s e)"
  using assms
proof (induction iv arbitrary: chk s iv')
  case (Cons e iv)
  let ?id = "sint (se_settings_id e)"
  have len: "length (s_remote_settings s) = 9" using Cons.prems(2) by (auto simp: session_inv_def queue_inv_alt)
  show ?case
  proof (cases "?id > int SPDYLAY_SETTINGS_MAX \<or> ?id = 0 \<or> ?id > 0 \<and> chk ! nat ?id")
    case True
    then obtain iv1 where "apply_settings chk iv s = Some (0, iv1, s')"
      using Cons.prems(1) by (auto simp: bind_eq_Some_conv)
    from Cons.IH [OF this Cons.prems(2-5)] True Cons.prems(4,5) show ?thesis by auto
  next
    case False
    then obtain e1 s1 iv1 where a: "apply_setting s e = (0, e1, s1)" "0 < ?id" "?id < 9"
      "apply_settings (chk[nat ?id := True]) iv s1 = Some (0, iv1, s')"
      using Cons.prems(1) by (auto simp: bind_eq_Some_conv Let_def split: if_splits prod.split_asm)
    note st = apply_setting_stores [OF a(1) Cons.prems(2) a(2)]
    have v: "setting_value s1 = setting_value s" by (simp add: setting_value_def st(2) fun_eq_iff)
    have "session_inv s1" using session.I_apply_setting [OF a(1) Cons.prems(2)] .
    from Cons.IH [OF a(4) this _ Cons.prems(4,5)] Cons.prems(3) False a(2,3) len
    show ?thesis by (auto simp: st(1) v nth_list_update split: option.split)
  qed
qed simp

text \<open>
  Of several entries of a SETTINGS frame for the same parameter the first one counts, as the
  SPDY specification demands: after the entries were applied without error, a parameter has the
  value of its first entry, capped for the certificate vector of a client, and its old value when
  there is none.
\<close>

theorem settings_first_value_wins:
  assumes "session_inv s" "apply_settings (replicate (SPDYLAY_SETTINGS_MAX + 1) False) iv s = Some (0, iv', s')"
    and "0 < k" "k \<le> SPDYLAY_SETTINGS_MAX"
  shows "s_remote_settings s' ! k =
    (case find (\<lambda>e. sint (se_settings_id e) = int k) iv of None \<Rightarrow> s_remote_settings s ! k | Some e \<Rightarrow> setting_value s e)"
  using apply_settings_first [OF assms(2,1)] assms(3,4) by simp

theorem settings_first_value_wins_witness:
  "\<exists>iv' s'. apply_settings (replicate 9 False)
       [\<lparr>se_settings_id = 4, se_flags = 0, se_value = 10\<rparr>, \<lparr>se_settings_id = 4, se_flags = 0, se_value = 20\<rparr>] demo_server =
       Some (0, iv', s') \<and> s_remote_settings s' ! 4 = 10"
proof -
  let ?iv = "[\<lparr>se_settings_id = 4, se_flags = 0, se_value = 10\<rparr>, \<lparr>se_settings_id = 4, se_flags = 0, se_value = 20\<rparr>]"
  obtain iv' s' where run: "apply_settings (replicate (SPDYLAY_SETTINGS_MAX + 1) False) ?iv demo_server = Some (0, iv', s')"
    by (simp add: apply_setting_def Let_def)
  from settings_first_value_wins [OF reach_inv [OF demo_reach(2)] run, of 4] run show ?thesis
    by (simp add: setting_value_def)
qed

end
