(* ===== verification/Spdy_Wire.thy ===== *)
theory Spdy_Wire
  imports Spdy_Flow
begin

text \<open>
  What one end packs the other unpacks. The packers write a frame into a buffer that is larger
  than the frame; the receiver has its eight bytes of header and its payload. The locale
  \<open>frame_codec\<close> is what both need of a frame type, and its lemma is the round trip; it is
  interpreted for every frame without a compressed header block.
\<close>

locale frame_codec =
  fixes pack :: "mem \<Rightarrow> bytes \<Rightarrow> 'f \<Rightarrow> int \<times> bytes \<times> mem"
    and unpack :: "bytes \<Rightarrow> bytes \<Rightarrow> int + 'f"
    and ok :: "'f \<Rightarrow> bool"
    and wire :: "'f \<Rightarrow> bytes"
  assumes pack_wire: "ok f \<Longrightarrow> pack m buf f = (r, buf', m') \<Longrightarrow> 0 \<le> r \<Longrightarrow> take (nat r) buf' = wire f"
    and wire_head: "8 \<le> length (wire f)"
    and unpack_wire: "ok f \<Longrightarrow> unpack (take 8 (wire f)) (drop 8 (wire f)) = Inr f"
begin

lemma roundtrip:
  assumes "pack m buf f = (r, buf', m')" "0 \<le> r" "ok f"
  shows "unpack (take 8 buf') (drop 8 (take (nat r) buf')) = Inr f"
proof -
  have w: "take (nat r) buf' = wire f" using pack_wire assms by blast
  then have "8 \<le> nat r" using wire_head [of f] by (metis length_take min.bounded_iff)
  then have "take 8 buf' = take 8 (wire f)" by (simp flip: w)
  with w show ?thesis using unpack_wire [OF assms(3)] by simp
qed

lemma wire_inject: "ok f \<Longrightarrow> ok g \<Longrightarrow> wire f = wire g \<Longrightarrow> f = g"
  by (metis Inr_inject unpack_wire)

end

section \<open>Fixed frames\<close>

lemma nonneg_mask: "0 \<le> sint w \<Longrightarrow> w AND 0x7fffffff = (w :: i32)"
proof -
  assume "0 \<le> sint w"
  then have "uint w < 2 ^ 31" using uint_bounded [of w] by (simp add: sint_i32 split: if_splits)
  then have "uint (take_bit 31 w) = uint w" by (simp add: unsigned_take_bit_eq take_bit_int_eq_self)
  then have "take_bit 31 w = w" by (rule unsigned_word_eqI)
  then show ?thesis by (simp add: take_bit_eq_mask mask_eq_exp_minus_1)
qed

lemmas frame_masks = SPDYLAY_STREAM_ID_MASK_def SPDYLAY_DELTA_WINDOW_SIZE_MASK_def

definition ping_wire :: "spdylay_ping \<Rightarrow> bytes" where
  "ping_wire f = spdylay_frame_pack_ctrl_hd (pg_hd f) @ spdylay_put_uint32be (pg_unique_id f)"

interpretation ping: frame_codec spdylay_frame_pack_ping spdylay_frame_unpack_ping "\<lambda>f. hd_ok (pg_hd f)" ping_wire
proof (unfold_locales, goal_cases)
  case (1 f m buf r buf' m')
  then show ?case using pack_ping_wire [OF 1(2,3)] by (simp add: ping_wire_def)
qed (auto simp: ping_wire_def spdylay_frame_unpack_ping_def)

definition rst_stream_wire :: "spdylay_rst_stream \<Rightarrow> bytes" where
  "rst_stream_wire f = spdylay_frame_pack_ctrl_hd (rs_hd f) @ spdylay_put_uint32be (rs_stream_id f) @
     spdylay_put_uint32be (rs_status_code f)"

interpretation rst_stream: frame_codec spdylay_frame_pack_rst_stream spdylay_frame_unpack_rst_stream
    "\<lambda>f. hd_ok (rs_hd f) \<and> 0 \<le> sint (rs_stream_id f)" rst_stream_wire
proof (unfold_locales, goal_cases)
  case (1 f m buf r buf' m')
  then show ?case using pack_two_words_wire [OF 1(2) [unfolded spdylay_frame_pack_rst_stream_def] 1(3)] by (simp add: rst_stream_wire_def)
qed (auto simp: rst_stream_wire_def spdylay_frame_unpack_rst_stream_def frame_masks nonneg_mask)

definition window_update_wire :: "spdylay_window_update \<Rightarrow> bytes" where
  "window_update_wire f = spdylay_frame_pack_ctrl_hd (wu_hd f) @ spdylay_put_uint32be (wu_stream_id f) @
     spdylay_put_uint32be (wu_delta_window_size f)"

interpretation window_update: frame_codec spdylay_frame_pack_window_update spdylay_frame_unpack_window_update
    "\<lambda>f. hd_ok (wu_hd f) \<and> 0 \<le> sint (wu_stream_id f) \<and> 0 \<le> sint (wu_delta_window_size f)" window_update_wire
proof (unfold_locales, goal_cases)
  case (1 f m buf r buf' m')
  then show ?case using pack_two_words_wire [OF 1(2) [unfolded spdylay_frame_pack_window_update_def] 1(3)] by (simp add: window_update_wire_def)
qed (auto simp: window_update_wire_def spdylay_frame_unpack_window_update_def frame_masks nonneg_mask)

definition goaway_wire :: "spdylay_goaway \<Rightarrow> bytes" where
  "goaway_wire f = spdylay_frame_pack_ctrl_hd (ga_hd f) @ spdylay_put_uint32be (ga_last_good_stream_id f) @
     (if hd_version (ga_hd f) = SPDYLAY_PROTO_SPDY3 then spdylay_put_uint32be (ga_status_code f) else [])"

definition goaway_ok :: "spdylay_goaway \<Rightarrow> bool" where
  "goaway_ok f \<longleftrightarrow> hd_ok (ga_hd f) \<and> 0 \<le> sint (ga_last_good_stream_id f) \<and>
     (hd_version (ga_hd f) = SPDYLAY_PROTO_SPDY3 \<or> hd_version (ga_hd f) = SPDYLAY_PROTO_SPDY2 \<and> ga_status_code f = 0)"

interpretation goaway: frame_codec spdylay_frame_pack_goaway spdylay_frame_unpack_goaway goaway_ok goaway_wire
proof (unfold_locales, goal_cases)
  case (1 f m buf r buf' m')
  then show ?case using pack_goaway_wire(1) by (simp add: goaway_wire_def)
next
  case (2 f)
  show ?case by (simp add: goaway_wire_def)
next
  case (3 f)
  then show ?case
    by (auto simp: goaway_ok_def goaway_wire_def spdylay_frame_unpack_goaway_def frame_masks nonneg_mask
        SPDYLAY_PROTO_SPDY2_def SPDYLAY_PROTO_SPDY3_def Let_def)
qed

interpretation settings: frame_codec spdylay_frame_pack_settings "\<lambda>h p. fst (spdylay_frame_unpack_settings m h p)"
    "\<lambda>f. hd_ok (st_hd f) \<and> list_all entry_ok (st_iv f) \<and> length (st_iv f) < 2 ^ 28 - 1 \<and>
       hd_length (st_hd f) = of_nat (4 + 8 * length (st_iv f)) \<and>
       (hd_version (st_hd f) = SPDYLAY_PROTO_SPDY2 \<or> hd_version (st_hd f) = SPDYLAY_PROTO_SPDY3) \<and> mem_ok m (mem_next m)"
    settings_wire for m
proof (unfold_locales, goal_cases)
  case (1 f m buf r buf' m')
  define n where "n = 4 + 8 * length (st_iv f)"
  have n: "hd_length (st_hd f) = of_nat n" "n < 2 ^ 31" using 1(1) by (auto simp: n_def)
  then have "uint (hd_length (st_hd f)) = int n" by (simp add: unsigned_of_nat take_bit_nat_eq_self)
  then have "sint (hd_length (st_hd f)) = int n" using n(2) by (simp add: sint_i32)
  then have "sint (hd_length (st_hd f)) = 4 + int (length (st_iv f)) * 8" by (simp add: n_def)
  then show ?case using pack_settings_wire(2) 1 by blast
next
  case (2 f)
  show ?case by (simp add: settings_wire_def)
next
  case (3 f)
  then show ?case by (intro unpack_settings_payload) auto
qed

interpretation credential: frame_codec spdylay_frame_pack_credential "\<lambda>h p. fst (spdylay_frame_unpack_credential m h p)"
    "\<lambda>f. hd_ok (cr_hd f) \<and> length (cr_proof f) < 2 ^ 32 \<and> cr_certs f \<noteq> [] \<and>
       list_all (\<lambda>c. length c < 2 ^ 32) (cr_certs f) \<and> (\<forall>i. mem_ok m i)"
    credential_wire for m
proof (unfold_locales, goal_cases)
  case (1 f m buf r buf' m')
  then show ?case using pack_credential_wire(2) by blast
next
  case (2 f)
  show ?case by (simp add: credential_wire_def)
next
  case (3 f)
  then show ?case by (intro unpack_credential_payload) auto
qed

section \<open>Frames with a header block\<close>

text \<open>A header block that the packer takes and the name/value unpacker gives back.\<close>

definition deflated :: "'z zlib \<Rightarrow> 'z spdylay_zlib \<Rightarrow> bytes \<Rightarrow> bytes \<Rightarrow> 'z spdylay_zlib \<Rightarrow> bool" where
  "deflated zl deflater block out deflater' \<longleftrightarrow>
     (\<exists>n\<ge>z_deflateBound zl (zst deflater) (length block).
        spdylay_zlib_deflate_hd zl deflater n block = (int (length out), out, deflater'))"

text \<open>
  What zlib promises of a compressor and a decompressor in step: with the room that
  \<open>deflateBound\<close> asks for, the calls of \<open>inflate\<close> on a compressed block give the block.
\<close>

definition zlib_inverse :: "'z zlib \<Rightarrow> u16 \<Rightarrow> 'z \<Rightarrow> 'z \<Rightarrow> bool" where
  "zlib_inverse zl version zd zi \<longleftrightarrow>
     (\<forall>n block out zd' data zi'. z_deflateBound zl zd (length block) \<le> n \<longrightarrow>
        z_deflate zl zd block n = (Z_OK, out, zd') \<longrightarrow> inflate_calls zl version zi out data zi' \<longrightarrow> data = block)"

lemma stored_inflate_calls: "inflate_calls stored_zlib v z inp data z' \<Longrightarrow> data = inp"
  by (induction rule: inflate_calls.induct) (auto simp: stored_zlib_def min_def split: if_splits)

lemma stored_zlib_inverse: "zlib_inverse stored_zlib v zd zi"
  by (auto simp: zlib_inverse_def stored_zlib_def dest: stored_inflate_calls [unfolded stored_zlib_def])

lemma inflated_block:
  assumes "zlib_inverse zl (zl_version inflater) (zst deflater) (zst inflater)" "zlib_bounds zl"
    and "deflated zl deflater block out deflater'"
    and "spdylay_zlib_inflate_hd zl m inflater b out = Some (r, inflater', b', m')" "0 \<le> r" "buffer_inv b"
  shows "buffer_inv b' \<and> buffer_contents b' = buffer_contents b @ block"
proof -
  obtain data where d: "buffer_inv b'" "buffer_contents b' = buffer_contents b @ data"
      "inflate_calls zl (zl_version inflater) (zst inflater) out data (zst inflater')"
    using inflate_hd_appends [OF assms(2,4)] assms(5,6) by (auto simp: inflate_post_def)
  obtain n where n: "z_deflateBound zl (zst deflater) (length block) \<le> n"
      "spdylay_zlib_deflate_hd zl deflater n block = (int (length out), out, deflater')"
    using assms(3) by (auto simp: deflated_def)
  moreover obtain z' where "z_deflate zl (zst deflater) block n = (Z_OK, out, z')"
    using n(2) by (cases "z_deflate zl (zst deflater) block n") (auto simp: spdylay_zlib_deflate_hd_def split: if_splits)
  ultimately have "data = block" using assms(1) d(3) unfolding zlib_inverse_def by blast
  then show ?thesis using d by simp
qed

lemma alloc_pack_nv_wire:
  assumes run: "spdylay_frame_alloc_pack_nv zl m buf nvbuf nv off ls deflater = Some (r, buf', nvbuf', deflater', m')"
    and r: "0 \<le> r" and zl: "zlib_bounds zl" and ls: "ls = 2 \<or> ls = 4" and nv: "\<forall>(k, v)\<in>set nv. k \<noteq> []"
  obtains out where "deflated zl deflater (enc_block ls (nv_groups nv)) out deflater'"
    "r = int (off + length out)" "off + length out \<le> length buf'" "take (length out) (drop off buf') = out"
    "r - 8 \<le> uint SPDYLAY_LENGTH_MASK"
proof -
  let ?w = "enc_block ls (nv_groups nv)"
  note pk = pack_nv_block [OF ls nv] and sp = count_nv_space_block [OF ls nv]
  obtain r1 nvbuf1 m1 where a1: "spdylay_reserve_buffer m nvbuf (length ?w) = (r1, nvbuf1, m1)" by (metis prod_cases3)
  define mx where "mx = off + spdylay_zlib_deflate_hd_bound zl deflater (length ?w)"
  obtain r2 buf2 m2 where a2: "spdylay_reserve_buffer m1 buf mx = (r2, buf2, m2)" by (metis prod_cases3)
  obtain len out d where a3: "spdylay_zlib_deflate_hd zl deflater (mx - off) (take (length ?w) (memcpy_at nvbuf1 0 ?w)) = (len, out, d)"
    by (metis prod_cases3)
  have e: "r1 = 0" "r2 = 0" "0 \<le> len" "r = len + int off" "buf' = memcpy_at buf2 off out" "deflater' = d"
      "r - 8 \<le> uint SPDYLAY_LENGTH_MASK"
    using run r unfolding spdylay_frame_alloc_pack_nv_def Let_def sp pk mx_def [symmetric]
    by (auto simp: a1 a2 a3 pk split: if_splits)
  have w: "take (length ?w) (memcpy_at nvbuf1 0 ?w) = ?w" by (simp add: memcpy_at_def)
  have zb: "length o1 \<le> k" if "z_deflate zl z i k = (q, o1, z')" for z i k q o1 z'
    using zl that unfolding zlib_bounds_def by (metis (no_types, lifting) case_prod_conv)
  have out: "len = int (length out)" "length out \<le> mx - off"
    using a3 e(3) zb unfolding w spdylay_zlib_deflate_hd_def by (auto split: prod.split_asm if_splits)
  have df: "deflated zl deflater ?w out d"
    unfolding deflated_def using a3 [unfolded w] out(1)
    by (intro exI [of _ "mx - off"]) (simp add: mx_def spdylay_zlib_deflate_hd_bound_def)
  have "mx \<le> length buf2" by (rule reserve_frame_cases [OF a2]) (use e(2) in auto)
  then have b: "off + length out \<le> length buf2" using out(2) by (auto simp: mx_def)
  show ?thesis
    by (rule that [of out]) (use df e out b in \<open>simp_all add: memcpy_at_def\<close>)
qed

lemma pack_nv_front_wire:
  assumes run: "pack_nv_front zl m buf nvbuf h (Some nv) off ls deflater = Some (r, hd1, buf', nvbuf', deflater', m')"
    and r: "0 \<le> r" and zl: "zlib_bounds zl" and ls: "ls = 2 \<or> ls = 4" and nv: "\<forall>(k, v)\<in>set nv. k \<noteq> []" and off: "8 \<le> off"
  obtains out post where "deflated zl deflater (enc_block ls (nv_groups nv)) out deflater'"
    "r = int (off + length out)" "hd1 = h\<lparr>hd_length := of_int (r - 8)\<rparr>"
    "buf' = spdylay_frame_pack_ctrl_hd hd1 @ replicate (off - 8) 0 @ out @ post" "r - 8 \<le> uint SPDYLAY_LENGTH_MASK"
proof -
  obtain buf1 where a: "spdylay_frame_alloc_pack_nv zl m buf nvbuf nv off ls deflater = Some (r, buf1, nvbuf', deflater', m')"
    and h: "hd1 = h\<lparr>hd_length := of_int (r - 8)\<rparr>"
    and b: "buf' = memcpy_at (memcpy_at buf1 0 (replicate off 0)) 0 (spdylay_frame_pack_ctrl_hd hd1)"
    using run r by (auto simp: pack_nv_front_def bind_eq_Some_conv Let_def split: if_splits)
  obtain out where o: "deflated zl deflater (enc_block ls (nv_groups nv)) out deflater'"
    "r = int (off + length out)" "off + length out \<le> length buf1" "take (length out) (drop off buf1) = out"
    "r - 8 \<le> uint SPDYLAY_LENGTH_MASK"
    using alloc_pack_nv_wire [OF a r zl ls nv] by blast
  define post where "post = drop (length out) (drop off buf1)"
  have "drop off buf1 = out @ post" using append_take_drop_id [of "length out" "drop off buf1"] o(4) by (simp add: post_def)
  then have "buf' = spdylay_frame_pack_ctrl_hd hd1 @ replicate (off - 8) 0 @ out @ post"
    using off by (simp add: b memcpy_at_def)
  then show ?thesis using that o h by blast
qed

lemma pri_bits: "drop_bit 6 (push_bit 6 p) AND 3 = p AND (3 :: u8)"
proof -
  have "(3 :: u8) = mask 2" by (simp add: mask_eq_exp_minus_1)
  moreover have "drop_bit 6 (push_bit 6 p) AND mask 2 = p AND (mask 2 :: u8)"
    by (rule bit_word_eqI) (auto simp only: bit_and_iff bit_drop_bit_eq o_def bit_push_bit_iff bit_mask_iff possible_bit_word; simp)
  ultimately show ?thesis by simp
qed

definition syn_stream_wire :: "spdylay_syn_stream \<Rightarrow> bytes" where
  "syn_stream_wire f = spdylay_frame_pack_ctrl_hd (ss_hd f) @ spdylay_put_uint32be (ss_stream_id f) @
     spdylay_put_uint32be (ss_assoc_stream_id f) @
     [push_bit 6 (ss_pri f), if hd_version (ss_hd f) = SPDYLAY_PROTO_SPDY3 then ss_slot f else 0]"

lemma len_size_cases: "spdylay_frame_get_len_size v \<noteq> 0 \<Longrightarrow> spdylay_frame_get_len_size v = 2 \<or> spdylay_frame_get_len_size v = 4"
  by (auto simp: spdylay_frame_get_len_size_def split: if_splits)

lemma pack_syn_stream_wire:
  assumes run: "spdylay_frame_pack_syn_stream zl m buf nvbuf f deflater = Some (r, f', buf', nvbuf', deflater', m')"
    and r: "0 \<le> r" and zl: "zlib_bounds zl" and nv: "ss_nv f = Some nv" "\<forall>(k, v)\<in>set nv. k \<noteq> []"
    and ls: "ls = spdylay_frame_get_len_size (hd_version (ss_hd f))"
  obtains out where "deflated zl deflater (enc_block ls (nv_groups nv)) out deflater'"
    "r = int (18 + length out)" "f' = f\<lparr>ss_hd := (ss_hd f)\<lparr>hd_length := of_int (r - 8)\<rparr>\<rparr>"
    "take (nat r) buf' = syn_stream_wire f' @ out" "r - 8 \<le> uint SPDYLAY_LENGTH_MASK" "ls = 2 \<or> ls = 4"
proof -
  obtain hd1 buf1 where l0: "ls \<noteq> 0"
    and a: "pack_nv_front zl m buf nvbuf (ss_hd f) (Some nv) 18 ls deflater = Some (r, hd1, buf1, nvbuf', deflater', m')"
    and f': "f' = f\<lparr>ss_hd := hd1\<rparr>"
    and b: "buf' = (let buf4 = memcpy_at (memcpy_at (memcpy_at buf1 8 (spdylay_put_uint32be (ss_stream_id f))) 12
         (spdylay_put_uint32be (ss_assoc_stream_id f))) 16 [push_bit 6 (ss_pri f)] in
       if hd_version hd1 = SPDYLAY_PROTO_SPDY3 then memcpy_at buf4 17 [ss_slot f] else buf4)"
    using run r unfolding spdylay_frame_pack_syn_stream_def Let_def nv ls [symmetric]
    by (auto simp: bind_eq_Some_conv SPDYLAY_SYN_STREAM_NV_OFFSET_def split: if_splits)
  have e8: "8 \<le> (18 :: nat)" by simp
  have l: "ls = 2 \<or> ls = 4" using l0 len_size_cases ls by blast
  obtain out post where o: "deflated zl deflater (enc_block ls (nv_groups nv)) out deflater'"
    "r = int (18 + length out)" "hd1 = (ss_hd f)\<lparr>hd_length := of_int (r - 8)\<rparr>"
    "buf1 = spdylay_frame_pack_ctrl_hd hd1 @ replicate (18 - 8) 0 @ out @ post" "r - 8 \<le> uint SPDYLAY_LENGTH_MASK"
    using pack_nv_front_wire [OF a r zl l nv(2) e8] by blast
  have "buf' = syn_stream_wire f' @ out @ post"
    unfolding b o(4) by (simp add: memcpy_at_def Let_def syn_stream_wire_def f' numeral_eq_Suc)
  moreover have "length (syn_stream_wire f') = 18" by (simp add: syn_stream_wire_def)
  ultimately have "take (nat r) buf' = syn_stream_wire f' @ out" using o(2) by simp
  then show ?thesis using that o f' l by blast
qed

lemma packed_hd_ok:
  assumes "hd_version h AND SPDYLAY_VERSION_MASK = hd_version h" "0 \<le> k" "k \<le> uint SPDYLAY_LENGTH_MASK"
  shows "hd_ok (h\<lparr>hd_length := of_int k\<rparr>)"
proof -
  have "k < 2 ^ 24" using assms(3) by (simp add: SPDYLAY_LENGTH_MASK_def)
  then have "uint ((of_int k :: u32) AND SPDYLAY_LENGTH_MASK) = k" "uint (of_int k :: u32) = k"
    using length_bits assms(2) by (auto simp: uint_word_of_int_eq take_bit_int_eq_self)
  then have "(of_int k :: u32) AND SPDYLAY_LENGTH_MASK = of_int k" by (metis unsigned_word_eqI)
  then show ?thesis using assms(1) by (simp add: hd_ok_def)
qed

text \<open>
  C8. A SYN_STREAM survives the wire: the receiver that decompresses the bytes behind the fixed
  part and unpacks the frame gets its stream IDs, its slot in SPDY/3 and its header block, for every
  header block that a sender may use and every zlib that keeps its promise. Only the two low bits of
  the priority get through, in both protocol versions.
\<close>

theorem syn_stream_roundtrip:
  assumes "spdylay_frame_pack_syn_stream zl m buf nvbuf f deflater = Some (r, f', buf', nvbuf', deflater', m')" "0 \<le> r"
    and "zlib_bounds zl" "ss_nv f = Some nv" "nv_ok (spdylay_frame_get_len_size (hd_version (ss_hd f))) nv"
    and "0 \<le> sint (ss_stream_id f)" "0 \<le> sint (ss_assoc_stream_id f)"
    and "hd_version (ss_hd f) = SPDYLAY_PROTO_SPDY2 \<or> hd_version (ss_hd f) = SPDYLAY_PROTO_SPDY3"
    and zlib: "zlib_inverse zl (zl_version inflater) (zst deflater) (zst inflater)"
    and "spdylay_zlib_inflate_hd zl m1 inflater b (drop 18 (take (nat r) buf')) = Some (q, inflater', ib, m1')" "0 \<le> q"
    and "buffer_inv b" "buffer_contents b = []" "mem_ok m2 (mem_next m2)"
  shows "spdylay_frame_unpack_syn_stream m2 (take 8 buf') (take 10 (drop 8 buf')) ib =
    Some (0, f'\<lparr>ss_pri := ss_pri f AND 3,
      ss_slot := (if hd_version (ss_hd f) = SPDYLAY_PROTO_SPDY3 then ss_slot f else 0)\<rparr>, snd (malloc m2))"
proof -
  let ?ls = "spdylay_frame_get_len_size (hd_version (ss_hd f))"
  obtain out where o: "deflated zl deflater (enc_block ?ls (nv_groups nv)) out deflater'"
    "r = int (18 + length out)" "f' = f\<lparr>ss_hd := (ss_hd f)\<lparr>hd_length := of_int (r - 8)\<rparr>\<rparr>"
    "take (nat r) buf' = syn_stream_wire f' @ out" "r - 8 \<le> uint SPDYLAY_LENGTH_MASK" "?ls = 2 \<or> ?ls = 4"
    using pack_syn_stream_wire [OF assms(1-4) nv_ok_names [OF assms(5)] refl] by metis
  have lw: "length (syn_stream_wire f') = 18" by (simp add: syn_stream_wire_def)
  have "drop 18 (take (nat r) buf') = out" using o(4) lw by simp
  then have ib: "buffer_inv ib" "buffer_contents ib = enc_block ?ls (nv_groups nv)"
    using inflated_block [OF zlib assms(3) o(1) _ assms(11,12)] assms(10,13) by auto
  have "take 18 buf' = syn_stream_wire f'"
    using o(2,4) lw by (metis append_eq_conv_conj le_add1 min.absorb1 nat_int take_take)
  note tk = this
  have w: "take 8 buf' = take 8 (syn_stream_wire f')" "take 10 (drop 8 buf') = drop 8 (syn_stream_wire f')"
    by (simp_all add: drop_take flip: tk)
  have "hd_version (ss_hd f) AND SPDYLAY_VERSION_MASK = hd_version (ss_hd f)"
    using assms(8) by (auto simp: SPDYLAY_PROTO_SPDY2_def SPDYLAY_PROTO_SPDY3_def SPDYLAY_VERSION_MASK_def)
  note v = this
  have "0 \<le> r - 8" using o(2) by simp
  then have h: "hd_ok (ss_hd f')" using packed_hd_ok [OF v _ o(5)] unfolding o(3) by simp
  have "spdylay_frame_unpack_syn_stream_without_nv (take 8 buf') (take 10 (drop 8 buf')) =
      (0, f'\<lparr>ss_pri := ss_pri f AND 3,
        ss_slot := (if hd_version (ss_hd f) = SPDYLAY_PROTO_SPDY3 then ss_slot f else 0), ss_nv := None\<rparr>)"
    unfolding w using h assms(6,7)
    by (simp add: syn_stream_wire_def spdylay_frame_unpack_syn_stream_without_nv_def SPDYLAY_SYN_STREAM_NV_OFFSET_def
        frame_masks nonneg_mask spdylay_unpack_pri_def pri_bits o(3) Let_def nth_append)
  moreover have "spdylay_frame_unpack_nv m2 ib ?ls = Some (0, Some nv, snd (malloc m2))"
    by (rule unpack_nv_block [OF ib o(6) assms(5,14)])
  ultimately show ?thesis using o(6) assms(4)
    by (auto simp: spdylay_frame_unpack_syn_stream_def o(3))
qed

lemma stored_pack_syn:
  fixes d :: "unit spdylay_zlib"
  obtains f' buf' nvbuf' d' m' where
    "spdylay_frame_pack_syn_stream stored_zlib good_mem [] [] demo_syn d = Some (22, f', buf', nvbuf', d', m')"
proof -
  have "map_option fst (spdylay_frame_pack_syn_stream stored_zlib good_mem [] [] demo_syn d) = Some 22"
    by (simp add: spdylay_frame_pack_syn_stream_def pack_nv_front_def spdylay_frame_alloc_pack_nv_def
      spdylay_frame_count_nv_space_def spdylay_frame_pack_nv_def spdylay_reserve_buffer_def good_mem_def malloc_def
      stored_zlib_def spdylay_zlib_deflate_hd_def spdylay_zlib_deflate_hd_bound_def Let_def demo_syn_def
      spdylay_frame_syn_stream_init_def SPDYLAY_SYN_STREAM_NV_OFFSET_def spdylay_frame_get_len_size_def
      SPDYLAY_PROTO_SPDY2_def SPDYLAY_PROTO_SPDY3_def spdylay_frame_put_nv_len_def SPDYLAY_LENGTH_MASK_def
      memcpy_at_def fresh_block_def round_up_4096_def)
  then show ?thesis using that by (cases "spdylay_frame_pack_syn_stream stored_zlib good_mem [] [] demo_syn d") auto
qed

lemma stored_inflate_small:
  fixes i :: "unit spdylay_zlib"
  assumes "length inp < 4096"
  obtains r i' b' m' where "spdylay_zlib_inflate_hd stored_zlib good_mem i (spdylay_buffer_init 4096) inp = Some (r, i', b', m')" "0 \<le> r"
proof -
  let ?b = "spdylay_buffer_init 4096"
  have b: "buffer_inv ?b" "spdylay_buffer_avail ?b = 0"
    using buffer_init_inv [of 4096] by (simp_all add: spdylay_buffer_avail_def spdylay_buffer_init_def)
  obtain b1 m1 where a: "spdylay_buffer_alloc good_mem ?b = (0, b1, m1)" "spdylay_buffer_avail b1 = 4096"
    by (simp add: spdylay_buffer_alloc_def spdylay_buffer_init_def spdylay_buffer_avail_def good_mem_def malloc_def Let_def)
  have b1: "buffer_inv b1" "0 < buf_current b1" by (rule buffer_alloc_cases [OF b a(1)]; simp)+
  have len: "length inp \<le> spdylay_buffer_avail b1" using a(2) assms by simp
  obtain b2 b3 where s: "buffer_store b1 inp = Some b2" "spdylay_buffer_advance b2 (length inp) = Some b3"
    using buffer_store_advance [OF b1 len] by metis
  have "spdylay_buffer_avail b2 = 4096" using buffer_store_keeps(3) [OF b1 len s(1)] a(2) by simp
  then have "spdylay_zlib_inflate_hd stored_zlib good_mem i ?b inp = Some (int (spdylay_buffer_length b3), i, b3, m1)"
    using assms by (subst spdylay_zlib_inflate_hd.simps) (simp add: b(2) a stored_zlib_def s Let_def)
  then show ?thesis using that by simp
qed

theorem syn_stream_roundtrip_witness:
  "\<exists>buf ib f'. spdylay_frame_unpack_syn_stream good_mem (take 8 buf) (take 10 (drop 8 buf)) ib = Some (0, f', snd (malloc good_mem)) \<and>
     ss_stream_id f' = 1 \<and> ss_pri f' = 3 \<and> ss_nv f' = Some []"
proof -
  let ?d = "\<lparr>zst = (), zl_version = SPDYLAY_PROTO_SPDY3\<rparr>"
  obtain f' buf' nvbuf' d' m' where
    run: "spdylay_frame_pack_syn_stream stored_zlib good_mem [] [] demo_syn ?d = Some (22, f', buf', nvbuf', d', m')"
    by (rule stored_pack_syn)
  have "length (drop 18 (take (nat 22) buf')) < 4096" by simp
  then obtain r i' ib m1 where inf: "spdylay_zlib_inflate_hd stored_zlib good_mem ?d (spdylay_buffer_init 4096)
      (drop 18 (take (nat 22) buf')) = Some (r, i', ib, m1)" "0 \<le> r"
    by (rule stored_inflate_small)
  have b: "buffer_inv (spdylay_buffer_init 4096)" "buffer_contents (spdylay_buffer_init 4096) = []"
    using buffer_init_inv [of 4096] by (simp_all add: buffer_contents_def spdylay_buffer_init_def)
  have nv: "ss_nv demo_syn = Some []" "nv_ok (spdylay_frame_get_len_size (hd_version (ss_hd demo_syn))) []"
    by (simp_all add: demo_syn_def spdylay_frame_syn_stream_init_def nv_ok_def)
  have f': "ss_nv f' = Some []" "ss_stream_id f' = 1" using pack_keeps_frame [OF run] nv(1) by simp_all
  have "mem_ok good_mem (mem_next good_mem)" by (simp add: good_mem_def)
  from syn_stream_roundtrip [OF run _ stored_zlib_bounds nv _ _ _ stored_zlib_inverse inf b this] f'
  show ?thesis by (intro exI [of _ buf'] exI [of _ ib]) auto
qed

section \<open>Round trips of the other frames\<close>

text \<open>
  C13. The name/value block: packing a sorted header list with distinct groups of values gives
  exactly as many bytes as were counted for it, and unpacking the buffer that took them gives the
  list back.
\<close>

theorem nv_block_roundtrip:
  assumes "ls = 2 \<or> ls = 4" "nv_ok ls nv" "buffer_inv b0" "buffer_contents b0 = []" "mem_ok m2 (mem_next m2)"
  shows "\<exists>w. spdylay_frame_pack_nv nv ls = Some w \<and> length w = spdylay_frame_count_nv_space nv ls \<and>
    (\<forall>b m'. spdylay_buffer_write m b0 w = Some (0, b, m') \<longrightarrow>
       spdylay_frame_unpack_nv m2 b ls = Some (0, Some nv, snd (malloc m2)))"
proof -
  let ?w = "enc_block ls (nv_groups nv)"
  note names = nv_ok_names [OF assms(2)]
  have "spdylay_frame_unpack_nv m2 b ls = Some (0, Some nv, snd (malloc m2))"
    if "spdylay_buffer_write m b0 ?w = Some (0, b, m')" for b m'
  proof (rule unpack_nv_block [OF _ _ assms(1,2,5)])
    show "buffer_inv b" "buffer_contents b = ?w"
      using buffer_write_appends [OF assms(3), of m ?w] that assms(4) by auto
  qed
  then show ?thesis using pack_nv_block [OF assms(1) names] count_nv_space_block [OF assms(1) names] by auto
qed

theorem nv_block_roundtrip_witness:
  "\<exists>w. spdylay_frame_pack_nv [([0x61], [0x31]), ([0x61], [0x32]), ([0x62], [])] 2 = Some w \<and> length w = 15"
  using nv_block_roundtrip [where ls = 2 and nv = "[([0x61], [0x31]), ([0x61], [0x32]), ([0x62], [])]" and
      ?b0.0 = "spdylay_buffer_init 16" and ?m2.0 = good_mem and m = good_mem]
    buffer_init_inv [of 16]
  by (auto simp: nv_ok_def group_ok_def buffer_contents_def spdylay_buffer_init_def good_mem_def
      spdylay_frame_count_nv_space_def bad_name_char_def)

text \<open>
  The frames of fixed size survive the wire: a PING, a RST_STREAM for a stream ID and a
  WINDOW_UPDATE with an amount that is not negative.
\<close>

theorem fixed_frames_roundtrip:
  "(spdylay_frame_pack_ping m buf p = (r, buf', m') \<and> 0 \<le> r \<and> hd_ok (pg_hd p) \<longrightarrow>
     spdylay_frame_unpack_ping (take 8 buf') (drop 8 (take (nat r) buf')) = Inr p) \<and>
   (spdylay_frame_pack_rst_stream m buf f = (r, buf', m') \<and> 0 \<le> r \<and> hd_ok (rs_hd f) \<and> 0 \<le> sint (rs_stream_id f) \<longrightarrow>
     spdylay_frame_unpack_rst_stream (take 8 buf') (drop 8 (take (nat r) buf')) = Inr f) \<and>
   (spdylay_frame_pack_window_update m buf w = (r, buf', m') \<and> 0 \<le> r \<and> hd_ok (wu_hd w) \<and> 0 \<le> sint (wu_stream_id w) \<and>
      0 \<le> sint (wu_delta_window_size w) \<longrightarrow>
     spdylay_frame_unpack_window_update (take 8 buf') (drop 8 (take (nat r) buf')) = Inr w)"
  using ping.roundtrip rst_stream.roundtrip window_update.roundtrip by blast

lemma good_reserve: "\<exists>buf' m'. spdylay_reserve_buffer good_mem buf n = (0, buf', m')"
  by (rule reserve_plenty) (simp add: good_mem_def)

lemmas demo_hd_ok = hd_ok_def SPDYLAY_PROTO_SPDY3_def SPDYLAY_VERSION_MASK_def SPDYLAY_LENGTH_MASK_def

theorem fixed_frames_roundtrip_witness:
  "(\<exists>buf. spdylay_frame_unpack_ping (take 8 buf) (drop 8 (take 12 buf)) = Inr (spdylay_frame_ping_init SPDYLAY_PROTO_SPDY3 7)) \<and>
   (\<exists>buf. spdylay_frame_unpack_window_update (take 8 buf) (drop 8 (take 16 buf)) =
     Inr (spdylay_frame_window_update_init SPDYLAY_PROTO_SPDY3 5 65536))"
proof
  let ?p = "spdylay_frame_ping_init SPDYLAY_PROTO_SPDY3 7"
  obtain buf m' where p: "spdylay_frame_pack_ping good_mem [] ?p = (12, buf, m')"
    using good_reserve [of "[]" 12] by (auto simp: spdylay_frame_pack_ping_def Let_def)
  have "hd_ok (pg_hd ?p)" by (simp add: demo_hd_ok spdylay_frame_ping_init_def)
  with p fixed_frames_roundtrip [of good_mem "[]" ?p 12 buf m']
  show "\<exists>buf. spdylay_frame_unpack_ping (take 8 buf) (drop 8 (take 12 buf)) = Inr ?p" by auto
next
  let ?w = "spdylay_frame_window_update_init SPDYLAY_PROTO_SPDY3 5 65536"
  obtain buf m' where w: "spdylay_frame_pack_window_update good_mem [] ?w = (16, buf, m')"
    using good_reserve [of "[]" 16] by (auto simp: spdylay_frame_pack_window_update_def pack_two_words_def Let_def)
  have "hd_ok (wu_hd ?w)" "0 \<le> sint (wu_stream_id ?w)" "0 \<le> sint (wu_delta_window_size ?w)"
    by (simp_all add: demo_hd_ok spdylay_frame_window_update_init_def)
  with w fixed_frames_roundtrip [of good_mem "[]" _ 16 buf m' _ ?w]
  show "\<exists>buf. spdylay_frame_unpack_window_update (take 8 buf) (drop 8 (take 16 buf)) = Inr ?w" by auto
qed

text \<open>
  A GOAWAY survives the wire, with its status code in SPDY/3; SPDY/2 has no room for one.
\<close>

theorem goaway_roundtrip:
  assumes "spdylay_frame_pack_goaway m buf f = (r, buf', m')" "0 \<le> r" "goaway_ok f"
  shows "spdylay_frame_unpack_goaway (take 8 buf') (drop 8 (take (nat r) buf')) = Inr f"
  using assms by (rule goaway.roundtrip)

theorem goaway_roundtrip_witness:
  "\<exists>buf. spdylay_frame_unpack_goaway (take 8 buf) (drop 8 (take 12 buf)) =
     Inr (spdylay_frame_goaway_init SPDYLAY_PROTO_SPDY2 5 1)"
proof -
  let ?f = "spdylay_frame_goaway_init SPDYLAY_PROTO_SPDY2 5 1"
  obtain buf' m' where run: "spdylay_frame_pack_goaway good_mem [] ?f = (12, buf', m')"
    using good_reserve [of "[]" 12]
    by (auto simp: spdylay_frame_pack_goaway_def spdylay_frame_goaway_init_def Let_def)
  have "goaway_ok ?f"
    by (simp add: demo_hd_ok goaway_ok_def spdylay_frame_goaway_init_def SPDYLAY_PROTO_SPDY2_def)
  from goaway_roundtrip [OF run _ this] show ?thesis by auto
qed

text \<open>
  A SETTINGS frame survives the wire in both protocol versions, whose entries have their
  identifiers in different byte orders.
\<close>

theorem settings_roundtrip:
  assumes "spdylay_frame_pack_settings m buf f = (r, buf', m')" "0 \<le> r"
    and "hd_ok (st_hd f) \<and> list_all entry_ok (st_iv f) \<and> length (st_iv f) < 2 ^ 28 - 1 \<and>
      hd_length (st_hd f) = of_nat (4 + 8 * length (st_iv f)) \<and>
      (hd_version (st_hd f) = SPDYLAY_PROTO_SPDY2 \<or> hd_version (st_hd f) = SPDYLAY_PROTO_SPDY3) \<and> mem_ok m2 (mem_next m2)"
  shows "fst (spdylay_frame_unpack_settings m2 (take 8 buf') (drop 8 (take (nat r) buf'))) = Inr f"
  using assms by (rule settings.roundtrip)

theorem settings_roundtrip_witness:
  "\<exists>buf. fst (spdylay_frame_unpack_settings good_mem (take 8 buf) (drop 8 (take 20 buf))) =
     Inr (spdylay_frame_settings_init SPDYLAY_PROTO_SPDY2 0 [\<lparr>se_settings_id = 4, se_flags = 1, se_value = 100\<rparr>])"
proof -
  let ?f = "spdylay_frame_settings_init SPDYLAY_PROTO_SPDY2 0 [\<lparr>se_settings_id = 4, se_flags = 1, se_value = 100\<rparr>]"
  obtain buf' m' where run: "spdylay_frame_pack_settings good_mem [] ?f = (20, buf', m')"
    using good_reserve [of "[]" 20]
    by (auto simp: spdylay_frame_pack_settings_def spdylay_frame_settings_init_def Let_def)
  from settings_roundtrip [OF run, of good_mem] show ?thesis
    by (auto simp: demo_hd_ok spdylay_frame_settings_init_def SPDYLAY_PROTO_SPDY2_def entry_ok_def good_mem_def
        SPDYLAY_SETTINGS_ID_MASK_def)
qed

text \<open>
  A CREDENTIAL frame with its proof and its certificates survives the wire.
\<close>

theorem credential_roundtrip:
  assumes "spdylay_frame_pack_credential m buf f = (r, buf', m')" "0 \<le> r"
    and "hd_ok (cr_hd f) \<and> length (cr_proof f) < 2 ^ 32 \<and> cr_certs f \<noteq> [] \<and>
       list_all (\<lambda>c. length c < 2 ^ 32) (cr_certs f) \<and> (\<forall>i. mem_ok m2 i)"
  shows "fst (spdylay_frame_unpack_credential m2 (take 8 buf') (drop 8 (take (nat r) buf'))) = Inr f"
  using assms by (rule credential.roundtrip)

theorem credential_roundtrip_witness:
  "\<exists>buf n. fst (spdylay_frame_unpack_credential good_mem (take 8 buf) (drop 8 (take n buf))) =
     Inr (spdylay_frame_credential_init SPDYLAY_PROTO_SPDY3 1 [1, 2] [[3], [4, 5]])"
proof -
  let ?f = "spdylay_frame_credential_init SPDYLAY_PROTO_SPDY3 1 [1, 2] [[3], [4, 5]]"
  obtain r buf' m' where run: "spdylay_frame_pack_credential good_mem [] ?f = (r, buf', m')" "0 \<le> r"
    using good_reserve [of "[]" 27]
    by (auto simp: spdylay_frame_pack_credential_def spdylay_frame_credential_init_def Let_def)
  have "hd_ok (cr_hd ?f)" by (simp add: demo_hd_ok spdylay_frame_credential_init_def)
  with credential_roundtrip [OF run, of good_mem] show ?thesis
    by (auto simp: spdylay_frame_credential_init_def good_mem_def)
qed

end
