(* ===== verification/Spdy_Closing.thy ===== *)
theory Spdy_Closing
  imports Spdy_Wire
begin

text \<open>
  How streams are half-closed and closed by what the peer sends: FIN on DATA and SYN_REPLY,
  RST_STREAM and GOAWAY; what the calls of the application never touch; the decompressors as a
  caller sees them.
\<close>

section \<open>The read half\<close>

definition stream_half_closed ::
    "('z, 'u) spdylay_session \<Rightarrow> ('z, 'u) spdylay_session \<Rightarrow> i32 \<Rightarrow> u8 \<Rightarrow> bool" where
  "stream_half_closed s s' i flags \<longleftrightarrow>
     (if flags AND SPDYLAY_SHUT_WR \<noteq> 0
      then {k. spdylay_session_get_stream s' k \<noteq> None} = {k. spdylay_session_get_stream s k \<noteq> None} - {i}
      else {k. spdylay_session_get_stream s' k \<noteq> None} = {k. spdylay_session_get_stream s k \<noteq> None} \<and>
        (\<exists>st'. spdylay_session_get_stream s' i = Some st' \<and> sm_shut_flags st' = flags OR SPDYLAY_SHUT_RD))"

lemma shut_both_iff: "(fl OR 1) AND 3 = 3 \<longleftrightarrow> fl AND 2 \<noteq> 0" for fl :: u8
proof -
  have three: "(3 :: u8) = 1 OR 2" by simp
  have b3: "bit (3 :: u8) n \<longleftrightarrow> n = 0 \<or> n = 1" for n
    unfolding three bit_or_iff by (auto simp: bit_1_iff bit_2_iff)
  have "(fl OR 1) AND 3 = 1 OR (fl AND 2)"
    by (rule bit_eqI) (simp only: bit_or_iff bit_and_iff b3 bit_1_iff bit_2_iff, auto)
  moreover have "fl AND 2 = 0 \<or> fl AND 2 = 2"
    by (cases "bit fl 1") (auto intro!: bit_eqI simp: bit_simps bit_2_iff)
  ultimately show ?thesis by auto
qed

lemma shut_rd_effect:
  assumes inv: "session_inv s" and st: "spdylay_session_get_stream s i = Some st"
    and run: "shut_rd_and_close cb s i = Some s'"
  shows "stream_half_closed s s' i (sm_shut_flags st)"
proof -
  define t where "t = put_stream i (spdylay_stream_shutdown SPDYLAY_SHUT_RD) s"
  have get: "spdylay_session_get_stream t k = (if k = i then Some (spdylay_stream_shutdown SPDYLAY_SHUT_RD st)
      else spdylay_session_get_stream s k)" for k
    using st by (simp add: t_def get_put_stream [OF session_inv_parts(3) [OF inv]])
  have ti: "session_inv t" unfolding t_def by (rule session_inv_gentle [OF inv]) (simp add: spdylay_stream_shutdown_def)
  have id: "sm_stream_id st = i"
    using session_inv_parts(1) [OF inv] st by (simp add: table_inv_def)
  have both: "sm_shut_flags (spdylay_stream_shutdown SPDYLAY_SHUT_RD st) AND SPDYLAY_SHUT_RDWR = SPDYLAY_SHUT_RDWR \<longleftrightarrow>
      sm_shut_flags st AND SPDYLAY_SHUT_WR \<noteq> 0"
    using shut_both_iff [of "sm_shut_flags st"] by simp
  obtain r where r: "spdylay_session_close_stream_if_shut_rdwr cb t i = Some (r, s')"
    using run by (auto simp: shut_rd_and_close_def t_def)
  show ?thesis
  proof (cases "sm_shut_flags st AND SPDYLAY_SHUT_WR = 0")
    case True
    with r both have "s' = t" by (simp add: spdylay_session_close_stream_if_shut_rdwr_def get)
    with True st show ?thesis by (auto simp: stream_half_closed_def get)
  next
    case False
    with r both id have c: "spdylay_session_close_stream cb t i SPDYLAY_OK = Some (r, s')"
      by (simp add: spdylay_session_close_stream_if_shut_rdwr_def get)
    have "spdylay_session_get_stream s' k = None \<longleftrightarrow> k = i \<or> spdylay_session_get_stream s k = None" for k
      using close_stream_effect(2) [OF c ti, of k] by (auto simp: get)
    with False show ?thesis by (auto simp: stream_half_closed_def)
  qed
qed

lemma half_closed_keeps:
  assumes "keeps_streams s t" "map_inv (s_streams s)" "stream_half_closed t s' i fl"
  shows "stream_half_closed s s' i fl"
  using assms(3) unfolding stream_half_closed_def keeps_dom [OF assms(1,2)] .

lemma notified_shut_rd:
  assumes inv: "session_inv s" and st: "spdylay_session_get_stream s i = Some st"
    and n: "notify cb ev s = Some t" and run: "shut_rd_and_close cb t i = Some s'"
  shows "session_inv s' \<and> stream_half_closed s s' i (sm_shut_flags st)"
proof -
  note k = notify_keeps [OF n] and m = session_inv_parts(3) [OF inv] and ti = session.I_notify [OF n inv]
  obtain st' where st': "spdylay_session_get_stream t i = Some st'" "same_stream st st'"
    using keeps_stream [OF k m st] by blast
  from half_closed_keeps [OF k m shut_rd_effect [OF ti st'(1) run]] st'(2) session.I_shut_rd [OF run ti]
  show ?thesis by (simp add: same_stream_def)
qed

lemma close_stream_dom:
  assumes "spdylay_session_close_stream cb s i c = Some (r, s')" "session_inv s"
  shows "session_inv s'" "{k. spdylay_session_get_stream s' k \<noteq> None} = {k. spdylay_session_get_stream s k \<noteq> None} - {i}"
proof -
  show "session_inv s'" by (rule session.I_close_stream [OF assms])
  show "{k. spdylay_session_get_stream s' k \<noteq> None} = {k. spdylay_session_get_stream s k \<noteq> None} - {i}"
  proof (cases "spdylay_session_get_stream s i")
    case None
    with assms(1) show ?thesis by (auto simp: spdylay_session_close_stream_def)
  next
    case (Some st)
    then show ?thesis using close_stream_effect(2) [OF assms] by auto
  qed
qed

lemma close_pushed_loop_effect:
  "close_pushed_loop cb i c ps s = Some s' \<Longrightarrow> session_inv s \<Longrightarrow> session_inv s' \<and>
   {k. spdylay_session_get_stream s' k \<noteq> None} = {k. spdylay_session_get_stream s k \<noteq> None} - set ps"
proof (induction ps arbitrary: s)
  case (Cons p ps)
  then obtain r t where t: "spdylay_session_close_stream cb s p c = Some (r, t)" "close_pushed_loop cb i c ps t = Some s'"
    by (auto simp: bind_eq_Some_conv)
  from close_stream_dom [OF t(1) Cons.prems(2)] Cons.IH [OF t(2)] show ?case by auto
qed simp

lemma demo_busy_goaway: "s_goaway_flags demo_busy = 0"
  by (simp add: demo_busy_def spdylay_session_open_stream_def session_malloc_def malloc_def Let_def split: prod.split)

section \<open>Properties\<close>

text \<open>
  C14. The last DATA frame of a peer's request: it closes the read half of its stream, and if the
  write half was closed already the stream leaves the table, alone.
\<close>

theorem data_fin_received:
  assumes "session_inv s" "spdylay_session_get_stream s i = Some st" "\<not> spdylay_session_is_my_stream_id s i"
    "sm_shut_flags st AND SPDYLAY_SHUT_RD = 0" "sm_state st \<noteq> SPDYLAY_STREAM_CLOSING"
    "flags AND SPDYLAY_DATA_FLAG_FIN \<noteq> 0" "spdylay_session_on_data_received cb s flags len i = Some (r, s')"
  shows "r = 0 \<and> session_inv s' \<and> stream_half_closed s s' i (sm_shut_flags st)"
proof -
  obtain t u where t: "notify cb (OnDataRecv flags i len) s = Some t" "notify cb (OnRequestRecv i) t = Some u"
      "shut_rd_and_close cb u i = Some s'" "r = 0"
    using assms(2-7) by (auto simp: spdylay_session_on_data_received_def bind_eq_Some_conv)
  note k = notify_keeps [OF t(1)] and m = session_inv_parts(3) [OF assms(1)]
  obtain st' where st': "spdylay_session_get_stream t i = Some st'" "same_stream st st'"
    using keeps_stream [OF k m assms(2)] by blast
  from notified_shut_rd [OF session.I_notify [OF t(1) assms(1)] st'(1) t(2,3)] half_closed_keeps [OF k m] st'(2) t(4)
  show ?thesis by (auto simp: same_stream_def)
qed

theorem data_fin_received_witness:
  "\<exists>s' st'. spdylay_session_on_data_received quiet_callbacks demo_busy 1 0 1 = Some (0, s') \<and>
     spdylay_session_get_stream s' 1 = Some st' \<and> sm_shut_flags st' = SPDYLAY_SHUT_RD"
proof -
  obtain r s' where s': "spdylay_session_on_data_received quiet_callbacks demo_busy 1 0 1 = Some (r, s')"
    by (simp add: spdylay_session_on_data_received_def shut_rd_and_close_def demo_busy_open(2,5)
        get_put_stream [OF session_inv_parts(3) [OF demo_busy_open(1)]]
        spdylay_session_close_stream_if_shut_rdwr_def)
  have "r = 0 \<and> stream_half_closed demo_busy s' 1 0"
    using data_fin_received [OF demo_busy_open(1) _ demo_busy_open(5) _ _ _ s'] by (simp add: demo_busy_open(2))
  with s' show ?thesis by (auto simp: stream_half_closed_def)
qed

text \<open>
  C15. RST_STREAM from the peer takes its stream out of the table, and on a server that is told to
  cancel a request also the streams pushed for it; every other stream stays.
\<close>

theorem rst_stream_received:
  assumes "session_inv s" "spdylay_session_get_stream s (rs_stream_id f) = Some st"
    "hd_version (rs_hd f) = s_version s" "spdylay_session_on_rst_stream_received cb s f = Some (r, s')"
  shows "r = 0 \<and> session_inv s' \<and> {k. spdylay_session_get_stream s' k \<noteq> None} =
    {k. spdylay_session_get_stream s k \<noteq> None} - insert (rs_stream_id f)
      (if s_server s \<and> \<not> spdylay_session_is_my_stream_id s (rs_stream_id f) \<and> rs_status_code f = SPDYLAY_CANCEL
       then set (sm_pushed_streams st) else {})"
proof -
  let ?i = "rs_stream_id f"
  let ?cond = "s_server s \<and> \<not> spdylay_session_is_my_stream_id s ?i \<and> rs_status_code f = SPDYLAY_CANCEL"
  obtain t where t: "notify cb (OnCtrlRecv (FRstStream f)) s = Some t"
    using assms(3,4) by (auto simp: spdylay_session_on_rst_stream_received_def spdylay_session_check_version_def bind_eq_Some_conv)
  note k = notify_keeps [OF t] and m = session_inv_parts(3) [OF assms(1)] and ti = session.I_notify [OF t assms(1)]
  obtain st' where st': "spdylay_session_get_stream t ?i = Some st'" "same_stream st st'"
    using keeps_stream [OF k m assms(2)] by blast
  have my: "spdylay_session_is_my_stream_id t = spdylay_session_is_my_stream_id s" "s_server t = s_server s"
    using my_id_cong keeps_counts(3) [OF k] by auto
  obtain u r1 where u: "(if ?cond then spdylay_session_close_pushed_streams cb t ?i (rs_status_code f) else Some t) = Some u"
      "spdylay_session_close_stream cb u ?i (rs_status_code f) = Some (r1, s')" "r = 0"
    using assms(3,4) t my
    by (auto simp: spdylay_session_on_rst_stream_received_def spdylay_session_check_version_def bind_eq_Some_conv)
  have ui: "session_inv u \<and> {k. spdylay_session_get_stream u k \<noteq> None} =
      {k. spdylay_session_get_stream s k \<noteq> None} - (if ?cond then set (sm_pushed_streams st) else {})"
  proof (cases ?cond)
    case True
    then have "close_pushed_loop cb ?i (rs_status_code f) (sm_pushed_streams st) t = Some u"
      using u(1) st' by (simp add: spdylay_session_close_pushed_streams_def same_stream_def)
    from close_pushed_loop_effect [OF this ti] True show ?thesis by (simp add: keeps_dom [OF k m])
  next
    case False
    then have "u = t" using u(1) by (simp only: if_False option.inject)
    with False ti show ?thesis by (simp only: if_False keeps_dom [OF k m] Diff_empty simp_thms)
  qed
  then show ?thesis using close_stream_dom [OF u(2)] u(3) by auto
qed

theorem rst_stream_received_witness:
  "\<exists>s'. spdylay_session_on_rst_stream_received quiet_callbacks demo_busy
       (spdylay_frame_rst_stream_init SPDYLAY_PROTO_SPDY3 1 SPDYLAY_CANCEL) = Some (0, s') \<and>
     {k. spdylay_session_get_stream s' k \<noteq> None} = {}"
proof -
  let ?f = "spdylay_frame_rst_stream_init SPDYLAY_PROTO_SPDY3 1 SPDYLAY_CANCEL"
  have f: "rs_stream_id ?f = 1" "hd_version (rs_hd ?f) = s_version demo_busy"
    by (simp_all add: spdylay_frame_rst_stream_init_def demo_busy_fields)
  have "spdylay_session_close_pushed_streams quiet_callbacks demo_busy 1 c = Some demo_busy" for c
    by (simp add: spdylay_session_close_pushed_streams_def demo_busy_open(2) spdylay_stream_init_def)
  then obtain r s' where s': "spdylay_session_on_rst_stream_received quiet_callbacks demo_busy ?f = Some (r, s')"
    using f by (cases "s_server demo_busy") (simp_all add: spdylay_session_on_rst_stream_received_def
        spdylay_session_check_version_def spdylay_frame_rst_stream_init_def demo_busy_open(2,5) spdylay_session_close_stream_def)
  have "r = 0 \<and> {k. spdylay_session_get_stream s' k \<noteq> None} = {k. spdylay_session_get_stream demo_busy k \<noteq> None} - {1}"
    using rst_stream_received [OF demo_busy_open(1) _ f(2) s'] f(1)
    by (simp add: demo_busy_open(2) [of 1] spdylay_stream_init_def)
  moreover have "{k. spdylay_session_get_stream demo_busy k \<noteq> None} = {1}" by (auto simp: demo_busy_open(2))
  ultimately show ?thesis using s' by auto
qed

text \<open>
  C16. A GOAWAY from the peer is recorded: the last good stream ID is the one it names, whatever
  the application does when it is told, no SYN_STREAM may be sent any more, and the session reads
  on exactly while it has streams.
\<close>

theorem goaway_received:
  assumes "session_inv s" "hd_version (ga_hd f) = s_version s" "s_goaway_flags s = 0"
    "spdylay_session_on_goaway_received cb s f = Some (r, s')"
  shows "r = 0 \<and> session_inv s' \<and> s_last_good_stream_id s' = ga_last_good_stream_id f \<and>
    spdylay_session_predicate_syn_stream_send s' syn = SPDYLAY_ERR_SYN_STREAM_NOT_ALLOWED \<and>
    (spdylay_session_want_read s' \<longleftrightarrow> spdylay_map_size (s_streams s) > 0)"
proof -
  define t where "t = s\<lparr>s_last_good_stream_id := ga_last_good_stream_id f, s_goaway_flags := SPDYLAY_GOAWAY_RECV\<rparr>"
  have n: "notify cb (OnCtrlRecv (FGoaway f)) t = Some s'" and r: "r = 0"
    using assms(2-4) by (auto simp: spdylay_session_on_goaway_received_def spdylay_session_check_version_def t_def)
  have inv: "session_inv s'" by (rule session.I_on_goaway [OF assms(4,1)])
  note k = notify_keeps [OF n]
  have m: "map_inv (s_streams t)" using session_inv_parts(3) [OF assms(1)] by (simp add: t_def)
  have "size (map_vals (s_streams s')) = size (map_vals (s_streams t))"
    using arg_cong [OF keeps_streams_get(3) [OF k m], of size] by simp
  then have sz: "spdylay_map_size (s_streams s') = spdylay_map_size (s_streams s)"
    using treap.sz_vals [OF session_inv_parts(3) [OF inv]] treap.sz_vals [OF m] by (simp add: t_def)
  have f: "s_last_good_stream_id s' = ga_last_good_stream_id f" "s_goaway_flags s' = 2 \<or> s_goaway_flags s' = 6"
    using k by (auto simp: keeps_streams_def keeps_fields_def t_def)
  show ?thesis using r inv f sz
    by (auto simp: spdylay_session_predicate_syn_stream_send_def spdylay_session_want_read_def)
qed

theorem goaway_received_witness:
  "\<exists>s'. spdylay_session_on_goaway_received quiet_callbacks demo_busy
       (spdylay_frame_goaway_init SPDYLAY_PROTO_SPDY3 0 0) = Some (0, s') \<and>
     spdylay_session_predicate_syn_stream_send s' demo_syn = SPDYLAY_ERR_SYN_STREAM_NOT_ALLOWED"
proof -
  let ?f = "spdylay_frame_goaway_init SPDYLAY_PROTO_SPDY3 0 0"
  have f: "hd_version (ga_hd ?f) = s_version demo_busy" by (simp add: spdylay_frame_goaway_init_def demo_busy_fields)
  obtain s' where s': "spdylay_session_on_goaway_received quiet_callbacks demo_busy ?f = Some (0, s')"
    using f by (simp add: spdylay_session_on_goaway_received_def spdylay_session_check_version_def)
  with goaway_received [OF demo_busy_open(1) f _ s', of demo_syn] demo_busy_goaway show ?thesis by auto
qed

text \<open>
  C17. No call of the API opens or closes a stream, half-closes one or gives out a stream ID: after
  any of them the table has the same streams with the same priorities, shut flags and send
  windows, the counters and identifiers are the same and the session invariant holds. So an
  application may make these calls from within a callback of the library.
\<close>

theorem api_keeps_streams:
  assumes "session_inv s" "exec_apis s cs = Some s'"
  shows "session_inv s' \<and> s_next_stream_id s' = s_next_stream_id s \<and> s_last_recv_stream_id s' = s_last_recv_stream_id s \<and>
    s_num_outgoing_streams s' = s_num_outgoing_streams s \<and> s_num_incoming_streams s' = s_num_incoming_streams s \<and>
    (\<forall>k. case (spdylay_session_get_stream s k, spdylay_session_get_stream s' k) of
       (None, None) \<Rightarrow> True
     | (Some st, Some st') \<Rightarrow> sm_pri st' = sm_pri st \<and> sm_shut_flags st' = sm_shut_flags st \<and>
         sm_window_size st' = sm_window_size st
     | _ \<Rightarrow> False)"
proof -
  have k: "keeps_streams s s'" by (rule frame_rule.R_exec_apis [OF assms(2)])
  have inv: "session_inv s'" using session.R_exec_apis [OF assms(2)] assms(1) by blast
  have "case (spdylay_session_get_stream s k, spdylay_session_get_stream s' k) of
       (None, None) \<Rightarrow> True
     | (Some st, Some st') \<Rightarrow> sm_pri st' = sm_pri st \<and> sm_shut_flags st' = sm_shut_flags st \<and>
         sm_window_size st' = sm_window_size st
     | _ \<Rightarrow> False" for k
    using keeps_streams_get(2) [OF k session_inv_parts(3) [OF assms(1)], of k]
    by (auto simp: same_stream_def elim: option.rel_cases split: option.splits)
  with inv keeps_counts [OF k] show ?thesis by simp
qed

theorem api_keeps_streams_witness:
  "\<exists>s'. exec_apis demo_busy [SubmitPing, SubmitRstStream 1 0, FailSession 1] = Some s' \<and> session_inv s' \<and>
     s_num_incoming_streams s' = 1 \<and> spdylay_session_get_stream s' 1 \<noteq> None"
proof -
  obtain s' where s': "exec_apis demo_busy [SubmitPing, SubmitRstStream 1 0, FailSession 1] = Some s'" by simp
  note a = api_keeps_streams [OF demo_busy_open(1) s']
  have "spdylay_session_get_stream s' 1 \<noteq> None"
    using spec [OF conjunct2 [OF conjunct2 [OF conjunct2 [OF conjunct2 [OF conjunct2 [OF a]]]]], of 1]
    by (cases "spdylay_session_get_stream s' 1") (simp_all add: demo_busy_open(2))
  moreover have "session_inv s' \<and> s_num_incoming_streams s' = 1" using a demo_busy_open(3) by presburger
  ultimately show ?thesis using s' by blast
qed

text \<open>
  Decompressing a header block: whatever zlib answers, the bytes that were in the buffer stay,
  and unless an error is reported the output of zlib's calls over the whole input follows them
  and the result is the length of the buffer.
\<close>

theorem inflate_appends:
  assumes "zlib_bounds zl" "buffer_inv b" "spdylay_zlib_inflate_hd zl m inflater b inp = Some (r, inflater', b', m')"
  shows "buffer_inv b' \<and> (\<exists>out. buffer_contents b' = buffer_contents b @ out \<and>
      (0 \<le> r \<longrightarrow> inflate_calls zl (zl_version inflater) (zst inflater) inp out (zst inflater'))) \<and>
    (r = SPDYLAY_ERR_NOMEM \<or> r = SPDYLAY_ERR_ZLIB \<or> r = int (spdylay_buffer_length b'))"
proof -
  have p: "inflate_post zl inflater b inp (r, inflater', b', m')" by (rule inflate_hd_appends [OF assms(1,3)])
  then have inv: "buffer_inv b'" using assms(2) by (simp add: inflate_post_def)
  have "int (length (buffer_contents b')) = int (spdylay_buffer_length b')"
    using length_buffer_contents [OF inv] by (simp add: spdylay_buffer_length_def)
  with p assms(2) show ?thesis by (auto simp: inflate_post_def)
qed

theorem inflate_appends_witness:
  "\<exists>inflater' b' m'. spdylay_zlib_inflate_hd stored_zlib good_mem \<lparr>zst = (), zl_version = 3\<rparr> (spdylay_buffer_init 4) [7, 8, 9] =
       Some (3, inflater', b', m') \<and> buffer_contents b' = [7, 8, 9]"
proof -
  have "map_option fst (spdylay_zlib_inflate_hd stored_zlib good_mem \<lparr>zst = (), zl_version = 3\<rparr> (spdylay_buffer_init 4) [7, 8, 9]) = Some 3"
    by (subst spdylay_zlib_inflate_hd.simps)
      (simp add: stored_zlib_def good_mem_def malloc_def spdylay_buffer_alloc_def spdylay_buffer_init_def Let_def
        spdylay_buffer_avail_def buffer_store_def spdylay_buffer_get_def spdylay_buffer_advance_def
        spdylay_buffer_length_def size_sub_def fresh_block_def)
  then obtain i' b' m' where z: "spdylay_zlib_inflate_hd stored_zlib good_mem \<lparr>zst = (), zl_version = 3\<rparr> (spdylay_buffer_init 4) [7, 8, 9] =
      Some (3, i', b', m')" by auto
  have init: "buffer_inv (spdylay_buffer_init 4)" "buffer_contents (spdylay_buffer_init 4) = []"
    using buffer_init_inv [of 4] by (simp_all add: buffer_contents_def spdylay_buffer_init_def)
  from inflate_appends [OF stored_zlib_bounds init(1) z] init(2) obtain out where
    "buffer_contents b' = out" "inflate_calls stored_zlib 3 () [7, 8, 9] out (zst i')" by auto
  with stored_inflate_calls z show ?thesis by blast
qed

text \<open>
  Decompressing a gzip body: the lengths that the call stores back are the bytes written,
  within the space offered, and the bytes read, within the input; the result is success or
  \<open>SPDYLAY_ERR_GZIP\<close>.
\<close>

theorem gzip_inflate_bounds:
  assumes "zlib_bounds zl" "spdylay_gzip_inflate zl z outlen inp = (r, outlen', inlen', out, z')"
  shows "outlen' = length out \<and> outlen' \<le> outlen \<and> inlen' \<le> length inp \<and> (r = 0 \<or> r = SPDYLAY_ERR_GZIP)"
  using gzip_inflate_lengths [OF assms] by simp

theorem gzip_inflate_bounds_witness:
  "\<exists>r outlen inlen out z'. spdylay_gzip_inflate stored_zlib () 2 [7, 8, 9] = (r, outlen, inlen, out, z') \<and> r = 0 \<and>
     outlen \<le> 2 \<and> inlen = 2 \<and> outlen = length out"
proof -
  obtain out z' where g: "spdylay_gzip_inflate stored_zlib () 2 [7, 8, 9] = (0, 2, 2, out, z')"
    by (simp add: spdylay_gzip_inflate_def stored_zlib_def)
  from gzip_inflate_bounds [OF stored_zlib_bounds g] g show ?thesis by auto
qed

end
