(* ===== verification/Spdy_Util.thy ===== *)
theory Spdy_Util
  imports Spdy_Prelude
begin

text \<open>
  \<open>src/util.cc\<close> and \<open>src/util.h\<close>: the string functions of the server, the client and the proxy.
  A \<open>std::string\<close> is its list of bytes, a \<open>const char*\<close> is \<open>None\<close> for NULL and otherwise the bytes
  before the NUL. The code compares characters as \<open>char\<close>, which is signed; all ranges lie below
  128, so a byte from 128 on, negative in C, is outside of them read either way. Shown here:
  decoding inverts encoding, and a joined path has no \<open>.\<close> and no \<open>..\<close> left.
\<close>

section \<open>Characters\<close>

definition isAlpha :: "u8 \<Rightarrow> bool" where
  "isAlpha c \<longleftrightarrow> 65 \<le> c \<and> c \<le> 90 \<or> 97 \<le> c \<and> c \<le> 122"

definition isDigit :: "u8 \<Rightarrow> bool" where
  "isDigit c \<longleftrightarrow> 48 \<le> c \<and> c \<le> 57"

definition isHexDigit :: "u8 \<Rightarrow> bool" where
  "isHexDigit c \<longleftrightarrow> isDigit c \<or> 65 \<le> c \<and> c \<le> 70 \<or> 97 \<le> c \<and> c \<le> 102"

definition inRFC3986UnreservedChars :: "u8 \<Rightarrow> bool" where
  "inRFC3986UnreservedChars c \<longleftrightarrow> isAlpha c \<or> isDigit c \<or> c \<in> set [45, 46, 95, 126]"

definition lowcase :: "u8 \<Rightarrow> u8" where
  "lowcase c = (if 65 \<le> c \<and> c \<le> 90 then c + 32 else c)"

section \<open>Percent encoding\<close>

text \<open>The conversions \<open>%02X\<close> of a byte and \<open>strtol\<close> with base 16 of two digits.\<close>

definition hex_upper :: "nat \<Rightarrow> u8" where
  "hex_upper n = (if n < 10 then of_nat (48 + n) else of_nat (55 + n))"

definition hex_value :: "u8 \<Rightarrow> nat" where
  "hex_value c = (if isDigit c then unat c - 48 else if c \<le> 70 then unat c - 55 else unat c - 87)"

fun percentEncode :: "bytes \<Rightarrow> bytes" where
  "percentEncode [] = []"
| "percentEncode (c # cs) =
     (if inRFC3986UnreservedChars c then c # percentEncode cs
      else 37 # hex_upper (unat c div 16) # hex_upper (unat c mod 16) # percentEncode cs)"

fun percentDecode :: "bytes \<Rightarrow> bytes" where
  "percentDecode (c # h # l # cs) =
     (if c = 37 \<and> isHexDigit h \<and> isHexDigit l then of_nat (16 * hex_value h + hex_value l) # percentDecode cs
      else c # percentDecode (h # l # cs))"
| "percentDecode cs = cs"

section \<open>Comparing strings\<close>

definition startsWith :: "bytes \<Rightarrow> bytes \<Rightarrow> bool" where
  "startsWith a b \<longleftrightarrow> (if length a < length b then False else take (length b) a = b)"

definition caseCmp :: "u8 \<Rightarrow> u8 \<Rightarrow> bool" where
  "caseCmp lhs rhs \<longleftrightarrow> lowcase lhs = lowcase rhs"

definition istartsWith :: "bytes \<Rightarrow> bytes \<Rightarrow> bool" where
  "istartsWith a b \<longleftrightarrow> (if length a < length b then False else list_all2 caseCmp b (take (length b) a))"

definition endsWith :: "bytes \<Rightarrow> bytes \<Rightarrow> bool" where
  "endsWith a b \<longleftrightarrow> (if length a < length b then False else drop (length a - length b) a = b)"

text \<open>The text of a \<open>std::string\<close> that \<open>c_str\<close> shows to the functions on C strings.\<close>

definition c_str :: "bytes \<Rightarrow> cstr" where
  "c_str s = takeWhile (\<lambda>c. c \<noteq> 0) s"

text \<open>The programs pass headers as an array of pointers, which is read up to its first NULL.\<close>

definition nv_array :: "cstr option list \<Rightarrow> cstr list" where
  "nv_array ps = map the (takeWhile (\<lambda>p. p \<noteq> None) ps)"

fun streq_advance :: "cstr \<Rightarrow> cstr \<Rightarrow> cstr \<times> cstr" where
  "streq_advance (a # as) (b # bs) =
     (if lowcase a = lowcase b then streq_advance as bs else (a # as, b # bs))"
| "streq_advance as bs = (as, bs)"

definition istartsWith_cstr :: "cstr option \<Rightarrow> cstr option \<Rightarrow> bool" where
  "istartsWith_cstr a b \<longleftrightarrow>
     (case (a, b) of (Some a, Some b) \<Rightarrow> snd (streq_advance a b) = [] | _ \<Rightarrow> False)"

definition strieq :: "cstr option \<Rightarrow> cstr option \<Rightarrow> bool" where
  "strieq a b \<longleftrightarrow>
     (case (a, b) of (Some a, Some b) \<Rightarrow> streq_advance a b = ([], []) | _ \<Rightarrow> False)"

fun strifind_loop :: "cstr \<Rightarrow> cstr \<Rightarrow> bool" where
  "strifind_loop [] b \<longleftrightarrow> False"
| "strifind_loop (a # as) b \<longleftrightarrow> snd (streq_advance (a # as) b) = [] \<or> strifind_loop as b"

definition strifind :: "cstr option \<Rightarrow> cstr option \<Rightarrow> bool" where
  "strifind a b \<longleftrightarrow> (case (a, b) of (Some a, Some b) \<Rightarrow> strifind_loop a b | _ \<Rightarrow> False)"

section \<open>Splitting and joining\<close>

definition DEFAULT_STRIP_CHARSET :: bytes where
  "DEFAULT_STRIP_CHARSET = [13, 10, 9, 32]"

text \<open>The loop from the right ends at the first character that was kept, whatever it is.\<close>

definition stripIter :: "bytes \<Rightarrow> bytes \<Rightarrow> bytes" where
  "stripIter chars s =
     (case dropWhile (\<lambda>c. c \<in> set chars) s of
        [] \<Rightarrow> []
      | c # cs \<Rightarrow> c # rev (dropWhile (\<lambda>c. c \<in> set chars) (rev cs)))"

function split_loop :: "u8 \<Rightarrow> bool \<Rightarrow> bool \<Rightarrow> bytes \<Rightarrow> bytes list" where
  "split_loop delim doStrip allowEmpty s =
     (if s = [] then []
      else
        let p = takeWhile (\<lambda>c. c \<noteq> delim) s; rest = dropWhile (\<lambda>c. c \<noteq> delim) s;
            q = (if doStrip then stripIter DEFAULT_STRIP_CHARSET p else p) in
        (if allowEmpty \<or> q \<noteq> [] then [q] else []) @ split_loop delim doStrip allowEmpty (drop 1 rest))"
  by pat_completeness auto
termination
proof (relation "measure (\<lambda>(_, _, _, s). length s)", simp, clarsimp simp del: length_drop)
  fix delim :: u8 and s :: bytes
  assume "s \<noteq> []"
  then show "length (drop (Suc 0) (dropWhile (\<lambda>c. c \<noteq> delim) s)) < length s"
    using length_dropWhile_le [of "\<lambda>c. c \<noteq> delim" s] by (cases s) auto
qed

declare split_loop.simps [simp del]

definition split :: "u8 \<Rightarrow> bool \<Rightarrow> bool \<Rightarrow> bytes \<Rightarrow> bytes list" where
  "split delim doStrip allowEmpty s =
     split_loop delim doStrip allowEmpty s @
     (if allowEmpty \<and> (s = [] \<or> last s = delim) then [[]] else [])"

fun strjoin :: "bytes list \<Rightarrow> bytes \<Rightarrow> bytes" where
  "strjoin [] delim = []"
| "strjoin [p] delim = p"
| "strjoin (p # q # ps) delim = p @ delim @ strjoin (q # ps) delim"

definition path_element :: "bytes list \<Rightarrow> bytes \<Rightarrow> bytes list" where
  "path_element elements p =
     (if p = lit ''..'' then (if elements \<noteq> [] then butlast elements else elements)
      else if p = lit ''.'' then elements
      else elements @ [p])"

definition joinPath :: "bytes list \<Rightarrow> bytes" where
  "joinPath ps = strjoin (foldl path_element [] ps) (lit ''/'')"

section \<open>Comparison without case\<close>

lemma streq_advance_end: "streq_advance a b = ([], []) \<longleftrightarrow> map lowcase a = map lowcase b"
  by (induction a b rule: streq_advance.induct) auto

lemma strieq_iff: "strieq (Some a) (Some b) \<longleftrightarrow> map lowcase a = map lowcase b"
  by (simp add: strieq_def streq_advance_end)

section \<open>Encoding and decoding\<close>

lemma nat_less_16: "(n :: nat) < 16 \<longleftrightarrow> n \<in> {0, 1, 2, 3, 4, 5, 6, 7, 8, 9, 10, 11, 12, 13, 14, 15}"
  by (simp, presburger)

lemma hex_upper_digit:
  assumes "n < 16"
  shows "isHexDigit (hex_upper n)" "hex_value (hex_upper n) = n"
  using assms unfolding nat_less_16
  by (auto simp: hex_upper_def hex_value_def isHexDigit_def isDigit_def)

lemma percentDecode_plain: "c \<noteq> 37 \<Longrightarrow> percentDecode (c # cs) = c # percentDecode cs"
  by (cases cs; cases "tl cs") auto

lemma unreserved_not_percent: "inRFC3986UnreservedChars c \<Longrightarrow> c \<noteq> 37"
  by (auto simp: inRFC3986UnreservedChars_def isAlpha_def isDigit_def)

lemma percent_decode_encode [simp]: "percentDecode (percentEncode s) = s"
proof (induction s)
  case (Cons c cs)
  have "unat c < 256" using unsigned_less [of c] by simp
  then have "unat c div 16 < 16" "unat c mod 16 < 16" by auto
  then show ?case
    using Cons by (simp add: percentDecode_plain unreserved_not_percent hex_upper_digit)
qed simp

lemma hex_upper_unreserved: "n < 16 \<Longrightarrow> inRFC3986UnreservedChars (hex_upper n)"
  unfolding nat_less_16 by (auto simp: hex_upper_def inRFC3986UnreservedChars_def isAlpha_def isDigit_def)

lemma percentEncode_chars: "c \<in> set (percentEncode s) \<Longrightarrow> inRFC3986UnreservedChars c \<or> c = 37"
proof (induction s)
  case (Cons a s)
  have "unat a < 256" using unsigned_less [of a] by simp
  then have "unat a div 16 < 16" "unat a mod 16 < 16" by auto
  from this [THEN hex_upper_unreserved] Cons show ?case by (auto split: if_splits)
qed simp

lemma percentEncode_Nil [simp]: "percentEncode s = [] \<longleftrightarrow> s = []"
  by (cases s) auto

section \<open>Paths\<close>

lemma span_delim:
  assumes "d \<notin> set p"
  shows "takeWhile (\<lambda>c. c \<noteq> d) (p @ d # s) = p" "dropWhile (\<lambda>c. c \<noteq> d) (p @ d # s) = d # s"
    "takeWhile (\<lambda>c. c \<noteq> d) p = p" "dropWhile (\<lambda>c. c \<noteq> d) p = []"
  using assms by (induction p) auto

lemma split_loop_Cons:
  "d \<notin> set p \<Longrightarrow> split_loop d False False (p @ d # s) = (if p = [] then [] else [p]) @ split_loop d False False s"
  by (subst split_loop.simps) (simp add: Let_def span_delim)

lemma split_loop_single: "d \<notin> set p \<Longrightarrow> split_loop d False False p = (if p = [] then [] else [p])"
  by (subst split_loop.simps) (simp add: Let_def span_delim split_loop.simps [of _ _ _ "[]"])

lemma split_no_delim: "p \<in> set (split_loop d False False s) \<Longrightarrow> d \<notin> set p \<and> p \<noteq> []"
proof (induction d "False" "False" s rule: split_loop.induct)
  case (1 d s)
  show ?case
  proof (cases "s = []")
    case False
    from 1(2) consider "p = takeWhile (\<lambda>c. c \<noteq> d) s" "p \<noteq> []"
      | "p \<in> set (split_loop d False False (drop 1 (dropWhile (\<lambda>c. c \<noteq> d) s)))"
      by (subst (asm) split_loop.simps) (auto simp: Let_def split: if_splits)
    then show ?thesis
    proof cases
      case 1
      then show ?thesis by (auto dest: set_takeWhileD)
    next
      case 2
      then show ?thesis using 1(1) [OF False] by simp
    qed
  qed (use 1(2) in \<open>simp add: split_loop.simps\<close>)
qed

lemma split_strjoin:
  "\<forall>p\<in>set ps. d \<notin> set p \<Longrightarrow> split_loop d False False (strjoin ps [d]) = filter (\<lambda>p. p \<noteq> []) ps"
proof (induction ps)
  case Nil
  then show ?case by (simp add: split_loop.simps)
next
  case (Cons p ps)
  then show ?case by (cases ps) (simp_all add: split_loop_single split_loop_Cons)
qed

lemma path_elements_kept:
  "set (foldl path_element es ps) \<subseteq> set es \<union> (set ps - {lit ''.'', lit ''..''})"
proof (induction ps arbitrary: es)
  case (Cons p ps)
  have "set (path_element es p) \<subseteq> set es \<union> ({p} - {lit ''.'', lit ''..''})"
    by (auto simp: path_element_def dest: in_set_butlastD)
  with Cons [of "path_element es p"] show ?case by auto
qed simp

text \<open>
  Joining the parts of a path leaves no way up: after \<open>.\<close> and \<open>..\<close> are resolved, neither is among the
  parts of the result, and a \<open>..\<close> at the root is dropped.
\<close>

lemma joinPath_parts:
  assumes "\<forall>p\<in>set ps. 47 \<notin> set p"
  shows "set (split 47 False False (joinPath ps)) \<subseteq> set ps - {lit ''.'', lit ''..''}"
proof -
  let ?es = "foldl path_element [] ps"
  have k: "set ?es \<subseteq> set ps - {lit ''.'', lit ''..''}" using path_elements_kept [of "[]"] by simp
  with assms have "\<forall>p\<in>set ?es. 47 \<notin> set p" by auto
  then have "split 47 False False (joinPath ps) = filter (\<lambda>p. p \<noteq> []) ?es"
    by (simp add: joinPath_def lit_def split_def split_strjoin)
  with k show ?thesis by auto
qed

lemma split_parts: "p \<in> set (split d False False s) \<Longrightarrow> d \<notin> set p"
  by (auto simp: split_def dest: split_no_delim)

lemma split_loop_Nil [simp]: "split_loop d False False [] = []"
  by (simp add: split_loop.simps)

lemma split_trailing: "split d False False (s @ [d]) = split d False False s"
proof -
  have "split_loop d False False (s @ [d]) = split_loop d False False s"
  proof (induction "length s" arbitrary: s rule: less_induct)
    case less
    show ?case
    proof (cases "d \<in> set s")
      case True
      then obtain p t where s: "s = p @ d # t" "d \<notin> set p" by (metis split_list_first)
      with less [of t] show ?thesis by (simp add: split_loop_Cons)
    next
      case False
      then show ?thesis using split_loop_Cons [OF False, of "[]"] by (simp add: split_loop_single)
    qed
  qed
  then show ?thesis by (simp add: split_def)
qed

end
