(* ===== verification/Spdy_Uri.thy ===== *)
theory Spdy_Uri
  imports Spdy_Util "HOL-Library.Monad_Syntax"
begin

text \<open>
  \<open>src/uri.cc\<close>: splitting a URI into its parts, putting it together and resolving a relative
  reference. An iterator of the code is an index into the list of bytes. A result \<open>None\<close> is a
  read outside of the string; the NUL behind the last byte may be read, as the code does where
  it looks at \<open>*authorityLast\<close>. The inner option is the \<open>bool\<close> of \<open>parse\<close>. Shown here: \<open>parse\<close> never reads
  outside, what it accepts has the shape that \<open>construct\<close> needs, and it inverts \<open>construct\<close>.
\<close>

section \<open>Loops over a string\<close>

definition char_at :: "bytes \<Rightarrow> nat \<Rightarrow> u8 option" where
  "char_at s i = (if i < length s then Some (s ! i) else if i = length s then Some 0 else None)"

text \<open>\<open>for(; i != stop; ++i) if(*i == c) break;\<close>\<close>

function find_char :: "bytes \<Rightarrow> u8 \<Rightarrow> nat \<Rightarrow> nat \<Rightarrow> nat option" where
  "find_char s c i stop =
     (if i = stop then Some i
      else if i < length s then (if s ! i = c then Some i else find_char s c (Suc i) stop)
      else None)"
  by pat_completeness auto
termination by (relation "measure (\<lambda>(s, c, i, stop). length s - i)") auto

declare find_char.simps [simp del]

text \<open>The search of \<open>@\<close> from the end of the authority down to its first byte.\<close>

fun rfind_char :: "bytes \<Rightarrow> u8 \<Rightarrow> nat \<Rightarrow> nat \<Rightarrow> nat option option" where
  "rfind_char s c first i =
     (if i < first then Some None
      else
        do {
          x \<leftarrow> char_at s i;
          if x = c then Some (Some i)
          else (case i of 0 \<Rightarrow> Some None | Suc j \<Rightarrow> rfind_char s c first j)
        })"

declare rfind_char.simps [simp del]

definition substring :: "bytes \<Rightarrow> nat \<Rightarrow> nat \<Rightarrow> bytes" where
  "substring s i j = take (j - i) (drop i s)"

text \<open>\<open>std::string::find\<close>; \<open>None\<close> is \<open>npos\<close>.\<close>

fun find_str :: "bytes \<Rightarrow> bytes \<Rightarrow> nat option" where
  "find_str [] p = (if p = [] then Some 0 else None)"
| "find_str (c # s) p = (if take (length p) (c # s) = p then Some 0 else map_option Suc (find_str s p))"

section \<open>Numbers\<close>

definition is_space :: "u8 \<Rightarrow> bool" where
  "is_space c \<longleftrightarrow> c = 32 \<or> 9 \<le> c \<and> c \<le> 13"

definition LONG_MAX :: int where "LONG_MAX = 2 ^ 63 - 1"

definition digits_value :: "bytes \<Rightarrow> int" where
  "digits_value ds = foldl (\<lambda>n d. 10 * n + (uint d - 48)) 0 ds"

text \<open>
  \<open>strtol\<close> with base 10 and a \<open>long\<close> of 64 bits: the value and whether \<open>errno\<close> is set. Text that
  starts with no number gives 0 and no error.
\<close>

definition strtol10 :: "cstr \<Rightarrow> int \<times> bool" where
  "strtol10 s =
     (let t = dropWhile is_space s;
          neg = (t \<noteq> [] \<and> hd t = 45);
          u = (if t \<noteq> [] \<and> (hd t = 45 \<or> hd t = 43) then tl t else t);
          v = digits_value (takeWhile isDigit u);
          n = (if neg then - v else v) in
      if n > LONG_MAX then (LONG_MAX, True) else if n < - LONG_MAX - 1 then (- LONG_MAX - 1, True) else (n, False))"

text \<open>The conversion \<open>%u\<close>.\<close>

fun decimal :: "nat \<Rightarrow> bytes" where
  "decimal n = (if n < 10 then [of_nat (48 + n)] else decimal (n div 10) @ [of_nat (48 + n mod 10)])"

declare decimal.simps [simp del]

section \<open>The parts of a URI\<close>

record UriStruct =
  us_protocol :: bytes
  us_host :: bytes
  us_port :: u16
  us_dir :: bytes
  us_file :: bytes
  us_query :: bytes
  us_username :: bytes
  us_password :: bytes
  us_hasPassword :: bool
  us_ipv6LiteralAddress :: bool

definition UriStruct_new :: UriStruct where
  "UriStruct_new =
     \<lparr>us_protocol = [], us_host = [], us_port = 0, us_dir = [], us_file = [], us_query = [], us_username = [], us_password = [],
      us_hasPassword = False, us_ipv6LiteralAddress = False\<rparr>"

definition default_port :: "bytes \<Rightarrow> u16 option" where
  "default_port p = (if p = lit ''http'' then Some 80 else if p = lit ''https'' then Some 443 else None)"

text \<open>The user name, the password if there is one, and where the host starts.\<close>

definition parse_userinfo :: "bytes \<Rightarrow> nat \<Rightarrow> nat \<Rightarrow> (bytes \<times> bytes option \<times> nat) option" where
  "parse_userinfo uri authorityFirst authorityLast =
     do {
       at \<leftarrow> rfind_char uri 64 authorityFirst authorityLast;
       (case at of
          None \<Rightarrow> Some ([], None, authorityFirst)
        | Some userInfoLast \<Rightarrow>
            do {
              userLast \<leftarrow> find_char uri 58 authorityFirst userInfoLast;
              Some (percentDecode (substring uri authorityFirst userLast),
                    if userLast = userInfoLast then None
                    else Some (percentDecode (substring uri (userLast + 1) userInfoLast)),
                    userInfoLast + 1)
            })
     }"

text \<open>Where the host ends and the port starts, and whether the host is an IPv6 literal.\<close>

definition parse_hostport :: "bytes \<Rightarrow> nat \<Rightarrow> nat \<Rightarrow> (nat \<times> nat \<times> bool) option option" where
  "parse_hostport uri hostPortFirst authorityLast =
     do {
       c \<leftarrow> char_at uri hostPortFirst;
       if c = 91 then
         do {
           i \<leftarrow> find_char uri 93 hostPortFirst authorityLast;
           if i = authorityLast then Some None
           else if i + 1 = authorityLast then Some (Some (i + 1, authorityLast, True))
           else
             do {
               d \<leftarrow> char_at uri (i + 1);
               Some (if d = 58 then Some (i + 1, i + 2, True) else None)
             }
         }
       else
         do {
           i \<leftarrow> find_char uri 58 hostPortFirst authorityLast;
           Some (Some (i, if i = authorityLast then authorityLast else i + 1, False))
         }
     }"

definition parse_port :: "bytes \<Rightarrow> nat \<Rightarrow> nat \<Rightarrow> u16 \<Rightarrow> u16 option" where
  "parse_port uri portFirst authorityLast defPort =
     (if portFirst = authorityLast then Some defPort
      else
        (case strtol10 (c_str (substring uri portFirst authorityLast)) of (v, err) \<Rightarrow>
           let tempPort = (word_of_int v :: u32) in
           if err then None else if 65535 < tempPort then None else Some (ucast tempPort)))"

text \<open>One past the last \<open>/\<close> of the path.\<close>

fun last_slash :: "bytes \<Rightarrow> nat \<Rightarrow> nat \<Rightarrow> nat \<Rightarrow> nat" where
  "last_slash uri i 0 dirLast = dirLast"
| "last_slash uri i (Suc n) dirLast = last_slash uri (Suc i) n (if uri ! i = 47 then i + 1 else dirLast)"

definition parse :: "bytes \<Rightarrow> UriStruct option option" where
  "parse uri =
     do {
       fragmentFirst \<leftarrow> find_char uri 35 0 (length uri);
       queryFirst \<leftarrow> find_char uri 63 0 fragmentFirst;
       (case find_str uri (lit ''://'') of
          None \<Rightarrow> Some None
        | Some protocolOffset \<Rightarrow>
            (case default_port (take protocolOffset uri) of
               None \<Rightarrow> Some None
             | Some defPort \<Rightarrow>
                 let authorityFirst = protocolOffset + 3 in
                 do {
                   authorityLast \<leftarrow> find_char uri 47 authorityFirst queryFirst;
                   if authorityFirst = authorityLast then Some None
                   else
                     do {
                       (user, pass, hostPortFirst) \<leftarrow> parse_userinfo uri authorityFirst authorityLast;
                       hp \<leftarrow> parse_hostport uri hostPortFirst authorityLast;
                       (case hp of
                          None \<Rightarrow> Some None
                        | Some (hostLast, portFirst, ipv6) \<Rightarrow>
                            if hostPortFirst = hostLast then Some None
                            else
                              (case parse_port uri portFirst authorityLast defPort of
                                 None \<Rightarrow> Some None
                               | Some prt \<Rightarrow>
                                   let dirLast = last_slash uri authorityLast (queryFirst - authorityLast) authorityLast in
                                   Some (Some
                                     \<lparr>us_protocol = take protocolOffset uri,
                                      us_host = (if ipv6 then substring uri (hostPortFirst + 1) (hostLast - 1)
                                              else substring uri hostPortFirst hostLast),
                                      us_port = prt,
                                      us_dir = (if authorityLast = dirLast then lit ''/'' else substring uri authorityLast dirLast),
                                      us_file = (if dirLast = queryFirst then [] else substring uri dirLast queryFirst),
                                      us_query = substring uri queryFirst fragmentFirst,
                                      us_username = user, us_password = (case pass of None \<Rightarrow> [] | Some p \<Rightarrow> p),
                                      us_hasPassword = (pass \<noteq> None), us_ipv6LiteralAddress = ipv6\<rparr>)))
                     }
                 }))
     }"

definition construct_authority :: "UriStruct \<Rightarrow> bytes" where
  "construct_authority us =
     (if us_username us \<noteq> [] then
        percentEncode (us_username us) @ (if us_hasPassword us then lit '':'' @ percentEncode (us_password us) else []) @ lit ''@''
      else []) @
     (if us_ipv6LiteralAddress us then lit ''['' @ us_host us @ lit '']'' else us_host us) @
     (let defPort = (case default_port (us_protocol us) of None \<Rightarrow> 0 | Some p \<Rightarrow> p) in
      if us_port us \<noteq> 0 \<and> defPort \<noteq> us_port us then lit '':'' @ decimal (unat (us_port us)) else [])"

definition construct :: "UriStruct \<Rightarrow> bytes" where
  "construct us =
     us_protocol us @ lit ''://'' @ construct_authority us @ us_dir us @
     (if us_dir us = [] \<or> last (us_dir us) \<noteq> 47 then lit ''/'' else []) @ us_file us @ us_query us"

text \<open>\<open>None\<close> is again a read outside of a string.\<close>

definition joinUri :: "bytes \<Rightarrow> bytes \<Rightarrow> bytes option" where
  "joinUri baseUri uri =
     do {
       us \<leftarrow> parse uri;
       (case us of
          Some _ \<Rightarrow> Some uri
        | None \<Rightarrow>
            do {
              base \<leftarrow> parse baseUri;
              (case base of
                 None \<Rightarrow> Some uri
               | Some bus \<Rightarrow>
                   do {
                     qend \<leftarrow> find_char uri 35 0 (length uri);
                     pend \<leftarrow> find_char uri 63 0 qend;
                     let parts = (if uri = [] \<or> hd uri \<noteq> 47 then split 47 False False (us_dir bus) else []) @
                           split 47 False False (take pend uri);
                         res = construct (bus\<lparr>us_dir := [], us_file := [], us_query := []\<rparr>) @ joinPath parts;
                         res' = (if (pend = 0 \<or> uri ! (pend - 1) = 47) \<and> last res \<noteq> 47 then res @ lit ''/'' else res) in
                     Some (res' @ substring uri pend qend)
                   })
            })
     }"

section \<open>The loops as list functions\<close>

lemma length_substring: "i \<le> j \<Longrightarrow> j \<le> length s \<Longrightarrow> length (substring s i j) = j - i"
  by (simp add: substring_def)

lemma substring_mid [simp]:
  "substring (pre @ mid @ post) (length pre) (length pre + length mid) = mid"
  by (simp add: substring_def)

lemma substring_Cons: "i < j \<Longrightarrow> j \<le> length s \<Longrightarrow> substring s i j = s ! i # substring s (Suc i) j"
  by (simp add: substring_def take_Cons' Cons_nth_drop_Suc [symmetric])

lemma find_char_within:
  assumes "i \<le> stop" "stop \<le> length s"
  shows "find_char s c i stop = Some (i + length (takeWhile (\<lambda>x. x \<noteq> c) (substring s i stop)))"
  using assms
proof (induction "stop - i" arbitrary: i)
  case 0
  then show ?case by (subst find_char.simps) (simp add: substring_def)
next
  case (Suc n)
  then have "i < stop" by simp
  with Suc show ?case by (subst find_char.simps) (simp add: substring_Cons)
qed

lemma find_char_range:
  assumes "i \<le> stop" "stop \<le> length s" "find_char s c i stop = Some k"
  shows "i \<le> k" "k \<le> stop" "c \<notin> set (substring s i k)" "k < stop \<Longrightarrow> s ! k = c"
proof -
  let ?w = "takeWhile (\<lambda>x. x \<noteq> c) (substring s i stop)"
  have k: "k = i + length ?w" using assms find_char_within [OF assms(1,2), of c] by simp
  have le: "length ?w \<le> stop - i"
    using length_takeWhile_le [of "\<lambda>x. x \<noteq> c" "substring s i stop"] length_substring [OF assms(1,2)] by simp
  show "i \<le> k" "k \<le> stop" using k le assms(1) by auto
  have "?w = take (length ?w) (substring s i stop)" by (rule takeWhile_eq_take)
  also have "\<dots> = substring s i k" using le by (simp add: substring_def k min_def)
  finally have "substring s i k = ?w" by (rule sym)
  then show "c \<notin> set (substring s i k)" by (auto dest: set_takeWhileD)
  assume "k < stop"
  then have "length ?w < length (substring s i stop)" using k assms length_substring [OF assms(1,2)] by simp
  from nth_length_takeWhile [OF this] show "s ! k = c"
    using k \<open>k < stop\<close> assms by (simp add: substring_def)
qed

lemma find_char_mid:
  assumes "c \<notin> set mid" "stop = length pre + length mid \<or> (\<exists>rest. post = c # rest) \<and> length pre + length mid \<le> stop"
    "stop \<le> length (pre @ mid @ post)"
  shows "find_char (pre @ mid @ post) c (length pre) stop = Some (length pre + length mid)"
proof -
  have s: "substring (pre @ mid @ post) (length pre) stop = mid @ take (stop - (length pre + length mid)) post"
    using assms(2) by (auto simp: substring_def)
  have "takeWhile (\<lambda>x. x \<noteq> c) (mid @ take (stop - (length pre + length mid)) post) = mid"
    using assms(1,2) by (auto simp: span_delim take_Cons')
  then show ?thesis
    using find_char_within [of "length pre" stop "pre @ mid @ post" c] assms(2,3) by (auto simp: s)
qed

lemma char_at_Some: "i \<le> length s \<Longrightarrow> \<exists>x. char_at s i = Some x"
  by (simp add: char_at_def)

lemma rfind_char_total:
  "i \<le> length s \<Longrightarrow> \<exists>r. rfind_char s c first i = Some r \<and>
     (\<forall>k. r = Some k \<longrightarrow> first \<le> k \<and> k \<le> i \<and> char_at s k = Some c)"
proof (induction i)
  case 0
  then show ?case by (subst rfind_char.simps) (simp add: char_at_def)
next
  case (Suc i)
  then have ih: "\<exists>r. rfind_char s c first i = Some r \<and>
     (\<forall>k. r = Some k \<longrightarrow> first \<le> k \<and> k \<le> i \<and> char_at s k = Some c)" by simp
  obtain x where x: "char_at s (Suc i) = Some x" using char_at_Some [OF Suc.prems] by blast
  show ?case
  proof (cases "first \<le> Suc i \<and> x = c")
    case True
    then show ?thesis by (subst rfind_char.simps) (simp add: x)
  next
    case False
    then have "rfind_char s c first (Suc i) = (if Suc i < first then Some None else rfind_char s c first i)"
      by (subst rfind_char.simps) (auto simp: x)
    with ih show ?thesis by fastforce
  qed
qed

lemma rfind_char_None:
  assumes "i \<le> length s" "\<And>k. first \<le> k \<Longrightarrow> k \<le> i \<Longrightarrow> char_at s k \<noteq> Some c"
  shows "rfind_char s c first i = Some None"
proof -
  obtain r where r: "rfind_char s c first i = Some r" "\<forall>k. r = Some k \<longrightarrow> first \<le> k \<and> k \<le> i \<and> char_at s k = Some c"
    using rfind_char_total [OF assms(1)] by blast
  with assms(2) show ?thesis by (cases r) auto
qed

lemma rfind_char_Some:
  assumes "first \<le> k" "k \<le> i" "i \<le> length s" "char_at s k = Some c"
    "\<And>j. k < j \<Longrightarrow> j \<le> i \<Longrightarrow> char_at s j \<noteq> Some c"
  shows "rfind_char s c first i = Some (Some k)"
  using assms(2,3,5)
proof (induction i)
  case 0
  then show ?case using assms(1,4) by (subst rfind_char.simps) simp
next
  case (Suc i)
  show ?case
  proof (cases "k = Suc i")
    case True
    then show ?thesis using assms(1,4) by (subst rfind_char.simps) simp
  next
    case False
    with Suc.prems have k: "k \<le> i" by simp
    obtain x where x: "char_at s (Suc i) = Some x" "x \<noteq> c"
      using char_at_Some [OF Suc.prems(2)] Suc.prems(3) [of "Suc i"] k by auto
    with Suc.IH [OF k] Suc.prems k assms(1) show ?thesis by (subst rfind_char.simps) auto
  qed
qed

lemma find_str_Some:
  "find_str s p = Some k \<Longrightarrow> take (length p) (drop k s) = p \<and> k + length p \<le> length s"
proof (induction s arbitrary: k)
  case (Cons c s)
  show ?case
  proof (cases "take (length p) (c # s) = p")
    case True
    then have "length p \<le> length (c # s)" by (metis length_take min.cobounded1)
    with True Cons.prems show ?thesis by auto
  next
    case False
    with Cons show ?thesis by auto
  qed
qed (simp split: if_splits)

lemma find_str_here:
  assumes "p = c # ps" "c \<notin> set pre"
  shows "find_str (pre @ p @ post) p = Some (length pre)"
  using assms(2)
proof (induction pre)
  case Nil
  then show ?case by (simp add: assms(1))
next
  case (Cons x pre)
  then have "x \<noteq> c" by auto
  with Cons show ?case by (simp add: assms(1))
qed

lemma last_slash_append: "last_slash u i (n + m) d = last_slash u (i + n) m (last_slash u i n d)"
  by (induction n arbitrary: i d) auto

lemma last_slash_none:
  "\<forall>k<n. u ! (i + k) \<noteq> 47 \<Longrightarrow> last_slash u i n d = d"
proof (induction n arbitrary: i)
  case (Suc n)
  have "u ! (Suc i + k) \<noteq> 47" if "k < n" for k using Suc.prems [rule_format, of "Suc k"] that by simp
  with Suc.IH [of "Suc i"] Suc.prems [rule_format, of 0] show ?case by simp
qed simp

lemma last_slash_range:
  "\<exists>j. last_slash u i n d = j \<and> (j = d \<and> (\<forall>k<n. u ! (i + k) \<noteq> 47) \<or>
     i < j \<and> j \<le> i + n \<and> u ! (j - 1) = 47 \<and> (\<forall>k. j \<le> k \<and> k < i + n \<longrightarrow> u ! k \<noteq> 47))"
proof (induction n)
  case (Suc n)
  have "last_slash u i (Suc n) d = (if u ! (i + n) = 47 then i + n + 1 else last_slash u i n d)"
    using last_slash_append [of u i n 1 d] by simp
  with Suc show ?case by (auto simp: less_Suc_eq)
qed simp

section \<open>Ports\<close>

lemma digit_less_10: "(n :: nat) < 10 \<longleftrightarrow> n \<in> {0, 1, 2, 3, 4, 5, 6, 7, 8, 9}"
  by (simp, presburger)

lemma digit_char:
  assumes "n < 10"
  shows "isDigit (of_nat (48 + n))" "uint (of_nat (48 + n) :: u8) - 48 = int n"
  using assms unfolding digit_less_10 by (auto simp: isDigit_def)

lemma digits_value_snoc: "digits_value (ds @ [d]) = 10 * digits_value ds + (uint d - 48)"
  by (simp add: digits_value_def)

lemma decimal_digits: "(\<forall>c\<in>set (decimal n). isDigit c) \<and> decimal n \<noteq> [] \<and> digits_value (decimal n) = int n"
proof (induction n rule: decimal.induct)
  case (1 n)
  show ?case
  proof (cases "n < 10")
    case True
    with digit_char [OF True] show ?thesis by (simp add: decimal.simps [of n] digits_value_def)
  next
    case False
    have "10 * int (n div 10) + int (n mod 10) = int n" by presburger
    moreover have "n mod 10 < 10" by simp
    moreover note digit_char [OF this] 1 [OF False]
    ultimately show ?thesis using False by (auto simp: decimal.simps [of n] digits_value_snoc)
  qed
qed

lemma isDigit_range: "isDigit c \<Longrightarrow> \<not> is_space c \<and> c \<noteq> 0 \<and> c \<noteq> 45 \<and> c \<noteq> 43"
  by (auto simp: isDigit_def is_space_def word_le_nat_alt)

lemma strtol_decimal:
  assumes "int n \<le> LONG_MAX"
  shows "strtol10 (c_str (decimal n)) = (int n, False)"
proof -
  obtain d ds where d: "decimal n = d # ds" using decimal_digits [of n] by (cases "decimal n") auto
  have dig: "\<forall>c\<in>set (d # ds). isDigit c" "digits_value (d # ds) = int n" using decimal_digits [of n] d by auto
  then have "takeWhile (\<lambda>c. c \<noteq> 0) (d # ds) = d # ds" by (intro takeWhile_eq_all_conv [THEN iffD2]) (auto dest: isDigit_range)
  then have c: "c_str (decimal n) = d # ds" by (simp add: c_str_def d)
  have "takeWhile isDigit (d # ds) = d # ds" using dig(1) by (simp add: takeWhile_eq_all_conv)
  moreover have "\<not> is_space d" "d \<noteq> 45" "d \<noteq> 43" using dig(1) isDigit_range [of d] by auto
  moreover have "\<not> int n < - LONG_MAX - 1" using assms by (simp add: LONG_MAX_def)
  ultimately show ?thesis using assms dig(2) unfolding c strtol10_def Let_def by simp
qed

lemma parse_port_decimal:
  assumes "p \<noteq> 0"
  shows "parse_port (pre @ decimal (unat p) @ post) (length pre) (length pre + length (decimal (unat p))) d = Some p"
proof -
  have lt: "unat p < 65536" using unsigned_less [of p] by simp
  moreover have "LONG_MAX = 9223372036854775807" by (simp add: LONG_MAX_def)
  ultimately have "int (unat p) \<le> LONG_MAX" by linarith
  then have s: "strtol10 (c_str (decimal (unat p))) = (int (unat p), False)" by (rule strtol_decimal)
  have "decimal (unat p) \<noteq> []" using decimal_digits by simp
  moreover have up: "(word_of_int (int (unat p)) :: u32) = ucast p" by (simp add: unsigned_ucast_eq)
  have "\<not> (65535 :: u32) < ucast p" using lt by (simp add: word_less_nat_alt unsigned_ucast_eq take_bit_nat_eq_self)
  moreover have "ucast (ucast p :: u32) = p" by (rule bit_word_eqI) (simp add: bit_simps)
  ultimately show ?thesis using s by (simp add: parse_port_def up)
qed

section \<open>Taking a constructed URI apart\<close>

text \<open>The structures that \<open>construct\<close> writes without loss.\<close>

definition uri_ok :: "UriStruct \<Rightarrow> bool" where
  "uri_ok us \<longleftrightarrow>
     default_port (us_protocol us) \<noteq> None \<and> us_port us \<noteq> 0 \<and>
     us_host us \<noteq> [] \<and> set (us_host us) \<inter> {47, 63, 35, 64} = {} \<and>
     (if us_ipv6LiteralAddress us then 93 \<notin> set (us_host us) else 58 \<notin> set (us_host us) \<and> hd (us_host us) \<noteq> 91) \<and>
     us_dir us \<noteq> [] \<and> hd (us_dir us) = 47 \<and> last (us_dir us) = 47 \<and> set (us_dir us) \<inter> {63, 35} = {} \<and>
     set (us_file us) \<inter> {47, 63, 35} = {} \<and> (us_query us = [] \<or> hd (us_query us) = 63) \<and> 35 \<notin> set (us_query us) \<and>
     (us_hasPassword us \<longrightarrow> us_username us \<noteq> []) \<and> (\<not> us_hasPassword us \<longrightarrow> us_password us = [])"

lemma char_at_mid:
  "j < length mid \<Longrightarrow> char_at (pre @ mid @ post) (length pre + j) = Some (mid ! j)"
  "char_at (pre @ mid @ c # post) (length pre + length mid) = Some c"
  by (simp_all add: char_at_def nth_append)

lemma char_at_not_in:
  assumes "c \<notin> set mid" "d \<noteq> c" "length pre \<le> k" "k \<le> length pre + length mid"
  shows "char_at (pre @ mid @ d # post) k \<noteq> Some c"
proof (cases "k = length pre + length mid")
  case True
  then show ?thesis using assms(2) by (simp add: char_at_mid)
next
  case False
  with assms(3,4) obtain j where "k = length pre + j" "j < length mid" by (metis le_add_diff_inverse le_neq_implies_less nat_add_left_cancel_less)
  then show ?thesis using assms(1) by (auto simp: char_at_mid)
qed

lemma encode_no_delims: "c \<in> {58, 64, 47, 63, 35, 91} \<Longrightarrow> c \<notin> set (percentEncode s)"
  using percentEncode_chars [of c s] by (auto simp: inRFC3986UnreservedChars_def isAlpha_def isDigit_def)

lemma parse_userinfo_none:
  assumes "64 \<notin> set hp"
  shows "parse_userinfo (pre @ hp @ 47 # post) (length pre) (length pre + length hp) = Some ([], None, length pre)"
proof -
  have "rfind_char (pre @ hp @ 47 # post) 64 (length pre) (length pre + length hp) = Some None"
  proof (rule rfind_char_None)
    show "char_at (pre @ hp @ 47 # post) k \<noteq> Some 64" if "length pre \<le> k" "k \<le> length pre + length hp" for k
      by (rule char_at_not_in) (use that assms in auto)
  qed simp
  then show ?thesis by (simp add: parse_userinfo_def)
qed

lemma parse_userinfo_some:
  assumes "64 \<notin> set hp" "ui = percentEncode user @ (case pass of None \<Rightarrow> [] | Some p \<Rightarrow> 58 # percentEncode p)"
  shows "parse_userinfo (pre @ ui @ 64 # hp @ 47 # post) (length pre) (length pre + length ui + 1 + length hp) =
    Some (user, pass, length pre + length ui + 1)"
proof -
  let ?u = "pre @ ui @ 64 # hp @ 47 # post" and ?k = "length pre + length ui"
  have u: "?u = (pre @ ui @ [64]) @ hp @ 47 # post" by simp
  have at: "rfind_char ?u 64 (length pre) (?k + 1 + length hp) = Some (Some ?k)"
  proof (rule rfind_char_Some)
    show "char_at ?u ?k = Some 64" by (rule char_at_mid(2))
    show "char_at ?u j \<noteq> Some 64" if "?k < j" "j \<le> ?k + 1 + length hp" for j
      unfolding u by (rule char_at_not_in) (use that assms(1) in auto)
  qed auto
  show ?thesis
  proof (cases pass)
    case None
    then have ui: "ui = percentEncode user" using assms(2) by simp
    have "find_char ?u 58 (length pre) ?k = Some ?k"
      by (rule find_char_mid) (use encode_no_delims [of 58] ui in auto)
    then show ?thesis using at None ui by (simp add: parse_userinfo_def)
  next
    case (Some p)
    let ?e = "percentEncode user"
    have v: "?u = pre @ ?e @ 58 # percentEncode p @ 64 # hp @ 47 # post" using Some assms(2) by simp
    have "find_char ?u 58 (length pre) ?k = Some (length pre + length ?e)"
      unfolding v by (rule find_char_mid) (use encode_no_delims [of 58] Some assms(2) in auto)
    moreover have "substring ?u (length pre) (length pre + length ?e) = ?e" unfolding v by simp
    moreover have "substring ?u (length pre + length ?e + 1) ?k = percentEncode p"
      using substring_mid [of "pre @ ?e @ [58]" "percentEncode p" "64 # hp @ 47 # post"] Some assms(2) by (simp add: v add.assoc)
    ultimately show ?thesis using at Some assms(2) by (simp add: parse_userinfo_def)
  qed
qed

lemma parse_hostport_ok:
  assumes host: "h \<noteq> []" "if v6 then 93 \<notin> set h else 58 \<notin> set h \<and> hd h \<noteq> 91"
    and hp: "hs = (if v6 then 91 # h @ [93] else h)" "ps = [] \<or> hd ps = 58"
    and last: "l = length pre + length hs + length ps"
  shows "parse_hostport (pre @ hs @ ps @ 47 # post) (length pre) l =
    Some (Some (length pre + length hs, if ps = [] then l else length pre + length hs + 1, v6))"
proof -
  let ?u = "pre @ hs @ ps @ 47 # post"
  have hs: "hs \<noteq> []" using host hp by auto
  then have first: "char_at ?u (length pre) = Some (hd hs)"
    using char_at_mid(1) [of 0 hs pre "ps @ 47 # post"] by (simp add: hd_conv_nth)
  show ?thesis
  proof (cases v6)
    case True
    have u: "?u = pre @ (91 # h) @ 93 # ps @ 47 # post" using True hp by simp
    have "find_char ?u 93 (length pre) l = Some (length pre + length (91 # h))"
      unfolding u by (rule find_char_mid) (use True host hp last in auto)
    moreover have "char_at ?u (length pre + length hs) = Some (hd (ps @ [47]))"
    proof (cases ps)
      case Nil
      then show ?thesis using char_at_mid(2) [of pre hs 47 post] by simp
    next
      case (Cons p rest)
      then show ?thesis using char_at_mid(2) [of pre hs p "rest @ 47 # post"] by simp
    qed
    ultimately show ?thesis using True first hp last by (cases ps) (auto simp: parse_hostport_def)
  next
    case False
    have "l = length pre + length hs \<or> (\<exists>rest. ps @ 47 # post = 58 # rest) \<and> length pre + length hs \<le> l"
      using hp(2) last by (cases ps) auto
    then have "find_char ?u 58 (length pre) l = Some (length pre + length hs)"
      by (intro find_char_mid) (use False host hp last in auto)
    then show ?thesis using False first host hp last by (cases ps) (auto simp: parse_hostport_def)
  qed
qed

lemma last_slash_dir:
  assumes "d \<noteq> []" "last d = 47" "47 \<notin> set f"
  shows "last_slash (pre @ d @ f @ post) (length pre) (length d + length f) x = length pre + length d"
proof -
  let ?u = "pre @ d @ f @ post"
  have "last_slash ?u (length pre + length d) (length f) y = y" for y
    by (rule last_slash_none) (use assms(3) in \<open>auto simp: nth_append dest: nth_mem\<close>)
  moreover obtain xs where xs: "d = xs @ [47]" using assms(1,2) by (metis append_butlast_last_id)
  then have "last_slash ?u (length pre) (length d) x = length pre + length d"
    using last_slash_append [of ?u "length pre" "length xs" 1 x] by (simp add: nth_append)
  ultimately show ?thesis by (simp add: last_slash_append)
qed

definition userinfo_text :: "UriStruct \<Rightarrow> bytes" where
  "userinfo_text us = percentEncode (us_username us) @
     (case if us_hasPassword us then Some (us_password us) else None of None \<Rightarrow> [] | Some p \<Rightarrow> 58 # percentEncode p)"

definition host_text :: "UriStruct \<Rightarrow> bytes" where
  "host_text us = (if us_ipv6LiteralAddress us then 91 # us_host us @ [93] else us_host us)"

definition port_text :: "UriStruct \<Rightarrow> bytes" where
  "port_text us = (if default_port (us_protocol us) = Some (us_port us) then [] else 58 # decimal (unat (us_port us)))"

definition before_host :: "UriStruct \<Rightarrow> bytes" where
  "before_host us = (if us_username us = [] then [] else userinfo_text us @ [64])"

lemma construct_shape:
  assumes "uri_ok us"
  shows "construct us = us_protocol us @ [58, 47, 47] @ (before_host us @ host_text us @ port_text us) @ us_dir us @ us_file us @ us_query us"
proof -
  have "construct_authority us = before_host us @ host_text us @ port_text us"
    using assms
    by (auto simp: uri_ok_def construct_authority_def before_host_def userinfo_text_def host_text_def port_text_def lit_def Let_def)
  with assms show ?thesis by (simp add: construct_def uri_ok_def lit_def)
qed

lemma http_protocol:
  assumes "default_port p = Some d"
  shows "set p \<inter> {58, 47, 63, 35} = {}"
  using assms by (auto simp: default_port_def lit_def split: if_splits)

lemma authority_chars:
  assumes "uri_ok us"
  shows "set (before_host us @ host_text us @ port_text us) \<inter> {47, 63, 35} = {}"
proof -
  have "set (userinfo_text us) \<inter> {47, 63, 35} = {}"
    using encode_no_delims by (auto simp: userinfo_text_def split: option.splits)
  moreover have "set (host_text us) \<inter> {47, 63, 35} = {}" using assms by (auto simp: host_text_def uri_ok_def)
  moreover have "set (decimal n) \<inter> {47, 63, 35} = {}" for n
    using decimal_digits [of n] by (auto simp: isDigit_def)
  then have "set (port_text us) \<inter> {47, 63, 35} = {}" by (auto simp: port_text_def)
  ultimately show ?thesis by (auto simp: before_host_def)
qed

lemma hostport_no_at:
  assumes "uri_ok us"
  shows "64 \<notin> set (host_text us @ port_text us)"
proof -
  have "64 \<notin> set (decimal n)" for n using decimal_digits [of n] by (auto simp: isDigit_def)
  with assms show ?thesis by (auto simp: host_text_def port_text_def uri_ok_def)
qed

lemma parse_userinfo_construct:
  assumes "uri_ok us" "l = length pre + length (before_host us @ host_text us @ port_text us)"
  shows "parse_userinfo (pre @ (before_host us @ host_text us @ port_text us) @ 47 # post) (length pre) l =
    Some (us_username us, if us_hasPassword us then Some (us_password us) else None, length pre + length (before_host us))"
proof (cases "us_username us = []")
  case True
  then have "\<not> us_hasPassword us" using assms(1) by (auto simp: uri_ok_def)
  with True parse_userinfo_none [OF hostport_no_at [OF assms(1)], of pre post] show ?thesis
    by (simp add: before_host_def assms(2))
next
  case False
  let ?pass = "if us_hasPassword us then Some (us_password us) else None"
  have "userinfo_text us = percentEncode (us_username us) @ (case ?pass of None \<Rightarrow> [] | Some p \<Rightarrow> 58 # percentEncode p)"
    by (simp add: userinfo_text_def)
  from parse_userinfo_some [OF hostport_no_at [OF assms(1)] this, of pre post] False show ?thesis
    by (simp add: before_host_def assms(2) add.assoc)
qed

lemma parse_hostport_construct:
  assumes "uri_ok us" "l = length pre + length (host_text us) + length (port_text us)"
  shows "parse_hostport (pre @ host_text us @ port_text us @ 47 # post) (length pre) l =
    Some (Some (length pre + length (host_text us),
      if port_text us = [] then l else length pre + length (host_text us) + 1, us_ipv6LiteralAddress us))"
  by (rule parse_hostport_ok [where h = "us_host us"]) (use assms in \<open>auto simp: uri_ok_def host_text_def port_text_def\<close>)

lemma parse_port_construct:
  assumes "uri_ok us" "default_port (us_protocol us) = Some d" "l = length pre + length (port_text us)"
  shows "parse_port (pre @ port_text us @ post) (if port_text us = [] then l else length pre + 1) l d = Some (us_port us)"
proof (cases "port_text us = []")
  case True
  with assms show ?thesis by (simp add: parse_port_def port_text_def split: if_splits)
next
  case False
  then have p: "port_text us = 58 # decimal (unat (us_port us))" by (simp add: port_text_def split: if_splits)
  have "us_port us \<noteq> 0" using assms(1) by (simp add: uri_ok_def)
  from parse_port_decimal [OF this, of "pre @ [58]" post d] show ?thesis by (simp add: p assms(3))
qed

lemma host_of_text: "(if us_ipv6LiteralAddress us then substring (pre @ host_text us @ post) (length pre + 1) (length pre + length (host_text us) - 1)
    else substring (pre @ host_text us @ post) (length pre) (length pre + length (host_text us))) = us_host us"
  using substring_mid [of "pre @ [91]" "us_host us" "93 # post"] by (auto simp: host_text_def)

lemma parse_accepts:
  assumes "find_char uri 35 0 (length uri) = Some fr" "find_char uri 63 0 fr = Some q"
    "find_str uri (lit ''://'') = Some p" "default_port (take p uri) = Some d"
    "find_char uri 47 (p + 3) q = Some l" "p + 3 \<noteq> l" "parse_userinfo uri (p + 3) l = Some (user, pass, h)"
    "parse_hostport uri h l = Some (Some (hl, pf, v6))" "h \<noteq> hl" "parse_port uri pf l d = Some prt"
    "last_slash uri l (q - l) l = dl"
  shows "parse uri = Some (Some
    \<lparr>us_protocol = take p uri, us_host = (if v6 then substring uri (h + 1) (hl - 1) else substring uri h hl),
     us_port = prt, us_dir = (if l = dl then lit ''/'' else substring uri l dl),
     us_file = (if dl = q then [] else substring uri dl q), us_query = substring uri q fr, us_username = user,
     us_password = (case pass of None \<Rightarrow> [] | Some p \<Rightarrow> p), us_hasPassword = (pass \<noteq> None), us_ipv6LiteralAddress = v6\<rparr>)"
  using assms by (simp add: parse_def Let_def)

lemma parse_construct_ok:
  assumes "uri_ok us"
  shows "parse (construct us) = Some (Some us)"
proof -
  obtain d where d: "default_port (us_protocol us) = Some d" using assms by (auto simp: uri_ok_def)
  obtain D where D: "us_dir us = 47 # D" using assms by (cases "us_dir us") (auto simp: uri_ok_def)
  define P where "P = us_protocol us @ [58, 47, 47]"
  define A where "A = before_host us @ host_text us @ port_text us"
  define F where "F = us_file us @ us_query us"
  define u where "u = P @ A @ us_dir us @ F"
  define l where "l = length P + length A"
  define q where "q = l + length (us_dir us) + length (us_file us)"
  have u: "construct us = u" by (simp add: construct_shape [OF assms] u_def P_def A_def F_def)
  have len: "length u = q + length (us_query us)" by (simp add: u_def q_def l_def F_def)
  have no: "set P \<inter> {63, 35} = {}" "set A \<inter> {47, 63, 35} = {}" "set (us_dir us @ us_file us) \<inter> {63, 35} = {}"
      "35 \<notin> set (us_query us)" "47 \<notin> set (us_file us)"
    using http_protocol [OF d] authority_chars [OF assms] assms by (auto simp: P_def A_def uri_ok_def)
  have frag: "find_char u 35 0 (length u) = Some (length u)"
    using find_char_mid [of 35 u "length u" "[]" "[]"] no by (auto simp: u_def F_def)
  have qry: "find_char u 63 0 (length u) = Some q"
    using find_char_mid [of 63 "P @ A @ us_dir us @ us_file us" "length u" "[]" "us_query us"] no assms
    by (cases "us_query us") (auto simp: u_def F_def q_def l_def uri_ok_def)
  have prot: "find_str u (lit ''://'') = Some (length (us_protocol us))"
    using find_str_here [of "[58, 47, 47]" 58 "[47, 47]" "us_protocol us" "A @ us_dir us @ F"] http_protocol [OF d]
    by (simp add: u_def P_def lit_def)
  have auth: "find_char u 47 (length P) q = Some l"
    using find_char_mid [of 47 A q P "us_dir us @ F"] no by (auto simp: u_def l_def q_def D len [symmetric] F_def)
  have ne: "A \<noteq> []" using assms by (auto simp: A_def host_text_def uri_ok_def)
  have user: "parse_userinfo u (length P) l =
      Some (us_username us, if us_hasPassword us then Some (us_password us) else None, length P + length (before_host us))"
    using parse_userinfo_construct [OF assms, of l P "D @ F"] by (simp add: u_def A_def l_def D)
  let ?B = "P @ before_host us"
  have hp: "parse_hostport u (length ?B) l = Some (Some (length ?B + length (host_text us),
      if port_text us = [] then l else length ?B + length (host_text us) + 1, us_ipv6LiteralAddress us))"
    using parse_hostport_construct [OF assms, of l ?B "D @ F"] by (simp add: u_def A_def l_def D add.assoc)
  have prt: "parse_port u (if port_text us = [] then l else length ?B + length (host_text us) + 1) l d = Some (us_port us)"
    using parse_port_construct [OF assms d, of l "?B @ host_text us" "us_dir us @ F"]
    by (cases "port_text us = []") (simp_all add: u_def A_def l_def add.assoc)
  have dl: "last_slash u l (q - l) l = l + length (us_dir us)"
    using last_slash_dir [of "us_dir us" "us_file us" "P @ A" "us_query us" l] assms no
    by (simp add: u_def F_def l_def q_def uri_ok_def add.assoc)
  have sub: "substring u l (l + length (us_dir us)) = us_dir us" "substring u (l + length (us_dir us)) q = us_file us"
      "substring u q (length u) = us_query us"
    using substring_mid [of "P @ A" "us_dir us" F] substring_mid [of "P @ A @ us_dir us" "us_file us" "us_query us"]
      substring_mid [of "P @ A @ us_dir us @ us_file us" "us_query us" "[]"]
    by (simp_all add: u_def F_def l_def q_def add.assoc)
  have host: "(if us_ipv6LiteralAddress us then substring u (length ?B + 1) (length ?B + length (host_text us) - 1)
      else substring u (length ?B) (length ?B + length (host_text us))) = us_host us"
    using host_of_text [of us ?B "port_text us @ us_dir us @ F"]
    by (cases "us_ipv6LiteralAddress us") (simp_all add: u_def A_def)
  have "length P = length (us_protocol us) + 3" "take (length (us_protocol us)) u = us_protocol us"
    "host_text us \<noteq> []" "\<not> us_hasPassword us \<longrightarrow> us_password us = []"
    using assms by (auto simp: P_def u_def uri_ok_def host_text_def)
  moreover note host [symmetric] sub D
  moreover have "us_file us = []" if "l + length (us_dir us) = q" using that by (simp add: q_def)
  ultimately show ?thesis
    unfolding u using parse_accepts [OF frag qry prot _ _ _ _ _ _ prt dl] auth ne user hp d
    by (auto simp: l_def)
qed

text \<open>
  C39. Parsing inverts constructing: for a structure that can be written without loss, \<open>parse\<close>
  accepts what \<open>construct\<close> writes and gives every part back, also with user name and password in
  percent encoding, an IPv6 literal as host and a port that is not the default.
\<close>

theorem parse_construct: "uri_ok us \<Longrightarrow> parse (construct us) = Some (Some us)"
  by (rule parse_construct_ok)

section \<open>Every string is parsed safely\<close>

lemma find_char_total:
  assumes "i \<le> stop" "stop \<le> length s"
  obtains k where "find_char s c i stop = Some k" "i \<le> k" "k \<le> stop" "c \<notin> set (substring s i k)" "k < stop \<Longrightarrow> s ! k = c"
  using find_char_within [OF assms, of c] find_char_range [OF assms] by blast

lemma parse_userinfo_total:
  assumes "first \<le> l" "l \<le> length uri" "char_at uri l \<noteq> Some 64"
  obtains user pass h where "parse_userinfo uri first l = Some (user, pass, h)" "h \<le> l"
proof -
  obtain r where r: "rfind_char uri 64 first l = Some r" "\<forall>k. r = Some k \<longrightarrow> first \<le> k \<and> k \<le> l \<and> char_at uri k = Some 64"
    using rfind_char_total [OF assms(2)] by blast
  show ?thesis
  proof (cases r)
    case None
    then show ?thesis using r(1) assms(1) that [of "[]" None first] by (simp add: parse_userinfo_def)
  next
    case (Some k)
    then have k: "first \<le> k" "k < l" using r(2) assms(3) by (auto simp: le_less)
    obtain j where "find_char uri 58 first k = Some j"
      by (rule find_char_total [OF k(1), of uri 58]) (use k assms(2) in auto)
    then show ?thesis using r(1) Some k(2) by (intro that) (auto simp: parse_userinfo_def)
  qed
qed

lemma parse_hostport_total:
  assumes "h \<le> l" "l \<le> length uri"
  obtains "parse_hostport uri h l = Some None"
  | hl pf v6 where "parse_hostport uri h l = Some (Some (hl, pf, v6))" "h \<le> hl" "hl \<le> l"
proof -
  obtain c where c: "char_at uri h = Some c" using char_at_Some [of h uri] assms by auto
  obtain i where i: "find_char uri (if c = 91 then 93 else 58) h l = Some i" "h \<le> i" "i \<le> l"
    by (rule find_char_total [OF assms, of "if c = 91 then 93 else 58"])
  show ?thesis
  proof (cases "c = 91")
    case True
    show ?thesis
    proof (cases "i < l")
      case False
      then show ?thesis using True c i that(1) by (simp add: parse_hostport_def)
    next
      case il: True
      obtain d where "char_at uri (i + 1) = Some d" using char_at_Some [of "i + 1" uri] il assms(2) by auto
      then show ?thesis
        using True c i il that(1) that(2) [of "i + 1" _ True] by (cases "i + 1 = l"; cases "d = 58") (auto simp: parse_hostport_def)
    qed
  next
    case False
    then show ?thesis using c i that(2) [of i _ False] by (auto simp: parse_hostport_def)
  qed
qed

lemma takeWhile_long: "\<forall>x\<in>set xs. P x \<Longrightarrow> length xs \<le> length (takeWhile P (xs @ ys))"
  by (induction xs) auto

lemma protocol_prefix:
  assumes "find_str uri (lit ''://'') = Some p" "default_port (take p uri) = Some d" "c = 35 \<or> c = 63"
    "p + 3 \<le> stop" "stop \<le> length uri" "find_char uri c 0 stop = Some k"
  shows "p + 3 \<le> k"
proof -
  have m: "take 3 (drop p uri) = [58, 47, 47]" "p + 3 \<le> length uri"
    using find_str_Some [OF assms(1)] by (simp_all add: lit_def eval_nat_numeral)
  have "take (p + 3) uri = take p uri @ [58, 47, 47]" by (simp add: take_add m(1))
  then have nc: "\<forall>x\<in>set (take (p + 3) uri). x \<noteq> c" using http_protocol [OF assms(2)] assms(3) by auto
  have sp: "take (p + 3) uri @ drop (p + 3) (take stop uri) = take stop uri"
    using append_take_drop_id [of "p + 3" "take stop uri"] assms(4) by (simp add: min_def)
  have "length (take (p + 3) uri) \<le> length (takeWhile (\<lambda>x. x \<noteq> c) (take stop uri))"
    using takeWhile_long [OF nc, of "drop (p + 3) (take stop uri)"] unfolding sp .
  then have "p + 3 \<le> length (takeWhile (\<lambda>x. x \<noteq> c) (take stop uri))" using m(2) by simp
  then show ?thesis using find_char_within [of 0 stop uri c] assms(5,6) by (simp add: substring_def)
qed

definition uri_shape :: "UriStruct \<Rightarrow> bool" where
  "uri_shape us \<longleftrightarrow> default_port (us_protocol us) \<noteq> None \<and>
     us_dir us \<noteq> [] \<and> hd (us_dir us) = 47 \<and> last (us_dir us) = 47 \<and> 47 \<notin> set (us_file us) \<and>
     (us_query us = [] \<or> hd (us_query us) = 63) \<and> 35 \<notin> set (us_query us) \<and>
     (us_ipv6LiteralAddress us \<or> us_host us \<noteq> [])"

lemma in_substring:
  assumes "x \<in> set (substring u i j)" "j \<le> length u"
  obtains k where "i \<le> k" "k < j" "u ! k = x"
proof -
  obtain m where "m < length (substring u i j)" "substring u i j ! m = x" using assms(1) by (auto simp: in_set_conv_nth)
  then show ?thesis using assms(2) by (intro that [of "i + m"]) (auto simp: substring_def)
qed

lemma path_shape:
  assumes l: "l \<le> q" "q \<le> length u" "l < q \<Longrightarrow> u ! l = 47" and dl: "last_slash u l (q - l) l = dl"
    and d: "d = (if l = dl then lit ''/'' else substring u l dl)" and f: "f = (if dl = q then [] else substring u dl q)"
  shows "d \<noteq> []" "hd d = 47" "last d = 47" "47 \<notin> set f"
proof -
  consider "dl = l" "\<forall>k<q - l. u ! (l + k) \<noteq> 47" | "l < dl" "dl \<le> q" "u ! (dl - 1) = 47" "\<forall>k. dl \<le> k \<and> k < q \<longrightarrow> u ! k \<noteq> 47"
    using last_slash_range [of u l "q - l" l] dl l(1) by auto
  then have "d \<noteq> [] \<and> hd d = 47 \<and> last d = 47 \<and> 47 \<notin> set f"
  proof cases
    case 1
    then have "l = q" using l by (metis add_0_right le_neq_implies_less zero_less_diff)
    then show ?thesis using 1 d f by (simp add: lit_def)
  next
    case 2
    have len: "length (substring u l dl) = dl - l" using length_substring [of l dl u] 2 l by simp
    have "substring u l dl = u ! l # substring u (Suc l) dl" using substring_Cons [of l dl u] 2 l by simp
    moreover have "last (substring u l dl) = u ! (dl - 1)"
      using len 2 l by (subst last_conv_nth) (auto simp: substring_def)
    moreover have "47 \<notin> set (substring u dl q)" using 2(4) l(2) by (metis in_substring)
    ultimately show ?thesis using 2 l d f by auto
  qed
  then show "d \<noteq> []" "hd d = 47" "last d = 47" "47 \<notin> set f" by auto
qed

lemma parse_total:
  "\<exists>res. parse uri = Some res \<and> (\<forall>us. res = Some us \<longrightarrow> uri_shape us)"
proof -
  obtain fr where fr: "find_char uri 35 0 (length uri) = Some fr" "fr \<le> length uri" "35 \<notin> set (substring uri 0 fr)"
    "fr < length uri \<Longrightarrow> uri ! fr = 35" by (rule find_char_total [of 0 "length uri" uri 35]) auto
  obtain q where q: "find_char uri 63 0 fr = Some q" "q \<le> fr" "q < fr \<Longrightarrow> uri ! q = 63"
    by (rule find_char_total [OF _ fr(2), of 0 63]) auto
  show ?thesis
  proof (cases "find_str uri (lit ''://'')")
    case (Some p)
    show ?thesis
    proof (cases "default_port (take p uri)")
      case (Some d)
      note pr = \<open>find_str uri (lit ''://'') = Some p\<close> Some
      have "p + 3 \<le> length uri" using find_str_Some [OF pr(1)] by (simp add: lit_def)
      then have "p + 3 \<le> q" using protocol_prefix [OF pr _ _ _ fr(1)] protocol_prefix [OF pr _ _ fr(2) q(1)] by simp
      then obtain l where l: "find_char uri 47 (p + 3) q = Some l" "p + 3 \<le> l" "l \<le> q" "l < q \<Longrightarrow> uri ! l = 47"
        by (rule find_char_total [of "p + 3" q uri 47]) (use q(2) fr(2) in auto)
      show ?thesis
      proof (cases "p + 3 = l")
        case False
        have lu: "l \<le> length uri" using l(3) q(2) fr(2) by simp
        have "char_at uri l \<noteq> Some 64" using l(3,4) q(2,3) fr(2,4) by (auto simp: char_at_def le_less)
        then obtain user pass h where h: "parse_userinfo uri (p + 3) l = Some (user, pass, h)" "h \<le> l"
          by (rule parse_userinfo_total [OF l(2) lu])
        from h(2) lu show ?thesis
        proof (cases rule: parse_hostport_total)
          case 1
          then show ?thesis using fr q pr l h by (simp add: parse_def Let_def)
        next
          case (2 hl pf v6)
          show ?thesis
          proof (cases "h = hl \<or> parse_port uri pf l d = None")
            case True
            then show ?thesis using fr q pr l h 2 by (auto simp: parse_def Let_def split: option.split)
          next
            case no: False
            then obtain prt where prt: "parse_port uri pf l d = Some prt" "h \<noteq> hl" by auto
            note a = parse_accepts [OF fr(1) q(1) pr l(1) False h(1) 2(1) prt(2,1) refl]
            have "substring uri q fr = [] \<or> hd (substring uri q fr) = 63"
              using q fr(2) substring_Cons [of q fr uri] by (cases "q = fr") (auto simp: substring_def)
            moreover have "35 \<notin> set (substring uri q fr)"
              using fr(3) q(2) in_set_dropD [of 35 q "take fr uri"] by (auto simp: substring_def drop_take)
            ultimately have qry: "(substring uri q fr = [] \<or> hd (substring uri q fr) = 63) \<and> 35 \<notin> set (substring uri q fr)" ..
            have host: "substring uri h hl \<noteq> []" using prt(2) 2(2,3) lu by (simp add: substring_def)
            note path = path_shape [OF l(3) _ l(4) refl refl refl]
            show ?thesis using a path q(2) fr(2) pr(2) qry host by (auto simp: uri_shape_def)
          qed
        qed
      qed (use fr q pr l in \<open>simp add: parse_def Let_def\<close>)
    qed (use fr q Some in \<open>simp add: parse_def Let_def\<close>)
  qed (use fr q in \<open>simp add: parse_def Let_def\<close>)
qed


definition demo_uri :: UriStruct where
  "demo_uri = UriStruct_new\<lparr>us_protocol := lit ''https'', us_host := lit ''::1'', us_port := 8443, us_dir := lit ''/a/'',
     us_file := lit ''b'', us_query := lit ''?q'', us_username := lit ''u@'', us_password := lit ''x'', us_hasPassword := True,
     us_ipv6LiteralAddress := True\<rparr>"

theorem parse_construct_witness:
  "construct demo_uri = lit ''https://u%40:x@[::1]:8443/a/b?q'' \<and>
   parse (lit ''https://u%40:x@[::1]:8443/a/b?q'') = Some (Some demo_uri)"
proof
  show c: "construct demo_uri = lit ''https://u%40:x@[::1]:8443/a/b?q''"
    by (simp add: construct_def construct_authority_def demo_uri_def UriStruct_new_def lit_def default_port_def
        decimal.simps inRFC3986UnreservedChars_def isAlpha_def isDigit_def hex_upper_def)
  have "uri_ok demo_uri" by (simp add: uri_ok_def demo_uri_def UriStruct_new_def lit_def default_port_def)
  from parse_construct [OF this] show "parse (lit ''https://u%40:x@[::1]:8443/a/b?q'') = Some (Some demo_uri)"
    by (simp only: c)
qed


text \<open>
  The port is converted to 32 bits before it is compared with 65535, so a number past \<open>2 ^ 32\<close>
  passes as its remainder; and text that is no number is port 0.
\<close>

lemma parse_port_wraps:
  "map_option (map_option us_port) (parse (lit ''http://h:4294967376/'')) = Some (Some 80)"
  "map_option (map_option us_port) (parse (lit ''http://h:x/'')) = Some (Some 0)"
  by code_simp+

section \<open>Relative references\<close>

text \<open>
  A reference that is no URI of its own is resolved inside its base: the result has the
  protocol, the user, the host and the port of the base, no part of its path is \<open>.\<close> or \<open>..\<close>, and the
  query of the reference follows.
\<close>

theorem joinUri_confined:
  assumes "parse uri = Some None" "parse baseUri = Some (Some bus)"
  shows "\<exists>path rest. joinUri baseUri uri =
      Some (us_protocol bus @ lit ''://'' @ construct_authority bus @ lit ''/'' @ path @ rest) \<and>
    set (split 47 False False path) \<inter> {lit ''.'', lit ''..''} = {} \<and> (rest = [] \<or> hd rest = 63)"
proof -
  obtain qend where qend: "find_char uri 35 0 (length uri) = Some qend" "qend \<le> length uri"
    by (rule find_char_total [of 0 "length uri" uri 35]) auto
  obtain pend where pend: "find_char uri 63 0 qend = Some pend" "pend \<le> qend" "pend < qend \<Longrightarrow> uri ! pend = 63"
    by (rule find_char_total [OF _ qend(2), of 0 63]) auto
  define parts where "parts = (if uri = [] \<or> hd uri \<noteq> 47 then split 47 False False (us_dir bus) else []) @
    split 47 False False (take pend uri)"
  define base where "base = us_protocol bus @ lit ''://'' @ construct_authority bus @ lit ''/''"
  have b: "construct (bus\<lparr>us_dir := [], us_file := [], us_query := []\<rparr>) = base"
    by (simp add: construct_def construct_authority_def base_def)
  have parts: "set (split 47 False False (joinPath parts)) \<inter> {lit ''.'', lit ''..''} = {}"
    using joinPath_parts [of parts] split_parts by (fastforce simp: parts_def)
  define path where "path = (if (pend = 0 \<or> uri ! (pend - 1) = 47) \<and> last (base @ joinPath parts) \<noteq> 47
    then joinPath parts @ lit ''/'' else joinPath parts)"
  have "set (split 47 False False path) = set (split 47 False False (joinPath parts))"
    by (simp add: path_def lit_def split_trailing)
  moreover have "substring uri pend qend = [] \<or> hd (substring uri pend qend) = 63"
    using pend(2,3) qend(2) substring_Cons [of pend qend uri] by (cases "pend = qend") (auto simp: substring_def)
  moreover have "joinUri baseUri uri = Some (base @ path @ substring uri pend qend)"
    using assms qend(1) pend(1) unfolding joinUri_def
    by (simp add: b Let_def path_def flip: parts_def)
  ultimately show ?thesis using parts
    by (intro exI [of _ path] exI [of _ "substring uri pend qend"]) (simp add: base_def)
qed

theorem joinUri_confined_witness:
  "\<exists>path rest. joinUri (lit ''http://h/a/b'') (lit ''../../x?q'') = Some (lit ''http://h/'' @ path @ rest) \<and>
     set (split 47 False False path) \<inter> {lit ''.'', lit ''..''} = {}"
proof -
  have u: "parse (lit ''../../x?q'') = Some None" by code_simp
  have "map_option (map_option us_protocol) (parse (lit ''http://h/a/b'')) = Some (Some (lit ''http'')) \<and>
      map_option (map_option construct_authority) (parse (lit ''http://h/a/b'')) = Some (Some (lit ''h''))" by code_simp
  then obtain bus where b: "parse (lit ''http://h/a/b'') = Some (Some bus)" "us_protocol bus = lit ''http''"
      "construct_authority bus = lit ''h''" by auto
  from joinUri_confined [OF u b(1)] show ?thesis by (auto simp: b(2,3) lit_def)
qed

end
