(* ===== verification/Shrpx_Http.thy ===== *)
theory Shrpx_Http
  imports Spdy_Uri
begin

text \<open>
  \<open>src/shrpx_http.cc\<close>: what the proxy writes into HTTP messages. The fields of the
  configuration that it reads are the record \<open>http_config\<close>; a \<open>char*\<close> is \<open>None\<close> for NULL. Shown here:
  a redirect to the backend is rewritten to the same place on the frontend, any other is
  left as it is.
\<close>

record http_config =
  hc_host :: "cstr option"
  hc_port :: u16
  hc_server_name :: "cstr option"
  hc_downstream_host :: "cstr option"
  hc_downstream_port :: u16
  hc_add_x_forwarded_for :: bool
  hc_spdy_proxy :: bool

definition status_table :: "(int \<times> cstr) list" where
  "status_table =
     [(100, lit ''100 Continue''), (101, lit ''101 Switching Protocols''), (200, lit ''200 OK''),
      (201, lit ''201 Created''), (202, lit ''202 Accepted''), (203, lit ''203 Non-Authoritative Information''),
      (204, lit ''204 No Content''), (205, lit ''205 Reset Content''), (206, lit ''206 Partial Content''),
      (300, lit ''300 Multiple Choices''), (301, lit ''301 Moved Permanently''), (302, lit ''302 Found''),
      (303, lit ''303 See Other''), (304, lit ''304 Not Modified''), (305, lit ''305 Use Proxy''),
      (307, lit ''307 Temporary Redirect''), (400, lit ''400 Bad Request''), (401, lit ''401 Unauthorized''),
      (402, lit ''402 Payment Required''), (403, lit ''403 Forbidden''), (404, lit ''404 Not Found''),
      (405, lit ''405 Method Not Allowed''), (406, lit ''406 Not Acceptable''),
      (407, lit ''407 Proxy Authentication Required''), (408, lit ''408 Request Timeout''), (409, lit ''409 Conflict''),
      (410, lit ''410 Gone''), (411, lit ''411 Length Required''), (412, lit ''412 Precondition Failed''),
      (413, lit ''413 Request Entity Too Large''), (414, lit ''414 Request-URI Too Long''),
      (415, lit ''415 Unsupported Media Type''), (416, lit ''416 Requested Range Not Satisfiable''),
      (417, lit ''417 Expectation Failed''), (500, lit ''500 Internal Server Error''), (501, lit ''501 Not Implemented''),
      (502, lit ''502 Bad Gateway''), (503, lit ''503 Service Unavailable''), (504, lit ''504 Gateway Timeout''),
      (505, lit ''505 HTTP Version Not Supported'')]"

definition get_status_string :: "int \<Rightarrow> cstr" where
  "get_status_string status_code = (case map_of status_table status_code of None \<Rightarrow> [] | Some s \<Rightarrow> s)"

text \<open>A stream that is given NULL fails and takes nothing after it.\<close>

definition create_error_html :: "http_config \<Rightarrow> int \<Rightarrow> bytes" where
  "create_error_html cfg status_code =
     (let status = get_status_string status_code in
      lit ''<html><head><title>'' @ status @ lit ''</title></head><body>'' @
      lit ''<h1>'' @ status @ lit ''</h1>'' @ lit ''<hr>'' @ lit ''<address>'' @
      (case hc_server_name cfg of None \<Rightarrow> []
       | Some name \<Rightarrow>
           name @ lit '' at port '' @ decimal (unat (hc_port cfg)) @ lit ''</address>'' @ lit ''</body></html>'' @ [10]))"

definition create_via_header_value :: "int \<Rightarrow> int \<Rightarrow> bytes" where
  "create_via_header_value major minor =
     [word_of_int (major + 48)] @ lit ''.'' @ [word_of_int (minor + 48)] @ lit '' shrpx''"

text \<open>\<open>None\<close> is a read outside of a string or the assignment of NULL to a \<open>std::string\<close>.\<close>

definition modify_location_header_value :: "http_config \<Rightarrow> bytes \<Rightarrow> bytes option" where
  "modify_location_header_value cfg uri =
     (if \<not> istartsWith_cstr (Some (c_str uri)) (Some (lit ''//'')) \<and>
         \<not> istartsWith_cstr (Some (c_str uri)) (Some (lit ''http://'')) then Some uri
      else
        let norm_uri = (if istartsWith_cstr (Some (c_str uri)) (Some (lit ''//'')) then lit ''http:'' @ uri else uri) in
        do {
          us \<leftarrow> parse norm_uri;
          (case us of
             None \<Rightarrow> Some uri
           | Some us \<Rightarrow>
               if strieq (Some (c_str (us_host us))) (hc_downstream_host cfg) \<and> us_port us = hc_downstream_port cfg then
                 do {
                   h \<leftarrow> hc_host cfg;
                   Some (construct (us\<lparr>us_protocol := lit ''https'', us_host := h, us_port := hc_port cfg\<rparr>))
                 }
               else Some uri)
        })"

section \<open>Redirects\<close>

text \<open>Whether a redirect leads to the backend, and where.\<close>

definition backend_redirect :: "http_config \<Rightarrow> bytes \<Rightarrow> UriStruct option" where
  "backend_redirect cfg uri =
     (let c = Some (c_str uri);
          norm = (if istartsWith_cstr c (Some (lit ''//'')) then Some (lit ''http:'' @ uri)
                  else if istartsWith_cstr c (Some (lit ''http://'')) then Some uri else None) in
      case Option.bind norm (\<lambda>n. Option.bind (parse n) id) of
        None \<Rightarrow> None
      | Some us \<Rightarrow>
          if strieq (Some (c_str (us_host us))) (hc_downstream_host cfg) \<and> us_port us = hc_downstream_port cfg
          then Some us else None)"

lemma parse_never_None: "parse u \<noteq> None"
  using parse_total [of u] by auto

text \<open>
  A Location header is rewritten exactly when it leads to the backend, by host name without
  regard to case and by port; then it leads to the frontend by https, with the path, the
  query and the user of the original. Any other value is passed on as it is.
\<close>

theorem location_rewritten:
  assumes "hc_host cfg = Some h"
  shows "\<exists>v. modify_location_header_value cfg uri = Some v \<and>
    (case backend_redirect cfg uri of
       None \<Rightarrow> v = uri
     | Some us \<Rightarrow>
         let us' = us\<lparr>us_protocol := lit ''https'', us_host := h, us_port := hc_port cfg\<rparr> in
         v = construct us' \<and> (uri_ok us' \<longrightarrow> parse v = Some (Some us')))"
proof -
  have p: "\<exists>r. parse u = Some r" for u using parse_never_None [of u] by auto
  show ?thesis
    using assms p [of uri] p [of "lit ''http:'' @ uri"] parse_construct_ok
    by (auto simp: modify_location_header_value_def backend_redirect_def Let_def bind_eq_Some_conv split: option.splits if_splits)
qed

definition demo_config :: http_config where
  "demo_config =
     \<lparr>hc_host = Some (lit ''front''), hc_port = 3000, hc_server_name = Some (lit ''shrpx''),
      hc_downstream_host = Some (lit ''back''), hc_downstream_port = 80, hc_add_x_forwarded_for = True, hc_spdy_proxy = False\<rparr>"

theorem location_rewritten_witness:
  "\<exists>v us. modify_location_header_value demo_config (lit ''http://BACK/a/b?q'') = Some v \<and> parse v = Some (Some us) \<and>
     us_host us = lit ''front'' \<and> us_file us = lit ''b''"
proof -
  let ?to = "\<lambda>us. us\<lparr>us_protocol := lit ''https'', us_host := lit ''front'', us_port := hc_port demo_config\<rparr>"
  have "map_option (\<lambda>us. (uri_ok (?to us), us_file us)) (backend_redirect demo_config (lit ''http://BACK/a/b?q'')) =
      Some (True, lit ''b'')" by code_simp
  then obtain us where us: "backend_redirect demo_config (lit ''http://BACK/a/b?q'') = Some us" "uri_ok (?to us)" "us_file us = lit ''b''"
    by auto
  have "hc_host demo_config = Some (lit ''front'')" by (simp add: demo_config_def)
  from location_rewritten [OF this, of "lit ''http://BACK/a/b?q''"] us show ?thesis by (auto simp: Let_def)
qed

end
