(* ===== verification/Shrpx_Config.thy ===== *)
theory Shrpx_Config
  imports Shrpx_Http Spdy_Frame_NV
begin

text \<open>
  \<open>src/shrpx_config.cc\<close> with the defaults of \<open>src/shrpx.cc\<close> and the log levels of \<open>src/shrpx_log.cc\<close>: the options
  of the proxy. The record extends \<open>http_config\<close>, so that the rest of the proxy reads its part of it.
  \<open>getpwnam\<close> is a parameter, and so is the version string that the build generates. The copies of
  strings are taken to succeed; a result \<open>None\<close> is the \<open>-1\<close> of \<open>parse_config\<close>, which then has changed nothing.
  Shown here: whatever a configuration file says, the ports and the window stay within their
  ranges; which names of a syslog facility and of
  a log level are understood.
\<close>

section \<open>Names of levels and facilities\<close>

definition SEVERITY_STR :: "cstr list" where
  "SEVERITY_STR = [lit ''INFO'', lit ''WARN'', lit ''ERROR'', lit ''FATAL'']"

fun severity_index :: "cstr list \<Rightarrow> nat \<Rightarrow> cstr \<Rightarrow> nat option" where
  "severity_index [] i name = None"
| "severity_index (s # ss) i name = (if s = name then Some i else severity_index ss (Suc i) name)"

definition set_severity_level_by_name :: "cstr \<Rightarrow> nat option" where
  "set_severity_level_by_name name = severity_index SEVERITY_STR 0 name"

datatype facility =
  LOG_AUTH | LOG_AUTHPRIV | LOG_CRON | LOG_DAEMON | LOG_FTP | LOG_KERN | LOG_LOCAL0 | LOG_LOCAL1 | LOG_LOCAL2 | LOG_LOCAL3
| LOG_LOCAL4 | LOG_LOCAL5 | LOG_LOCAL6 | LOG_LOCAL7 | LOG_LPR | LOG_MAIL | LOG_NEWS | LOG_SYSLOG | LOG_USER | LOG_UUCP

fun str_syslog_facility :: "facility \<Rightarrow> cstr" where
  "str_syslog_facility LOG_AUTH = lit ''auth''"
| "str_syslog_facility LOG_AUTHPRIV = lit ''authpriv''"
| "str_syslog_facility LOG_CRON = lit ''cron''"
| "str_syslog_facility LOG_DAEMON = lit ''daemon''"
| "str_syslog_facility LOG_FTP = lit ''ftp''"
| "str_syslog_facility LOG_KERN = lit ''kern''"
| "str_syslog_facility LOG_LOCAL0 = lit ''local0''"
| "str_syslog_facility LOG_LOCAL1 = lit ''local1''"
| "str_syslog_facility LOG_LOCAL2 = lit ''local2''"
| "str_syslog_facility LOG_LOCAL3 = lit ''local3''"
| "str_syslog_facility LOG_LOCAL4 = lit ''local4''"
| "str_syslog_facility LOG_LOCAL5 = lit ''local5''"
| "str_syslog_facility LOG_LOCAL6 = lit ''local6''"
| "str_syslog_facility LOG_LOCAL7 = lit ''local7''"
| "str_syslog_facility LOG_LPR = lit ''lpr''"
| "str_syslog_facility LOG_MAIL = lit ''mail''"
| "str_syslog_facility LOG_SYSLOG = lit ''syslog''"
| "str_syslog_facility LOG_USER = lit ''user''"
| "str_syslog_facility LOG_UUCP = lit ''uucp''"
| "str_syslog_facility _ = lit ''(unknown)''"

text \<open>The chain of comparisons, in its order.\<close>

definition facility_names :: "(string \<times> facility) list" where
  "facility_names =
     [(''auth'', LOG_AUTH), (''authpriv'', LOG_AUTHPRIV), (''cron'', LOG_CRON), (''daemon'', LOG_DAEMON), (''ftp'', LOG_FTP),
      (''kern'', LOG_KERN), (''local0'', LOG_LOCAL0), (''local1'', LOG_LOCAL1), (''local2'', LOG_LOCAL2), (''local3'', LOG_LOCAL3),
      (''local4'', LOG_LOCAL4), (''local5'', LOG_LOCAL5), (''local6'', LOG_LOCAL6), (''local7'', LOG_LOCAL7), (''lpr'', LOG_LPR),
      (''mail'', LOG_MAIL), (''news'', LOG_NEWS), (''syslog'', LOG_SYSLOG), (''user'', LOG_USER), (''uucp'', LOG_UUCP)]"

definition int_syslog_facility :: "cstr \<Rightarrow> facility option" where
  "int_syslog_facility strfacility =
     map_option snd (find (\<lambda>(name, _). strieq (Some strfacility) (Some (lit name))) facility_names)"

section \<open>The configuration\<close>

text \<open>
  A timeout is its seconds, a \<open>size_t\<close> that is assigned a \<open>long\<close> is a word of 64 bits. The threshold of
  the log, which \<open>parse_config\<close> sets too, is the last field. Fields that only \<open>main\<close> uses (the path of the
  file, the resolved address, \<open>use_syslog\<close>) are left out.
\<close>

record shrpx_config = http_config +
  cf_daemon :: bool
  cf_private_key_file :: "cstr option"
  cf_cert_file :: "cstr option"
  cf_spdy_upstream_read_timeout :: int
  cf_upstream_read_timeout :: int
  cf_upstream_write_timeout :: int
  cf_downstream_read_timeout :: int
  cf_downstream_write_timeout :: int
  cf_downstream_idle_read_timeout :: int
  cf_num_worker :: "64 word"
  cf_spdy_max_concurrent_streams :: "64 word"
  cf_accesslog :: bool
  cf_spdy_upstream_window_bits :: nat
  cf_pid_file :: "cstr option"
  cf_uid :: nat
  cf_gid :: nat
  cf_syslog :: bool
  cf_syslog_facility :: facility
  cf_backlog :: i32
  cf_ciphers :: "cstr option"
  cf_severity_thres :: nat

definition fill_default_config :: "cstr \<Rightarrow> shrpx_config" where
  "fill_default_config version =
     \<lparr>hc_host = Some (lit ''0.0.0.0''), hc_port = 3000, hc_server_name = Some (lit ''shrpx spdylay/'' @ version),
      hc_downstream_host = Some (lit ''127.0.0.1''), hc_downstream_port = 80, hc_add_x_forwarded_for = False,
      hc_spdy_proxy = False, cf_daemon = False, cf_private_key_file = None, cf_cert_file = None,
      cf_spdy_upstream_read_timeout = 180, cf_upstream_read_timeout = 180, cf_upstream_write_timeout = 60,
      cf_downstream_read_timeout = 900, cf_downstream_write_timeout = 60, cf_downstream_idle_read_timeout = 60,
      cf_num_worker = 1, cf_spdy_max_concurrent_streams = 250, cf_accesslog = False, cf_spdy_upstream_window_bits = 16,
      cf_pid_file = None, cf_uid = 0, cf_gid = 0, cf_syslog = False, cf_syslog_facility = LOG_DAEMON, cf_backlog = 256,
      cf_ciphers = None, cf_severity_thres = 1\<rparr>"

definition NI_MAXHOST :: nat where "NI_MAXHOST = 1025"

definition split_host_port :: "nat \<Rightarrow> cstr \<Rightarrow> (cstr \<times> u16) option" where
  "split_host_port hostlen hostport =
     (let host = takeWhile (\<lambda>c. c \<noteq> 44) hostport in
      if 44 \<notin> set hostport then None
      else if hostlen < length host + 1 then None
      else
        (case strtoul10 (drop (length host + 1) hostport) of (d, err) \<Rightarrow>
           if \<not> err \<and> 1 \<le> d \<and> d \<le> 65535 then Some (host, of_nat d) else None))"

definition yes :: "cstr \<Rightarrow> bool" where
  "yes optarg \<longleftrightarrow> strieq (Some optarg) (Some (lit ''yes''))"

definition option_is :: "cstr \<Rightarrow> string \<Rightarrow> bool" where
  "option_is opt name \<longleftrightarrow> strieq (Some opt) (Some (lit name))"

definition parse_config :: "(cstr \<Rightarrow> (nat \<times> nat) option) \<Rightarrow> cstr \<Rightarrow> cstr \<Rightarrow> shrpx_config \<Rightarrow> shrpx_config option" where
  "parse_config getpwnam opt optarg cfg =
     (if option_is opt ''backend'' then
        map_option (\<lambda>(h, p). cfg\<lparr>hc_downstream_host := Some h, hc_downstream_port := p\<rparr>) (split_host_port NI_MAXHOST optarg)
      else if option_is opt ''frontend'' then
        map_option (\<lambda>(h, p). cfg\<lparr>hc_host := Some h, hc_port := p\<rparr>) (split_host_port NI_MAXHOST optarg)
      else if option_is opt ''workers'' then Some (cfg\<lparr>cf_num_worker := word_of_int (fst (strtol10 optarg))\<rparr>)
      else if option_is opt ''spdy-max-concurrent-streams'' then
        Some (cfg\<lparr>cf_spdy_max_concurrent_streams := word_of_int (fst (strtol10 optarg))\<rparr>)
      else if option_is opt ''log-level'' then
        map_option (\<lambda>i. cfg\<lparr>cf_severity_thres := i\<rparr>) (set_severity_level_by_name optarg)
      else if option_is opt ''daemon'' then Some (cfg\<lparr>cf_daemon := yes optarg\<rparr>)
      else if option_is opt ''spdy-proxy'' then Some (cfg\<lparr>hc_spdy_proxy := yes optarg\<rparr>)
      else if option_is opt ''add-x-forwarded-for'' then Some (cfg\<lparr>hc_add_x_forwarded_for := yes optarg\<rparr>)
      else if option_is opt ''frontend-spdy-read-timeout'' then
        Some (cfg\<lparr>cf_spdy_upstream_read_timeout := fst (strtol10 optarg)\<rparr>)
      else if option_is opt ''frontend-read-timeout'' then Some (cfg\<lparr>cf_upstream_read_timeout := fst (strtol10 optarg)\<rparr>)
      else if option_is opt ''frontend-write-timeout'' then Some (cfg\<lparr>cf_upstream_write_timeout := fst (strtol10 optarg)\<rparr>)
      else if option_is opt ''backend-read-timeout'' then Some (cfg\<lparr>cf_downstream_read_timeout := fst (strtol10 optarg)\<rparr>)
      else if option_is opt ''backend-write-timeout'' then Some (cfg\<lparr>cf_downstream_write_timeout := fst (strtol10 optarg)\<rparr>)
      else if option_is opt ''accesslog'' then Some (cfg\<lparr>cf_accesslog := yes optarg\<rparr>)
      else if option_is opt ''backend-keep-alive-timeout'' then
        Some (cfg\<lparr>cf_downstream_idle_read_timeout := fst (strtol10 optarg)\<rparr>)
      else if option_is opt ''frontend-spdy-window-bits'' then
        (case strtoul10 optarg of (n, err) \<Rightarrow>
           if \<not> err \<and> n < 31 then Some (cfg\<lparr>cf_spdy_upstream_window_bits := n\<rparr>) else None)
      else if option_is opt ''pid-file'' then Some (cfg\<lparr>cf_pid_file := Some optarg\<rparr>)
      else if option_is opt ''user'' then
        map_option (\<lambda>(uid, gid). cfg\<lparr>cf_uid := uid, cf_gid := gid\<rparr>) (getpwnam optarg)
      else if option_is opt ''private-key-file'' then Some (cfg\<lparr>cf_private_key_file := Some optarg\<rparr>)
      else if option_is opt ''certificate-file'' then Some (cfg\<lparr>cf_cert_file := Some optarg\<rparr>)
      else if option_is opt ''syslog'' then Some (cfg\<lparr>cf_syslog := yes optarg\<rparr>)
      else if option_is opt ''syslog-facility'' then
        map_option (\<lambda>f. cfg\<lparr>cf_syslog_facility := f\<rparr>) (int_syslog_facility optarg)
      else if option_is opt ''backlog'' then Some (cfg\<lparr>cf_backlog := word_of_int (fst (strtol10 optarg))\<rparr>)
      else if option_is opt ''ciphers'' then Some (cfg\<lparr>cf_ciphers := Some optarg\<rparr>)
      else if option_is opt ''conf'' then Some cfg
      else None)"

text \<open>
  \<open>load_config\<close> over the lines that \<open>std::getline\<close> gives; a file that cannot be opened is \<open>None\<close>. A line
  that is refused ends the loading, and the lines before it have been applied.
\<close>

definition getlines :: "bytes \<Rightarrow> bytes list" where
  "getlines content = split_loop 10 False True content"

definition config_line :: "(cstr \<Rightarrow> (nat \<times> nat) option) \<Rightarrow> bytes \<Rightarrow> shrpx_config \<Rightarrow> shrpx_config option" where
  "config_line getpwnam line cfg =
     (if line = [] \<or> hd line = 35 then Some cfg
      else
        let i = length (takeWhile (\<lambda>c. c \<noteq> 61) line) in
        if i = length line then None
        else parse_config getpwnam (c_str (take i line)) (c_str (drop (i + 1) line)) cfg)"

fun load_lines :: "(cstr \<Rightarrow> (nat \<times> nat) option) \<Rightarrow> bytes list \<Rightarrow> shrpx_config \<Rightarrow> int \<times> shrpx_config" where
  "load_lines getpwnam [] cfg = (0, cfg)"
| "load_lines getpwnam (line # rest) cfg =
     (case config_line getpwnam line cfg of None \<Rightarrow> (-1, cfg) | Some cfg1 \<Rightarrow> load_lines getpwnam rest cfg1)"

definition load_config :: "(cstr \<Rightarrow> (nat \<times> nat) option) \<Rightarrow> bytes option \<Rightarrow> shrpx_config \<Rightarrow> int \<times> shrpx_config" where
  "load_config getpwnam content cfg =
     (case content of None \<Rightarrow> (-1, cfg) | Some text \<Rightarrow> load_lines getpwnam (getlines text) cfg)"

section \<open>Every configuration is in range\<close>

definition host_ok :: "cstr option \<Rightarrow> bool" where
  "host_ok h \<longleftrightarrow> (\<exists>host. h = Some host \<and> length host < NI_MAXHOST \<and> 44 \<notin> set host)"

definition config_ok :: "shrpx_config \<Rightarrow> bool" where
  "config_ok cfg \<longleftrightarrow> host_ok (hc_host cfg) \<and> host_ok (hc_downstream_host cfg) \<and> hc_port cfg \<noteq> 0 \<and>
     hc_downstream_port cfg \<noteq> 0 \<and> hc_server_name cfg \<noteq> None \<and> cf_spdy_upstream_window_bits cfg < 31 \<and>
     cf_severity_thres cfg < length SEVERITY_STR"

lemma of_nat_u16_nonzero: "1 \<le> d \<Longrightarrow> d \<le> 65535 \<Longrightarrow> (of_nat d :: u16) \<noteq> 0"
  by (auto simp: word_of_nat_eq_0_iff dest: dvd_imp_le)

lemma split_host_port_ok:
  assumes "split_host_port NI_MAXHOST hostport = Some (h, p)"
  shows "host_ok (Some h) \<and> p \<noteq> 0"
  using assms of_nat_u16_nonzero set_takeWhileD [of 44 "\<lambda>c. c \<noteq> 44" hostport]
  by (auto simp: split_host_port_def host_ok_def Let_def split: if_splits prod.splits)

lemma severity_index_less: "severity_index ss i name = Some j \<Longrightarrow> j < i + length ss"
  by (induction ss i name rule: severity_index.induct) (auto split: if_splits)

lemma parse_config_ok: "parse_config getpwnam opt optarg cfg = Some cfg' \<Longrightarrow> config_ok cfg \<Longrightarrow> config_ok cfg'"
  unfolding parse_config_def
  by (auto simp: config_ok_def set_severity_level_by_name_def dest: split_host_port_ok severity_index_less
    split: if_splits prod.splits)

lemma load_lines_ok: "config_ok cfg \<Longrightarrow> config_ok (snd (load_lines getpwnam ls cfg))"
  by (induction getpwnam ls cfg rule: load_lines.induct)
    (auto simp: config_line_def Let_def parse_config_ok split: option.splits if_splits)

lemma default_config_ok: "config_ok (fill_default_config version)"
  by (simp add: config_ok_def fill_default_config_def host_ok_def NI_MAXHOST_def SEVERITY_STR_def lit_def)

text \<open>
  Whatever the text of the configuration file, and whether or not it is refused, the settings
  afterwards are in range: hosts that fit their buffers, ports between 1 and 65535, a server
  name, window bits up to 30 and a log level of the table.
\<close>

lemma load_config_in_range: "config_ok (snd (load_config getpwnam content (fill_default_config version)))"
  by (cases content) (simp_all add: load_config_def default_config_ok load_lines_ok)

text \<open>
  A line for the window bits, in any case of letters, overrides the ones before it and leaves the
  other settings alone.
\<close>

lemma last_setting_counts:
  assumes "option_is opt ''frontend-spdy-window-bits''" "strtoul10 val = (n, False)" "n < 31"
  shows "parse_config getpwnam opt val cfg = Some (cfg\<lparr>cf_spdy_upstream_window_bits := n\<rparr>)"
proof -
  have "map lowcase opt = lit ''frontend-spdy-window-bits''"
    using assms(1) by (simp add: option_is_def strieq_iff lit_def lowcase_def)
  then show ?thesis using assms by (simp add: parse_config_def option_is_def strieq_iff lit_def lowcase_def)
qed

text \<open>
  The name of a facility is understood again, except that LOG_NEWS, which can be set, has no name
  to print. The usage text lists WARNING among the log levels, which is refused; the level is
  called WARN.
\<close>

lemma facility_roundtrip: "int_syslog_facility (str_syslog_facility f) = (if f = LOG_NEWS then None else Some f)"
  by (cases f; hypsubst; code_simp)

lemma news_has_no_name: "map_option str_syslog_facility (int_syslog_facility (lit ''news'')) = Some (lit ''(unknown)'')"
  by code_simp

lemma warning_is_no_level:
  "set_severity_level_by_name (lit ''WARNING'') = None \<and> set_severity_level_by_name (lit ''WARN'') = Some 1"
  by code_simp

end
