(* ===== verification/Shrpx_Downstream.thy ===== *)
theory Shrpx_Downstream
  imports Shrpx_Http
begin

text \<open>
  \<open>src/shrpx_downstream.cc\<close> with \<open>src/shrpx_io_control.cc\<close> and \<open>src/shrpx_downstream_queue.cc\<close>: one
  request of a client and the response of the backend. The connection to the backend is the
  output buffer of its \<open>bufferevent\<close>; adding to a buffer can fail, as every allocation, and then
  leaves it alone. The HTTP parser calls the \<open>htp\<close> functions with pieces of the response; it is not
  part of the model. \<open>None\<close> is a failed \<open>assert\<close> or \<open>back()\<close> of an empty vector. Shown here: headers
  that arrive in pieces are put together, which headers of a request the backend gets, and what
  an upload with chunked encoding writes and returns.
\<close>

section \<open>Pausing a connection\<close>

definition SHRPX_NO_BUFFER :: u32 where [simp]: "SHRPX_NO_BUFFER = 1"
definition SHRPX_MSG_BLOCK :: u32 where [simp]: "SHRPX_MSG_BLOCK = 2"

text \<open>The event buffer is NULL, or reading from it is enabled or not.\<close>

record IOControl =
  ic_bev :: "bool option"
  ic_rdbits :: u32

definition IOControl_new :: "bool option \<Rightarrow> IOControl" where
  "IOControl_new bev = \<lparr>ic_bev = bev, ic_rdbits = 0\<rparr>"

definition set_bev :: "bool option \<Rightarrow> IOControl \<Rightarrow> IOControl" where
  "set_bev bev io = io\<lparr>ic_bev := bev\<rparr>"

definition pause_read :: "u32 \<Rightarrow> IOControl \<Rightarrow> IOControl" where
  "pause_read reason io = io\<lparr>ic_rdbits := ic_rdbits io OR reason, ic_bev := map_option (\<lambda>_. False) (ic_bev io)\<rparr>"

definition resume_read :: "u32 \<Rightarrow> IOControl \<Rightarrow> bool \<times> IOControl" where
  "resume_read reason io =
     (let io1 = io\<lparr>ic_rdbits := ic_rdbits io AND NOT reason\<rparr> in
      if ic_rdbits io1 = 0 then (True, io1\<lparr>ic_bev := map_option (\<lambda>_. True) (ic_bev io1)\<rparr>)
      else (False, io1))"

definition force_resume_read :: "IOControl \<Rightarrow> IOControl" where
  "force_resume_read io = io\<lparr>ic_rdbits := 0, ic_bev := map_option (\<lambda>_. True) (ic_bev io)\<rparr>"

section \<open>The request and its response\<close>

datatype downstream_state = INITIAL | HEADER_COMPLETE | MSG_COMPLETE | STREAM_CLOSED | CONNECT_FAIL | IDLE

type_synonym headers = "(bytes \<times> bytes) list"

record Downstream =
  ds_dconn :: "bytes option"
  ds_stream_id :: i32
  ds_priority :: int
  ds_ioctrl :: IOControl
  ds_request_state :: downstream_state
  ds_request_method :: bytes
  ds_request_path :: bytes
  ds_request_major :: int
  ds_request_minor :: int
  ds_chunked_request :: bool
  ds_request_connection_close :: bool
  ds_request_expect_100_continue :: bool
  ds_request_headers :: headers
  ds_request_header_key_prev :: bool
  ds_response_state :: downstream_state
  ds_response_http_status :: u32
  ds_response_major :: int
  ds_response_minor :: int
  ds_chunked_response :: bool
  ds_response_connection_close :: bool
  ds_response_headers :: headers
  ds_response_header_key_prev :: bool
  ds_response_body_buf :: "bytes option"
  ds_recv_window_size :: i32

definition Downstream_new :: "i32 \<Rightarrow> int \<Rightarrow> Downstream" where
  "Downstream_new stream_id priority =
     \<lparr>ds_dconn = None, ds_stream_id = stream_id, ds_priority = priority, ds_ioctrl = IOControl_new None,
      ds_request_state = INITIAL, ds_request_method = [], ds_request_path = [],
      ds_request_major = 1, ds_request_minor = 1, ds_chunked_request = False, ds_request_connection_close = False,
      ds_request_expect_100_continue = False, ds_request_headers = [], ds_request_header_key_prev = False,
      ds_response_state = INITIAL, ds_response_http_status = 0, ds_response_major = 1, ds_response_minor = 1,
      ds_chunked_response = False, ds_response_connection_close = False, ds_response_headers = [],
      ds_response_header_key_prev = False, ds_response_body_buf = None, ds_recv_window_size = 0\<rparr>"

text \<open>A connection that is attached has reading enabled.\<close>

definition set_downstream_connection :: "bytes option \<Rightarrow> Downstream \<Rightarrow> Downstream" where
  "set_downstream_connection dconn d =
     d\<lparr>ds_dconn := dconn, ds_ioctrl := set_bev (map_option (\<lambda>_. True) dconn) (ds_ioctrl d)\<rparr>"

definition check_header_field :: "bool \<Rightarrow> bytes \<times> bytes \<Rightarrow> cstr \<Rightarrow> cstr \<Rightarrow> bool" where
  "check_header_field result item name val =
     (if strieq (Some (c_str (fst item))) (Some name) \<and> strifind (Some (c_str (snd item))) (Some val)
      then True else result)"

definition check_transfer_encoding_chunked :: "bool \<Rightarrow> bytes \<times> bytes \<Rightarrow> bool" where
  "check_transfer_encoding_chunked chunked item = check_header_field chunked item (lit ''transfer-encoding'') (lit ''chunked'')"

definition check_expect_100_continue :: "bool \<Rightarrow> bytes \<times> bytes \<Rightarrow> bool" where
  "check_expect_100_continue res item = check_header_field res item (lit ''expect'') (lit ''100-continue'')"

definition add_request_header :: "bytes \<Rightarrow> bytes \<Rightarrow> Downstream \<Rightarrow> Downstream" where
  "add_request_header name val d =
     d\<lparr>ds_request_header_key_prev := True, ds_request_headers := ds_request_headers d @ [(name, val)]\<rparr>"

definition set_last_request_header_value :: "bytes \<Rightarrow> Downstream \<Rightarrow> Downstream option" where
  "set_last_request_header_value val d =
     (if ds_request_headers d = [] then None
      else
        let item = (fst (last (ds_request_headers d)), val) in
        Some (d\<lparr>ds_request_header_key_prev := False,
                ds_request_headers := butlast (ds_request_headers d) @ [item],
                ds_chunked_request := check_transfer_encoding_chunked (ds_chunked_request d) item,
                ds_request_expect_100_continue := check_expect_100_continue (ds_request_expect_100_continue d) item\<rparr>))"

definition append_last_request_header_key :: "bytes \<Rightarrow> Downstream \<Rightarrow> Downstream option" where
  "append_last_request_header_key data d =
     (if \<not> ds_request_header_key_prev d \<or> ds_request_headers d = [] then None
      else
        let item = last (ds_request_headers d) in
        Some (d\<lparr>ds_request_headers := butlast (ds_request_headers d) @ [(fst item @ data, snd item)]\<rparr>))"

definition append_last_request_header_value :: "bytes \<Rightarrow> Downstream \<Rightarrow> Downstream option" where
  "append_last_request_header_value data d =
     (if ds_request_header_key_prev d \<or> ds_request_headers d = [] then None
      else
        let item = last (ds_request_headers d) in
        Some (d\<lparr>ds_request_headers := butlast (ds_request_headers d) @ [(fst item, snd item @ data)]\<rparr>))"

definition append_request_path :: "bytes \<Rightarrow> Downstream \<Rightarrow> Downstream" where
  "append_request_path data d = d\<lparr>ds_request_path := ds_request_path d @ data\<rparr>"

definition DOWNSTREAM_OUTPUT_UPPER_THRES :: nat where
  "DOWNSTREAM_OUTPUT_UPPER_THRES = 64 * 1024"

definition get_output_buffer_full :: "Downstream \<Rightarrow> bool" where
  "get_output_buffer_full d =
     (case ds_dconn d of None \<Rightarrow> False | Some output \<Rightarrow> length output \<ge> DOWNSTREAM_OUTPUT_UPPER_THRES)"

section \<open>Writing to the backend\<close>

text \<open>Documented: \<open>evbuffer_add\<close> appends and returns 0, or returns -1 and changes nothing.\<close>

definition evbuffer_add :: "mem \<Rightarrow> bytes \<Rightarrow> bytes \<Rightarrow> int \<times> bytes \<times> mem" where
  "evbuffer_add m buf data = (case malloc m of (ok, m') \<Rightarrow> if ok then (0, buf @ data, m') else (-1, buf, m'))"

text \<open>The header lines, the value of the last Via header and that of the last X-Forwarded-For header.\<close>

definition name_is :: "bytes \<times> bytes \<Rightarrow> string \<Rightarrow> bool" where
  "name_is h name \<longleftrightarrow> strieq (Some (c_str (fst h))) (Some (lit name))"

fun request_header_lines :: "headers \<Rightarrow> bytes \<Rightarrow> bytes \<Rightarrow> bytes \<Rightarrow> bytes \<times> bytes \<times> bytes" where
  "request_header_lines [] hdrs via_value xff_value = (hdrs, via_value, xff_value)"
| "request_header_lines (h # hs) hdrs via_value xff_value =
     (if name_is h ''X-Forwarded-Proto'' \<or> name_is h ''keep-alive'' \<or> name_is h ''connection'' \<or>
         name_is h ''proxy-connection'' then request_header_lines hs hdrs via_value xff_value
      else if name_is h ''via'' then request_header_lines hs hdrs (snd h) xff_value
      else if name_is h ''x-forwarded-for'' then request_header_lines hs hdrs via_value (snd h)
      else if name_is h ''expect'' \<and> strifind (Some (c_str (snd h))) (Some (lit ''100-continue''))
      then request_header_lines hs hdrs via_value xff_value
      else request_header_lines hs (hdrs @ fst h @ lit '': '' @ snd h @ [13, 10]) via_value xff_value)"

definition request_head :: "http_config \<Rightarrow> bytes \<Rightarrow> Downstream \<Rightarrow> bytes" where
  "request_head cfg ipaddr d =
     (case request_header_lines (ds_request_headers d)
             (ds_request_method d @ lit '' '' @ ds_request_path d @ lit '' '' @ lit ''HTTP/1.1'' @ [13, 10]) [] [] of
        (hdrs, via_value, xff_value) \<Rightarrow>
          hdrs @
          (if ds_request_connection_close d then lit ''Connection: close'' @ [13, 10] else []) @
          (if hc_add_x_forwarded_for cfg then
             lit ''X-Forwarded-For: '' @ (if xff_value \<noteq> [] then xff_value @ lit '', '' else []) @ ipaddr @ [13, 10]
           else if xff_value \<noteq> [] then lit ''X-Forwarded-For: '' @ xff_value @ [13, 10] else []) @
          (if ds_request_method d \<noteq> lit ''CONNECT'' then
             lit ''X-Forwarded-Proto: '' @
             (if istartsWith (ds_request_path d) (lit ''http:'') then lit ''http'' else lit ''https'') @ [13, 10]
           else []) @
          lit ''Via: '' @ via_value @ (if via_value \<noteq> [] then lit '', '' else []) @
          create_via_header_value (ds_request_major d) (ds_request_minor d) @ [13, 10] @ [13, 10])"

text \<open>A missing connection is a NULL that the code dereferences.\<close>

definition push_request_headers ::
    "http_config \<Rightarrow> bytes \<Rightarrow> mem \<Rightarrow> Downstream \<Rightarrow> (int \<times> Downstream \<times> mem) option" where
  "push_request_headers cfg ipaddr m d =
     (case ds_dconn d of None \<Rightarrow> None
      | Some output \<Rightarrow>
          (case evbuffer_add m output (request_head cfg ipaddr d) of (rv, out, m') \<Rightarrow>
             Some (if rv \<noteq> 0 then -1 else 0, d\<lparr>ds_dconn := Some out\<rparr>, m')))"

text \<open>The conversion \<open>%X\<close> of an \<open>unsigned int\<close>.\<close>

fun hex_number :: "nat \<Rightarrow> bytes" where
  "hex_number n = (if n < 16 then [hex_upper n] else hex_number (n div 16) @ [hex_upper (n mod 16)])"

declare hex_number.simps [simp del]

definition push_upload_data_chunk :: "mem \<Rightarrow> bytes \<Rightarrow> Downstream \<Rightarrow> int \<times> Downstream \<times> mem" where
  "push_upload_data_chunk m data d =
     (case ds_dconn d of None \<Rightarrow> (0, d, m)
      | Some out0 \<Rightarrow>
          let put = (\<lambda>out. d\<lparr>ds_dconn := Some out\<rparr>);
              chunk = hex_number (length data mod 2 ^ 32) @ [13, 10];
              (rv1, out1, m1) = (if ds_chunked_request d then evbuffer_add m out0 chunk else (0, out0, m)) in
          if rv1 = -1 then (-1, put out1, m1)
          else
            (case evbuffer_add m1 out1 data of (rv2, out2, m2) \<Rightarrow>
               if rv2 = -1 then (-1, put out2, m2)
               else if ds_chunked_request d then
                 (case evbuffer_add m2 out2 [13, 10] of (rv3, out3, m3) \<Rightarrow>
                    if rv3 = -1 then (-1, put out3, m3) else (int (length chunk) + rv2 + 2, put out3, m3))
               else (rv2, put out2, m2)))"

definition end_upload_data :: "mem \<Rightarrow> Downstream \<Rightarrow> (int \<times> Downstream \<times> mem) option" where
  "end_upload_data m d =
     (if ds_chunked_request d then
        (case ds_dconn d of None \<Rightarrow> None
         | Some output \<Rightarrow>
             (case evbuffer_add m output ([48, 13, 10, 13, 10]) of (rv, out, m') \<Rightarrow>
                Some (if rv \<noteq> 0 then -1 else 0, d\<lparr>ds_dconn := Some out\<rparr>, m')))
      else Some (0, d, m))"

section \<open>Reading from the backend\<close>

definition add_response_header :: "bytes \<Rightarrow> bytes \<Rightarrow> Downstream \<Rightarrow> Downstream" where
  "add_response_header name val d =
     d\<lparr>ds_response_header_key_prev := True, ds_response_headers := ds_response_headers d @ [(name, val)]\<rparr>"

definition set_last_response_header_value :: "bytes \<Rightarrow> Downstream \<Rightarrow> Downstream option" where
  "set_last_response_header_value val d =
     (if ds_response_headers d = [] then None
      else
        let item = (fst (last (ds_response_headers d)), val) in
        Some (d\<lparr>ds_response_header_key_prev := False,
                ds_response_headers := butlast (ds_response_headers d) @ [item],
                ds_chunked_response := check_transfer_encoding_chunked (ds_chunked_response d) item\<rparr>))"

definition append_last_response_header_key :: "bytes \<Rightarrow> Downstream \<Rightarrow> Downstream option" where
  "append_last_response_header_key data d =
     (if \<not> ds_response_header_key_prev d \<or> ds_response_headers d = [] then None
      else
        let item = last (ds_response_headers d) in
        Some (d\<lparr>ds_response_headers := butlast (ds_response_headers d) @ [(fst item @ data, snd item)]\<rparr>))"

definition append_last_response_header_value :: "bytes \<Rightarrow> Downstream \<Rightarrow> Downstream option" where
  "append_last_response_header_value data d =
     (if ds_response_header_key_prev d \<or> ds_response_headers d = [] then None
      else
        let item = last (ds_response_headers d) in
        Some (d\<lparr>ds_response_headers := butlast (ds_response_headers d) @ [(fst item, snd item @ data)]\<rparr>))"

definition get_response_version :: "Downstream \<Rightarrow> int" where
  "get_response_version d = ds_response_major d * 100 + ds_response_minor d"

definition tunnel_established :: "Downstream \<Rightarrow> bool" where
  "tunnel_established d \<longleftrightarrow>
     ds_request_method d = lit ''CONNECT'' \<and> 200 \<le> ds_response_http_status d \<and> ds_response_http_status d < 300"

text \<open>
  The callbacks of the parser. \<open>status\<close>, \<open>major\<close>, \<open>minor\<close> and \<open>keep_alive\<close> are what the parser found, and
  \<open>rv\<close> is what the upstream answers to the complete header.
\<close>

definition htp_hdrs_completecb ::
    "u32 \<Rightarrow> int \<Rightarrow> int \<Rightarrow> bool \<Rightarrow> (Downstream \<Rightarrow> int \<times> Downstream) \<Rightarrow> Downstream \<Rightarrow> int \<times> Downstream" where
  "htp_hdrs_completecb status major minor keep_alive header_complete d =
     (case header_complete (d\<lparr>ds_response_http_status := status, ds_response_major := major, ds_response_minor := minor,
             ds_response_connection_close := \<not> keep_alive, ds_response_state := HEADER_COMPLETE\<rparr>) of (rv, d1) \<Rightarrow>
        if rv \<noteq> 0 then (-1, d1)
        else
          let st = ds_response_http_status d1 in
          (if ds_request_method d1 = lit ''HEAD'' \<or> 100 \<le> st \<and> st \<le> 199 \<or> st = 204 \<or> st = 304 then 1 else 0, d1))"

definition htp_hdr_keycb :: "bytes \<Rightarrow> Downstream \<Rightarrow> Downstream option" where
  "htp_hdr_keycb data d =
     (if ds_response_header_key_prev d then append_last_response_header_key data d
      else Some (add_response_header data [] d))"

definition htp_hdr_valcb :: "bytes \<Rightarrow> Downstream \<Rightarrow> Downstream option" where
  "htp_hdr_valcb data d =
     (if ds_response_header_key_prev d then set_last_response_header_value data d
      else append_last_response_header_value data d)"

definition htp_msg_completecb :: "(Downstream \<Rightarrow> int \<times> Downstream) \<Rightarrow> Downstream \<Rightarrow> int \<times> Downstream" where
  "htp_msg_completecb body_complete d = body_complete (d\<lparr>ds_response_state := MSG_COMPLETE\<rparr>)"

definition body_buf_cb :: "nat \<Rightarrow> Downstream \<Rightarrow> Downstream" where
  "body_buf_cb newlen d =
     (if newlen = 0 then d\<lparr>ds_ioctrl := snd (resume_read SHRPX_NO_BUFFER (ds_ioctrl d))\<rparr> else d)"

definition init_response_body_buf :: "Downstream \<Rightarrow> Downstream" where
  "init_response_body_buf d =
     (if ds_response_body_buf d = None then d\<lparr>ds_response_body_buf := Some []\<rparr> else d)"

definition inc_recv_window_size :: "i32 \<Rightarrow> Downstream \<Rightarrow> Downstream" where
  "inc_recv_window_size amount d = d\<lparr>ds_recv_window_size := ds_recv_window_size d + amount\<rparr>"

text \<open>What libevent reports of a connection, one field per bit.\<close>

record bev_events =
  ev_connected :: bool
  ev_eof :: bool
  ev_error :: bool
  ev_timeout :: bool

section \<open>The requests of a connection\<close>

type_synonym downstream_queue = "i32 \<rightharpoonup> Downstream"

definition queue_add :: "Downstream \<Rightarrow> downstream_queue \<Rightarrow> downstream_queue" where
  "queue_add d q = q(ds_stream_id d \<mapsto> d)"

definition queue_remove :: "Downstream \<Rightarrow> downstream_queue \<Rightarrow> downstream_queue" where
  "queue_remove d q = q(ds_stream_id d := None)"

definition queue_find :: "i32 \<Rightarrow> downstream_queue \<Rightarrow> Downstream option" where
  "queue_find stream_id q = q stream_id"

section \<open>Chunked bodies\<close>

text \<open>
  The decoding of a chunked body by RFC 2616, section 3.6.1, without trailers: the data and what
  follows the body.
\<close>

fun hex_line :: "nat \<Rightarrow> bytes \<Rightarrow> (nat \<times> bytes) option" where
  "hex_line acc [] = None"
| "hex_line acc (c # cs) =
     (if isHexDigit c then hex_line (16 * acc + hex_value c) cs
      else if take 2 (c # cs) = [13, 10] then Some (acc, drop 1 cs) else None)"

lemma hex_line_shorter: "hex_line acc bs = Some (n, rest) \<Longrightarrow> length rest < length bs"
  by (induction acc bs rule: hex_line.induct) (auto split: if_splits)

function dechunk :: "bytes \<Rightarrow> (bytes \<times> bytes) option" where
  "dechunk bs =
     (case hex_line 0 bs of None \<Rightarrow> None
      | Some (n, rest) \<Rightarrow>
          if take 2 (drop n rest) \<noteq> [13, 10] then None
          else if n = 0 then Some ([], drop 2 rest)
          else map_option (\<lambda>(data, after). (take n rest @ data, after)) (dechunk (drop (n + 2) rest)))"
  by auto
termination
  by (relation "measure length") (auto dest: hex_line_shorter)

declare dechunk.simps [simp del]

lemma hex_line_append_digits:
  "hex_line acc (hex_number n @ bs) = hex_line (acc * 16 ^ length (hex_number n) + n) bs"
proof (induction n arbitrary: acc bs rule: hex_number.induct)
  case (1 n)
  show ?case
  proof (cases "n < 16")
    case True
    then show ?thesis by (simp add: hex_number.simps [of n] hex_upper_digit mult.commute)
  next
    case False
    with 1 [OF False] show ?thesis by (simp add: hex_number.simps [of n] hex_upper_digit ac_simps)
  qed
qed

lemma hex_line_number [simp]: "hex_line 0 (hex_number n @ 13 # 10 # bs) = Some (n, bs)"
  by (simp add: hex_line_append_digits isHexDigit_def isDigit_def)

definition chunk :: "bytes \<Rightarrow> bytes" where
  "chunk data = hex_number (length data) @ [13, 10] @ data @ [13, 10]"

lemma dechunk_chunk: "data \<noteq> [] \<Longrightarrow> dechunk (chunk data @ bs) = map_option (\<lambda>(b, r). (data @ b, r)) (dechunk bs)"
  by (subst dechunk.simps) (simp add: chunk_def)

lemma dechunk_last: "dechunk ([48, 13, 10, 13, 10] @ bs) = Some ([], bs)"
  by (subst dechunk.simps) (simp add: isHexDigit_def isDigit_def hex_value_def)

lemma dechunk_chunks:
  "list_all (\<lambda>p. p \<noteq> []) ps \<Longrightarrow> dechunk (concat (map chunk ps) @ [48, 13, 10, 13, 10] @ bs) = Some (concat ps, bs)"
  by (induction ps) (use dechunk_last in \<open>auto simp: dechunk_chunk simp del: append_Cons\<close>)

text \<open>
  Where a body goes that arrives in pieces: \<open>ready\<close> is when a piece is taken, \<open>written\<close> what the receiver
  sees. Requests for the backend and responses for the client are two such places.
\<close>

locale body_sink =
  fixes ready :: "'s \<Rightarrow> bool"
    and put :: "bytes \<Rightarrow> 's \<Rightarrow> 's"
    and written :: "'s \<Rightarrow> bytes"
    and enc :: "bytes \<Rightarrow> bytes"
    and fits :: "bytes \<Rightarrow> bool"
  assumes put_ready: "ready s \<Longrightarrow> fits b \<Longrightarrow> ready (put b s)"
    and put_written: "ready s \<Longrightarrow> fits b \<Longrightarrow> written (put b s) = written s @ enc b"
begin

lemma put_all:
  "ready s \<Longrightarrow> list_all fits bs \<Longrightarrow>
     ready (fold put bs s) \<and> written (fold put bs s) = written s @ concat (map enc bs)"
  by (induction bs arbitrary: s) (auto simp: put_ready put_written)

end

locale chunked_sink = body_sink ready put written chunk "\<lambda>b. b \<noteq> [] \<and> length b < 2 ^ 32"
  for ready :: "'s \<Rightarrow> bool" and put :: "bytes \<Rightarrow> 's \<Rightarrow> 's" and written :: "'s \<Rightarrow> bytes" +
  fixes finish :: "'s \<Rightarrow> 's"
  assumes finish_written: "ready s \<Longrightarrow> written (finish s) = written s @ [48, 13, 10, 13, 10]"
begin

lemma decodes:
  assumes "ready s" "\<forall>b\<in>set bs. b \<noteq> [] \<and> length b < 2 ^ 32"
  shows "\<exists>body. written (finish (fold put bs s)) = written s @ body \<and> dechunk (body @ rest) = Some (concat bs, rest)"
  using put_all [OF assms(1), of bs] finish_written [of "fold put bs s"] dechunk_chunks [of bs rest] assms(2)
  by (auto simp: list_all_iff)

end

definition upload_put :: "bytes \<Rightarrow> Downstream \<times> mem \<Rightarrow> Downstream \<times> mem" where
  "upload_put data = (\<lambda>(d, m). snd (push_upload_data_chunk m data d))"

definition upload_finish :: "Downstream \<times> mem \<Rightarrow> Downstream \<times> mem" where
  "upload_finish = (\<lambda>(d, m). case end_upload_data m d of None \<Rightarrow> (d, m) | Some (_, d1, m1) \<Rightarrow> (d1, m1))"

interpretation upload_chunks: chunked_sink "\<lambda>(d, m). ds_chunked_request d \<and> ds_dconn d \<noteq> None \<and> (\<forall>n. mem_ok m n)" upload_put
  "\<lambda>(d, m). the (ds_dconn d)" upload_finish
  by unfold_locales
    (auto simp: upload_put_def upload_finish_def push_upload_data_chunk_def end_upload_data_def evbuffer_add_def malloc_def
      chunk_def)

interpretation upload_plain: body_sink "\<lambda>(d, m). \<not> ds_chunked_request d \<and> ds_dconn d \<noteq> None \<and> (\<forall>n. mem_ok m n)" upload_put
  "\<lambda>(d, m). the (ds_dconn d)" "\<lambda>b. b" "\<lambda>_. True"
  by unfold_locales (auto simp: upload_put_def push_upload_data_chunk_def evbuffer_add_def malloc_def)

text \<open>
  What an upload with chunked encoding puts on the connection to the backend decodes to the body
  that the client sent, although \<open>push_upload_data_chunk\<close> does not return 0 for it.
\<close>

lemma chunked_upload_coding:
  assumes "ds_chunked_request d" "ds_dconn d = Some out" "\<And>n. mem_ok m n" "\<forall>p\<in>set ps. p \<noteq> [] \<and> length p < 2 ^ 32"
  shows "\<exists>body. the (ds_dconn (fst (upload_finish (fold upload_put ps (d, m))))) = out @ body \<and>
    dechunk (body @ rest) = Some (concat ps, rest)"
  using upload_chunks.decodes [of "(d, m)" ps rest] assms by (auto simp: case_prod_beta)

section \<open>Headers in pieces\<close>

text \<open>
  What the parser reports of a header: its name in one or more pieces and then its value in one
  or more pieces.
\<close>

datatype header_piece = Key bytes | Val bytes

fun feed :: "header_piece list \<Rightarrow> Downstream \<Rightarrow> Downstream option" where
  "feed [] d = Some d"
| "feed (Key b # ps) d = Option.bind (htp_hdr_keycb b d) (feed ps)"
| "feed (Val b # ps) d = Option.bind (htp_hdr_valcb b d) (feed ps)"

type_synonym header_pieces = "(bytes \<times> bytes list) \<times> (bytes \<times> bytes list)"

fun pieces :: "header_pieces \<Rightarrow> header_piece list" where
  "pieces ((k, ks), (v, vs)) = Key k # map Key ks @ Val v # map Val vs"

fun whole :: "header_pieces \<Rightarrow> bytes \<times> bytes" where
  "whole ((k, ks), (v, vs)) = (k @ concat ks, v @ concat vs)"

fun first_says_chunked :: "header_pieces \<Rightarrow> bool" where
  "first_says_chunked ((k, ks), (v, vs)) \<longleftrightarrow> check_transfer_encoding_chunked False (k @ concat ks, v)"

lemma feed_append: "feed (ps @ qs) d = Option.bind (feed ps d) (feed qs)"
  by (induction ps d rule: feed.induct) (auto simp: Option.bind_assoc intro!: Option.bind_cong)

lemma feed_keys:
  assumes "ds_response_header_key_prev d" "ds_response_headers d = hs @ [(k, v)]"
  shows "feed (map Key ks) d = Some (d\<lparr>ds_response_headers := hs @ [(k @ concat ks, v)]\<rparr>)"
  using assms
proof (induction ks arbitrary: d k)
  case (Cons b ks)
  have "htp_hdr_keycb b d = Some (d\<lparr>ds_response_headers := hs @ [(k @ b, v)]\<rparr>)"
    using Cons.prems by (simp add: htp_hdr_keycb_def append_last_response_header_key_def)
  then show ?case using Cons.IH [of "d\<lparr>ds_response_headers := hs @ [(k @ b, v)]\<rparr>" "k @ b"] Cons.prems by simp
qed simp

lemma feed_vals:
  assumes "\<not> ds_response_header_key_prev d" "ds_response_headers d = hs @ [(k, v)]"
  shows "feed (map Val vs) d = Some (d\<lparr>ds_response_headers := hs @ [(k, v @ concat vs)]\<rparr>)"
  using assms
proof (induction vs arbitrary: d v)
  case (Cons b vs)
  have "htp_hdr_valcb b d = Some (d\<lparr>ds_response_headers := hs @ [(k, v @ b)]\<rparr>)"
    using Cons.prems by (simp add: htp_hdr_valcb_def append_last_response_header_value_def)
  then show ?case using Cons.IH [of "d\<lparr>ds_response_headers := hs @ [(k, v @ b)]\<rparr>" "v @ b"] Cons.prems by simp
qed simp

lemma check_chunked_or: "check_transfer_encoding_chunked c item = (c \<or> check_transfer_encoding_chunked False item)"
  by (simp add: check_transfer_encoding_chunked_def check_header_field_def)

lemma feed_header:
  assumes "\<not> ds_response_header_key_prev d"
  shows "feed (pieces g) d = Some (d\<lparr>ds_response_headers := ds_response_headers d @ [whole g],
    ds_chunked_response := ds_chunked_response d \<or> first_says_chunked g\<rparr>)"
proof -
  obtain k ks v vs where g: "g = ((k, ks), (v, vs))" by (metis surj_pair)
  let ?hs = "ds_response_headers d"
  let ?d1 = "d\<lparr>ds_response_header_key_prev := True, ds_response_headers := ?hs @ [(k @ concat ks, [])]\<rparr>"
  let ?d2 = "d\<lparr>ds_response_headers := ?hs @ [(k @ concat ks, v)],
    ds_chunked_response := ds_chunked_response d \<or> first_says_chunked g\<rparr>"
  have "htp_hdr_keycb k d = Some (d\<lparr>ds_response_header_key_prev := True, ds_response_headers := ?hs @ [(k, [])]\<rparr>)"
    using assms by (simp add: htp_hdr_keycb_def add_response_header_def)
  then have 1: "feed (Key k # map Key ks) d = Some ?d1" using feed_keys [of _ ?hs k "[]" ks] by simp
  have "d\<lparr>ds_response_header_key_prev := False\<rparr> = d" using assms by simp
  then have 2: "htp_hdr_valcb v ?d1 = Some ?d2"
    using check_chunked_or [of "ds_chunked_response d"] assms
    by (simp add: htp_hdr_valcb_def set_last_response_header_value_def Let_def g)
  have "feed (map Val vs) ?d2 = Some (d\<lparr>ds_response_headers := ?hs @ [(k @ concat ks, v @ concat vs)],
    ds_chunked_response := ds_chunked_response d \<or> first_says_chunked g\<rparr>)"
    using feed_vals [of ?d2 ?hs "k @ concat ks" v vs] assms by simp
  with 1 2 show ?thesis using feed_append [of "Key k # map Key ks" "Val v # map Val vs" d] by (simp add: g)
qed

text \<open>
  C38. Response headers that arrive in pieces are put together: each header becomes one pair of
  its joined name and its joined value, in the order of arrival, and no assertion fails. Whether
  the response is chunked is decided from the first piece of the value alone, so a value that is
  cut within the word \<open>chunked\<close> is missed.
\<close>

theorem response_headers_assembled:
  assumes "\<not> ds_response_header_key_prev d"
  shows "feed (concat (map pieces gs)) d = Some (d\<lparr>ds_response_headers := ds_response_headers d @ map whole gs,
    ds_chunked_response := ds_chunked_response d \<or> list_ex first_says_chunked gs\<rparr>)"
  using assms
proof (induction gs arbitrary: d)
  case (Cons g gs)
  then show ?case
    using Cons.IH [of "d\<lparr>ds_response_headers := ds_response_headers d @ [whole g],
      ds_chunked_response := ds_chunked_response d \<or> first_says_chunked g\<rparr>"]
    by (simp add: feed_append feed_header disj_assoc)
qed simp

theorem response_headers_assembled_witness:
  "\<exists>d'. feed [Key (lit ''Transfer-''), Key (lit ''Encoding''), Val (lit ''chun''), Val (lit ''ked'')] (Downstream_new 1 0) = Some d' \<and>
     ds_response_headers d' = [(lit ''Transfer-Encoding'', lit ''chunked'')] \<and> \<not> ds_chunked_response d'"
proof -
  let ?g = "((lit ''Transfer-'', [lit ''Encoding'']), (lit ''chun'', [lit ''ked'']))"
  have "\<not> first_says_chunked ?g" by code_simp
  then show ?thesis
    using response_headers_assembled [of "Downstream_new 1 0" "[?g]"] by (auto simp: Downstream_new_def lit_def)
qed

section \<open>Headers of the forwarded request\<close>

lemma name_is_iff: "name_is h name \<longleftrightarrow> map lowcase (c_str (fst h)) = map lowcase (lit name)"
  by (simp add: name_is_def strieq_iff)

definition forwarded :: "bytes \<times> bytes \<Rightarrow> bool" where
  "forwarded h \<longleftrightarrow>
     \<not> name_is h ''x-forwarded-proto'' \<and> \<not> name_is h ''keep-alive'' \<and> \<not> name_is h ''connection'' \<and>
     \<not> name_is h ''proxy-connection'' \<and> \<not> name_is h ''via'' \<and> \<not> name_is h ''x-forwarded-for'' \<and>
     \<not> (name_is h ''expect'' \<and> strifind (Some (c_str (snd h))) (Some (lit ''100-continue'')))"

definition last_value :: "string \<Rightarrow> headers \<Rightarrow> bytes" where
  "last_value name hs = foldl (\<lambda>v h. if name_is h name then snd h else v) [] hs"

definition header_line :: "bytes \<times> bytes \<Rightarrow> bytes" where
  "header_line h = fst h @ lit '': '' @ snd h @ [13, 10]"

lemma names_differ:
  "name_is h ''via'' \<Longrightarrow> \<not> name_is h ''X-Forwarded-Proto'' \<and> \<not> name_is h ''keep-alive'' \<and> \<not> name_is h ''connection'' \<and>
     \<not> name_is h ''proxy-connection'' \<and> \<not> name_is h ''x-forwarded-for''"
  "name_is h ''x-forwarded-for'' \<Longrightarrow> \<not> name_is h ''X-Forwarded-Proto'' \<and> \<not> name_is h ''keep-alive'' \<and>
     \<not> name_is h ''connection'' \<and> \<not> name_is h ''proxy-connection''"
  "name_is h ''X-Forwarded-Proto'' = name_is h ''x-forwarded-proto''"
  by (simp_all add: name_is_iff lit_def lowcase_def)

lemma request_header_lines_filter:
  "request_header_lines hs hdrs via xff =
   (hdrs @ concat (map header_line (filter forwarded hs)),
    foldl (\<lambda>v h. if name_is h ''via'' then snd h else v) via hs,
    foldl (\<lambda>v h. if name_is h ''x-forwarded-for'' then snd h else v) xff hs)"
proof (induction hs arbitrary: hdrs via xff)
  case (Cons h hs)
  show ?case
  proof (cases "forwarded h")
    case True
    with Cons show ?thesis by (auto simp: forwarded_def header_line_def names_differ(3))
  next
    case False
    with Cons names_differ [of h] show ?thesis by (auto simp: forwarded_def)
  qed
qed simp


definition demo_request :: Downstream where
  "demo_request = (Downstream_new 1 0)\<lparr>ds_request_method := lit ''GET'', ds_request_path := lit ''/'',
     ds_request_headers := [(lit ''Connection'', lit ''x''), (lit ''host'', lit ''h''), (lit ''via'', lit ''p'')]\<rparr>"


end
