(* ===== verification/Shrpx_Spdy_Upstream.thy ===== *)
theory Shrpx_Spdy_Upstream
  imports Shrpx_Downstream Spdy_Flow
begin

text \<open>
  \<open>src/shrpx_spdy_upstream.cc\<close>: the SPDY side of the proxy. Its functions are callbacks of the
  library and of the connection to the backend; what they do to the session is a list of
  \<open>api_call\<close>, as \<open>Spdy_Submit\<close> has it for any application. A callback that fails to submit ends the
  process and has no result here. \<open>self\<close> is the address of a downstream, which the data provider
  carries. Shown here: bodies are relayed in order and when a body is at its end, the headers of a
  response, how uploads are forwarded, and what a backend that closes early leads to.
\<close>

section \<open>The upstream\<close>

record SpdyUpstream =
  up_downstream_queue :: downstream_queue
  up_flow_control :: bool
  up_initial_window_size :: i32

definition SHRPX_SPDY_UPSTREAM_OUTPUT_UPPER_THRES :: nat where
  "SHRPX_SPDY_UPSTREAM_OUTPUT_UPPER_THRES = 64 * 1024"

definition update_downstream :: "Downstream \<Rightarrow> SpdyUpstream \<Rightarrow> SpdyUpstream" where
  "update_downstream d up = up\<lparr>up_downstream_queue := queue_add d (up_downstream_queue up)\<rparr>"

definition remove_downstream :: "Downstream \<Rightarrow> SpdyUpstream \<Rightarrow> SpdyUpstream" where
  "remove_downstream d up = up\<lparr>up_downstream_queue := queue_remove d (up_downstream_queue up)\<rparr>"

definition find_downstream :: "i32 \<Rightarrow> SpdyUpstream \<Rightarrow> Downstream option" where
  "find_downstream stream_id up = queue_find stream_id (up_downstream_queue up)"

definition rst_stream :: "Downstream \<Rightarrow> u32 \<Rightarrow> api_call" where
  "rst_stream d status_code = SubmitRstStream (ds_stream_id d) status_code"

definition window_update :: "Downstream \<Rightarrow> api_call \<times> Downstream" where
  "window_update d = (SubmitWindowUpdate (ds_stream_id d) (ds_recv_window_size d), d\<lparr>ds_recv_window_size := 0\<rparr>)"

text \<open>
  The constructor for a protocol version, and what it does to a new server session. \<open>window_bits\<close> and
  \<open>max_concurrent_streams\<close> are settings of the configuration file.
\<close>

definition SPDYLAY_FLAG_SETTINGS_NONE :: u8 where "SPDYLAY_FLAG_SETTINGS_NONE = 0"
definition SPDYLAY_ID_FLAG_SETTINGS_NONE :: u8 where "SPDYLAY_ID_FLAG_SETTINGS_NONE = 0"

definition SpdyUpstream_new :: "u16 \<Rightarrow> nat \<Rightarrow> u32 \<Rightarrow> SpdyUpstream \<times> api_call list" where
  "SpdyUpstream_new version window_bits max_concurrent_streams =
     (let spdy3 = (version = SPDYLAY_PROTO_SPDY3);
          window = (if spdy3 then push_bit window_bits 1 else 0) in
      (\<lparr>up_downstream_queue = Map.empty, up_flow_control = spdy3, up_initial_window_size = window\<rparr>,
       (if spdy3 then [SetOption (NoAutoWindowUpdate 1)] else []) @
       [SubmitSettings SPDYLAY_FLAG_SETTINGS_NONE
          [\<lparr>se_settings_id = of_nat SPDYLAY_SETTINGS_MAX_CONCURRENT_STREAMS, se_flags = SPDYLAY_ID_FLAG_SETTINGS_NONE,
            se_value = max_concurrent_streams\<rparr>,
           \<lparr>se_settings_id = of_nat SPDYLAY_SETTINGS_INITIAL_WINDOW_SIZE, se_flags = SPDYLAY_ID_FLAG_SETTINGS_NONE,
            se_value = ucast window\<rparr>]]))"

text \<open>\<open>SpdyUpstream::send\<close> and \<open>SpdyUpstream::on_read\<close>.\<close>

definition want_more :: "int \<Rightarrow> ('z, 'u) spdylay_session \<Rightarrow> int" where
  "want_more rv s = (if rv = 0 \<and> \<not> spdylay_session_want_read s \<and> \<not> spdylay_session_want_write s then -1 else rv)"

definition send :: "'z zlib \<Rightarrow> ('z, 'u) spdylay_session_callbacks \<Rightarrow> ('z, 'u) spdylay_session \<Rightarrow>
     (int \<times> ('z, 'u) spdylay_session) option" where
  "send zl cb s = do { (rv, s1) \<leftarrow> spdylay_session_send zl cb s; Some (want_more rv s1, s1) }"

definition on_read :: "'z zlib \<Rightarrow> ('z, 'u) spdylay_session_callbacks \<Rightarrow> ('z, 'u) spdylay_session \<Rightarrow>
     (int \<times> ('z, 'u) spdylay_session) option" where
  "on_read zl cb s =
     do {
       (rv, s1) \<leftarrow> spdylay_session_recv zl cb s;
       if rv < 0 then Some (rv, s1)
       else do { (rv, s2) \<leftarrow> spdylay_session_send zl cb s1; Some (want_more rv s2, s2) }
     }"

section \<open>Callbacks of the session\<close>

text \<open>
  The answer of the output buffer to \<open>send_callback\<close> and of the input buffer to \<open>recv_callback\<close>.
\<close>

definition send_callback :: "mem \<Rightarrow> bytes \<Rightarrow> bytes \<Rightarrow> int \<times> bytes \<times> mem" where
  "send_callback m output data =
     (if length output > SHRPX_SPDY_UPSTREAM_OUTPUT_UPPER_THRES then (SPDYLAY_ERR_WOULDBLOCK, output, m)
      else
        (case evbuffer_add m output data of (rv, out, m') \<Rightarrow>
           (if rv = -1 then SPDYLAY_ERR_CALLBACK_FAILURE else int (length data), out, m')))"

definition recv_callback :: "bytes \<Rightarrow> nat \<Rightarrow> int \<times> bytes \<times> bytes" where
  "recv_callback input len =
     (let nread = min len (length input) in
      (if nread = 0 then SPDYLAY_ERR_WOULDBLOCK else int nread, take nread input, drop nread input))"

text \<open>The first component tells whether the connection goes back to the pool.\<close>

definition on_stream_close_callback :: "SpdyUpstream \<Rightarrow> i32 \<Rightarrow> bool \<times> SpdyUpstream" where
  "on_stream_close_callback up stream_id =
     (case find_downstream stream_id up of
        None \<Rightarrow> (False, up)
      | Some d \<Rightarrow>
          if ds_request_state d = CONNECT_FAIL then (False, remove_downstream d up)
          else
            let d1 = d\<lparr>ds_request_state := STREAM_CLOSED\<rparr> in
            if ds_response_state d1 = MSG_COMPLETE then
              (\<not> tunnel_established d1 \<and> \<not> ds_response_connection_close d1 \<and> ds_dconn d1 \<noteq> None, remove_downstream d1 up)
            else (False, remove_downstream d1 up))"

record request_names =
  rq_path :: "cstr option"
  rq_scheme :: "cstr option"
  rq_host :: "cstr option"
  rq_method :: "cstr option"

fun scan_request_nv :: "nv \<Rightarrow> request_names \<Rightarrow> Downstream \<Rightarrow> request_names \<times> Downstream" where
  "scan_request_nv [] names d = (names, d)"
| "scan_request_nv ((n, v) # nv) names d =
     (if n = lit '':path'' then scan_request_nv nv (names\<lparr>rq_path := Some v\<rparr>) d
      else if n = lit '':scheme'' then scan_request_nv nv (names\<lparr>rq_scheme := Some v\<rparr>) d
      else if n = lit '':method'' then scan_request_nv nv (names\<lparr>rq_method := Some v\<rparr>) (d\<lparr>ds_request_method := v\<rparr>)
      else if n = lit '':host'' then scan_request_nv nv (names\<lparr>rq_host := Some v\<rparr>) d
      else if take 1 n \<noteq> lit '':'' then scan_request_nv nv names (add_request_header n v d)
      else scan_request_nv nv names d)"

definition set_request_target :: "http_config \<Rightarrow> cstr option \<Rightarrow> cstr \<Rightarrow> cstr \<Rightarrow> Downstream \<Rightarrow> Downstream" where
  "set_request_target cfg scheme path host d =
     (let reqpath = (case scheme of
            Some scheme \<Rightarrow> if hc_spdy_proxy cfg \<and> take 1 path = lit ''/'' then scheme @ lit ''://'' @ host @ path else path
          | None \<Rightarrow> path);
          d1 = add_request_header (lit ''host'') host (d\<lparr>ds_request_path := reqpath\<rparr>) in
      if \<not> hc_spdy_proxy cfg then add_request_header (lit ''X-Forwarded-Spdy'') (lit ''true'') d1 else d1)"

text \<open>
  The SYN_STREAM branch of \<open>on_ctrl_recv_callback\<close>. \<open>attached\<close> is the outcome of the connection to the
  backend: \<open>None\<close> when it failed, otherwise the output buffer of the connection.
\<close>

definition on_syn_stream_recv ::
    "http_config \<Rightarrow> bytes \<Rightarrow> mem \<Rightarrow> bytes option \<Rightarrow> SpdyUpstream \<Rightarrow> spdylay_syn_stream \<Rightarrow>
     (api_call list \<times> SpdyUpstream \<times> mem) option" where
  "on_syn_stream_recv cfg ipaddr m attached up frame =
     do {
       nv \<leftarrow> ss_nv frame;
       let (names, d1) = scan_request_nv nv \<lparr>rq_path = None, rq_scheme = None, rq_host = None, rq_method = None\<rparr>
             (init_response_body_buf (Downstream_new (ss_stream_id frame) (uint (ss_pri frame)))) in
       (case (rq_path names, rq_host names, rq_method names) of
          (Some path, Some host, Some method) \<Rightarrow>
            let d3 = set_request_target cfg (rq_scheme names) path host d1 in
            (case attached of
               None \<Rightarrow>
                 Some ([rst_stream d3 SPDYLAY_INTERNAL_ERROR],
                       update_downstream (d3\<lparr>ds_request_state := CONNECT_FAIL\<rparr>) up, m)
             | Some output \<Rightarrow>
                 do {
                   (rv, d4, m1) \<leftarrow> push_request_headers cfg ipaddr m
                      (set_downstream_connection (Some output) d3);
                   if rv \<noteq> 0 then Some ([rst_stream d4 SPDYLAY_INTERNAL_ERROR], update_downstream d4 up, m1)
                   else
                     Some ([], update_downstream (d4\<lparr>ds_request_state :=
                       if hd_flags (ss_hd frame) AND SPDYLAY_CTRL_FLAG_FIN \<noteq> 0 then MSG_COMPLETE else HEADER_COMPLETE\<rparr>) up, m1)
                 })
        | _ \<Rightarrow> Some ([rst_stream d1 SPDYLAY_INTERNAL_ERROR], update_downstream d1 up, m))
     }"

definition on_data_chunk_recv_callback ::
    "mem \<Rightarrow> SpdyUpstream \<Rightarrow> u8 \<Rightarrow> i32 \<Rightarrow> bytes \<Rightarrow> api_call list \<times> SpdyUpstream \<times> mem" where
  "on_data_chunk_recv_callback m up flags stream_id data =
     (case find_downstream stream_id up of
        None \<Rightarrow> ([], up, m)
      | Some d \<Rightarrow>
          (case push_upload_data_chunk m data d of (rv, d1, m1) \<Rightarrow>
             if rv \<noteq> 0 then ([rst_stream d1 SPDYLAY_INTERNAL_ERROR], update_downstream d1 up, m1)
             else
               let d2 = (if up_flow_control up then inc_recv_window_size (of_nat (length data)) d1 else d1) in
               if up_flow_control up \<and> sint (ds_recv_window_size d2) > sint (up_initial_window_size up)
               then ([rst_stream d2 SPDYLAY_FLOW_CONTROL_ERROR], update_downstream d2 up, m1)
               else
                 let d3 = (if flags AND SPDYLAY_DATA_FLAG_FIN \<noteq> 0 then d2\<lparr>ds_request_state := MSG_COMPLETE\<rparr> else d2) in
                 ([], update_downstream d3 up, m1)))"

definition on_ctrl_not_send_callback :: "SpdyUpstream \<Rightarrow> spdylay_frame \<Rightarrow> api_call list" where
  "on_ctrl_not_send_callback up frame =
     (case frame of
        FSynReply f \<Rightarrow>
          (case find_downstream (sr_stream_id f) up of
             None \<Rightarrow> [] | Some d \<Rightarrow> [rst_stream d SPDYLAY_INTERNAL_ERROR])
      | _ \<Rightarrow> [])"

text \<open>Taking bytes out of the body buffer tells \<open>body_buf_cb\<close> its new length.\<close>

definition spdy_data_read_callback :: "Downstream \<Rightarrow> nat \<Rightarrow> (int \<times> bytes \<times> bool \<times> Downstream) option" where
  "spdy_data_read_callback d len =
     (case ds_response_body_buf d of
        None \<Rightarrow> None
      | Some body \<Rightarrow>
          let nread = min len (length body);
              d1 = d\<lparr>ds_response_body_buf := Some (drop nread body)\<rparr>;
              d2 = (if nread > 0 then body_buf_cb (length body - nread) d1 else d1);
              eof = (\<not> tunnel_established d2 \<and> nread = 0 \<and> ds_response_state d2 = MSG_COMPLETE) in
          Some (if nread = 0 \<and> \<not> eof then SPDYLAY_ERR_DEFERRED else int nread, take nread body, eof, d2))"

section \<open>Callbacks of the backend connection\<close>

fun response_nv_loop :: "headers \<Rightarrow> cstr list \<Rightarrow> bytes \<Rightarrow> cstr list \<times> bytes" where
  "response_nv_loop [] nv via_value = (nv, via_value)"
| "response_nv_loop (h # hs) nv via_value =
     (if name_is h ''transfer-encoding'' \<or> name_is h ''keep-alive'' \<or> name_is h ''connection'' \<or>
         name_is h ''proxy-connection'' then response_nv_loop hs nv via_value
      else if name_is h ''via'' then response_nv_loop hs nv (snd h)
      else response_nv_loop hs (nv @ [c_str (fst h), c_str (snd h)]) via_value)"

definition response_nv :: "Downstream \<Rightarrow> cstr list" where
  "response_nv d =
     (case response_nv_loop (ds_response_headers d)
             [lit '':status'', get_status_string (sint (ds_response_http_status d)), lit '':version'', lit ''HTTP/1.1''] [] of
        (nv, via_value) \<Rightarrow>
          nv @ [lit ''via'', c_str ((if via_value \<noteq> [] then via_value @ lit '', '' else []) @
            create_via_header_value (ds_response_major d) (ds_response_minor d))])"

definition on_downstream_header_complete :: "nat \<Rightarrow> Downstream \<Rightarrow> api_call" where
  "on_downstream_header_complete self d =
     SubmitResponse (ds_stream_id d) (response_nv d) (Some \<lparr>dp_read_callback = True, dp_source = self\<rparr>)"

definition on_downstream_body :: "mem \<Rightarrow> Downstream \<Rightarrow> bytes \<Rightarrow> (int \<times> api_call list \<times> Downstream \<times> mem) option" where
  "on_downstream_body m d data =
     (case ds_response_body_buf d of
        None \<Rightarrow> None
      | Some body \<Rightarrow>
          (case evbuffer_add m body data of (rv, body', m') \<Rightarrow>
             if rv \<noteq> 0 then Some (-1, [], d, m')
             else
               let d1 = d\<lparr>ds_response_body_buf := Some body'\<rparr> in
               Some (0, [ResumeData (ds_stream_id d)],
                 if length body' > SHRPX_SPDY_UPSTREAM_OUTPUT_UPPER_THRES
                 then d1\<lparr>ds_ioctrl := pause_read SHRPX_NO_BUFFER (ds_ioctrl d1)\<rparr> else d1, m')))"

definition on_downstream_body_complete :: "Downstream \<Rightarrow> api_call" where
  "on_downstream_body_complete d = ResumeData (ds_stream_id d)"

definition error_reply :: "http_config \<Rightarrow> nat \<Rightarrow> mem \<Rightarrow> Downstream \<Rightarrow> int \<Rightarrow> (int \<times> api_call list \<times> Downstream \<times> mem) option" where
  "error_reply cfg self m d status_code =
     (let d1 = init_response_body_buf d in
      case (ds_response_body_buf d1, hc_server_name cfg) of
        (Some body, Some server_name) \<Rightarrow>
          (case evbuffer_add m body (create_error_html cfg status_code) of (rv, body', m') \<Rightarrow>
             if rv = -1 then Some (-1, [], d1, m')
             else
               Some (0, [SubmitResponse (ds_stream_id d1)
                 [lit '':status'', get_status_string status_code, lit '':version'', lit ''http/1.1'',
                  lit ''content-type'', lit ''text/html; charset=UTF-8'', lit ''server'', server_name]
                 (Some \<lparr>dp_read_callback = True, dp_source = self\<rparr>)],
                 d1\<lparr>ds_response_body_buf := Some body', ds_response_state := MSG_COMPLETE\<rparr>, m'))
      | _ \<Rightarrow> None)"

definition spdy_downstream_writecb :: "SpdyUpstream \<Rightarrow> Downstream \<Rightarrow> api_call list \<times> Downstream" where
  "spdy_downstream_writecb up d =
     (if up_flow_control up \<and> sint (ds_recv_window_size d) \<ge> sint (up_initial_window_size up) div 2
      then (case window_update d of (c, d1) \<Rightarrow> ([c], d1)) else ([], d))"

text \<open>
  \<open>spdy_downstream_readcb\<close> and \<open>spdy_downstream_eventcb\<close>. \<open>parse_http_response\<close> runs the HTTP
  parser, which calls back. A callback deletes the client handler, or returns, or calls \<open>send\<close> at its end (and
  deletes the client handler when that fails).
\<close>

datatype upstream_result =
  HandlerDeleted
| Returns "api_call list" SpdyUpstream mem
| Sends "api_call list" SpdyUpstream mem

definition spdy_downstream_readcb ::
    "(Downstream \<Rightarrow> mem \<Rightarrow> int \<times> api_call list \<times> Downstream \<times> mem) \<Rightarrow> http_config \<Rightarrow> nat \<Rightarrow> mem \<Rightarrow>
     SpdyUpstream \<Rightarrow> Downstream \<Rightarrow> upstream_result option" where
  "spdy_downstream_readcb parse_http_response cfg self m up d =
     (if ds_request_state d = STREAM_CLOSED then Some (Returns [] (remove_downstream d up) m)
      else
        (case parse_http_response d m of (rv, calls, d1, m1) \<Rightarrow>
           if rv = 0 then Some (Sends calls (update_downstream d1 up) m1)
           else
             let finish = (\<lambda>d. set_downstream_connection None (d\<lparr>ds_response_state := MSG_COMPLETE\<rparr>)) in
             if ds_response_state d1 = HEADER_COMPLETE
             then Some (Sends (calls @ [rst_stream d1 SPDYLAY_INTERNAL_ERROR]) (update_downstream (finish d1) up) m1)
             else
               do {
                 (rv, calls2, d2, m2) \<leftarrow> error_reply cfg self m1 d1 502;
                 if rv \<noteq> 0 then Some HandlerDeleted
                 else Some (Sends (calls @ calls2) (update_downstream (finish d2) up) m2)
               }))"

definition spdy_downstream_eventcb ::
    "http_config \<Rightarrow> nat \<Rightarrow> mem \<Rightarrow> SpdyUpstream \<Rightarrow> Downstream \<Rightarrow> bev_events \<Rightarrow> upstream_result option" where
  "spdy_downstream_eventcb cfg self m up d events =
     (let d1 = set_downstream_connection None d;
          complete = (\<lambda>d. update_downstream (d\<lparr>ds_response_state := MSG_COMPLETE\<rparr>) up) in
      if ev_connected events then Some (Returns [] up m)
      else if ev_eof events then
        if ds_request_state d = STREAM_CLOSED then Some (Returns [] (remove_downstream d up) m)
        else if ds_response_state d1 = HEADER_COMPLETE then
          Some (Sends [if tunnel_established d1 then rst_stream d1 SPDYLAY_INTERNAL_ERROR
                       else on_downstream_body_complete d1] (complete d1) m)
        else if ds_response_state d1 = MSG_COMPLETE then
          Some (Sends [rst_stream d1 SPDYLAY_INTERNAL_ERROR] (update_downstream d1 up) m)
        else
          do {
            (rv, calls, d2, m2) \<leftarrow> error_reply cfg self m d1 502;
            if rv \<noteq> 0 then Some (Returns calls (update_downstream d2 up) m2)
            else Some (Sends calls (complete d2) m2)
          }
      else if ev_error events \<or> ev_timeout events then
        if ds_request_state d = STREAM_CLOSED then Some (Returns [] (remove_downstream d up) m)
        else if ds_response_state d1 = MSG_COMPLETE then
          Some (Sends [rst_stream d1 SPDYLAY_INTERNAL_ERROR] (update_downstream d1 up) m)
        else if ds_response_state d1 = HEADER_COMPLETE then
          Some (Sends [rst_stream d1 SPDYLAY_INTERNAL_ERROR] (complete d1) m)
        else
          do {
            (rv, calls, d2, m2) \<leftarrow> error_reply cfg self m d1 (if ev_timeout events then 504 else 502);
            if rv \<noteq> 0 then Some HandlerDeleted
            else Some (Sends calls (complete d2) m2)
          }
      else Some (Returns [] up m))"

section \<open>A response body on its way\<close>

text \<open>
  The body buffer between the backend, which appends, and the session, which reads: any order of
  the two. The result is what was read, what was accepted, and the downstream at the end.
\<close>

datatype body_event = Arrives bytes | Reads nat

fun relay :: "body_event list \<Rightarrow> mem \<Rightarrow> Downstream \<Rightarrow> (bytes \<times> bytes \<times> Downstream) option" where
  "relay [] m d = Some ([], [], d)"
| "relay (Arrives data # es) m d =
     do {
       (rv, calls, d1, m1) \<leftarrow> on_downstream_body m d data;
       (out, inn, d2) \<leftarrow> relay es m1 d1;
       Some (out, (if rv = 0 then data else []) @ inn, d2)
     }"
| "relay (Reads len # es) m d =
     do {
       (rv, bs, eof, d1) \<leftarrow> spdy_data_read_callback d len;
       (out, inn, d2) \<leftarrow> relay es m d1;
       Some (bs @ out, inn, d2)
     }"

lemma on_downstream_body_buffer:
  assumes "ds_response_body_buf d = Some body"
  obtains rv calls d1 m1 where "on_downstream_body m d data = Some (rv, calls, d1, m1)"
    "ds_response_body_buf d1 = Some (body @ (if rv = 0 then data else []))"
    "rv = 0 \<Longrightarrow> calls = [ResumeData (ds_stream_id d)]" "ds_response_state d1 = ds_response_state d"
proof (cases "malloc m")
  case (Pair ok m1)
  show ?thesis
  proof (cases ok)
    case True
    with that [of 0] Pair assms show ?thesis by (simp add: on_downstream_body_def evbuffer_add_def Let_def)
  next
    case False
    with that [of "-1"] Pair assms show ?thesis by (simp add: on_downstream_body_def evbuffer_add_def)
  qed
qed

lemma read_callback_buffer:
  assumes "ds_response_body_buf d = Some body"
  obtains rv eof d1 where "spdy_data_read_callback d len = Some (rv, take len body, eof, d1)"
    "ds_response_body_buf d1 = Some (drop len body)" "ds_response_state d1 = ds_response_state d"
    "tunnel_established d1 = tunnel_established d"
    "eof \<longleftrightarrow> \<not> tunnel_established d \<and> take len body = [] \<and> ds_response_state d = MSG_COMPLETE"
    "rv = (if take len body = [] \<and> \<not> eof then SPDYLAY_ERR_DEFERRED else int (length (take len body)))"
proof (rule that)
  let ?n = "min len (length body)"
  let ?d1 = "d\<lparr>ds_response_body_buf := Some (drop ?n body)\<rparr>"
  let ?d2 = "if ?n > 0 then body_buf_cb (length body - ?n) ?d1 else ?d1"
  let ?eof = "\<not> tunnel_established ?d2 \<and> ?n = 0 \<and> ds_response_state ?d2 = MSG_COMPLETE"
  have [simp]: "take ?n body = take len body" "drop ?n body = drop len body" by (simp_all add: min_def)
  have n: "?n = 0 \<longleftrightarrow> take len body = []" by (auto simp: min_def)
  show "ds_response_body_buf ?d2 = Some (drop len body)" "ds_response_state ?d2 = ds_response_state d"
    and t: "tunnel_established ?d2 = tunnel_established d"
    by (simp_all add: body_buf_cb_def tunnel_established_def)
  then show "?eof \<longleftrightarrow> \<not> tunnel_established d \<and> take len body = [] \<and> ds_response_state d = MSG_COMPLETE"
    using n by auto
  show "spdy_data_read_callback d len =
    Some (if take len body = [] \<and> \<not> ?eof then SPDYLAY_ERR_DEFERRED else int (length (take len body)), take len body, ?eof, ?d2)"
    using n assms by (simp add: spdy_data_read_callback_def Let_def min.commute)
qed simp

text \<open>
  C28. Response bodies are relayed in order and nothing is lost or made up: in any interleaving of
  pieces from the backend and reads of the session, what was read followed by what still waits in
  the buffer is what was there followed by what was accepted.
\<close>

theorem response_body_relayed:
  assumes "ds_response_body_buf d = Some body"
  shows "\<exists>out inn d' rest. relay es m d = Some (out, inn, d') \<and> ds_response_body_buf d' = Some rest \<and>
    out @ rest = body @ inn \<and> ds_response_state d' = ds_response_state d"
  using assms
proof (induction es arbitrary: m d body)
  case (Cons e es)
  show ?case
  proof (cases e)
    case (Arrives data)
    obtain rv calls d1 m1 where 1: "on_downstream_body m d data = Some (rv, calls, d1, m1)"
      "ds_response_body_buf d1 = Some (body @ (if rv = 0 then data else []))" "ds_response_state d1 = ds_response_state d"
      using on_downstream_body_buffer [OF Cons.prems] by metis
    from Cons.IH [OF 1(2), of m1] 1 Arrives show ?thesis by auto
  next
    case (Reads len)
    obtain rv eof d1 where 1: "spdy_data_read_callback d len = Some (rv, take len body, eof, d1)"
      "ds_response_body_buf d1 = Some (drop len body)" "ds_response_state d1 = ds_response_state d"
      using read_callback_buffer [OF Cons.prems] by metis
    obtain out inn d' rest where 2: "relay es m d1 = Some (out, inn, d')" "ds_response_body_buf d' = Some rest"
      "out @ rest = drop len body @ inn" "ds_response_state d' = ds_response_state d"
      using Cons.IH [OF 1(2), of m] 1(3) by auto
    from 2(3) have "(take len body @ out) @ rest = body @ inn" by (metis append.assoc append_take_drop_id)
    with 1 2 Reads show ?thesis by auto
  qed
qed auto

definition demo_response :: Downstream where
  "demo_response = (Downstream_new 1 0)\<lparr>ds_response_body_buf := Some [], ds_response_state := MSG_COMPLETE\<rparr>"

theorem response_body_relayed_witness:
  "\<exists>d'. relay [Arrives [1, 2, 3], Reads 2, Arrives [4], Reads 8] good_mem demo_response = Some ([1, 2, 3, 4], [1, 2, 3, 4], d') \<and>
     ds_response_body_buf d' = Some []"
proof -
  have "ds_response_body_buf demo_response = Some []" by (simp add: demo_response_def)
  from response_body_relayed [OF this, of "[Arrives [1, 2, 3], Reads 2, Arrives [4], Reads 8]" good_mem]
  obtain out inn d' rest where r: "relay [Arrives [1, 2, 3], Reads 2, Arrives [4], Reads 8] good_mem demo_response = Some (out, inn, d')"
    "ds_response_body_buf d' = Some rest" "out @ rest = inn" by auto
  then have "out = [1, 2, 3, 4] \<and> inn = [1, 2, 3, 4]"
    by (auto simp: demo_response_def Downstream_new_def on_downstream_body_def evbuffer_add_def malloc_def good_mem_def
      SHRPX_SPDY_UPSTREAM_OUTPUT_UPPER_THRES_def spdy_data_read_callback_def body_buf_cb_def Let_def)
  with r show ?thesis by auto
qed

text \<open>
  The end of a response is reported to the session exactly when the backend has finished, the
  buffer is empty and the stream is no tunnel; an empty buffer before that defers the stream, and
  the next piece that arrives is accepted together with a call that resumes it.
\<close>

theorem response_body_end:
  assumes "ds_response_body_buf d = Some body" "len > 0"
  shows "\<exists>rv eof d'. spdy_data_read_callback d len = Some (rv, take len body, eof, d') \<and>
    ds_response_body_buf d' = Some (drop len body) \<and>
    (eof \<longleftrightarrow> body = [] \<and> ds_response_state d = MSG_COMPLETE \<and> \<not> tunnel_established d) \<and>
    (rv = SPDYLAY_ERR_DEFERRED \<longleftrightarrow> body = [] \<and> \<not> eof) \<and> (rv \<noteq> SPDYLAY_ERR_DEFERRED \<longrightarrow> rv = int (length (take len body))) \<and>
    (\<forall>m m' data. malloc m = (True, m') \<longrightarrow> (\<exists>d2. on_downstream_body m d data = Some (0, [ResumeData (ds_stream_id d)], d2, m')))"
proof -
  obtain rv eof d1 where 1: "spdy_data_read_callback d len = Some (rv, take len body, eof, d1)"
    "ds_response_body_buf d1 = Some (drop len body)"
    "eof \<longleftrightarrow> \<not> tunnel_established d \<and> take len body = [] \<and> ds_response_state d = MSG_COMPLETE"
    "rv = (if take len body = [] \<and> \<not> eof then SPDYLAY_ERR_DEFERRED else int (length (take len body)))"
    using read_callback_buffer [OF assms(1)] by metis
  have "take len body = [] \<longleftrightarrow> body = []" using assms(2) by simp
  moreover have "\<exists>d2. on_downstream_body m d data = Some (0, [ResumeData (ds_stream_id d)], d2, m')"
    if "malloc m = (True, m')" for m m' data
    using assms(1) that by (simp add: on_downstream_body_def evbuffer_add_def Let_def)
  ultimately show ?thesis using 1 by (auto simp: SPDYLAY_ERR_DEFERRED_def)
qed

theorem response_body_end_witness:
  "\<exists>d'. spdy_data_read_callback demo_response 8 = Some (0, [], True, d')"
  using response_body_end [of demo_response "[]" 8]
  by (auto simp: demo_response_def Downstream_new_def tunnel_established_def lit_def)

section \<open>The headers of a response\<close>

definition relayed_header :: "bytes \<times> bytes \<Rightarrow> bool" where
  "relayed_header h \<longleftrightarrow> list_all (\<lambda>name. \<not> name_is h name)
     [''transfer-encoding'', ''keep-alive'', ''connection'', ''proxy-connection'', ''via'']"

lemma via_differs:
  "name_is h ''via'' \<Longrightarrow> \<not> name_is h ''transfer-encoding'' \<and> \<not> name_is h ''keep-alive'' \<and> \<not> name_is h ''connection'' \<and>
     \<not> name_is h ''proxy-connection''"
  by (simp add: name_is_iff lit_def lowcase_def)

lemma response_nv_loop_filter:
  "response_nv_loop hs nv via =
     (nv @ concat (map (\<lambda>h. [c_str (fst h), c_str (snd h)]) (filter relayed_header hs)),
      foldl (\<lambda>v h. if name_is h ''via'' then snd h else v) via hs)"
proof (induction hs arbitrary: nv via)
  case (Cons h hs)
  with via_differs [of h] show ?case by (auto simp: relayed_header_def)
qed simp

text \<open>
  The header block of a response: the status, the version, the headers of the backend in
  their order without Transfer-Encoding and the ones that concern a single hop, and a Via header
  that continues the last one of the backend. With its terminator it fits the array of
  \<open>nheader * 2 + 6 + 1\<close> pointers that the code allocates.
\<close>

theorem spdy_response_headers:
  "\<exists>via. response_nv d =
     [lit '':status'', get_status_string (sint (ds_response_http_status d)), lit '':version'', lit ''HTTP/1.1''] @
     concat (map (\<lambda>h. [c_str (fst h), c_str (snd h)]) (filter relayed_header (ds_response_headers d))) @ [lit ''via'', c_str via] \<and>
   via = strjoin (filter (\<lambda>v. v \<noteq> []) [last_value ''via'' (ds_response_headers d)] @
     [create_via_header_value (ds_response_major d) (ds_response_minor d)]) (lit '', '') \<and>
   length (response_nv d) + 1 \<le> length (ds_response_headers d) * 2 + 6 + 1"
proof -
  have "length (concat (map (\<lambda>h. [c_str (fst h), c_str (snd h)]) hs)) = 2 * length hs" for hs
    by (induction hs) auto
  moreover have "length (filter relayed_header hs) \<le> length hs" for hs by simp
  ultimately show ?thesis
    by (auto simp: response_nv_def response_nv_loop_filter last_value_def [symmetric] mult.commute)
qed

section \<open>Uploads\<close>

fun upload :: "i32 \<Rightarrow> (u8 \<times> bytes) list \<Rightarrow> mem \<Rightarrow> SpdyUpstream \<Rightarrow> api_call list \<times> SpdyUpstream" where
  "upload stream_id [] m up = ([], up)"
| "upload stream_id ((flags, data) # ps) m up =
     (case on_data_chunk_recv_callback m up flags stream_id data of (calls, up1, m1) \<Rightarrow>
        (case upload stream_id ps m1 up1 of (calls2, up2) \<Rightarrow> (calls @ calls2, up2)))"

lemma find_update [simp]: "find_downstream (ds_stream_id d) (update_downstream d up) = Some d"
  "up_flow_control (update_downstream d up) = up_flow_control up"
  "up_initial_window_size (update_downstream d up) = up_initial_window_size up"
  by (simp_all add: find_downstream_def update_downstream_def queue_find_def queue_add_def)

lemma sint_of_nat_i32: "n < 2 ^ 31 \<Longrightarrow> sint (of_nat n :: i32) = int n"
  by (simp add: sint_i32 unsigned_of_nat take_bit_nat_eq_self)

lemma upload_piece:
  fixes data :: bytes
  assumes "find_downstream (ds_stream_id d) up = Some d" "ds_dconn d = Some out" "\<not> ds_chunked_request d"
    and "\<And>n. mem_ok m n"
    and "up_flow_control up \<Longrightarrow> sint (ds_recv_window_size d) \<ge> 0 \<and>
      sint (ds_recv_window_size d) + int (length data) \<le> sint (up_initial_window_size up)"
  obtains d' m' where "on_data_chunk_recv_callback m up flags (ds_stream_id d) data = ([], update_downstream d' up, m')"
    "ds_stream_id d' = ds_stream_id d" "ds_dconn d' = Some (out @ data)" "\<not> ds_chunked_request d'" "\<And>n. mem_ok m' n"
    "up_flow_control up \<Longrightarrow> sint (ds_recv_window_size d') = sint (ds_recv_window_size d) + int (length data)"
    "ds_request_state d' = (if flags AND SPDYLAY_DATA_FLAG_FIN \<noteq> 0 then MSG_COMPLETE else ds_request_state d)"
proof -
  have push: "push_upload_data_chunk m data d = (0, d\<lparr>ds_dconn := Some (out @ data)\<rparr>, m\<lparr>mem_next := Suc (mem_next m)\<rparr>)"
    using assms by (simp add: push_upload_data_chunk_def evbuffer_add_def malloc_def)
  have w: "sint (ds_recv_window_size d + of_nat (length data)) = sint (ds_recv_window_size d) + int (length data)"
    if "up_flow_control up"
  proof -
    have "int (length data) < 2 ^ 31" using assms(5) [OF that] sint_i32_range [of "up_initial_window_size up"] by linarith
    then have "length data < 2 ^ 31" by (simp flip: of_nat_less_iff)
    then have n: "sint (of_nat (length data) :: i32) = int (length data)" by (rule sint_of_nat_i32)
    show ?thesis
      using sint_add_no_overflow [of "ds_recv_window_size d" "of_nat (length data)"] assms(5) [OF that]
        sint_i32_range [of "up_initial_window_size up"] by (simp add: n INT32_MAX_def)
  qed
  let ?d1 = "d\<lparr>ds_dconn := Some (out @ data),
    ds_recv_window_size := ds_recv_window_size d + (if up_flow_control up then of_nat (length data) else 0)\<rparr>"
  let ?d2 = "if flags AND SPDYLAY_DATA_FLAG_FIN \<noteq> 0 then ?d1\<lparr>ds_request_state := MSG_COMPLETE\<rparr> else ?d1"
  show ?thesis
  proof (rule that [of ?d2 "m\<lparr>mem_next := Suc (mem_next m)\<rparr>"])
    show "on_data_chunk_recv_callback m up flags (ds_stream_id d) data =
      ([], update_downstream ?d2 up, m\<lparr>mem_next := Suc (mem_next m)\<rparr>)"
      using assms w push by (auto simp: on_data_chunk_recv_callback_def inc_recv_window_size_def Let_def)
  qed (use assms w in auto)
qed

lemma upload_pieces:
  assumes "find_downstream (ds_stream_id d) up = Some d" "ds_dconn d = Some out" "\<not> ds_chunked_request d"
    and "\<And>n. mem_ok m n"
    and "up_flow_control up \<Longrightarrow> sint (ds_recv_window_size d) \<ge> 0 \<and>
      sint (ds_recv_window_size d) + int (length (concat (map snd ps))) \<le> sint (up_initial_window_size up)"
  shows "\<exists>up' d'. upload (ds_stream_id d) ps m up = ([], up') \<and> find_downstream (ds_stream_id d) up' = Some d' \<and>
    ds_dconn d' = Some (out @ concat (map snd ps))"
  using assms
proof (induction ps arbitrary: m up d out)
  case (Cons p ps)
  obtain flags data where p: "p = (flags, data)" by force
  have w: "up_flow_control up \<Longrightarrow> sint (ds_recv_window_size d) \<ge> 0 \<and>
      sint (ds_recv_window_size d) + int (length data) \<le> sint (up_initial_window_size up)"
    using Cons.prems(5) by (auto simp: p)
  obtain d1 m1 where 1: "on_data_chunk_recv_callback m up flags (ds_stream_id d) data = ([], update_downstream d1 up, m1)"
    "ds_stream_id d1 = ds_stream_id d" "ds_dconn d1 = Some (out @ data)" "\<not> ds_chunked_request d1" "\<And>n. mem_ok m1 n"
    "up_flow_control up \<Longrightarrow> sint (ds_recv_window_size d1) = sint (ds_recv_window_size d) + int (length data)"
    using upload_piece [OF Cons.prems(1-4) w, of flags] by metis
  have f: "find_downstream (ds_stream_id d1) (update_downstream d1 up) = Some d1" by simp
  have "\<exists>up' d'. upload (ds_stream_id d1) ps m1 (update_downstream d1 up) = ([], up') \<and>
    find_downstream (ds_stream_id d1) up' = Some d' \<and> ds_dconn d' = Some ((out @ data) @ concat (map snd ps))"
    using Cons.prems(5) 1(6) by (intro Cons.IH [OF f 1(3,4,5)]) (simp add: p)
  with 1(1,2) show ?case by (auto simp: p)
qed auto

lemma scan_request_nv_keeps:
  assumes "scan_request_nv nv names d = (names', d')"
  shows "ds_stream_id d' = ds_stream_id d \<and> ds_chunked_request d' = ds_chunked_request d \<and>
    ds_recv_window_size d' = ds_recv_window_size d"
  using assms by (induction nv names d rule: scan_request_nv.induct) (auto simp: add_request_header_def split: if_splits)

lemma request_opened:
  assumes "on_syn_stream_recv cfg ipaddr m (Some out) up frame = Some ([], up1, m1)"
  obtains d where "up1 = update_downstream d up" "ds_stream_id d = ss_stream_id frame"
    "ds_dconn d = Some (out @ request_head cfg ipaddr d)" "\<not> ds_chunked_request d" "ds_recv_window_size d = 0"
    "mem_ok m1 = mem_ok m"
proof -
  obtain nv where nv: "ss_nv frame = Some nv" using assms by (auto simp: on_syn_stream_recv_def bind_eq_Some_conv)
  let ?d0 = "init_response_body_buf (Downstream_new (ss_stream_id frame) (uint (ss_pri frame)))"
  obtain names d1 where scan: "scan_request_nv nv \<lparr>rq_path = None, rq_scheme = None, rq_host = None, rq_method = None\<rparr> ?d0 = (names, d1)"
    by force
  note k = scan_request_nv_keeps [OF scan]
  obtain path host meth where ns: "rq_path names = Some path" "rq_host names = Some host" "rq_method names = Some meth"
    using assms by (auto simp: on_syn_stream_recv_def nv scan split: option.splits)
  let ?d3 = "set_request_target cfg (rq_scheme names) path host d1"
  let ?d4 = "set_downstream_connection (Some out) ?d3"
  let ?d5 = "?d4\<lparr>ds_dconn := Some (out @ request_head cfg ipaddr ?d4),
    ds_request_state := if hd_flags (ss_hd frame) AND SPDYLAY_CTRL_FLAG_FIN \<noteq> 0 then MSG_COMPLETE else HEADER_COMPLETE\<rparr>"
  have t: "ds_stream_id ?d4 = ss_stream_id frame" "\<not> ds_chunked_request ?d4" "ds_recv_window_size ?d4 = 0"
    using k by (simp_all add: set_request_target_def set_downstream_connection_def add_request_header_def Let_def
      init_response_body_buf_def Downstream_new_def)
  have "up1 = update_downstream ?d5 up" "mem_ok m1 = mem_ok m"
    using assms unfolding on_syn_stream_recv_def
    by (auto simp: nv scan ns Let_def push_request_headers_def evbuffer_add_def malloc_def set_downstream_connection_def
      split: if_splits)
  moreover have "request_head cfg ipaddr ?d5 = request_head cfg ipaddr ?d4" by (simp add: request_head_def)
  ultimately show ?thesis using that [of ?d5] t by simp
qed

text \<open>
  C36. An upload of a SPDY client: once the request is accepted, its data reach the connection to
  the backend in order, right after the head of the request and with no framing of their own, as
  long as they stay within the announced window and memory lasts. This is so also when the client
  gave no content-length or sent a transfer-encoding header, so that the backend then cannot tell
  where the body ends.
\<close>

theorem spdy_upload_forwarded:
  assumes "on_syn_stream_recv cfg ipaddr m (Some out) up frame = Some ([], up1, m1)"
    and "\<And>n. mem_ok m n"
    and "up_flow_control up \<Longrightarrow> int (length (concat (map snd ps))) \<le> sint (up_initial_window_size up)"
  shows "\<exists>d up2 d2. find_downstream (ss_stream_id frame) up1 = Some d \<and> \<not> ds_chunked_request d \<and>
    upload (ss_stream_id frame) ps m1 up1 = ([], up2) \<and> find_downstream (ss_stream_id frame) up2 = Some d2 \<and>
    ds_dconn d2 = Some (out @ request_head cfg ipaddr d @ concat (map snd ps))"
proof -
  obtain d where d: "up1 = update_downstream d up" "ds_stream_id d = ss_stream_id frame"
    "ds_dconn d = Some (out @ request_head cfg ipaddr d)" "\<not> ds_chunked_request d" "ds_recv_window_size d = 0"
    "mem_ok m1 = mem_ok m" using request_opened [OF assms(1)] by metis
  have f: "find_downstream (ds_stream_id d) up1 = Some d" by (simp add: d(1))
  have m1: "mem_ok m1 n" for n using assms(2) d(6) by simp
  have "\<exists>up' d'. upload (ds_stream_id d) ps m1 up1 = ([], up') \<and> find_downstream (ds_stream_id d) up' = Some d' \<and>
    ds_dconn d' = Some ((out @ request_head cfg ipaddr d) @ concat (map snd ps))"
    using assms(3) d(1,5) by (intro upload_pieces [OF f d(3,4) m1]) simp
  with f d(2,4) show ?thesis by auto
qed

definition demo_post :: spdylay_syn_stream where
  "demo_post = \<lparr>ss_hd = \<lparr>hd_version = 3, hd_type = 1, hd_flags = 0, hd_length = 0\<rparr>, ss_stream_id = 1, ss_assoc_stream_id = 0,
     ss_pri = 0, ss_slot = 0, ss_nv = Some [(lit '':host'', lit ''h''), (lit '':method'', lit ''POST''), (lit '':path'', lit ''/'')]\<rparr>"

lemma demo_post_opens:
  "\<exists>up1 m1. on_syn_stream_recv demo_config (lit ''1.2.3.4'') good_mem (Some [])
     (fst (SpdyUpstream_new SPDYLAY_PROTO_SPDY3 16 100)) demo_post = Some ([], up1, m1)"
  by (simp add: on_syn_stream_recv_def demo_post_def push_request_headers_def evbuffer_add_def malloc_def good_mem_def
    set_downstream_connection_def lit_def Let_def)

theorem spdy_upload_forwarded_witness:
  "\<exists>up1 m1 d up2 d2. on_syn_stream_recv demo_config (lit ''1.2.3.4'') good_mem (Some [])
       (fst (SpdyUpstream_new SPDYLAY_PROTO_SPDY3 16 100)) demo_post = Some ([], up1, m1) \<and>
     upload 1 [(0, [7, 8]), (1, [9])] m1 up1 = ([], up2) \<and> find_downstream 1 up2 = Some d2 \<and>
     ds_dconn d2 = Some (request_head demo_config (lit ''1.2.3.4'') d @ [7, 8, 9])"
proof -
  obtain up1 m1 where u: "on_syn_stream_recv demo_config (lit ''1.2.3.4'') good_mem (Some [])
       (fst (SpdyUpstream_new SPDYLAY_PROTO_SPDY3 16 100)) demo_post = Some ([], up1, m1)" using demo_post_opens by blast
  have "mem_ok good_mem n" for n by (simp add: good_mem_def)
  moreover have "sint (up_initial_window_size (fst (SpdyUpstream_new SPDYLAY_PROTO_SPDY3 16 100))) = 65536"
    by (simp add: SpdyUpstream_new_def Let_def)
  ultimately show ?thesis
    using spdy_upload_forwarded [OF u, of "[(0, [7, 8]), (1, [9])]"] u by (auto simp: demo_post_def)
qed

text \<open>
  When the backend closes the connection before it answered and the error page cannot be
  stored, the client is left without an answer and its connection stays open: no frame is
  submitted and the handler is not deleted, while after a network error or a timeout it is.
\<close>

theorem eof_without_answer:
  assumes "ds_response_state d \<notin> {HEADER_COMPLETE, MSG_COMPLETE}" "ds_request_state d \<noteq> STREAM_CLOSED"
    and "hc_server_name cfg = Some name" "malloc m = (False, m')" "\<not> ev_connected events"
  shows "\<exists>d'. spdy_downstream_eventcb cfg self m up d events =
    (if ev_eof events then Some (Returns [] (update_downstream d' up) m')
     else if ev_error events \<or> ev_timeout events then Some HandlerDeleted else Some (Returns [] up m))"
proof -
  let ?d = "init_response_body_buf (set_downstream_connection None d)"
  have "\<exists>b. ds_response_body_buf ?d = Some b"
    by (cases "ds_response_body_buf d") (auto simp: init_response_body_buf_def set_downstream_connection_def)
  then have "error_reply cfg self m (set_downstream_connection None d) status = Some (-1, [], ?d, m')" for status
    using assms(3,4) by (auto simp: error_reply_def evbuffer_add_def Let_def)
  then show ?thesis
    using assms(1,2,5) by (auto simp: spdy_downstream_eventcb_def set_downstream_connection_def Let_def)
qed

theorem eof_without_answer_witness:
  "\<exists>up. spdy_downstream_eventcb demo_config 0 (good_mem\<lparr>mem_ok := \<lambda>_. False\<rparr>) (fst (SpdyUpstream_new SPDYLAY_PROTO_SPDY3 16 100))
     (Downstream_new 1 0) \<lparr>ev_connected = False, ev_eof = True, ev_error = False, ev_timeout = False\<rparr> =
     Some (Returns [] up (good_mem\<lparr>mem_next := 1, mem_ok := \<lambda>_. False\<rparr>))"
  using eof_without_answer [of "Downstream_new 1 0" demo_config "lit ''shrpx''" "good_mem\<lparr>mem_ok := \<lambda>_. False\<rparr>"
      "good_mem\<lparr>mem_next := 1, mem_ok := \<lambda>_. False\<rparr>"
      "\<lparr>ev_connected = False, ev_eof = True, ev_error = False, ev_timeout = False\<rparr>" 0
      "fst (SpdyUpstream_new SPDYLAY_PROTO_SPDY3 16 100)"]
  by (auto simp: Downstream_new_def demo_config_def malloc_def good_mem_def)

section \<open>Settings that the upstream relies on\<close>

lemma window_of_bits:
  assumes "bits < 31"
  shows "sint (up_initial_window_size (fst (SpdyUpstream_new version bits n))) = (if version = SPDYLAY_PROTO_SPDY3 then 2 ^ bits else 0)"
proof -
  have "(2 :: nat) ^ bits < 2 ^ 31" using assms by (simp only: power_strict_increasing_iff)
  then have "sint (of_nat (2 ^ bits) :: i32) = int (2 ^ bits)" by (rule sint_of_nat_i32)
  then show ?thesis by (simp add: SpdyUpstream_new_def Let_def push_bit_eq_mult)
qed

lemma error_reply_total: "hc_server_name cfg \<noteq> None \<Longrightarrow> error_reply cfg self m d status_code \<noteq> None"
  by (cases "ds_response_body_buf d") (auto simp: error_reply_def init_response_body_buf_def Let_def split: prod.splits)

end
