(* ===== verification/Shrpx_Https_Upstream.thy ===== *)
theory Shrpx_Https_Upstream
  imports Shrpx_Downstream
begin

text \<open>
  \<open>src/shrpx_https_upstream.cc\<close>: the HTTP/1.1 side of the proxy. The state machine of the HTTP parser is
  the parameter \<open>machine\<close>, with its own state \<open>'p\<close>; its error number and \<open>http_parser_pause\<close> are modelled,
  since the upstream steers by them. The output buffer of the client and the flag that closes the
  connection after the next write belong to the client handler. \<open>None\<close> is a failed \<open>assert\<close> or an
  access through a NULL pointer. Shown here: a chunked response is relayed so that the client gets
  the body back, an upload with chunked encoding fails at its first piece, and a request whose
  answer came before its body was complete leaves a parser that stays paused.
\<close>

definition SHRPX_HTTPS_UPSTREAM_OUTPUT_UPPER_THRES :: nat where
  "SHRPX_HTTPS_UPSTREAM_OUTPUT_UPPER_THRES = 64 * 1024"

definition SHRPX_HTTPS_MAX_HEADER_LENGTH :: nat where
  "SHRPX_HTTPS_MAX_HEADER_LENGTH = 64 * 1024"

text \<open>The error numbers of the parser; \<open>HPE_FAILED\<close> stands for all the failures.\<close>

datatype http_errno = HPE_OK | HPE_PAUSED | HPE_FAILED

record 'p HttpsUpstream =
  hu_htp :: 'p
  hu_errno :: http_errno
  hu_current_header_length :: nat
  hu_downstream :: "Downstream option"
  hu_ioctrl :: IOControl
  hu_input :: bytes
  hu_output :: bytes
  hu_should_close_after_write :: bool

definition HttpsUpstream_new :: "'p \<Rightarrow> 'p HttpsUpstream" where
  "HttpsUpstream_new htp =
     \<lparr>hu_htp = htp, hu_errno = HPE_OK, hu_current_header_length = 0, hu_downstream = None,
      hu_ioctrl = IOControl_new (Some True), hu_input = [], hu_output = [], hu_should_close_after_write = False\<rparr>"

definition put_downstream :: "Downstream \<Rightarrow> 'p HttpsUpstream \<Rightarrow> 'p HttpsUpstream" where
  "put_downstream d up = up\<lparr>hu_downstream := Some d\<rparr>"

definition attach_downstream :: "Downstream \<Rightarrow> 'p HttpsUpstream \<Rightarrow> 'p HttpsUpstream option" where
  "attach_downstream d up = (if hu_downstream up \<noteq> None then None else Some (put_downstream d up))"

definition delete_downstream :: "'p HttpsUpstream \<Rightarrow> 'p HttpsUpstream" where
  "delete_downstream up = up\<lparr>hu_downstream := None\<rparr>"

section \<open>Callbacks of the request parser\<close>

definition http_parser_pause :: "bool \<Rightarrow> 'p HttpsUpstream \<Rightarrow> 'p HttpsUpstream option" where
  "http_parser_pause paused up =
     (if hu_errno up = HPE_OK \<or> hu_errno up = HPE_PAUSED
      then Some (up\<lparr>hu_errno := if paused then HPE_PAUSED else HPE_OK\<rparr>) else None)"

definition https_msg_begin :: "'p HttpsUpstream \<Rightarrow> 'p HttpsUpstream option" where
  "https_msg_begin up = attach_downstream (Downstream_new 0 0) (up\<lparr>hu_current_header_length := 0\<rparr>)"

definition https_uricb :: "bytes \<Rightarrow> 'p HttpsUpstream \<Rightarrow> 'p HttpsUpstream option" where
  "https_uricb data up = do { d \<leftarrow> hu_downstream up; Some (put_downstream (append_request_path data d) up) }"

definition https_hdr_keycb :: "bytes \<Rightarrow> 'p HttpsUpstream \<Rightarrow> 'p HttpsUpstream option" where
  "https_hdr_keycb data up =
     do {
       d \<leftarrow> hu_downstream up;
       d1 \<leftarrow> (if ds_request_header_key_prev d then append_last_request_header_key data d
             else Some (add_request_header data [] d));
       Some (put_downstream d1 up)
     }"

definition https_hdr_valcb :: "bytes \<Rightarrow> 'p HttpsUpstream \<Rightarrow> 'p HttpsUpstream option" where
  "https_hdr_valcb data up =
     do {
       d \<leftarrow> hu_downstream up;
       d1 \<leftarrow> (if ds_request_header_key_prev d then set_last_request_header_value data d
             else append_last_request_header_value data d);
       Some (put_downstream d1 up)
     }"

definition reply_100 :: bytes where
  "reply_100 = lit ''HTTP/1.1 100 Continue'' @ [13, 10, 13, 10]"

text \<open>
  \<open>method\<close>, \<open>major\<close>, \<open>minor\<close> and \<open>keep_alive\<close> are what the parser found; \<open>attached\<close> is the outcome of the
  connection to the backend, as for the SPDY side.
\<close>

definition https_hdrs_completecb ::
    "http_config \<Rightarrow> bytes \<Rightarrow> bytes \<Rightarrow> int \<Rightarrow> int \<Rightarrow> bool \<Rightarrow> bytes option \<Rightarrow> mem \<Rightarrow> 'p HttpsUpstream \<Rightarrow>
     (int \<times> 'p HttpsUpstream \<times> mem) option" where
  "https_hdrs_completecb cfg ipaddr method major minor keep_alive attached m up =
     do {
       d \<leftarrow> hu_downstream up;
       let d1 = d\<lparr>ds_request_method := method, ds_request_major := major, ds_request_minor := minor,
                 ds_request_connection_close := \<not> keep_alive\<rparr>;
           (rv, output, m1) = (if ds_request_expect_100_continue d1 then evbuffer_add m (hu_output up) reply_100
                               else (0, hu_output up, m));
           up1 = up\<lparr>hu_output := output\<rparr> in
       if rv \<noteq> 0 then Some (-1, put_downstream d1 up1, m1)
       else
         (case attached of
            None \<Rightarrow>
              Some (-1, put_downstream (set_downstream_connection None (d1\<lparr>ds_request_state := CONNECT_FAIL\<rparr>)) up1, m1)
          | Some out \<Rightarrow>
              do {
                (rv, d2, m2) \<leftarrow> push_request_headers cfg ipaddr m1 (set_downstream_connection (Some out) d1);
                if rv \<noteq> 0 then Some (-1, put_downstream d2 up1, m2)
                else Some (0, put_downstream (d2\<lparr>ds_request_state := HEADER_COMPLETE\<rparr>) up1, m2)
              })
     }"

definition https_bodycb :: "mem \<Rightarrow> bytes \<Rightarrow> 'p HttpsUpstream \<Rightarrow> (int \<times> 'p HttpsUpstream \<times> mem) option" where
  "https_bodycb m data up =
     do {
       d \<leftarrow> hu_downstream up;
       (case push_upload_data_chunk m data d of (rv, d1, m1) \<Rightarrow>
          Some (if rv \<noteq> 0 then -1 else 0, put_downstream d1 up, m1))
     }"

definition https_msg_completecb :: "mem \<Rightarrow> 'p HttpsUpstream \<Rightarrow> (int \<times> 'p HttpsUpstream \<times> mem) option" where
  "https_msg_completecb m up =
     do {
       d \<leftarrow> hu_downstream up;
       (rv, d1, m1) \<leftarrow> end_upload_data m d;
       if rv \<noteq> 0 then Some (-1, put_downstream d1 up, m1)
       else
         do {
           up1 \<leftarrow> http_parser_pause True (put_downstream (d1\<lparr>ds_request_state := MSG_COMPLETE\<rparr>) up);
           Some (0, up1, m1)
         }
     }"

section \<open>Reading requests\<close>

text \<open>A second write that fails leaves the header in the buffer.\<close>

definition https_error_reply ::
    "http_config \<Rightarrow> int \<Rightarrow> mem \<Rightarrow> 'p HttpsUpstream \<Rightarrow> (int \<times> 'p HttpsUpstream \<times> mem) option" where
  "https_error_reply cfg status_code m up =
     do {
       server_name \<leftarrow> hc_server_name cfg;
       let html = create_error_html cfg status_code;
           header = lit ''HTTP/1.1 '' @ get_status_string status_code @ [13, 10] @
             lit ''Server: '' @ server_name @ [13, 10] @
             lit ''Content-Length: '' @ decimal (length html) @ [13, 10] @
             lit ''Content-Type: '' @ lit ''text/html; charset=UTF-8'' @ [13, 10] @
             (if hu_should_close_after_write up then lit ''Connection: close'' @ [13, 10] else []) @ [13, 10];
           (rv1, out1, m1) = evbuffer_add m (hu_output up) header;
           (rv2, out2, m2) = (if rv1 \<noteq> 0 then (-1, out1, m1) else evbuffer_add m1 out1 html);
           up1 = up\<lparr>hu_output := out2\<rparr> in
       if rv2 \<noteq> 0 then Some (-1, up1, m2)
       else Some (0, up1\<lparr>hu_downstream := map_option (\<lambda>d. d\<lparr>ds_response_state := MSG_COMPLETE\<rparr>) (hu_downstream up1)\<rparr>, m2)
     }"

type_synonym 'p machine = "bytes \<Rightarrow> 'p HttpsUpstream \<Rightarrow> mem \<Rightarrow> (nat \<times> 'p HttpsUpstream \<times> mem) option"

definition http_parser_execute :: "'p machine \<Rightarrow> 'p machine" where
  "http_parser_execute machine data up m = (if hu_errno up \<noteq> HPE_OK then Some (0, up, m) else machine data up m)"

definition https_pause_read :: "u32 \<Rightarrow> 'p HttpsUpstream \<Rightarrow> 'p HttpsUpstream" where
  "https_pause_read reason up = up\<lparr>hu_ioctrl := pause_read reason (hu_ioctrl up)\<rparr>"

definition https_refuse :: "http_config \<Rightarrow> int \<Rightarrow> mem \<Rightarrow> 'p HttpsUpstream \<Rightarrow> (int \<times> 'p HttpsUpstream \<times> mem) option" where
  "https_refuse cfg status_code m up =
     do {
       (rv, up1, m1) \<leftarrow> https_error_reply cfg status_code m (up\<lparr>hu_should_close_after_write := True\<rparr>);
       Some (if rv \<noteq> 0 then -1 else 0, up1, m1)
     }"

definition https_on_read :: "'p machine \<Rightarrow> http_config \<Rightarrow> mem \<Rightarrow> 'p HttpsUpstream \<Rightarrow> (int \<times> 'p HttpsUpstream \<times> mem) option" where
  "https_on_read machine cfg m up =
     (if hu_input up = [] then Some (0, up, m)
      else
        do {
          (nread, up1, m1) \<leftarrow> http_parser_execute machine (hu_input up) up m;
          let up2 = up1\<lparr>hu_input := drop nread (hu_input up),
                       hu_current_header_length := hu_current_header_length up1 + nread\<rparr> in
          (case hu_errno up2 of
             HPE_PAUSED \<Rightarrow>
               do {
                 d \<leftarrow> hu_downstream up2;
                 if ds_request_state d = CONNECT_FAIL then https_refuse cfg 503 m1 up2
                 else if ds_request_state d \<noteq> MSG_COMPLETE then None
                 else if ds_dconn d = None then
                   if ds_response_state d \<noteq> MSG_COMPLETE then None else Some (0, delete_downstream up2, m1)
                 else Some (0, https_pause_read SHRPX_MSG_BLOCK up2, m1)
               }
           | HPE_OK \<Rightarrow>
               (case hu_downstream up2 of
                  None \<Rightarrow> Some (0, up2, m1)
                | Some d \<Rightarrow>
                    if ds_request_state d = INITIAL \<and> hu_current_header_length up2 > SHRPX_HTTPS_MAX_HEADER_LENGTH
                    then https_refuse cfg 400 m1 up2
                    else if get_output_buffer_full d then Some (0, https_pause_read SHRPX_NO_BUFFER up2, m1)
                    else Some (0, up2, m1))
           | HPE_FAILED \<Rightarrow> https_refuse cfg 400 m1 up2)
        })"

definition https_on_write :: "'p HttpsUpstream \<Rightarrow> 'p HttpsUpstream" where
  "https_on_write up =
     up\<lparr>hu_downstream := map_option (\<lambda>d. d\<lparr>ds_ioctrl := snd (resume_read SHRPX_NO_BUFFER (ds_ioctrl d))\<rparr>) (hu_downstream up)\<rparr>"

definition https_resume_read :: "'p machine \<Rightarrow> http_config \<Rightarrow> u32 \<Rightarrow> mem \<Rightarrow> 'p HttpsUpstream \<Rightarrow> ('p HttpsUpstream \<times> mem) option" where
  "https_resume_read machine cfg reason m up =
     (case resume_read reason (hu_ioctrl up) of (resumed, io) \<Rightarrow>
        let up1 = up\<lparr>hu_ioctrl := io\<rparr> in
        if resumed then
          do {
            up2 \<leftarrow> http_parser_pause False up1;
            (_, up3, m1) \<leftarrow> https_on_read machine cfg m up2;
            Some (up3, m1)
          }
        else Some (up1, m))"

section \<open>Relaying a response\<close>

fun https_response_lines :: "headers \<Rightarrow> bytes \<Rightarrow> bytes \<Rightarrow> bytes \<times> bytes" where
  "https_response_lines [] hdrs via_value = (hdrs, via_value)"
| "https_response_lines (h # hs) hdrs via_value =
     (if name_is h ''keep-alive'' \<or> name_is h ''connection'' \<or> name_is h ''proxy-connection''
      then https_response_lines hs hdrs via_value
      else if name_is h ''via'' then https_response_lines hs hdrs (snd h)
      else https_response_lines hs (hdrs @ fst h @ lit '': '' @ snd h @ [13, 10]) via_value)"

text \<open>The conversion \<open>%d\<close>.\<close>

definition signed_decimal :: "int \<Rightarrow> bytes" where
  "signed_decimal i = (if i < 0 then lit ''-'' else []) @ decimal (nat \<bar>i\<bar>)"

definition https_response_head :: "Downstream \<Rightarrow> bytes" where
  "https_response_head d =
     (case https_response_lines (ds_response_headers d)
             (take 15 (lit ''HTTP/'' @ signed_decimal (ds_request_major d) @ lit ''.'' @ signed_decimal (ds_request_minor d) @ lit '' '') @
              get_status_string (sint (ds_response_http_status d)) @ [13, 10]) [] of
        (hdrs, via_value) \<Rightarrow>
          hdrs @
          (if \<not> ds_request_connection_close d \<and> \<not> ds_response_connection_close d then
             if ds_request_major d \<le> 0 \<or> ds_request_minor d \<le> 0 then lit ''Connection: Keep-Alive'' @ [13, 10] else []
           else lit ''Connection: close'' @ [13, 10]) @
          lit ''Via: '' @ via_value @ (if via_value \<noteq> [] then lit '', '' else []) @
          create_via_header_value (ds_response_major d) (ds_response_minor d) @ [13, 10] @ [13, 10])"

definition https_downstream_header_complete :: "mem \<Rightarrow> Downstream \<Rightarrow> 'p HttpsUpstream \<Rightarrow> int \<times> 'p HttpsUpstream \<times> mem" where
  "https_downstream_header_complete m d up =
     (case evbuffer_add m (hu_output up) (https_response_head d) of (rv, out, m1) \<Rightarrow>
        (if rv \<noteq> 0 then -1 else 0, up\<lparr>hu_output := out\<rparr>, m1))"

text \<open>The results of the writes of the data and of the line end are not looked at.\<close>

definition https_downstream_body :: "mem \<Rightarrow> Downstream \<Rightarrow> bytes \<Rightarrow> 'p HttpsUpstream \<Rightarrow> int \<times> 'p HttpsUpstream \<times> mem" where
  "https_downstream_body m d data up =
     (let (rv1, out1, m1) = (if ds_chunked_response d
            then evbuffer_add m (hu_output up) (hex_number (length data mod 2 ^ 32) @ [13, 10]) else (0, hu_output up, m)) in
      if rv1 \<noteq> 0 then (-1, up\<lparr>hu_output := out1\<rparr>, m1)
      else
        (case evbuffer_add m1 out1 data of (_, out2, m2) \<Rightarrow>
           if ds_chunked_response d then
             (case evbuffer_add m2 out2 [13, 10] of (_, out3, m3) \<Rightarrow> (0, up\<lparr>hu_output := out3\<rparr>, m3))
           else (0, up\<lparr>hu_output := out2\<rparr>, m2)))"

definition https_downstream_body_complete :: "mem \<Rightarrow> Downstream \<Rightarrow> 'p HttpsUpstream \<Rightarrow> int \<times> 'p HttpsUpstream \<times> mem" where
  "https_downstream_body_complete m d up =
     (let (rv, out, m1) = (if ds_chunked_response d then evbuffer_add m (hu_output up) [48, 13, 10, 13, 10]
            else (0, hu_output up, m));
          up1 = up\<lparr>hu_output := out\<rparr> in
      if rv \<noteq> 0 then (-1, up1, m1)
      else
        (0, if ds_request_connection_close d \<or> ds_response_connection_close d
            then up1\<lparr>hu_should_close_after_write := True\<rparr> else up1, m1))"

section \<open>Callbacks of the backend connection\<close>

text \<open>
  \<open>parse_http_response\<close> runs the parser of the response, which calls back. A callback deletes the
  client handler or returns. Whether a connection that is left goes to the pool of the handler or
  is closed makes no difference to this upstream.
\<close>

datatype 'p https_result = ClientGone | Stays "'p HttpsUpstream" mem

definition next_request :: "'p machine \<Rightarrow> http_config \<Rightarrow> mem \<Rightarrow> 'p HttpsUpstream \<Rightarrow> 'p https_result option" where
  "next_request machine cfg m up =
     map_option (\<lambda>(up1, m1). Stays up1 m1) (https_resume_read machine cfg SHRPX_MSG_BLOCK m (delete_downstream up))"

definition next_if_complete :: "'p machine \<Rightarrow> http_config \<Rightarrow> mem \<Rightarrow> 'p HttpsUpstream \<Rightarrow> 'p https_result option" where
  "next_if_complete machine cfg m up =
     do {
       d \<leftarrow> hu_downstream up;
       if ds_request_state d = MSG_COMPLETE then next_request machine cfg m up else Some (Stays up m)
     }"

definition https_downstream_readcb ::
    "('p HttpsUpstream \<Rightarrow> mem \<Rightarrow> int \<times> 'p HttpsUpstream \<times> mem) \<Rightarrow> 'p machine \<Rightarrow> http_config \<Rightarrow> mem \<Rightarrow> 'p HttpsUpstream \<Rightarrow>
     'p https_result option" where
  "https_downstream_readcb parse_http_response machine cfg m up =
     (case parse_http_response up m of (rv, up1, m1) \<Rightarrow>
        do {
          d \<leftarrow> hu_downstream up1;
          if rv = 0 then
            if ds_response_state d = MSG_COMPLETE then
              let up2 = put_downstream (set_downstream_connection None d) up1 in
              if ds_request_state d = MSG_COMPLETE then
                if hu_should_close_after_write up2 \<and> hu_output up2 = [] then Some ClientGone
                else next_request machine cfg m1 up2
              else Some (Stays up2 m1)
            else if length (hu_output up1) > SHRPX_HTTPS_UPSTREAM_OUTPUT_UPPER_THRES then
              Some (Stays (put_downstream (d\<lparr>ds_ioctrl := pause_read SHRPX_NO_BUFFER (ds_ioctrl d)\<rparr>) up1) m1)
            else Some (Stays up1 m1)
          else if ds_response_state d = HEADER_COMPLETE then Some ClientGone
          else
            do {
              (rv, up2, m2) \<leftarrow> https_error_reply cfg 502 m1 up1;
              if rv \<noteq> 0 then Some ClientGone else next_if_complete machine cfg m2 up2
            }
        })"

definition https_downstream_writecb :: "'p machine \<Rightarrow> http_config \<Rightarrow> mem \<Rightarrow> 'p HttpsUpstream \<Rightarrow> ('p HttpsUpstream \<times> mem) option" where
  "https_downstream_writecb machine cfg m up = https_resume_read machine cfg SHRPX_NO_BUFFER m up"

definition https_downstream_eventcb ::
    "'p machine \<Rightarrow> http_config \<Rightarrow> mem \<Rightarrow> 'p HttpsUpstream \<Rightarrow> bev_events \<Rightarrow> 'p https_result option" where
  "https_downstream_eventcb machine cfg m up events =
     do {
       d \<leftarrow> hu_downstream up;
       if ev_connected events then Some (Stays up m)
       else if ev_eof events then
         if ds_response_state d = HEADER_COMPLETE then
           (case https_downstream_body_complete m d up of (_, up1, m1) \<Rightarrow>
              let up2 = put_downstream (d\<lparr>ds_response_state := MSG_COMPLETE\<rparr>) up1 in
              if hu_should_close_after_write up2 \<and> hu_output up2 = [] then Some ClientGone
              else next_if_complete machine cfg m1 up2)
         else if ds_response_state d = MSG_COMPLETE then next_if_complete machine cfg m up
         else
           do {
             (rv, up1, m1) \<leftarrow> https_error_reply cfg 502 m up;
             if rv \<noteq> 0 then Some ClientGone else next_if_complete machine cfg m1 up1
           }
       else if ev_error events \<or> ev_timeout events then
         if ds_response_state d = INITIAL then
           do {
             (rv, up1, m1) \<leftarrow> https_error_reply cfg (if ev_timeout events then 504 else 502) m up;
             if rv \<noteq> 0 then Some ClientGone else next_if_complete machine cfg m1 up1
           }
         else next_if_complete machine cfg m up
       else Some (Stays up m)
     }"

section \<open>Chunked responses\<close>

definition https_put :: "bytes \<Rightarrow> Downstream \<times> 'p HttpsUpstream \<times> mem \<Rightarrow> Downstream \<times> 'p HttpsUpstream \<times> mem" where
  "https_put data = (\<lambda>(d, up, m). case https_downstream_body m d data up of (_, up1, m1) \<Rightarrow> (d, up1, m1))"

definition https_finish :: "Downstream \<times> 'p HttpsUpstream \<times> mem \<Rightarrow> Downstream \<times> 'p HttpsUpstream \<times> mem" where
  "https_finish = (\<lambda>(d, up, m). case https_downstream_body_complete m d up of (_, up1, m1) \<Rightarrow> (d, up1, m1))"

interpretation https_body: chunked_sink "\<lambda>(d, up, m). ds_chunked_response d \<and> (\<forall>n. mem_ok m n)" https_put
  "\<lambda>(d, up, m). hu_output up" https_finish
  by unfold_locales
    (auto simp: https_put_def https_finish_def https_downstream_body_def https_downstream_body_complete_def evbuffer_add_def
      malloc_def chunk_def Let_def)

text \<open>
  C27. A response that the backend sends with chunked encoding is chunked anew for the client, and
  the client that decodes it gets back the body, whatever the pieces in which it arrived, and with
  it the place where the next response begins.
\<close>

theorem chunked_response_roundtrip:
  assumes "ds_chunked_response d" "\<And>n. mem_ok m n" "\<forall>p\<in>set ps. p \<noteq> [] \<and> length p < 2 ^ 32"
  shows "\<exists>up' m' body. https_finish (fold https_put ps (d, up, m)) = (d, up', m') \<and>
    hu_output up' = hu_output up @ body \<and> dechunk (body @ rest) = Some (concat ps, rest)"
proof -
  have "fst (https_finish (fold https_put ps x)) = fst x" for x :: "Downstream \<times> 'a HttpsUpstream \<times> mem"
    by (induction ps arbitrary: x) (auto simp: https_put_def https_finish_def split: prod.splits)
  then obtain up' m' where "https_finish (fold https_put ps (d, up, m)) = (d, up', m')" by (metis fst_conv prod_cases3)
  with https_body.decodes [of "(d, up, m)" ps rest] assms show ?thesis by auto
qed

theorem chunked_response_roundtrip_witness:
  "\<exists>up' m' body. https_finish (fold https_put [[1, 2], [3]]
       ((Downstream_new 0 0)\<lparr>ds_chunked_response := True\<rparr>, HttpsUpstream_new (), good_mem)) =
       ((Downstream_new 0 0)\<lparr>ds_chunked_response := True\<rparr>, up', m') \<and>
     hu_output up' = body \<and> dechunk (body @ [72]) = Some ([1, 2, 3], [72])"
  using chunked_response_roundtrip [of "(Downstream_new 0 0)\<lparr>ds_chunked_response := True\<rparr>" good_mem "[[1, 2], [3]]"
      "HttpsUpstream_new ()" "[72]"]
  by (auto simp: good_mem_def HttpsUpstream_new_def)

section \<open>Uploads and early answers\<close>

text \<open>
  The first piece of an upload with chunked encoding is written to the backend and yet
  reported as a failure to the parser: \<open>push_upload_data_chunk\<close> returns the length of the chunk lines
  where its caller takes every value but 0 for an error.
\<close>

theorem chunked_upload_fails:
  assumes "hu_downstream up = Some d" "ds_chunked_request d" "ds_dconn d = Some out" "\<And>n. mem_ok m n"
    and "length data < 2 ^ 32"
  shows "\<exists>m'. https_bodycb m data up = Some (-1, put_downstream (d\<lparr>ds_dconn := Some (out @ chunk data)\<rparr>) up, m')"
  using assms
  by (simp add: https_bodycb_def push_upload_data_chunk_def evbuffer_add_def malloc_def chunk_def put_downstream_def)

definition chunked_upload :: Downstream where
  "chunked_upload = (Downstream_new 0 0)\<lparr>ds_chunked_request := True, ds_dconn := Some []\<rparr>"

theorem chunked_upload_fails_witness:
  "\<exists>m'. https_bodycb good_mem [65] (put_downstream chunked_upload (HttpsUpstream_new ())) =
     Some (-1, put_downstream (chunked_upload\<lparr>ds_dconn := Some [49, 13, 10, 65, 13, 10]\<rparr>) (HttpsUpstream_new ()), m')"
  using chunked_upload_fails [of "put_downstream chunked_upload (HttpsUpstream_new ())" chunked_upload "[]" good_mem "[65]"]
  by (simp add: put_downstream_def chunked_upload_def good_mem_def chunk_def hex_number.simps hex_upper_def)

text \<open>
  When the answer of the backend was complete before the request of the client was, the
  request is dropped as soon as it is complete, but the parser stays paused: the next bytes of the
  client are read through a NULL pointer.
\<close>

theorem early_answer_stops_parser:
  assumes "machine (hu_input up) up m = Some (nread, up1, m1)"
    and "hu_errno up = HPE_OK" "hu_input up \<noteq> []" "hu_errno up1 = HPE_PAUSED"
    and "hu_downstream up1 = Some d" "ds_request_state d = MSG_COMPLETE" "ds_response_state d = MSG_COMPLETE" "ds_dconn d = None"
    and "later \<noteq> []"
  shows "\<exists>up2. https_on_read machine cfg m up = Some (0, up2, m1) \<and> hu_downstream up2 = None \<and> hu_errno up2 = HPE_PAUSED \<and>
    (\<forall>m'. https_on_read machine cfg m' (up2\<lparr>hu_input := later\<rparr>) = None)"
  using assms by (simp add: https_on_read_def http_parser_execute_def delete_downstream_def Let_def)

definition one_shot :: "unit machine" where
  "one_shot data up m = do { (rv, up1, m1) \<leftarrow> https_msg_completecb m up; Some (length data, up1, m1) }"

theorem early_answer_stops_parser_witness:
  "\<exists>up2 m1. https_on_read one_shot demo_config good_mem
       (put_downstream ((Downstream_new 0 0)\<lparr>ds_response_state := MSG_COMPLETE\<rparr>) ((HttpsUpstream_new ())\<lparr>hu_input := [65]\<rparr>)) =
     Some (0, up2, m1) \<and> https_on_read one_shot demo_config good_mem (up2\<lparr>hu_input := [71]\<rparr>) = None"
proof -
  let ?d = "(Downstream_new 0 0)\<lparr>ds_response_state := MSG_COMPLETE\<rparr>"
  let ?up = "put_downstream ?d ((HttpsUpstream_new ())\<lparr>hu_input := [65]\<rparr>)"
  have "one_shot (hu_input ?up) ?up good_mem =
      Some (1, put_downstream (?d\<lparr>ds_request_state := MSG_COMPLETE\<rparr>) (?up\<lparr>hu_errno := HPE_PAUSED\<rparr>), good_mem)"
    by (simp add: one_shot_def https_msg_completecb_def end_upload_data_def http_parser_pause_def put_downstream_def
      HttpsUpstream_new_def Downstream_new_def)
  with early_answer_stops_parser [where machine = one_shot and up = ?up and m = good_mem and
      d = "?d\<lparr>ds_request_state := MSG_COMPLETE\<rparr>" and later = "[71]" and cfg = demo_config] show ?thesis
    by (fastforce simp: put_downstream_def HttpsUpstream_new_def Downstream_new_def)
qed

text \<open>
  When the connection to the backend breaks within the body of a response, the client is not
  told: nothing more is written, the connection of the client stays open and the next request is
  read, so that the next response appears where the rest of the body is due.
\<close>

theorem broken_response_continues:
  assumes "hu_downstream up = Some d" "ds_request_state d = MSG_COMPLETE" "ds_response_state d = HEADER_COMPLETE"
    and "\<not> ev_connected events" "\<not> ev_eof events" "ev_error events \<or> ev_timeout events"
    and "hu_errno up = HPE_PAUSED" "ic_rdbits (hu_ioctrl up) = SHRPX_MSG_BLOCK" "hu_input up = []"
  shows "\<exists>up'. https_downstream_eventcb machine cfg m up events = Some (Stays up' m) \<and> hu_downstream up' = None \<and>
    hu_output up' = hu_output up \<and> hu_should_close_after_write up' = hu_should_close_after_write up \<and> hu_errno up' = HPE_OK"
  using assms
  by (simp add: https_downstream_eventcb_def next_if_complete_def next_request_def https_resume_read_def resume_read_def
    http_parser_pause_def https_on_read_def delete_downstream_def Let_def)

theorem broken_response_continues_witness:
  "\<exists>up'. https_downstream_eventcb one_shot demo_config good_mem
       (put_downstream ((Downstream_new 0 0)\<lparr>ds_request_state := MSG_COMPLETE, ds_response_state := HEADER_COMPLETE\<rparr>)
         ((HttpsUpstream_new ())\<lparr>hu_errno := HPE_PAUSED, hu_ioctrl := pause_read SHRPX_MSG_BLOCK (IOControl_new (Some True))\<rparr>))
       \<lparr>ev_connected = False, ev_eof = False, ev_error = True, ev_timeout = False\<rparr> = Some (Stays up' good_mem) \<and>
     hu_downstream up' = None \<and> hu_output up' = []"
proof -
  let ?d = "(Downstream_new 0 0)\<lparr>ds_request_state := MSG_COMPLETE, ds_response_state := HEADER_COMPLETE\<rparr>"
  let ?up = "put_downstream ?d
    ((HttpsUpstream_new ())\<lparr>hu_errno := HPE_PAUSED, hu_ioctrl := pause_read SHRPX_MSG_BLOCK (IOControl_new (Some True))\<rparr>)"
  have "hu_downstream ?up = Some ?d" "hu_errno ?up = HPE_PAUSED" "ic_rdbits (hu_ioctrl ?up) = SHRPX_MSG_BLOCK" "hu_input ?up = []"
    "hu_output ?up = []"
    by (simp_all add: put_downstream_def HttpsUpstream_new_def pause_read_def IOControl_new_def)
  with broken_response_continues [of ?up ?d "\<lparr>ev_connected = False, ev_eof = False, ev_error = True, ev_timeout = False\<rparr>"
      one_shot demo_config good_mem] show ?thesis by auto
qed

end
