(* ===== verification/Shrpx_Connection.thy ===== *)
theory Shrpx_Connection
  imports Spdy_Util Spdy_NPN
begin

text \<open>
  \<open>src/shrpx_client_handler.cc\<close> and \<open>src/shrpx_downstream_connection.cc\<close>: a client of the proxy with its
  pool of connections to the backend, and the protocol list of \<open>src/shrpx_ssl.cc\<close>. The objects live in a
  store: a connection and a downstream are known by their address, and a result \<open>None\<close> is the use of a
  NULL pointer or of an object that was deleted. What is sent over the connections is the subject of
  the upstream theories; timeouts and watermarks are left out. Shown here: connections and
  downstreams point at each other, the pool has idle connections only, and no deleted object is used.
\<close>

section \<open>Objects\<close>

text \<open>Which callbacks a bufferevent has: those of the upstream or \<open>idle_eventcb\<close>; \<open>dc_bev\<close> is NULL without one.\<close>

datatype bev_callbacks = UpstreamCallbacks | IdleCallbacks

record DownstreamConnection =
  dc_bev :: "bev_callbacks option"
  dc_downstream :: "nat option"

datatype upstream_kind = SpdyUp u16 | HttpsUp

text \<open>
  The handler of a client: its connections and, for each downstream, its connection; the container of
  the downstreams in the upstream; the pool, a \<open>std::set\<close> of pointers in their order.
\<close>

record ClientHandler =
  ch_conns :: "nat \<rightharpoonup> DownstreamConnection"
  ch_downs :: "nat \<rightharpoonup> nat option"
  ch_queue :: "nat list"
  ch_pool :: "nat list"
  ch_upstream :: "upstream_kind option"
  ch_should_close_after_write :: bool

definition ClientHandler_new :: ClientHandler where
  "ClientHandler_new = \<lparr>ch_conns = Map.empty, ch_downs = Map.empty, ch_queue = [], ch_pool = [], ch_upstream = None,
     ch_should_close_after_write = False\<rparr>"

definition SHRPX_ERR_NETWORK :: int where "SHRPX_ERR_NETWORK = -3"

section \<open>The pool\<close>

definition pool_downstream_connection :: "nat \<Rightarrow> ClientHandler \<Rightarrow> ClientHandler" where
  "pool_downstream_connection dconn h = h\<lparr>ch_pool := insort_insert dconn (ch_pool h)\<rparr>"

definition remove_downstream_connection :: "nat \<Rightarrow> ClientHandler \<Rightarrow> ClientHandler" where
  "remove_downstream_connection dconn h = h\<lparr>ch_pool := remove1 dconn (ch_pool h)\<rparr>"

text \<open>\<open>fresh\<close> is the address that \<open>new\<close> gives.\<close>

definition get_downstream_connection :: "nat \<Rightarrow> ClientHandler \<Rightarrow> nat \<times> ClientHandler" where
  "get_downstream_connection fresh h =
     (case ch_pool h of
        [] \<Rightarrow> (fresh, h\<lparr>ch_conns := (ch_conns h)(fresh \<mapsto> \<lparr>dc_bev = None, dc_downstream = None\<rparr>)\<rparr>)
      | dconn # _ \<Rightarrow> (dconn, remove_downstream_connection dconn h))"

section \<open>Connections\<close>

definition downstream_set_connection :: "nat \<Rightarrow> nat option \<Rightarrow> ClientHandler \<Rightarrow> ClientHandler option" where
  "downstream_set_connection d dconn h =
     (case ch_downs h d of None \<Rightarrow> None | Some _ \<Rightarrow> Some (h\<lparr>ch_downs := (ch_downs h)(d \<mapsto> dconn)\<rparr>))"

text \<open>The destructor of a connection.\<close>

definition delete_connection :: "nat \<Rightarrow> ClientHandler \<Rightarrow> ClientHandler option" where
  "delete_connection c h =
     (case ch_conns h c of
        None \<Rightarrow> None
      | Some dconn \<Rightarrow>
          map_option (\<lambda>h1. h1\<lparr>ch_conns := (ch_conns h1)(c := None)\<rparr>)
            (case dc_downstream dconn of None \<Rightarrow> Some h | Some d \<Rightarrow> downstream_set_connection d None h))"

text \<open>\<open>connected\<close> is the outcome of \<open>bufferevent_socket_connect\<close>, which is called for a new connection.\<close>

definition dconn_attach_downstream :: "bool \<Rightarrow> nat \<Rightarrow> nat \<Rightarrow> ClientHandler \<Rightarrow> (int \<times> ClientHandler) option" where
  "dconn_attach_downstream connected d c h =
     (case ch_conns h c of
        None \<Rightarrow> None
      | Some dconn \<Rightarrow>
          if dc_bev dconn = None \<and> \<not> connected then Some (SHRPX_ERR_NETWORK, h)
          else map_option (\<lambda>h1. (0, h1\<lparr>ch_conns := (ch_conns h1)(c \<mapsto> \<lparr>dc_bev = Some UpstreamCallbacks, dc_downstream = Some d\<rparr>)\<rparr>))
                 (downstream_set_connection d (Some c) h))"

definition dconn_detach_downstream :: "nat \<Rightarrow> nat \<Rightarrow> ClientHandler \<Rightarrow> ClientHandler option" where
  "dconn_detach_downstream d c h =
     (case ch_conns h c of
        None \<Rightarrow> None
      | Some dconn \<Rightarrow>
          if dc_bev dconn = None then None
          else map_option (\<lambda>h1. pool_downstream_connection c
                 (h1\<lparr>ch_conns := (ch_conns h1)(c \<mapsto> \<lparr>dc_bev = Some IdleCallbacks, dc_downstream = None\<rparr>)\<rparr>))
                 (downstream_set_connection d None h))"

definition idle_eventcb :: "bool \<Rightarrow> nat \<Rightarrow> ClientHandler \<Rightarrow> ClientHandler option" where
  "idle_eventcb bev_event_connected c h =
     (if bev_event_connected then Some h else delete_connection c (remove_downstream_connection c h))"

text \<open>The destructors of a downstream and of the handler.\<close>

definition delete_downstream_object :: "nat \<Rightarrow> ClientHandler \<Rightarrow> ClientHandler option" where
  "delete_downstream_object d h =
     (case ch_downs h d of
        None \<Rightarrow> None
      | Some dconn \<Rightarrow>
          map_option (\<lambda>h1. h1\<lparr>ch_downs := (ch_downs h1)(d := None)\<rparr>)
            (case dconn of None \<Rightarrow> Some h | Some c \<Rightarrow> delete_connection c h))"

fun delete_all :: "(nat \<Rightarrow> ClientHandler \<Rightarrow> ClientHandler option) \<Rightarrow> nat list \<Rightarrow> ClientHandler \<Rightarrow> ClientHandler option" where
  "delete_all del [] h = Some h"
| "delete_all del (x # xs) h = Option.bind (del x h) (delete_all del xs)"

definition delete_handler :: "ClientHandler \<Rightarrow> ClientHandler option" where
  "delete_handler h =
     Option.bind (delete_all delete_downstream_object (ch_queue h) h) (\<lambda>h1. delete_all delete_connection (ch_pool h1) h1)"

section \<open>What the upstreams do with them\<close>

text \<open>
  A request arrives: a new downstream is put into the container and attached to a connection. When
  that fails, \<open>HttpsUpstream\<close> deletes the connection and \<open>SpdyUpstream\<close> does not.
\<close>

definition new_request :: "bool \<Rightarrow> bool \<Rightarrow> nat \<Rightarrow> nat \<Rightarrow> ClientHandler \<Rightarrow> ClientHandler option" where
  "new_request https connected d fresh h =
     (case get_downstream_connection fresh (h\<lparr>ch_downs := (ch_downs h)(d \<mapsto> None), ch_queue := ch_queue h @ [d]\<rparr>) of (c, h1) \<Rightarrow>
        (case dconn_attach_downstream connected d c h1 of
           None \<Rightarrow> None
         | Some (rv, h2) \<Rightarrow>
             if rv \<noteq> 0 \<and> https then Option.bind (downstream_set_connection d None h2) (delete_connection c) else Some h2))"

text \<open>The connection of a downstream ends in an error or is not kept alive.\<close>

definition drop_connection :: "nat \<Rightarrow> ClientHandler \<Rightarrow> ClientHandler option" where
  "drop_connection c h =
     Option.bind (ch_conns h c) (\<lambda>dconn. Option.bind (dc_downstream dconn) (\<lambda>d.
       Option.bind (downstream_set_connection d None h) (delete_connection c)))"

definition remove_and_delete :: "nat \<Rightarrow> ClientHandler \<Rightarrow> ClientHandler option" where
  "remove_and_delete d h = delete_downstream_object d (h\<lparr>ch_queue := remove1 d (ch_queue h)\<rparr>)"

text \<open>A downstream is done with; its connection, if there is one, may be kept alive.\<close>

definition release_connection :: "nat \<Rightarrow> ClientHandler \<Rightarrow> ClientHandler option" where
  "release_connection d h =
     Option.bind (ch_downs h d) (\<lambda>dconn. case dconn of None \<Rightarrow> Some h | Some c \<Rightarrow> dconn_detach_downstream d c h)"

definition stream_closed :: "bool \<Rightarrow> nat \<Rightarrow> ClientHandler \<Rightarrow> ClientHandler option" where
  "stream_closed keep_alive d h =
     (if keep_alive then Option.bind (release_connection d h) (remove_and_delete d) else remove_and_delete d h)"

section \<open>Callbacks of the client's connection\<close>

text \<open>
  The protocol of the client, from what the negotiation left. \<open>on_read\<close> and \<open>on_write\<close> are the methods of the
  upstream, with their return value; \<open>Deleted\<close> is the end of the handler.
\<close>

definition validate_next_proto :: "bytes option \<Rightarrow> ClientHandler \<Rightarrow> ClientHandler" where
  "validate_next_proto next_proto h =
     (let version = spdylay_npn_get_version next_proto in
      h\<lparr>ch_upstream := Some (if next_proto \<noteq> None \<and> version \<noteq> 0 then SpdyUp version else HttpsUp)\<rparr>)"

datatype handler_result = Alive ClientHandler | Deleted ClientHandler

type_synonym upstream_method = "upstream_kind \<Rightarrow> ClientHandler \<Rightarrow> (int \<times> ClientHandler) option"

definition ending :: "ClientHandler \<Rightarrow> handler_result option" where
  "ending h = map_option Deleted (delete_handler h)"

definition call_upstream :: "upstream_method \<Rightarrow> ClientHandler \<Rightarrow> (int \<times> ClientHandler) option" where
  "call_upstream f h = Option.bind (ch_upstream h) (\<lambda>up. f up h)"

definition upstream_readcb :: "upstream_method \<Rightarrow> ClientHandler \<Rightarrow> handler_result option" where
  "upstream_readcb on_read h =
     Option.bind (call_upstream on_read h) (\<lambda>(rv, h1). if rv \<noteq> 0 then ending h1 else Some (Alive h1))"

definition upstream_writecb :: "upstream_method \<Rightarrow> ClientHandler \<Rightarrow> handler_result option" where
  "upstream_writecb on_write h =
     (if ch_should_close_after_write h then ending h
      else Option.bind (call_upstream on_write h) (\<lambda>(rv, h1). if rv \<noteq> 0 then ending h1 else Some (Alive h1)))"

text \<open>\<open>finish\<close> says that there is one of the events EOF, error and timeout. The result of the first \<open>on_read\<close> is not looked at.\<close>

definition upstream_eventcb ::
    "upstream_method \<Rightarrow> bytes option \<Rightarrow> bool \<Rightarrow> bool \<Rightarrow> ClientHandler \<Rightarrow> handler_result option" where
  "upstream_eventcb on_read next_proto finish connected h =
     (if finish then ending h
      else if connected
      then Option.bind (call_upstream on_read (validate_next_proto next_proto h)) (\<lambda>(rv, h1). Some (Alive h1))
      else Some (Alive h))"

section \<open>The protocols the proxy offers\<close>

text \<open>Writing into \<open>proto_list\<close> at \<open>ptr\<close>; outside of it there is no result.\<close>

fun set_npn_prefs :: "bytes \<Rightarrow> nat \<Rightarrow> cstr list \<Rightarrow> bytes option" where
  "set_npn_prefs out ptr [] = Some out"
| "set_npn_prefs out ptr (proto # protos) =
     (let n = unat (of_nat (length proto) :: u8) in
      if ptr + 1 + n \<le> length out \<and> n \<le> length proto
      then set_npn_prefs (take ptr out @ (of_nat (length proto) :: u8) # take n proto @ drop (ptr + 1 + n) out) (ptr + 1 + n) protos
      else None)"

definition shrpx_protos :: "cstr list" where
  "shrpx_protos = [lit ''spdy/3'', lit ''spdy/2'', lit ''http/1.1'']"

definition proto_list :: "bytes option" where
  "proto_list = set_npn_prefs (replicate 23 0) 0 shrpx_protos"

section \<open>The invariant of the store\<close>

text \<open>
  What can happen to the connections of a handler: a request, the end of a connection that is in use,
  a response that is complete while the request is not, the end of a stream, and an event on an idle
  connection. Callbacks run on a bufferevent that has them; \<open>new\<close> gives addresses that are not in use.
\<close>

datatype conn_event = NewRequest bool bool nat nat | BackendGone nat | KeepAlive nat | StreamClosed bool nat | IdleEvent bool nat

fun conn_exec :: "conn_event \<Rightarrow> ClientHandler \<Rightarrow> ClientHandler option" where
  "conn_exec (NewRequest https connected d fresh) h = new_request https connected d fresh h"
| "conn_exec (BackendGone c) h = drop_connection c h"
| "conn_exec (KeepAlive d) h = release_connection d h"
| "conn_exec (StreamClosed keep_alive d) h = stream_closed keep_alive d h"
| "conn_exec (IdleEvent connected c) h = idle_eventcb connected c h"

definition has_callbacks :: "bev_callbacks \<Rightarrow> nat \<Rightarrow> ClientHandler \<Rightarrow> bool" where
  "has_callbacks cb c h \<longleftrightarrow> (case ch_conns h c of None \<Rightarrow> False | Some dconn \<Rightarrow> dc_bev dconn = Some cb)"

fun conn_enabled :: "conn_event \<Rightarrow> ClientHandler \<Rightarrow> bool" where
  "conn_enabled (NewRequest https connected d fresh) h \<longleftrightarrow> ch_downs h d = None \<and> ch_conns h fresh = None"
| "conn_enabled (BackendGone c) h \<longleftrightarrow> has_callbacks UpstreamCallbacks c h"
| "conn_enabled (KeepAlive d) h \<longleftrightarrow> d \<in> set (ch_queue h)"
| "conn_enabled (StreamClosed keep_alive d) h \<longleftrightarrow> d \<in> set (ch_queue h)"
| "conn_enabled (IdleEvent connected c) h \<longleftrightarrow> has_callbacks IdleCallbacks c h"

inductive conn_reach :: "ClientHandler \<Rightarrow> bool" where
  new: "conn_reach ClientHandler_new"
| event: "conn_reach h \<Longrightarrow> conn_enabled ev h \<Longrightarrow> conn_exec ev h = Some h' \<Longrightarrow> conn_reach h'"

text \<open>
  Connections and downstreams point at each other; a connection has the callbacks of the upstream just
  when it has a downstream, and \<open>idle_eventcb\<close> just when it is in the pool.
\<close>

definition conn_down :: "(nat \<rightharpoonup> DownstreamConnection) \<Rightarrow> nat \<Rightarrow> nat option" where
  "conn_down conns c = Option.bind (conns c) dc_downstream"

definition linked :: "(nat \<rightharpoonup> DownstreamConnection) \<Rightarrow> (nat \<rightharpoonup> nat option) \<Rightarrow> bool" where
  "linked conns downs \<longleftrightarrow> (\<forall>c d. conn_down conns c = Some d \<longleftrightarrow> downs d = Some (Some c))"

definition classified :: "nat set \<Rightarrow> nat \<Rightarrow> DownstreamConnection option \<Rightarrow> bool" where
  "classified pool c x \<longleftrightarrow>
     (Option.bind x dc_bev = Some UpstreamCallbacks \<longleftrightarrow> Option.bind x dc_downstream \<noteq> None) \<and>
     (Option.bind x dc_bev = Some IdleCallbacks \<longleftrightarrow> c \<in> pool)"

definition conn_inv :: "ClientHandler \<Rightarrow> bool" where
  "conn_inv h \<longleftrightarrow> linked (ch_conns h) (ch_downs h) \<and> (\<forall>c. classified (set (ch_pool h)) c (ch_conns h c)) \<and>
     distinct (ch_pool h) \<and> sorted (ch_pool h) \<and> distinct (ch_queue h) \<and> dom (ch_downs h) = set (ch_queue h)"

lemma conn_down_upd [simp]: "conn_down (m(c := x)) = (conn_down m)(c := Option.bind x dc_downstream)"
  by (auto simp: conn_down_def)

lemma linkedD: "linked m n \<Longrightarrow> conn_down m c = Some d \<longleftrightarrow> n d = Some (Some c)"
  by (simp add: linked_def)

lemma linked_unlink:
  assumes "linked m n" "n d = Some (Some c)" "Option.bind x dc_downstream = None" "y = None \<or> y = Some None"
  shows "linked (m(c := x)) (n(d := y))"
  unfolding linked_def
proof (intro allI)
  fix c' d'
  show "conn_down (m(c := x)) c' = Some d' \<longleftrightarrow> (n(d := y)) d' = Some (Some c')"
    using assms(2-) linkedD [OF assms(1), of c' d'] linkedD [OF assms(1), of c d'] linkedD [OF assms(1), of c' d] linkedD [OF assms(1), of c d]
    by auto
qed

lemma linked_free:
  assumes "linked m n" "conn_down m c = None" "Option.bind x dc_downstream = None"
  shows "linked (m(c := x)) n"
  unfolding linked_def
proof (intro allI)
  fix c' d'
  show "conn_down (m(c := x)) c' = Some d' \<longleftrightarrow> n d' = Some (Some c')"
    using assms(2-) linkedD [OF assms(1), of c' d'] linkedD [OF assms(1), of c d'] by auto
qed

lemma linked_downs:
  assumes "linked m n" "n d = None \<or> n d = Some None" "y = None \<or> y = Some None"
  shows "linked m (n(d := y))"
  unfolding linked_def
proof (intro allI)
  fix c' d'
  show "conn_down m c' = Some d' \<longleftrightarrow> (n(d := y)) d' = Some (Some c')"
    using assms(2-) linkedD [OF assms(1), of c' d'] linkedD [OF assms(1), of c' d] by auto
qed

lemma linked_link:
  assumes "linked m n" "conn_down m c = None" "n d = Some None" "Option.bind x dc_downstream = Some d"
  shows "linked (m(c := x)) (n(d \<mapsto> Some c))"
  unfolding linked_def
proof (intro allI)
  fix c' d'
  show "conn_down (m(c := x)) c' = Some d' \<longleftrightarrow> (n(d \<mapsto> Some c)) d' = Some (Some c')"
    using assms(2-) linkedD [OF assms(1), of c' d'] linkedD [OF assms(1), of c d'] linkedD [OF assms(1), of c' d] linkedD [OF assms(1), of c d]
    by auto
qed

lemma classified_upd:
  assumes "\<forall>c. classified P c (m c)" "classified P' c x" "P' - {c} = P - {c}"
  shows "\<forall>k. classified P' k ((m(c := x)) k)"
proof
  fix k
  show "classified P' k ((m(c := x)) k)"
  proof (cases "k = c")
    case False
    then have "k \<in> P' \<longleftrightarrow> k \<in> P" using assms(3) by blast
    with False assms(1) show ?thesis by (simp add: classified_def)
  qed (simp add: assms(2))
qed

lemma classified_None [simp]: "classified P c None \<longleftrightarrow> c \<notin> P"
  by (simp add: classified_def)

lemma queue_downs: "conn_inv h \<Longrightarrow> d \<in> set (ch_queue h) \<Longrightarrow> \<exists>x. ch_downs h d = Some x"
  unfolding conn_inv_def by (metis domD)

lemma conn_inv_link:
  assumes "conn_inv h" "ch_downs h d = Some (Some c)"
  obtains dconn where "ch_conns h c = Some dconn" "dc_downstream dconn = Some d" "dc_bev dconn = Some UpstreamCallbacks" "c \<notin> set (ch_pool h)"
proof -
  have "conn_down (ch_conns h) c = Some d" using assms by (simp add: conn_inv_def linked_def)
  then obtain dconn where c: "ch_conns h c = Some dconn" "dc_downstream dconn = Some d" by (auto simp: conn_down_def bind_eq_Some_conv)
  have "classified (set (ch_pool h)) c (Some dconn)" using assms(1) c(1) unfolding conn_inv_def by metis
  with c that show thesis by (auto simp: classified_def)
qed

lemma downstream_set_connection_Some:
  "ch_downs h d = Some y \<Longrightarrow> downstream_set_connection d x h = Some (h\<lparr>ch_downs := (ch_downs h)(d \<mapsto> x)\<rparr>)"
  by (simp add: downstream_set_connection_def)

text \<open>Deleting a connection: one that is in use, with the pointer of its downstream, and one that is not.\<close>

lemma delete_used_inv:
  assumes "conn_inv h" "ch_downs h d = Some (Some c)"
  shows "\<exists>h'. delete_connection c h = Some h' \<and> Option.bind (downstream_set_connection d None h) (delete_connection c) = Some h' \<and>
    conn_inv h' \<and> h' = h\<lparr>ch_downs := (ch_downs h)(d \<mapsto> None), ch_conns := (ch_conns h)(c := None)\<rparr>"
proof -
  obtain dconn where c: "ch_conns h c = Some dconn" "dc_downstream dconn = Some d" "c \<notin> set (ch_pool h)"
    using conn_inv_link [OF assms] by blast
  have "linked ((ch_conns h)(c := None)) ((ch_downs h)(d \<mapsto> None))"
    using assms by (intro linked_unlink) (auto simp: conn_inv_def)
  moreover have "\<forall>k. classified (set (ch_pool h)) k (((ch_conns h)(c := None)) k)"
    using assms(1) c(3) by (intro classified_upd [of "set (ch_pool h)"]) (auto simp: conn_inv_def)
  ultimately show ?thesis
    using assms c by (auto simp: delete_connection_def downstream_set_connection_def conn_inv_def)
qed

lemma delete_unused_inv:
  assumes "conn_inv h" "ch_conns h c = Some dconn" "dc_downstream dconn = None"
  shows "\<exists>h'. delete_connection c (remove_downstream_connection c h) = Some h' \<and> conn_inv h' \<and>
    h' = h\<lparr>ch_pool := remove1 c (ch_pool h), ch_conns := (ch_conns h)(c := None)\<rparr>"
proof -
  have "linked ((ch_conns h)(c := None)) (ch_downs h)"
    using assms by (intro linked_free) (auto simp: conn_inv_def conn_down_def)
  moreover have "\<forall>k. classified (set (ch_pool h) - {c}) k (((ch_conns h)(c := None)) k)"
    using assms(1) by (intro classified_upd [of "set (ch_pool h)"]) (auto simp: conn_inv_def)
  ultimately show ?thesis
    using assms by (auto simp: delete_connection_def remove_downstream_connection_def conn_inv_def sorted_remove1 simp del: fun_upd_apply)
qed

lemma has_callbacks_bind: "has_callbacks cb c h \<longleftrightarrow> Option.bind (ch_conns h c) dc_bev = Some cb"
  by (cases "ch_conns h c") (simp_all add: has_callbacks_def)

lemma attached_down:
  assumes "conn_inv h" "has_callbacks UpstreamCallbacks c h"
  obtains dconn d where "ch_conns h c = Some dconn" "dc_downstream dconn = Some d" "ch_downs h d = Some (Some c)"
proof -
  obtain dconn where c: "ch_conns h c = Some dconn" "dc_bev dconn = Some UpstreamCallbacks"
    using assms(2) by (auto simp: has_callbacks_def split: option.split_asm)
  then have "classified (set (ch_pool h)) c (Some dconn)" using assms(1) unfolding conn_inv_def by metis
  then obtain d where d: "dc_downstream dconn = Some d" using c(2) by (auto simp: classified_def)
  then have "ch_downs h d = Some (Some c)" using assms(1) c(1) linkedD [of "ch_conns h" "ch_downs h" c d] by (simp add: conn_inv_def conn_down_def)
  with that c d show thesis by blast
qed

lemma idle_down:
  assumes "conn_inv h" "has_callbacks IdleCallbacks c h \<or> c \<in> set (ch_pool h)"
  obtains dconn where "ch_conns h c = Some dconn" "dc_downstream dconn = None" "dc_bev dconn = Some IdleCallbacks"
proof -
  have cl: "classified (set (ch_pool h)) c (ch_conns h c)" using assms(1) by (simp add: conn_inv_def)
  with assms(2) obtain dconn where c: "ch_conns h c = Some dconn" "dc_bev dconn = Some IdleCallbacks"
    by (cases "ch_conns h c") (auto simp: has_callbacks_def classified_def)
  with cl have "dc_downstream dconn = None" by (simp add: classified_def)
  with c that show thesis by blast
qed

lemma release_inv:
  assumes "conn_inv h" "d \<in> set (ch_queue h)"
  shows "\<exists>h'. release_connection d h = Some h' \<and> conn_inv h' \<and> ch_queue h' = ch_queue h \<and> ch_downs h' d = Some None"
proof -
  obtain x where x: "ch_downs h d = Some x" using queue_downs [OF assms] by blast
  show ?thesis
  proof (cases x)
    case None
    with x assms show ?thesis by (simp add: release_connection_def)
  next
    case (Some c)
    with x have "ch_downs h d = Some (Some c)" by simp
    then obtain dconn where c: "ch_conns h c = Some dconn" "dc_bev dconn \<noteq> None"
      using conn_inv_link [OF assms(1)] by (metis option.distinct(1))
    define dc where "dc = \<lparr>dc_bev = Some IdleCallbacks, dc_downstream = None\<rparr>"
    have "linked ((ch_conns h)(c \<mapsto> dc)) ((ch_downs h)(d \<mapsto> None))"
      using assms(1) x Some by (intro linked_unlink) (auto simp: conn_inv_def dc_def)
    moreover have "\<forall>k. classified (insert c (set (ch_pool h))) k (((ch_conns h)(c \<mapsto> dc)) k)"
      using assms(1) by (intro classified_upd [of "set (ch_pool h)"]) (auto simp: conn_inv_def dc_def classified_def)
    ultimately have "conn_inv (pool_downstream_connection c
        (h\<lparr>ch_downs := (ch_downs h)(d \<mapsto> None), ch_conns := (ch_conns h)(c \<mapsto> dc)\<rparr>))"
      using assms x
      by (auto simp: pool_downstream_connection_def conn_inv_def set_insort_insert distinct_insort_insert sorted_insort_insert)
    then show ?thesis
      using x Some c by (simp add: release_connection_def dconn_detach_downstream_def downstream_set_connection_Some dc_def pool_downstream_connection_def)
  qed
qed

lemma remove_and_delete_inv:
  assumes "conn_inv h" "d \<in> set (ch_queue h)"
  shows "\<exists>h'. remove_and_delete d h = Some h' \<and> conn_inv h' \<and> ch_queue h' = remove1 d (ch_queue h)"
proof -
  have gone: "conn_inv (k\<lparr>ch_queue := remove1 d (ch_queue k), ch_downs := (ch_downs k)(d := None)\<rparr>)"
    if "conn_inv k" "ch_downs k d = Some None" for k
  proof -
    have "linked (ch_conns k) ((ch_downs k)(d := None))" using that by (intro linked_downs) (auto simp: conn_inv_def)
    then show ?thesis using that(1) by (auto simp: conn_inv_def)
  qed
  obtain x where x: "ch_downs h d = Some x" using queue_downs [OF assms] by blast
  show ?thesis
  proof (cases x)
    case None
    from gone [OF assms(1)] x None show ?thesis by (simp add: remove_and_delete_def delete_downstream_object_def)
  next
    case (Some c)
    then obtain h1 where h1: "delete_connection c h = Some h1" "conn_inv h1"
        "h1 = h\<lparr>ch_downs := (ch_downs h)(d \<mapsto> None), ch_conns := (ch_conns h)(c := None)\<rparr>"
      using delete_used_inv [OF assms(1), of d c] x by blast
    have "delete_connection c (h\<lparr>ch_queue := q\<rparr>) = map_option (\<lambda>h'. h'\<lparr>ch_queue := q\<rparr>) (delete_connection c h)" for q
      by (auto simp: delete_connection_def downstream_set_connection_def split: option.split)
    with x Some h1(1) gone [OF h1(2)] show ?thesis
      by (simp add: remove_and_delete_def delete_downstream_object_def h1(3))
  qed
qed

lemma link_inv:
  assumes "conn_inv h" "conn_down (ch_conns h) c = None" "ch_downs h d = Some None"
  shows "conn_inv (h\<lparr>ch_pool := remove1 c (ch_pool h), ch_downs := (ch_downs h)(d \<mapsto> Some c),
    ch_conns := (ch_conns h)(c \<mapsto> \<lparr>dc_bev = Some UpstreamCallbacks, dc_downstream = Some d\<rparr>)\<rparr>)"
proof -
  define dc where "dc = \<lparr>dc_bev = Some UpstreamCallbacks, dc_downstream = Some d\<rparr>"
  have "linked ((ch_conns h)(c \<mapsto> dc)) ((ch_downs h)(d \<mapsto> Some c))"
    using assms by (intro linked_link) (auto simp: conn_inv_def dc_def)
  moreover have "\<forall>k. classified (set (ch_pool h) - {c}) k (((ch_conns h)(c \<mapsto> dc)) k)"
    using assms(1) by (intro classified_upd [of "set (ch_pool h)"]) (auto simp: conn_inv_def dc_def classified_def)
  ultimately show ?thesis
    using assms(1,3) unfolding dc_def [symmetric] by (auto simp: conn_inv_def sorted_remove1)
qed

lemma add_downstream_inv:
  assumes "conn_inv h" "ch_downs h d = None"
  shows "conn_inv (h\<lparr>ch_downs := (ch_downs h)(d \<mapsto> None), ch_queue := ch_queue h @ [d]\<rparr>)"
proof -
  have "linked (ch_conns h) ((ch_downs h)(d \<mapsto> None))" using assms by (intro linked_downs) (auto simp: conn_inv_def)
  moreover have "d \<notin> set (ch_queue h)" using assms by (auto simp: conn_inv_def)
  ultimately show ?thesis using assms(1) by (auto simp: conn_inv_def)
qed

lemma new_connection_inv:
  assumes "conn_inv h" "ch_conns h c = None"
  shows "conn_inv (h\<lparr>ch_conns := (ch_conns h)(c \<mapsto> \<lparr>dc_bev = None, dc_downstream = None\<rparr>)\<rparr>)" "c \<notin> set (ch_pool h)"
proof -
  have "classified (set (ch_pool h)) c None" using assms unfolding conn_inv_def by metis
  then show c: "c \<notin> set (ch_pool h)" by simp
  have "linked ((ch_conns h)(c \<mapsto> \<lparr>dc_bev = None, dc_downstream = None\<rparr>)) (ch_downs h)"
    using assms by (intro linked_free) (auto simp: conn_inv_def conn_down_def)
  moreover have "\<forall>k. classified (set (ch_pool h)) k (((ch_conns h)(c \<mapsto> \<lparr>dc_bev = None, dc_downstream = None\<rparr>)) k)"
    using assms(1) c by (intro classified_upd [of "set (ch_pool h)"]) (auto simp: conn_inv_def classified_def)
  ultimately show "conn_inv (h\<lparr>ch_conns := (ch_conns h)(c \<mapsto> \<lparr>dc_bev = None, dc_downstream = None\<rparr>)\<rparr>)"
    using assms(1) by (simp add: conn_inv_def)
qed

lemma new_request_inv:
  assumes "conn_inv h" "ch_downs h d = None" "ch_conns h fresh = None"
  shows "\<exists>h'. new_request https connected d fresh h = Some h' \<and> conn_inv h'"
proof -
  define h0 where "h0 = h\<lparr>ch_downs := (ch_downs h)(d \<mapsto> None), ch_queue := ch_queue h @ [d]\<rparr>"
  have h0: "conn_inv h0" "ch_downs h0 d = Some None" "ch_conns h0 = ch_conns h" "ch_pool h0 = ch_pool h"
    using add_downstream_inv [OF assms(1,2)] by (simp_all add: h0_def)
  show ?thesis
  proof (cases "ch_pool h")
    case Nil
    define h1 where "h1 = h0\<lparr>ch_conns := (ch_conns h0)(fresh \<mapsto> \<lparr>dc_bev = None, dc_downstream = None\<rparr>)\<rparr>"
    have h1: "conn_inv h1" "ch_downs h1 d = Some None" "fresh \<notin> set (ch_pool h1)"
      "ch_conns h1 fresh = Some \<lparr>dc_bev = None, dc_downstream = None\<rparr>" "conn_down (ch_conns h1) fresh = None"
      using new_connection_inv [OF h0(1), of fresh] h0(2-4) assms(3) by (simp_all add: h1_def)
    have get: "get_downstream_connection fresh h0 = (fresh, h1)"
      using Nil h0(4) by (simp add: get_downstream_connection_def h1_def)
    have "downstream_set_connection d None h1 = Some h1"
      using h1(2) by (simp add: downstream_set_connection_def fun_upd_idem)
    with delete_unused_inv [OF h1(1,4)] h1(3) have "\<exists>h'. Option.bind (downstream_set_connection d None h1) (delete_connection fresh) = Some h' \<and> conn_inv h'"
      by (auto simp: remove_downstream_connection_def remove1_idem)
    moreover have "conn_inv (h1\<lparr>ch_downs := (ch_downs h1)(d \<mapsto> Some fresh),
        ch_conns := (ch_conns h1)(fresh \<mapsto> \<lparr>dc_bev = Some UpstreamCallbacks, dc_downstream = Some d\<rparr>)\<rparr>)"
      using link_inv [OF h1(1,5,2)] h1(3) by (simp add: remove1_idem)
    ultimately show ?thesis
      using h1(1,2,4) by (cases connected) (auto simp: new_request_def get h0_def [symmetric] dconn_attach_downstream_def
          downstream_set_connection_Some SHRPX_ERR_NETWORK_def)
  next
    case (Cons c cs)
    define h1 where "h1 = remove_downstream_connection c h0"
    obtain dconn where c: "ch_conns h0 c = Some dconn" "dc_downstream dconn = None" "dc_bev dconn = Some IdleCallbacks"
      by (rule idle_down [OF h0(1), of c]) (simp_all add: h0(4) Cons)
    have "get_downstream_connection fresh h0 = (c, h1)"
      using Cons h0(4) by (simp add: get_downstream_connection_def h1_def)
    moreover have "conn_inv (h1\<lparr>ch_downs := (ch_downs h1)(d \<mapsto> Some c),
        ch_conns := (ch_conns h1)(c \<mapsto> \<lparr>dc_bev = Some UpstreamCallbacks, dc_downstream = Some d\<rparr>)\<rparr>)"
      using link_inv [OF h0(1) _ h0(2), of c] c by (simp add: h1_def remove_downstream_connection_def conn_down_def)
    moreover have "ch_downs h1 d = Some None" "ch_conns h1 c = Some dconn"
      using h0(2) c(1) by (simp_all add: h1_def remove_downstream_connection_def)
    ultimately show ?thesis
      using c(3) by (auto simp: new_request_def h0_def [symmetric] dconn_attach_downstream_def downstream_set_connection_Some)
  qed
qed

text \<open>Every event finds what it needs and keeps the invariant.\<close>

lemma conn_step_inv:
  assumes "conn_inv h" "conn_enabled ev h"
  shows "\<exists>h'. conn_exec ev h = Some h' \<and> conn_inv h'"
proof (cases ev)
  case (NewRequest https connected d fresh)
  with assms new_request_inv show ?thesis by simp
next
  case (BackendGone c)
  with assms obtain dconn d where c: "ch_conns h c = Some dconn" "dc_downstream dconn = Some d" "ch_downs h d = Some (Some c)"
    by (auto elim: attached_down)
  with delete_used_inv [OF assms(1) c(3)] BackendGone show ?thesis by (auto simp: drop_connection_def)
next
  case (KeepAlive d)
  with assms release_inv show ?thesis by fastforce
next
  case (StreamClosed keep_alive d)
  with assms have d: "d \<in> set (ch_queue h)" by simp
  obtain h1 where h1: "release_connection d h = Some h1" "conn_inv h1" "ch_queue h1 = ch_queue h"
    using release_inv [OF assms(1) d] by blast
  then show ?thesis
    using StreamClosed remove_and_delete_inv [OF assms(1) d] remove_and_delete_inv [OF h1(2), of d] d
    by (auto simp: stream_closed_def)
next
  case (IdleEvent connected c)
  with assms obtain dconn where "ch_conns h c = Some dconn" "dc_downstream dconn = None" by (auto elim: idle_down)
  with delete_unused_inv [OF assms(1)] IdleEvent assms(1) show ?thesis by (auto simp: idle_eventcb_def)
qed

lemma conn_reach_inv: "conn_reach h \<Longrightarrow> conn_inv h"
proof (induction rule: conn_reach.induct)
  case new
  then show ?case by (simp add: conn_inv_def ClientHandler_new_def linked_def conn_down_def)
next
  case (event h ev h')
  with conn_step_inv show ?case by fastforce
qed

section \<open>The end of a handler\<close>

lemma delete_ignores_lists:
  "delete_connection c (h\<lparr>ch_pool := p\<rparr>) = map_option (\<lambda>h'. h'\<lparr>ch_pool := p\<rparr>) (delete_connection c h)"
  "delete_connection c (h\<lparr>ch_queue := q\<rparr>) = map_option (\<lambda>h'. h'\<lparr>ch_queue := q\<rparr>) (delete_connection c h)"
  "delete_downstream_object d (h\<lparr>ch_queue := q\<rparr>) = map_option (\<lambda>h'. h'\<lparr>ch_queue := q\<rparr>) (delete_downstream_object d h)"
  by (auto simp: delete_connection_def delete_downstream_object_def downstream_set_connection_def split: option.split)

lemma remove_and_delete_pool:
  assumes "remove_and_delete d h = Some h'"
  shows "ch_pool h' = ch_pool h"
  using assms
  by (auto simp: remove_and_delete_def delete_downstream_object_def delete_connection_def downstream_set_connection_def split: option.split_asm)

lemma delete_downstreams:
  assumes "conn_inv h"
  shows "\<exists>h'. delete_all delete_downstream_object (ch_queue h) (h\<lparr>ch_queue := q\<rparr>) = Some (h'\<lparr>ch_queue := q\<rparr>) \<and>
    conn_inv h' \<and> ch_queue h' = [] \<and> ch_pool h' = ch_pool h"
  using assms
proof (induction "ch_queue h" arbitrary: h)
  case Nil
  then show ?case by (metis delete_all.simps(1))
next
  case (Cons d ds)
  then obtain h1 where h1: "remove_and_delete d h = Some h1" "conn_inv h1" "ch_queue h1 = ds"
    using remove_and_delete_inv [of h d] by (metis list.set_intros(1) remove1.simps(2))
  have "delete_downstream_object d (h\<lparr>ch_queue := q\<rparr>) = Some (h1\<lparr>ch_queue := q\<rparr>)"
    using h1(1) by (auto simp: remove_and_delete_def delete_ignores_lists(3))
  with Cons.hyps(1) [of h1] h1(2,3) remove_and_delete_pool [OF h1(1)] show ?case
    by (auto simp flip: Cons.hyps(2))
qed

lemma delete_pool:
  assumes "conn_inv h"
  shows "\<exists>h'. delete_all delete_connection (ch_pool h) (h\<lparr>ch_pool := p\<rparr>) = Some (h'\<lparr>ch_pool := p\<rparr>) \<and>
    conn_inv h' \<and> ch_pool h' = [] \<and> ch_queue h' = ch_queue h"
  using assms
proof (induction "ch_pool h" arbitrary: h)
  case Nil
  then show ?case by (metis delete_all.simps(1))
next
  case (Cons c cs)
  obtain dconn where c: "ch_conns h c = Some dconn" "dc_downstream dconn = None"
    by (rule idle_down [OF Cons.prems, of c]) (simp_all flip: Cons.hyps(2))
  obtain h1 where h1: "delete_connection c (remove_downstream_connection c h) = Some h1" "conn_inv h1"
      "h1 = h\<lparr>ch_pool := remove1 c (ch_pool h), ch_conns := (ch_conns h)(c := None)\<rparr>"
    using delete_unused_inv [OF Cons.prems c] by blast
  have "delete_connection c (h\<lparr>ch_pool := p\<rparr>) = Some (h1\<lparr>ch_pool := p\<rparr>)"
    using h1(1) by (auto simp: remove_downstream_connection_def delete_ignores_lists(1))
  with Cons.hyps(1) [of h1] h1(2,3) show ?case by (auto simp flip: Cons.hyps(2))
qed

lemma handler_end:
  assumes "conn_inv h"
  shows "\<exists>h'. delete_handler h = Some h' \<and> ch_downs h' = Map.empty \<and>
    (\<forall>c dconn. ch_conns h' c = Some dconn \<longrightarrow> dc_bev dconn = None \<and> dc_downstream dconn = None)"
proof -
  obtain h1 where h1: "delete_all delete_downstream_object (ch_queue h) h = Some (h1\<lparr>ch_queue := ch_queue h\<rparr>)"
      "conn_inv h1" "ch_queue h1 = []"
    using delete_downstreams [OF assms, of "ch_queue h"] by auto
  obtain h2 where h2: "delete_all delete_connection (ch_pool h1) h1 = Some (h2\<lparr>ch_pool := ch_pool h1\<rparr>)"
      "conn_inv h2" "ch_pool h2 = []" "ch_queue h2 = []"
    using delete_pool [OF h1(2), of "ch_pool h1"] h1(3) by auto
  have ignores: "delete_all delete_connection cs (k\<lparr>ch_queue := q\<rparr>) = map_option (\<lambda>h'. h'\<lparr>ch_queue := q\<rparr>) (delete_all delete_connection cs k)" for cs k q
  proof (induction cs arbitrary: k)
    case (Cons c cs)
    then show ?case by (cases "delete_connection c k") (simp_all add: delete_ignores_lists(2))
  qed simp
  have "delete_handler h = Some (h2\<lparr>ch_pool := ch_pool h1, ch_queue := ch_queue h\<rparr>)"
    using h1(1) h2(1) by (simp add: delete_handler_def ignores)
  moreover have "ch_downs h2 = Map.empty" using h2(2,4) by (simp add: conn_inv_def)
  moreover have "dc_bev dconn = None \<and> dc_downstream dconn = None" if "ch_conns h2 c = Some dconn" for c dconn
  proof -
    have "conn_down (ch_conns h2) c = None"
      using h2(2) calculation(2) by (metis conn_inv_def linkedD not_Some_eq option.distinct(1))
    then have "dc_downstream dconn = None" using that by (simp add: conn_down_def)
    moreover have "classified {} c (Some dconn)" using h2(2,3) that unfolding conn_inv_def by (metis list.set(1))
    ultimately show ?thesis by (cases "dc_bev dconn"; cases "the (dc_bev dconn)") (auto simp: classified_def)
  qed
  ultimately show ?thesis by auto
qed

text \<open>
  C29. The connections of a client of the proxy, in any order of requests, ends of streams and events
  on the connections: a connection and a downstream point at each other or neither points at the
  other, the pool has just the idle connections, each callback that can run finds the objects
  it uses, and deleting the handler closes every connection that was opened.
\<close>

theorem proxy_connections_safe:
  assumes "conn_reach h"
  shows "(\<forall>c d. (\<exists>dconn. ch_conns h c = Some dconn \<and> dc_downstream dconn = Some d) \<longleftrightarrow> ch_downs h d = Some (Some c)) \<and>
    (\<forall>c. c \<in> set (ch_pool h) \<longleftrightarrow> has_callbacks IdleCallbacks c h) \<and>
    (\<forall>ev. conn_enabled ev h \<longrightarrow> (\<exists>h'. conn_exec ev h = Some h')) \<and>
    (\<exists>h'. delete_handler h = Some h' \<and> (\<forall>c dconn. ch_conns h' c = Some dconn \<longrightarrow> dc_bev dconn = None))"
proof (intro conjI)
  note inv = conn_reach_inv [OF assms]
  show "\<forall>c d. (\<exists>dconn. ch_conns h c = Some dconn \<and> dc_downstream dconn = Some d) \<longleftrightarrow> ch_downs h d = Some (Some c)"
    using inv by (simp add: conn_inv_def linked_def conn_down_def bind_eq_Some_conv)
  show "\<forall>c. c \<in> set (ch_pool h) \<longleftrightarrow> has_callbacks IdleCallbacks c h"
    using inv by (simp add: conn_inv_def classified_def has_callbacks_bind)
  show "\<forall>ev. conn_enabled ev h \<longrightarrow> (\<exists>h'. conn_exec ev h = Some h')" using conn_step_inv [OF inv] by blast
  show "\<exists>h'. delete_handler h = Some h' \<and> (\<forall>c dconn. ch_conns h' c = Some dconn \<longrightarrow> dc_bev dconn = None)"
    using handler_end [OF inv] by blast
qed

text \<open>A connection that could not be made for a SPDY request is neither deleted nor in the pool.\<close>

lemma spdy_connect_failure_leaks:
  assumes "ch_pool h = []"
  shows "\<exists>h'. new_request False False d fresh h = Some h' \<and>
    ch_conns h' fresh = Some \<lparr>dc_bev = None, dc_downstream = None\<rparr> \<and> ch_downs h' d = Some None \<and> ch_pool h' = []"
  using assms by (simp add: new_request_def get_downstream_connection_def dconn_attach_downstream_def)

definition demo_handler :: ClientHandler where
  "demo_handler = ClientHandler_new\<lparr>ch_downs := [7 \<mapsto> Some 5], ch_queue := [7],
     ch_conns := [5 \<mapsto> \<lparr>dc_bev = Some UpstreamCallbacks, dc_downstream = Some 7\<rparr>]\<rparr>"

lemma demo_handler_reach: "conn_reach demo_handler"
proof (rule conn_reach.event [OF conn_reach.new])
  show "conn_exec (NewRequest False True 7 5) ClientHandler_new = Some demo_handler" "conn_enabled (NewRequest False True 7 5) ClientHandler_new"
    by (simp_all add: new_request_def get_downstream_connection_def dconn_attach_downstream_def downstream_set_connection_def
        ClientHandler_new_def demo_handler_def)
qed

theorem proxy_connections_safe_witness:
  "conn_enabled (StreamClosed True 7) demo_handler \<and> (\<exists>h'. conn_exec (StreamClosed True 7) demo_handler = Some h')"
proof -
  have e: "conn_enabled (StreamClosed True 7) demo_handler" by (simp add: demo_handler_def)
  from e proxy_connections_safe [OF demo_handler_reach] show ?thesis by blast
qed

section \<open>The negotiated protocol\<close>

lemma proto_list_encodes: "proto_list = Some (npn_encode [name_spdy3, name_spdy2, name_http11])"
  by code_simp

lemma validate_version:
  "ch_upstream (validate_next_proto (Some p) h) = Some (case spdy_version p of Some v \<Rightarrow> SpdyUp v | None \<Rightarrow> HttpsUp)"
  by (auto simp: validate_next_proto_def spdylay_npn_get_version_def spdy_version_def name_spdy2_def name_spdy3_def Let_def
      SPDYLAY_PROTO_SPDY2_def SPDYLAY_PROTO_SPDY3_def)

end
