(* ===== verification/Spdyd_Server.thy ===== *)
theory Spdyd_Server
  imports Spdy_Uri Spdy_Submit "HOL-Library.Sublist"
begin

text \<open>
  \<open>src/SpdyServer.cc\<close>: the file server spdyd, from the request headers to the calls of the SPDY API. The
  file system, the clock, \<open>http_date\<close> and the table of associated content that is read at the start are
  the record \<open>spdyd_env\<close>; \<open>open\<close> may answer differently each time, so it is given how often it was
  called before. A missing request is the NULL of \<open>get_stream\<close>, which the code dereferences, and has
  no result. Shown here: a request cannot name a file outside of the document root.
\<close>

section \<open>The server\<close>

record spdyd_env =
  se_htdocs :: bytes
  se_version :: bytes
  se_assoc_enabled :: bool
  se_ContentMap :: "bytes \<rightharpoonup> bytes list"
  se_open :: "nat \<Rightarrow> cstr \<Rightarrow> nat option"
  se_fstat :: "nat \<Rightarrow> (int \<times> nat) option"
  se_pipe :: "nat option"
  se_time :: int
  se_http_date :: "int \<Rightarrow> bytes"

record Request =
  rq_stream_id :: i32
  rq_headers :: "(bytes \<times> bytes) list"
  rq_file :: "nat option"

type_synonym requests = "i32 \<rightharpoonup> Request"

definition STATUS_200 :: bytes where "STATUS_200 = lit ''200 OK''"
definition STATUS_400 :: bytes where "STATUS_400 = lit ''400 Bad Request''"
definition STATUS_404 :: bytes where "STATUS_404 = lit ''404 Not Found''"
definition DEFAULT_HTML :: bytes where "DEFAULT_HTML = lit ''index.html''"
definition SPDYD_SERVER :: "spdyd_env \<Rightarrow> bytes" where "SPDYD_SERVER env = lit ''spdyd spdylay/'' @ se_version env"

definition add_stream :: "i32 \<Rightarrow> Request \<Rightarrow> requests \<Rightarrow> requests" where
  "add_stream stream_id req rs = rs(stream_id \<mapsto> req)"

definition remove_stream :: "i32 \<Rightarrow> requests \<Rightarrow> requests" where
  "remove_stream stream_id rs = rs(stream_id := None)"

section \<open>Responses\<close>

text \<open>
  \<open>submit_file_response\<close> fills two optional pairs
  into fixed places, so without the first one the second is not seen.
\<close>

definition submit_file_response ::
    "spdyd_env \<Rightarrow> bytes \<Rightarrow> i32 \<Rightarrow> nat \<Rightarrow> int \<Rightarrow> nat \<Rightarrow> spdylay_data_provider \<Rightarrow> api_call" where
  "submit_file_response env status stream_id assoc_content last_modified file_length data_prd =
     SubmitResponse stream_id
       (nv_array (map Some [lit '':status'', status, lit '':version'', lit ''HTTP/1.1'', lit ''server'', SPDYD_SERVER env,
          lit ''content-length'', decimal file_length, lit ''cache-control'', lit ''max-age=3600'',
          lit ''date'', se_http_date env (se_time env)] @
        (if last_modified \<noteq> 0 then [Some (lit ''last-modified''), Some (se_http_date env last_modified)] else [None, None]) @
        (if assoc_content > 0 then [Some (lit ''x-associated-content''), Some (decimal assoc_content)] else [None, None])))
       (Some data_prd)"

definition submit_response ::
    "spdyd_env \<Rightarrow> bytes \<Rightarrow> i32 \<Rightarrow> (bytes \<times> bytes) list \<Rightarrow> spdylay_data_provider option \<Rightarrow> api_call" where
  "submit_response env status stream_id hdrs data_prd =
     SubmitResponse stream_id
       ([lit '':status'', status, lit '':version'', lit ''HTTP/1.1'', lit ''server'', SPDYD_SERVER env,
         lit ''date'', se_http_date env (se_time env)] @ concat (map (\<lambda>(k, v). [c_str k, c_str v]) hdrs)) data_prd"

definition submit_response_plain :: "spdyd_env \<Rightarrow> bytes \<Rightarrow> i32 \<Rightarrow> spdylay_data_provider option \<Rightarrow> api_call" where
  "submit_response_plain env status stream_id data_prd =
     SubmitResponse stream_id
       [lit '':status'', status, lit '':version'', lit ''HTTP/1.1'', lit ''server'', SPDYD_SERVER env] data_prd"

definition file_provider :: "nat \<Rightarrow> spdylay_data_provider" where
  "file_provider fd = \<lparr>dp_read_callback = True, dp_source = fd\<rparr>"

text \<open>The error page itself goes compressed into the pipe, whose other end is the data source.\<close>

definition prepare_status_response :: "spdyd_env \<Rightarrow> Request \<Rightarrow> nat \<Rightarrow> bytes \<Rightarrow> api_call list \<times> Request" where
  "prepare_status_response env req assoc_content status =
     (case se_pipe env of
        None \<Rightarrow> ([submit_response_plain env status (rq_stream_id req) None], req)
      | Some fd \<Rightarrow>
          ([submit_response env status (rq_stream_id req)
              ([(lit ''content-encoding'', lit ''gzip''), (lit ''content-type'', lit ''text/html; charset=UTF-8'')] @
               (if assoc_content > 0 then [(lit ''x-associated-content'', decimal assoc_content)] else []))
              (Some (file_provider fd))], req\<lparr>rq_file := Some fd\<rparr>))"

text \<open>\<open>read\<close> fails, or gives bytes, none at the end of the file.\<close>

definition file_read_callback :: "bytes option \<Rightarrow> int \<times> bytes \<times> bool" where
  "file_read_callback r =
     (case r of None \<Rightarrow> (SPDYLAY_ERR_TEMPORAL_CALLBACK_FAILURE, [], False) | Some bs \<Rightarrow> (int (length bs), bs, bs = []))"

section \<open>Requests\<close>

definition check_url :: "bytes \<Rightarrow> bool" where
  "check_url url \<longleftrightarrow>
     url \<noteq> [] \<and> hd url = 47 \<and> find_str url [92] = None \<and> find_str url (lit ''/../'') = None \<and>
     find_str url (lit ''/./'') = None \<and> \<not> endsWith url (lit ''/..'') \<and> \<not> endsWith url (lit ''/.'')"

text \<open>The date of \<open>if-modified-since\<close> is read by the code and not used, as answers 304 are switched off.\<close>

record header_scan =
  hs_url :: "bytes option"
  hs_method :: bool
  hs_scheme :: bool
  hs_version :: bool
  hs_host :: bool

fun scan_headers :: "(bytes \<times> bytes) list \<Rightarrow> header_scan \<Rightarrow> header_scan" where
  "scan_headers [] sc = sc"
| "scan_headers ((field, val) # hs) sc =
     scan_headers hs
       (if hs_url sc = None \<and> field = lit '':path'' then sc\<lparr>hs_url := Some val\<rparr>
        else if field = lit '':method'' then sc\<lparr>hs_method := True\<rparr>
        else if field = lit '':scheme'' then sc\<lparr>hs_scheme := True\<rparr>
        else if field = lit '':version'' then sc\<lparr>hs_version := True\<rparr>
        else if field = lit '':host'' then sc\<lparr>hs_host := True\<rparr>
        else sc)"

definition file_path :: "spdyd_env \<Rightarrow> bytes \<Rightarrow> bytes" where
  "file_path env url =
     (let path = se_htdocs env @ url in if last path = 47 then path @ DEFAULT_HTML else path)"

definition last_host :: "(bytes \<times> bytes) list \<Rightarrow> bytes" where
  "last_host hs = foldl (\<lambda>h (k, v). if k = lit '':host'' then v else h) [] hs"

text \<open>The pushes stop at the first file that cannot be opened or examined.\<close>

fun push_associated :: "spdyd_env \<Rightarrow> Request \<Rightarrow> bytes list \<Rightarrow> nat \<Rightarrow> api_call list" where
  "push_associated env req [] k = []"
| "push_associated env req (assoc_url # us) k =
     (case se_open env k (c_str (se_htdocs env @ assoc_url)) of None \<Rightarrow> []
      | Some fd \<Rightarrow>
          (case se_fstat env fd of None \<Rightarrow> []
           | Some (mtime, sz) \<Rightarrow>
               SubmitServerPush (rq_stream_id req)
                 [lit '':status'', lit ''200 OK'', lit '':version'', lit ''HTTP/1.1'', lit ''server'', SPDYD_SERVER env,
                  lit ''content-length'', decimal sz, lit ''cache-control'', lit ''max-age=3600'',
                  lit ''date'', se_http_date env (se_time env), lit '':path'', c_str (lit ''/'' @ assoc_url),
                  lit '':host'', c_str (last_host (rq_headers req)), lit '':scheme'', lit ''https'']
                 (Some (file_provider fd)) 0 # push_associated env req us (Suc k)))"

definition serve_file :: "spdyd_env \<Rightarrow> Request \<Rightarrow> bytes \<Rightarrow> api_call list \<times> Request" where
  "serve_file env req url =
     (case se_open env 0 (c_str (file_path env url)) of
        None \<Rightarrow> prepare_status_response env req 0 STATUS_404
      | Some fd \<Rightarrow>
          (case se_fstat env fd of
             None \<Rightarrow> prepare_status_response env req 0 STATUS_404
           | Some (mtime, sz) \<Rightarrow>
               let content = (if se_assoc_enabled env then (case se_ContentMap env url of None \<Rightarrow> [] | Some us \<Rightarrow> us) else []);
                   registered = (se_assoc_enabled env \<and> se_ContentMap env url \<noteq> None) in
               ((if registered then [RegisterAssocContent (rq_stream_id req) (length content)] else []) @
                [submit_file_response env STATUS_200 (rq_stream_id req) (length content) mtime sz (file_provider fd)] @
                push_associated env req content 1, req\<lparr>rq_file := Some fd\<rparr>)))"

definition prepare_response :: "spdyd_env \<Rightarrow> Request \<Rightarrow> api_call list \<times> Request" where
  "prepare_response env req =
     (let sc = scan_headers (rq_headers req) \<lparr>hs_url = None, hs_method = False, hs_scheme = False, hs_version = False, hs_host = False\<rparr> in
      case hs_url sc of
        Some path \<Rightarrow>
          if \<not> hs_method sc \<or> \<not> hs_scheme sc \<or> \<not> hs_version sc \<or> \<not> hs_host sc
          then prepare_status_response env req 0 STATUS_400
          else
            let query = dropWhile (\<lambda>c. c \<noteq> 63) path in
            if query \<noteq> [] \<and> find_str query (lit ''spdyd_do_not_respond_to_req=yes'') \<noteq> None then ([], req)
            else
              let url = percentDecode (takeWhile (\<lambda>c. c \<noteq> 63) path) in
              if \<not> check_url url then prepare_status_response env req 0 STATUS_404 else serve_file env req url
      | None \<Rightarrow> prepare_status_response env req 0 STATUS_400)"

section \<open>Callbacks of the session\<close>

definition append_nv :: "nv \<Rightarrow> Request \<Rightarrow> Request" where
  "append_nv nv req = req\<lparr>rq_headers := rq_headers req @ nv\<rparr>"

definition hd_on_ctrl_recv_callback :: "spdylay_frame \<Rightarrow> requests \<Rightarrow> requests option" where
  "hd_on_ctrl_recv_callback frame rs =
     (case frame of
        FSynStream f \<Rightarrow>
          map_option (\<lambda>nv. add_stream (ss_stream_id f)
            (append_nv nv \<lparr>rq_stream_id = ss_stream_id f, rq_headers = [], rq_file = None\<rparr>) rs) (ss_nv f)
      | FHeaders f \<Rightarrow>
          (case (rs (hs_stream_id f), hs_nv f) of
             (Some req, Some nv) \<Rightarrow> Some (add_stream (hs_stream_id f) (append_nv nv req) rs)
           | _ \<Rightarrow> None)
      | _ \<Rightarrow> Some rs)"

definition htdocs_on_request_recv_callback ::
    "spdyd_env \<Rightarrow> i32 \<Rightarrow> requests \<Rightarrow> (api_call list \<times> requests) option" where
  "htdocs_on_request_recv_callback env stream_id rs =
     (case rs stream_id of None \<Rightarrow> None
      | Some req \<Rightarrow> (case prepare_response env req of (calls, req') \<Rightarrow> Some (calls, add_stream stream_id req' rs)))"

section \<open>Requests stay below the document root\<close>

lemma find_str_None: "find_str s p = None \<Longrightarrow> s \<noteq> a @ p @ b"
proof (induction s arbitrary: a)
  case Nil
  then show ?case by (auto split: if_splits)
next
  case (Cons c s)
  show ?case
  proof (cases a)
    case Nil
    then show ?thesis using Cons.prems by (auto split: if_splits)
  next
    case (Cons x xs)
    then show ?thesis using Cons.prems Cons.IH [of xs] by (auto split: if_splits)
  qed
qed

lemma endsWith_iff: "endsWith a b \<longleftrightarrow> (\<exists>x. a = x @ b)"
  by (auto simp: endsWith_def) (metis append_take_drop_id)

lemma split_first:
  assumes "47 \<in> set t"
  obtains q u where "t = q @ 47 # u" "length u < length t"
    "split_loop 47 False False t = (if q = [] then [] else [q]) @ split_loop 47 False False u"
  using split_list_first [OF assms] split_loop_Cons by fastforce

definition between :: "bytes \<Rightarrow> bytes \<Rightarrow> bool" where
  "between p t \<longleftrightarrow> (\<exists>a b. t = a @ (47 # p @ [47]) @ b)"

lemma between_first: "between q (47 # q @ 47 # u)" and between_later: "between p (47 # u) \<Longrightarrow> between p (47 # q @ 47 # u)"
  unfolding between_def by (metis append_Cons append_Nil append_assoc)+

text \<open>A part of a split text stands between two delimiters, unless it is the last one.\<close>

lemma split_loop_part:
  "p \<in> set (split_loop 47 False False t) \<Longrightarrow> between p (47 # t) \<or> (\<exists>a. 47 # t = a @ 47 # p)"
proof (induction "length t" arbitrary: t rule: less_induct)
  case less
  show ?case
  proof (cases "47 \<in> set t")
    case True
    then obtain q u where t: "t = q @ 47 # u" "length u < length t"
      "split_loop 47 False False t = (if q = [] then [] else [q]) @ split_loop 47 False False u" by (rule split_first)
    from less.prems t(3) consider "p = q" | "p \<in> set (split_loop 47 False False u)" by (auto split: if_splits)
    then show ?thesis
    proof cases
      case 2
      from less.hyps [OF t(2) this] show ?thesis
        unfolding t(1) using between_later by (metis append_Cons append_assoc)
    qed (simp add: t(1) between_first)
  qed (use less.prems in \<open>auto simp: split_loop_single split: if_splits\<close>)
qed

lemma split_loop_inner: "p \<in> set (butlast (split_loop 47 False False t)) \<Longrightarrow> between p (47 # t)"
proof (induction "length t" arbitrary: t rule: less_induct)
  case less
  show ?case
  proof (cases "47 \<in> set t")
    case True
    then obtain q u where t: "t = q @ 47 # u" "length u < length t"
      "split_loop 47 False False t = (if q = [] then [] else [q]) @ split_loop 47 False False u" by (rule split_first)
    from less.prems t(3) consider "p = q" | "p \<in> set (butlast (split_loop 47 False False u))"
      by (auto simp: butlast_append split: if_splits)
    then show ?thesis
    proof cases
      case 2
      from less.hyps [OF t(2) this] show ?thesis unfolding t(1) by (rule between_later)
    qed (simp add: t(1) between_first)
  qed (use less.prems in \<open>auto simp: split_loop_single split: if_splits\<close>)
qed

lemma check_url_parts:
  assumes "check_url url" "prefix rel url"
  shows "\<not> between (lit ''.'') rel" "\<not> between (lit ''..'') rel"
proof -
  have "\<not> between p rel" if "find_str url (47 # p @ [47]) = None" for p
    using find_str_None [OF that] assms(2) unfolding between_def prefix_def by (metis append_assoc)
  then show "\<not> between (lit ''.'') rel" "\<not> between (lit ''..'') rel"
    using assms(1) by (simp_all add: check_url_def lit_def)
qed

definition dots :: "bytes set" where
  "dots = {lit ''.'', lit ''..''}"

lemma inner_parts: "\<forall>p\<in>dots. \<not> between p (47 # rel) \<Longrightarrow> set (butlast (split_loop 47 False False rel)) \<inter> dots = {}"
  by (auto dest: split_loop_inner)

lemma all_parts:
  "\<forall>p\<in>dots. \<not> between p (47 # rel) \<and> \<not> endsWith (47 # rel) (47 # p) \<Longrightarrow> set (split_loop 47 False False rel) \<inter> dots = {}"
  unfolding endsWith_iff by (blast dest: split_loop_part)

lemma check_url_dots:
  assumes "check_url url" "p \<in> dots"
  shows "prefix rel url \<Longrightarrow> \<not> between p rel" "\<not> endsWith url (47 # p)"
  using assms check_url_parts [OF assms(1), of rel] by (auto simp: dots_def check_url_def lit_def)

lemma between_append:
  assumes "between p (t @ x)" "47 \<notin> set x"
  shows "between p t"
proof -
  obtain a b where ab: "t @ x = (a @ 47 # p @ [47]) @ b" using assms(1) by (auto simp: between_def)
  then obtain c where c: "t = (a @ 47 # p @ [47]) @ c \<or> t @ c = a @ 47 # p @ [47] \<and> x = c @ b"
    unfolding append_eq_append_conv2 by blast
  have "c = []" if "t @ c = a @ 47 # p @ [47]" "x = c @ b"
  proof (rule ccontr)
    assume "c \<noteq> []"
    then have "last c = 47" using arg_cong [OF that(1), of last] by simp
    then show False using \<open>c \<noteq> []\<close> that(2) assms(2) last_in_set [of c] by auto
  qed
  with c show ?thesis by (fastforce simp: between_def)
qed

text \<open>
  What follows the root in the name of the opened file: its parts but the last are no \<open>.\<close> and no \<open>..\<close>,
  and the last one neither, unless the URL had a NUL byte in it that cut the name short.
\<close>

lemma opened_name:
  assumes "check_url url" "0 \<notin> set (se_htdocs env)"
  shows "\<exists>rel. c_str (file_path env url) = se_htdocs env @ 47 # rel \<and> set (butlast (split_loop 47 False False rel)) \<inter> dots = {} \<and>
    (0 \<notin> set url \<longrightarrow> set (split_loop 47 False False rel) \<inter> dots = {})"
proof -
  obtain u where u: "url = 47 # u" using assms(1) by (cases url) (auto simp: check_url_def)
  show ?thesis
  proof (cases "0 \<notin> set url \<and> last url = 47")
    case True
    define rel where "rel = u @ DEFAULT_HTML"
    have name: "c_str (file_path env url) = se_htdocs env @ 47 # rel"
      using True assms(2) by (simp add: file_path_def c_str_def rel_def u DEFAULT_HTML_def lit_def takeWhile_append)
    have "\<not> between p (47 # rel)" if "p \<in> dots" for p
      using between_append [of p url DEFAULT_HTML] check_url_dots(1) [OF assms(1) that, of url]
      by (auto simp: rel_def u DEFAULT_HTML_def lit_def)
    moreover have "\<not> endsWith (47 # rel) (47 # p)" if "p \<in> dots" for p
      using that by (auto simp: endsWith_iff rel_def DEFAULT_HTML_def lit_def dots_def append_eq_append_conv2)
    ultimately have "set (split_loop 47 False False rel) \<inter> dots = {}" by (intro all_parts) blast
    then show ?thesis using name in_set_butlastD by fast
  next
    case False
    define rel where "rel = takeWhile (\<lambda>c. c \<noteq> 0) u"
    have pre: "prefix (47 # rel) url" unfolding rel_def u by (simp add: takeWhile_is_prefix)
    have "c_str (file_path env url) = se_htdocs env @ 47 # rel"
      using False assms(2) by (auto simp: file_path_def c_str_def rel_def u takeWhile_append Let_def)
    moreover have "0 \<notin> set url \<Longrightarrow> 47 # rel = url" by (auto simp: rel_def u takeWhile_eq_all_conv)
    ultimately show ?thesis
      using inner_parts [of rel] all_parts [of rel] check_url_dots [OF assms(1)] pre by (metis (no_types))
  qed
qed

text \<open>
  The names a request can make the server open, apart from the associated content that the
  server was started with.
\<close>

definition below_root :: "spdyd_env \<Rightarrow> cstr \<Rightarrow> bool" where
  "below_root env name \<longleftrightarrow> (\<exists>rel. name = se_htdocs env @ 47 # rel \<and> set (butlast (split 47 False False rel)) \<inter> dots = {})"

definition associated :: "spdyd_env \<Rightarrow> cstr \<Rightarrow> bool" where
  "associated env name \<longleftrightarrow> (\<exists>url us u. se_ContentMap env url = Some us \<and> u \<in> set us \<and> name = c_str (se_htdocs env @ u))"

lemma status_response_open: "prepare_status_response (env\<lparr>se_open := f\<rparr>) req n status = prepare_status_response env req n status"
  by (auto simp: prepare_status_response_def submit_response_def submit_response_plain_def SPDYD_SERVER_def split: option.split)

lemma push_associated_open:
  assumes "\<And>k u. u \<in> set us \<Longrightarrow> f k (c_str (se_htdocs env @ u)) = se_open env k (c_str (se_htdocs env @ u))"
  shows "push_associated (env\<lparr>se_open := f\<rparr>) req us k = push_associated env req us k"
  using assms by (induction us arbitrary: k) (auto simp: SPDYD_SERVER_def split: option.split)

lemma serve_file_open:
  assumes "check_url url" "0 \<notin> set (se_htdocs env)"
    and f: "\<And>k name. below_root env name \<or> associated env name \<Longrightarrow> f k name = se_open env k name"
  shows "serve_file (env\<lparr>se_open := f\<rparr>) req url = serve_file env req url"
proof -
  have "below_root env (c_str (file_path env url))"
    using opened_name [OF assms(1,2)] by (auto simp: below_root_def split_def)
  then have 1: "f 0 (c_str (file_path env url)) = se_open env 0 (c_str (file_path env url))" using f by blast
  have 2: "push_associated (env\<lparr>se_open := f\<rparr>) req us k = push_associated env req us k" if "se_ContentMap env url = Some us" for us k
    using that by (intro push_associated_open f) (auto simp: associated_def)
  have 3: "file_path (env\<lparr>se_open := f\<rparr>) url = file_path env url" by (simp add: file_path_def)
  show ?thesis
    unfolding serve_file_def Let_def
    by (auto simp: 1 2 3 status_response_open submit_file_response_def SPDYD_SERVER_def split: option.split)
qed


definition demo_env :: spdyd_env where
  "demo_env = \<lparr>se_htdocs = lit ''/srv'', se_version = lit ''0.3'', se_assoc_enabled = False, se_ContentMap = Map.empty,
     se_open = (\<lambda>_ name. if name = lit ''/srv/a'' then Some 3 else None), se_fstat = (\<lambda>_. Some (1, 5)), se_pipe = Some 4,
     se_time = 7, se_http_date = (\<lambda>_. lit ''now'')\<rparr>"

definition demo_get :: Request where
  "demo_get = \<lparr>rq_stream_id = 1, rq_headers = [(lit '':path'', lit ''/../etc/passwd''), (lit '':method'', lit ''GET''),
     (lit '':scheme'', lit ''https''), (lit '':version'', lit ''HTTP/1.1''), (lit '':host'', lit ''h'')], rq_file = None\<rparr>"


text \<open>
  A NUL byte behind a last part \<open>..\<close> passes the test of the URL and is not part of the name that is
  opened. And the number of associated files is not announced for a file whose modification time
  is 0, since the array ends at the place of the missing header.
\<close>

lemma nul_hides_dots:
  "check_url (percentDecode (lit ''/..%00'')) \<and> c_str (file_path demo_env (percentDecode (lit ''/..%00''))) = lit ''/srv/..''"
  by code_simp

lemma announcement_lost:
  "submit_file_response env status stream_id (Suc n) 0 file_length prd = submit_file_response env status stream_id 0 0 file_length prd"
  by (simp add: submit_file_response_def nv_array_def)

end
