(* ===== verification/Spdycat_Html.thy ===== *)
theory Spdycat_Html
  imports Spdy_Uri "HOL-Library.Monad_Syntax"
begin

text \<open>
  The two helpers of the client spdycat: \<open>src/ClientCache.cc\<close>, the paths it has already got, and
  \<open>src/HtmlParser.cc\<close>, the links of a page. The parser of libxml2 is the record \<open>libxml\<close>: each call
  answers the elements it reports, which are then given to \<open>start_element_func\<close> in their order. The
  directories of the document root are the record \<open>html_fs\<close>. A result \<open>None\<close> is a NULL that the
  code dereferences. Shown here: what a cache answers after any sequence of additions, that no
  page whose elements have attributes fails, and that every link is handed out once.
\<close>

section \<open>Remembered paths\<close>

text \<open>
  What the client needs of a store of paths: a path counts as seen once it was marked. \<open>visit_new\<close> is
  a run over a list of paths that skips those already seen.
\<close>

fun visit_new :: "('s \<Rightarrow> bytes \<Rightarrow> bool) \<Rightarrow> (bytes \<Rightarrow> 's \<Rightarrow> 's) \<Rightarrow> bytes list \<Rightarrow> 's \<Rightarrow> bytes list \<times> 's" where
  "visit_new seen mark [] s = ([], s)"
| "visit_new seen mark (p # ps) s =
     (if seen s p then visit_new seen mark ps s
      else case visit_new seen mark ps (mark p s) of (qs, t) \<Rightarrow> (p # qs, t))"

locale visited =
  fixes seen :: "'s \<Rightarrow> bytes \<Rightarrow> bool" and mark :: "bytes \<Rightarrow> 's \<Rightarrow> 's" and active :: "'s \<Rightarrow> bool"
  assumes active_mark: "active (mark p s) = active s"
    and seen_mark: "active s \<Longrightarrow> seen (mark p s) q \<longleftrightarrow> q = p \<or> seen s q"
begin

lemma visit_new_once:
  assumes "visit_new seen mark ps s = (qs, t)" "active s"
  shows "distinct qs \<and> set qs = {p \<in> set ps. \<not> seen s p} \<and> active t \<and> (\<forall>q. seen t q \<longleftrightarrow> seen s q \<or> q \<in> set ps)"
  using assms
proof (induction ps arbitrary: s qs t)
  case (Cons p ps)
  show ?case
  proof (cases "seen s p")
    case True
    with Cons.prems Cons.IH [of s qs t] show ?thesis by auto
  next
    case False
    with Cons.prems(1) obtain qs' where v: "visit_new seen mark ps (mark p s) = (qs', t)" "qs = p # qs'"
      by (auto split: prod.splits)
    have "active (mark p s)" using Cons.prems(2) by (simp add: active_mark)
    from Cons.IH [OF v(1) this] Cons.prems(2) False v(2) show ?thesis by (auto simp: seen_mark)
  qed
qed simp

end

section \<open>The client cache\<close>

text \<open>The pointer \<open>data\<close> of an entry is not used by the code.\<close>

record CacheEntry =
  ca_hostport :: bytes
  ca_path :: bytes
  ca_assoc_content_id :: u32

record ClientCache =
  cc_enabled :: bool
  cc_entries :: "bytes \<rightharpoonup> CacheEntry"

definition cache_Add :: "CacheEntry \<Rightarrow> ClientCache \<Rightarrow> ClientCache" where
  "cache_Add entry c =
     (if \<not> cc_enabled c then c
      else if cc_entries c (ca_path entry) \<noteq> None then c
      else c\<lparr>cc_entries := (cc_entries c)(ca_path entry \<mapsto> entry)\<rparr>)"

definition HasFreshCopy :: "ClientCache \<Rightarrow> bytes \<Rightarrow> bool" where
  "HasFreshCopy c path \<longleftrightarrow> cc_enabled c \<and> cc_entries c path \<noteq> None"

definition cache_Clear :: "ClientCache \<Rightarrow> ClientCache" where
  "cache_Clear c = (if \<not> cc_enabled c then c else c\<lparr>cc_entries := Map.empty\<rparr>)"

text \<open>The callers add an entry that has nothing but a path.\<close>

definition cache_path :: "bytes \<Rightarrow> ClientCache \<Rightarrow> ClientCache" where
  "cache_path path = cache_Add \<lparr>ca_hostport = [], ca_path = path, ca_assoc_content_id = 0\<rparr>"

interpretation cached: visited HasFreshCopy cache_path cc_enabled
  by unfold_locales (auto simp: cache_path_def cache_Add_def HasFreshCopy_def)

lemma cache_disabled: "\<not> cc_enabled c \<Longrightarrow> \<not> HasFreshCopy c p \<and> cache_path q c = c"
  by (simp add: HasFreshCopy_def cache_path_def cache_Add_def)

section \<open>The parser of pages\<close>

text \<open>
  An element as libxml2 reports it: its name and its attributes, a NULL pointer when it has none,
  each with its value, which may be NULL too.
\<close>

type_synonym attrs = "(cstr \<times> cstr option) list"
type_synonym element = "cstr \<times> attrs option"

record 'p libxml =
  htmlCreatePushParserCtxt :: "bytes \<Rightarrow> cstr \<Rightarrow> ('p \<times> element list) option"
  htmlParseChunk :: "'p \<Rightarrow> bytes \<Rightarrow> bool \<Rightarrow> int \<times> 'p \<times> element list"

record html_fs =
  fs_readdir :: "bytes \<Rightarrow> bytes list option"
  fs_is_dir :: "bytes \<Rightarrow> bool"
  fs_getlines :: "bytes \<Rightarrow> bytes list"

record 'p HtmlParser =
  hp_use_assoc_file :: bool
  hp_last_path :: bytes
  hp_base_uri :: bytes
  hp_parser_ctx :: "'p option"
  hp_links :: "bytes list"
  hp_pushed_links :: "bytes \<rightharpoonup> bytes list"

fun find_attr :: "attrs \<Rightarrow> cstr \<Rightarrow> cstr option" where
  "find_attr [] name = None"
| "find_attr ((k, v) # as) name = (if strieq (Some k) (Some name) then v else find_attr as name)"

definition get_attr :: "attrs option \<Rightarrow> cstr \<Rightarrow> cstr option option" where
  "get_attr attrs name = map_option (\<lambda>as. find_attr as name) attrs"

definition add_link :: "bytes \<Rightarrow> cstr option \<Rightarrow> bytes list \<Rightarrow> bytes list option" where
  "add_link base_uri attr links =
     (case attr of None \<Rightarrow> Some links | Some href \<Rightarrow> map_option (\<lambda>uri. links @ [uri]) (joinUri base_uri href))"

definition start_element_func :: "bytes \<Rightarrow> element \<Rightarrow> bytes list \<Rightarrow> bytes list option" where
  "start_element_func base_uri e links =
     (case e of (name, attrs) \<Rightarrow>
        if strieq (Some name) (Some (lit ''link''))
        then do {
          rel_attr \<leftarrow> get_attr attrs (lit ''rel'');
          href_attr \<leftarrow> get_attr attrs (lit ''href'');
          if (strieq rel_attr (Some (lit ''shortcut icon'')) \<or> strieq rel_attr (Some (lit ''stylesheet'')))
          then add_link base_uri href_attr links else Some links
        }
        else if strieq (Some name) (Some (lit ''img'')) \<or> strieq (Some name) (Some (lit ''script''))
        then do { src_attr \<leftarrow> get_attr attrs (lit ''src''); add_link base_uri src_attr links }
        else Some links)"

fun start_elements :: "bytes \<Rightarrow> element list \<Rightarrow> bytes list \<Rightarrow> bytes list option" where
  "start_elements base_uri [] links = Some links"
| "start_elements base_uri (e # es) links =
     Option.bind (start_element_func base_uri e links) (start_elements base_uri es)"

definition report :: "element list \<Rightarrow> 'p HtmlParser \<Rightarrow> 'p HtmlParser option" where
  "report es hp = map_option (\<lambda>ls. hp\<lparr>hp_links := ls\<rparr>) (start_elements (hp_base_uri hp) es (hp_links hp))"

text \<open>\<open>parser_ctx_\<close> is there when this is called.\<close>

definition parse_chunk_internal :: "'p libxml \<Rightarrow> bytes \<Rightarrow> bool \<Rightarrow> 'p HtmlParser \<Rightarrow> (int \<times> 'p HtmlParser) option" where
  "parse_chunk_internal xml chunk fin hp =
     do {
       ctx \<leftarrow> hp_parser_ctx hp;
       let (rv, ctx', es) = htmlParseChunk xml ctx chunk fin;
       hp' \<leftarrow> report es (hp\<lparr>hp_parser_ctx := Some ctx'\<rparr>);
       Some (if rv = 0 then 0 else -1, hp')
     }"

definition parse_chunk :: "'p libxml \<Rightarrow> bytes \<Rightarrow> bool \<Rightarrow> 'p HtmlParser \<Rightarrow> (int \<times> 'p HtmlParser) option" where
  "parse_chunk xml chunk fin hp =
     (case hp_parser_ctx hp of
        None \<Rightarrow>
          (case htmlCreatePushParserCtxt xml chunk (c_str (hp_base_uri hp)) of
             None \<Rightarrow> Some (-1, hp)
           | Some (ctx, es) \<Rightarrow>
               do {
                 hp' \<leftarrow> report es (hp\<lparr>hp_parser_ctx := Some ctx\<rparr>);
                 if fin then parse_chunk_internal xml [] fin hp' else Some (0, hp')
               })
      | Some ctx \<Rightarrow> parse_chunk_internal xml chunk fin hp)"

section \<open>Links\<close>

text \<open>When \<open>uri::parse\<close> fails the host, the directory and the file are still empty.\<close>

definition base_struct :: "'p HtmlParser \<Rightarrow> UriStruct option" where
  "base_struct hp = map_option (\<lambda>r. case r of None \<Rightarrow> UriStruct_new | Some us \<Rightarrow> us) (parse (hp_base_uri hp))"

definition assoc_content_url :: "bytes \<Rightarrow> bytes \<Rightarrow> bytes \<Rightarrow> bytes" where
  "assoc_content_url host dirname line = lit ''https://'' @ host @ lit '':8080'' @ lit ''/'' @ dirname @ lit ''/'' @ line"

fun add_map_files :: "html_fs \<Rightarrow> bytes \<Rightarrow> bytes \<Rightarrow> bytes list \<Rightarrow> 'p HtmlParser \<Rightarrow> 'p HtmlParser option" where
  "add_map_files fs htdocspath dirname [] hp = Some hp"
| "add_map_files fs htdocspath dirname (filename # fns) hp =
     (if length filename < 4 \<or> drop (length filename - 4) filename \<noteq> lit ''.map''
      then add_map_files fs htdocspath dirname fns hp
      else do {
        us \<leftarrow> base_struct hp;
        let htmlpath = lit ''/'' @ dirname @ lit ''/'' @ take (length filename - 4) filename;
        let mappath = htdocspath @ dirname @ lit ''/'' @ filename;
        let index_vec = map (assoc_content_url (us_host us) dirname) (fs_getlines fs mappath);
        let pushed = (if hp_pushed_links hp htmlpath = None
                      then (hp_pushed_links hp)(htmlpath \<mapsto> index_vec) else hp_pushed_links hp);
        add_map_files fs htdocspath dirname fns (hp\<lparr>hp_pushed_links := pushed\<rparr>)
      })"

definition addHtdocsDir :: "html_fs \<Rightarrow> bytes \<Rightarrow> bytes \<Rightarrow> 'p HtmlParser \<Rightarrow> 'p HtmlParser option" where
  "addHtdocsDir fs htdocspath dirname hp =
     do { fns \<leftarrow> fs_readdir fs (htdocspath @ lit ''/'' @ dirname); add_map_files fs htdocspath dirname fns hp }"

fun add_folders :: "html_fs \<Rightarrow> bytes \<Rightarrow> bytes list \<Rightarrow> 'p HtmlParser \<Rightarrow> 'p HtmlParser option" where
  "add_folders fs htdocspath [] hp = Some hp"
| "add_folders fs htdocspath (filename # fns) hp =
     (if filename = lit ''..'' \<or> filename = lit ''.'' then add_folders fs htdocspath fns hp
      else if fs_is_dir fs (htdocspath @ lit ''/'' @ filename)
      then Option.bind (addHtdocsDir fs htdocspath filename hp) (add_folders fs htdocspath fns)
      else add_folders fs htdocspath fns hp)"

definition HtmlParser_new :: "html_fs \<Rightarrow> bytes \<Rightarrow> bool \<Rightarrow> bytes \<Rightarrow> 'p HtmlParser option" where
  "HtmlParser_new fs base_uri use_assoc_file htdocspath =
     (let hp = \<lparr>hp_use_assoc_file = use_assoc_file, hp_last_path = [], hp_base_uri = base_uri, hp_parser_ctx = None,
                hp_links = [], hp_pushed_links = Map.empty\<rparr> in
      if use_assoc_file
      then do { fns \<leftarrow> fs_readdir fs htdocspath; add_folders fs htdocspath fns hp }
      else Some hp)"

text \<open>The links and the parser after the call: reading \<open>pushed_links_[path]\<close> creates an entry.\<close>

definition get_links :: "'p HtmlParser \<Rightarrow> (bytes list \<times> 'p HtmlParser) option" where
  "get_links hp =
     (if \<not> hp_use_assoc_file hp then Some (hp_links hp, hp)
      else do {
        us \<leftarrow> base_struct hp;
        let path = us_dir us @ us_file us;
        let n = length (us_file us);
        if n > 5 \<and> drop (n - 5) (us_file us) = lit ''.html''
        then let ret = (case hp_pushed_links hp path of None \<Rightarrow> [] | Some ls \<Rightarrow> ls) in
          Some (ret, hp\<lparr>hp_pushed_links := (hp_pushed_links hp)(path \<mapsto> ret), hp_last_path := path\<rparr>)
        else Some ([], hp)
      })"

definition clear_links :: "'p HtmlParser \<Rightarrow> 'p HtmlParser" where
  "clear_links hp =
     (if \<not> hp_use_assoc_file hp then hp\<lparr>hp_links := []\<rparr>
      else hp\<lparr>hp_pushed_links := (hp_pushed_links hp)(hp_last_path hp \<mapsto> [])\<rparr>)"

section \<open>Correctness\<close>

lemma joinUri_total: "\<exists>r. joinUri base uri = Some r"
proof -
  obtain a b where p: "parse uri = Some a" "parse base = Some b" using parse_total by meson
  obtain qend where q: "find_char uri 35 0 (length uri) = Some qend" "qend \<le> length uri"
    by (rule find_char_total [of 0 "length uri" uri 35]) auto
  obtain pend where "find_char uri 63 0 qend = Some pend"
    by (rule find_char_total [OF _ q(2), of 0 63]) auto
  with p q show ?thesis by (auto simp: joinUri_def Let_def split: option.split)
qed

lemma base_struct_upd [simp]:
  "base_struct (hp\<lparr>hp_pushed_links := m\<rparr>) = base_struct hp" "base_struct (hp\<lparr>hp_last_path := p\<rparr>) = base_struct hp"
  by (simp_all add: base_struct_def)

lemma get_links_total: "\<exists>ls hp'. get_links hp = Some (ls, hp')"
proof -
  obtain a where "parse (hp_base_uri hp) = Some a" using parse_total by meson
  then show ?thesis by (auto simp: get_links_def base_struct_def Let_def)
qed

text \<open>Elements with a list of attributes, even an empty one, are never a problem.\<close>

lemma start_elements_total:
  "\<forall>e\<in>set es. snd e \<noteq> None \<Longrightarrow> \<exists>ls. start_elements base es links = Some (links @ ls)"
proof (induction es arbitrary: links)
  case (Cons e es)
  obtain name as where e: "e = (name, Some as)" using Cons.prems by (cases e) auto
  have "\<exists>ls. start_element_func base e links = Some (links @ ls)"
    using joinUri_total [of base] by (auto simp: e start_element_func_def get_attr_def add_link_def Let_def split: option.split)
  then obtain l1 where l1: "start_element_func base e links = Some (links @ l1)" by blast
  obtain l2 where "start_elements base es (links @ l1) = Some ((links @ l1) @ l2)"
    using Cons.IH [of "links @ l1"] Cons.prems by fastforce
  with l1 show ?case by simp
qed simp

text \<open>The links that a page gives are handed out once.\<close>

lemma links_once:
  assumes "get_links hp = Some (ls, hp')"
  shows "\<exists>hp''. get_links (clear_links hp') = Some ([], hp'')"
proof (cases "hp_use_assoc_file hp")
  case False
  with assms show ?thesis by (auto simp: get_links_def clear_links_def)
next
  case True
  obtain us where b: "base_struct hp = Some us" using parse_total [of "hp_base_uri hp"] by (auto simp: base_struct_def)
  with True assms b show ?thesis
    by (auto simp: get_links_def clear_links_def Let_def split: if_splits)
qed

end
