(* ===== verification/Spdyd_Content.thy ===== *)
theory Spdyd_Content
  imports Spdyd_Server Spdycat_Html
begin

text \<open>
  The start of the file server: \<open>src/spdyd.cc\<close>, its options, and \<open>src/AssocContent.cc\<close>, the table of
  associated content, which is read from the map files below the document root. Directories are the
  record \<open>html_fs\<close>, as for the client, and a result \<open>None\<close> is a directory that could not be opened and
  is read nevertheless. Shown here: server and client, which have this code twice, get the same lists
  from the same directories.
\<close>

section \<open>Options\<close>

record spdyd_Config =
  sc_htdocs :: bytes
  sc_verbose :: bool
  sc_daemon :: bool
  sc_port :: u16
  sc_private_key_file :: bytes
  sc_cert_file :: bytes
  sc_spdy3_only :: bool
  sc_verify_client :: bool
  sc_disable_nagle :: bool
  sc_assoc_enabled :: bool

text \<open>\<open>sc_assoc_enabled\<close> is the global \<open>AssociatedContent::enabled\<close>; host and \<open>data_ptr\<close> are never set.\<close>

definition spdyd_Config_new :: spdyd_Config where
  "spdyd_Config_new = \<lparr>sc_htdocs = [], sc_verbose = False, sc_daemon = False, sc_port = 0, sc_private_key_file = [], sc_cert_file = [],
     sc_spdy3_only = False, sc_verify_client = False, sc_disable_nagle = False, sc_assoc_enabled = False\<rparr>"

datatype spdyd_option = SOpt_D | SOpt_V | SOpt_d cstr | SOpt_h | SOpt_v | SOpt_3 | SOpt_unknown | SOpt_a | SOpt_N

text \<open>\<open>Inl\<close> is an exit, with success or not.\<close>

fun spdyd_main_option :: "spdyd_option \<Rightarrow> spdyd_Config \<Rightarrow> bool + spdyd_Config" where
  "spdyd_main_option SOpt_D cf = Inr (cf\<lparr>sc_daemon := True\<rparr>)"
| "spdyd_main_option SOpt_V cf = Inr (cf\<lparr>sc_verify_client := True\<rparr>)"
| "spdyd_main_option (SOpt_d optarg) cf = Inr (cf\<lparr>sc_htdocs := optarg\<rparr>)"
| "spdyd_main_option SOpt_h cf = Inl True"
| "spdyd_main_option SOpt_v cf = Inr (cf\<lparr>sc_verbose := True\<rparr>)"
| "spdyd_main_option SOpt_3 cf = Inr (cf\<lparr>sc_spdy3_only := True\<rparr>)"
| "spdyd_main_option SOpt_unknown cf = Inl False"
| "spdyd_main_option SOpt_a cf = Inr (cf\<lparr>sc_assoc_enabled := True\<rparr>)"
| "spdyd_main_option SOpt_N cf = Inr (cf\<lparr>sc_disable_nagle := True\<rparr>)"

fun spdyd_main_options :: "spdyd_option list \<Rightarrow> spdyd_Config \<Rightarrow> bool + spdyd_Config" where
  "spdyd_main_options [] cf = Inr cf"
| "spdyd_main_options (opt # opts) cf = (case spdyd_main_option opt cf of Inl ok \<Rightarrow> Inl ok | Inr cf1 \<Rightarrow> spdyd_main_options opts cf1)"

text \<open>\<open>detached\<close> says that \<open>daemon\<close> succeeded. The configuration is what the server is started with.\<close>

definition spdyd_main :: "bool \<Rightarrow> spdyd_option list \<Rightarrow> cstr list \<Rightarrow> bool + spdyd_Config" where
  "spdyd_main detached opts args =
     (case spdyd_main_options opts spdyd_Config_new of
        Inl ok \<Rightarrow> Inl ok
      | Inr cf \<Rightarrow>
          (case args of
             port # key # cert # _ \<Rightarrow>
               if sc_daemon cf \<and> (sc_htdocs cf = [] \<or> \<not> detached) then Inl False
               else Inr (cf\<lparr>sc_htdocs := (if sc_htdocs cf = [] then lit ''./'' else sc_htdocs cf),
                   sc_port := word_of_int (fst (strtol10 port)), sc_private_key_file := key, sc_cert_file := cert\<rparr>)
           | _ \<Rightarrow> Inl False))"

section \<open>Associated content\<close>

type_synonym content_map = "bytes \<rightharpoonup> bytes list"

definition HasContent :: "bool \<Rightarrow> content_map \<Rightarrow> bytes \<Rightarrow> bool" where
  "HasContent enabled cm url \<longleftrightarrow> enabled \<and> cm url \<noteq> None"

text \<open>The index operator of \<open>std::map\<close> makes an entry that is not there.\<close>

definition GetAssociatedContent :: "content_map \<Rightarrow> bytes \<Rightarrow> bytes list \<times> content_map" where
  "GetAssociatedContent cm url = (case cm url of Some v \<Rightarrow> (v, cm) | None \<Rightarrow> ([], cm(url \<mapsto> [])))"

fun assoc_map_files :: "html_fs \<Rightarrow> bytes \<Rightarrow> bytes \<Rightarrow> bytes list \<Rightarrow> content_map \<Rightarrow> content_map" where
  "assoc_map_files fs fullpath basepath [] cm = cm"
| "assoc_map_files fs fullpath basepath (filename # fns) cm =
     (if length filename < 4 \<or> drop (length filename - 4) filename \<noteq> lit ''.map''
      then assoc_map_files fs fullpath basepath fns cm
      else
        let htmlpath = lit ''/'' @ basepath @ lit ''/'' @ take (length filename - 4) filename;
            mappath = fullpath @ lit ''/'' @ filename;
            index_vec = map (\<lambda>line. basepath @ lit ''/'' @ line) (fs_getlines fs mappath) in
        assoc_map_files fs fullpath basepath fns (if cm htmlpath = None then cm(htmlpath \<mapsto> index_vec) else cm))"

definition assoc_addHtdocsDir :: "html_fs \<Rightarrow> bytes \<Rightarrow> bytes \<Rightarrow> content_map \<Rightarrow> content_map option" where
  "assoc_addHtdocsDir fs fullpath basepath cm =
     map_option (\<lambda>fns. assoc_map_files fs fullpath basepath fns cm) (fs_readdir fs fullpath)"

fun assoc_folders :: "html_fs \<Rightarrow> bytes \<Rightarrow> bytes list \<Rightarrow> content_map \<Rightarrow> content_map option" where
  "assoc_folders fs htdocs [] cm = Some cm"
| "assoc_folders fs htdocs (d_name # fns) cm =
     (if d_name = lit ''..'' \<or> d_name = lit ''.'' then assoc_folders fs htdocs fns cm
      else if fs_is_dir fs (htdocs @ d_name)
      then Option.bind (assoc_addHtdocsDir fs (htdocs @ d_name) d_name cm) (assoc_folders fs htdocs fns)
      else assoc_folders fs htdocs fns cm)"

definition assoc_Fill :: "html_fs \<Rightarrow> bool \<Rightarrow> bytes \<Rightarrow> content_map \<Rightarrow> content_map option" where
  "assoc_Fill fs enabled htdocs cm =
     (if \<not> enabled then Some cm else Option.bind (fs_readdir fs htdocs) (\<lambda>fns. assoc_folders fs htdocs fns cm))"

section \<open>The lists of server and client\<close>

text \<open>The client has the address of a file where the server has its path.\<close>

definition with_origin :: "bytes \<Rightarrow> content_map \<Rightarrow> content_map" where
  "with_origin origin cm url = map_option (map (\<lambda>u. origin @ u)) (cm url)"

definition page_origin :: "bytes \<Rightarrow> bytes" where
  "page_origin base_uri =
     lit ''https://'' @ (case parse base_uri of Some (Some us) \<Rightarrow> us_host us | _ \<Rightarrow> []) @ lit '':8080/''"

lemma with_origin_upd:
  "with_origin origin (if cm url = None then cm(url \<mapsto> v) else cm) =
     (if with_origin origin cm url = None then (with_origin origin cm)(url \<mapsto> map (\<lambda>u. origin @ u) v) else with_origin origin cm)"
  by (auto simp: with_origin_def fun_eq_iff)

lemma map_files_agree:
  assumes "base_struct hp = Some us" "origin = lit ''https://'' @ us_host us @ lit '':8080/''"
    and "hp_pushed_links hp = with_origin origin cm"
  shows "add_map_files fs htdocs dir fns hp =
    Some (hp\<lparr>hp_pushed_links := with_origin origin (assoc_map_files fs (htdocs @ dir) dir fns cm)\<rparr>)"
  using assms(1,3)
proof (induction fns arbitrary: hp cm)
  case (Cons filename fns)
  show ?case
  proof (cases "length filename < 4 \<or> drop (length filename - 4) filename \<noteq> lit ''.map''")
    case True
    then show ?thesis using Cons by simp
  next
    case False
    define url where "url = lit ''/'' @ dir @ lit ''/'' @ take (length filename - 4) filename"
    define v where "v = map (\<lambda>line. dir @ lit ''/'' @ line) (fs_getlines fs (htdocs @ dir @ lit ''/'' @ filename))"
    define cm1 where "cm1 = (if cm url = None then cm(url \<mapsto> v) else cm)"
    have v: "map (assoc_content_url (us_host us) dir) (fs_getlines fs (htdocs @ dir @ lit ''/'' @ filename)) = map (\<lambda>u. origin @ u) v"
      by (simp add: v_def assoc_content_url_def assms(2) lit_def)
    have upd: "with_origin origin cm1 =
        (if hp_pushed_links hp url = None then (hp_pushed_links hp)(url \<mapsto> map (\<lambda>u. origin @ u) v) else hp_pushed_links hp)"
      unfolding cm1_def with_origin_upd Cons.prems(2) ..
    have "add_map_files fs htdocs dir (filename # fns) hp =
        add_map_files fs htdocs dir fns (hp\<lparr>hp_pushed_links := with_origin origin cm1\<rparr>)"
      unfolding upd add_map_files.simps Let_def using False Cons.prems(1) v url_def by simp
    moreover have "assoc_map_files fs (htdocs @ dir) dir (filename # fns) cm = assoc_map_files fs (htdocs @ dir) dir fns cm1"
      unfolding cm1_def v_def url_def using False by (simp add: Let_def)
    ultimately show ?thesis using Cons.IH [of "hp\<lparr>hp_pushed_links := with_origin origin cm1\<rparr>" cm1] Cons.prems(1) by simp
  qed
qed simp

lemma folders_agree:
  assumes "base_struct hp = Some us" "origin = lit ''https://'' @ us_host us @ lit '':8080/''"
    and slash: "\<And>x. fs_readdir fs (htdocs @ lit ''/'' @ x) = fs_readdir fs (htdocs @ x)"
      "\<And>x. fs_is_dir fs (htdocs @ lit ''/'' @ x) = fs_is_dir fs (htdocs @ x)"
    and "hp_pushed_links hp = with_origin origin cm"
  shows "add_folders fs htdocs fns hp =
    map_option (\<lambda>cm'. hp\<lparr>hp_pushed_links := with_origin origin cm'\<rparr>) (assoc_folders fs htdocs fns cm)"
  using assms(1,5)
proof (induction fns arbitrary: hp cm)
  case (Cons filename fns)
  show ?case
  proof (cases "(filename = lit ''..'' \<or> filename = lit ''.'') \<or> \<not> fs_is_dir fs (htdocs @ filename)")
    case True
    then show ?thesis using Cons by (auto simp: slash)
  next
    case False
    show ?thesis
    proof (cases "fs_readdir fs (htdocs @ filename)")
      case None
      with False show ?thesis by (simp add: slash addHtdocsDir_def assoc_addHtdocsDir_def)
    next
      case (Some names)
      define cm1 where "cm1 = assoc_map_files fs (htdocs @ filename) filename names cm"
      define hp1 where "hp1 = hp\<lparr>hp_pushed_links := with_origin origin cm1\<rparr>"
      have "add_map_files fs htdocs filename names hp = Some hp1"
        unfolding hp1_def cm1_def by (rule map_files_agree [OF Cons.prems(1) assms(2) Cons.prems(2)])
      then have "add_folders fs htdocs (filename # fns) hp = add_folders fs htdocs fns hp1"
        "assoc_folders fs htdocs (filename # fns) cm = assoc_folders fs htdocs fns cm1"
        using False Some by (simp_all add: slash addHtdocsDir_def assoc_addHtdocsDir_def cm1_def)
      then show ?thesis using Cons.IH [of hp1 cm1] Cons.prems(1) by (simp add: hp1_def)
    qed
  qed
qed simp


definition demo_root :: html_fs where
  "demo_root =
     \<lparr>fs_readdir = (\<lambda>p. case filter (\<lambda>c. c \<noteq> 47) p of
         [c] \<Rightarrow> Some [lit ''.'', lit ''a''] | [c, d] \<Rightarrow> Some [lit ''i.html.map''] | _ \<Rightarrow> None),
      fs_is_dir = (\<lambda>p. length (filter (\<lambda>c. c \<noteq> 47) p) = 2), fs_getlines = (\<lambda>_. [lit ''x.css'', lit ''y.js''])\<rparr>"


text \<open>The server is never started with an empty document root.\<close>

lemma htdocs_set: "spdyd_main detached opts args = Inr cf \<Longrightarrow> sc_htdocs cf \<noteq> []"
  by (auto simp: spdyd_main_def lit_def split: sum.split_asm list.split_asm if_splits)

end
