(* ===== verification/Spdyd_Loop.thy ===== *)
theory Spdyd_Loop
  imports Spdyd_Content Spdy_Lifecycle Spdy_NPN
begin

text \<open>
  The network side of the file server in \<open>src/SpdyServer.cc\<close>: the three kinds of event handlers (for a
  listening socket, for a TLS handshake, for a SPDY session), the class \<open>Sessions\<close> with the interest list
  of \<open>src/EventPoll_epoll.cc\<close>, and the loop of \<open>SpdyServer::run\<close>. Handlers are objects of a store, known by
  their address; each SPDY handler has a session of the library model, whose callbacks are those of
  \<open>Spdyd_Server\<close>. A fault is \<open>Deleted_object\<close>, the use of a handler that was deleted, or \<open>Aborted\<close>, a failed
  \<open>assert\<close>, a NULL request that is dereferenced or a run of the library without result. Session
  numbers, messages and the switching of Nagle's algorithm within a session are left out. Shown here:
  as long as no listening socket fails and no handshake ends in an error event alone, no deleted
  handler is used and no descriptor is lost; and what happens otherwise.
\<close>

section \<open>The callbacks of a session\<close>

text \<open>The requests of a handler, \<open>want_write_\<close>, and how often it has used the network.\<close>

record spdyd_hd =
  hd_id2req :: requests
  hd_want_write :: bool
  hd_io :: nat

definition spdyd_hd_new :: spdyd_hd where
  "spdyd_hd_new = \<lparr>hd_id2req = Map.empty, hd_want_write = False, hd_io = 0\<rparr>"

text \<open>
  What the handlers are given: \<open>SSL_write\<close> with its return value and whether it would block, \<open>SSL_read\<close>
  with its return value, the bytes, whether it would block and whether it wants to write, \<open>read\<close> on
  a file, and the environment of a request; each by the descriptor of the connection and the number
  of uses before.
\<close>

record 'z spdyd_net =
  sn_zlib :: "'z zlib"
  sn_SSL_write :: "int \<Rightarrow> nat \<Rightarrow> bytes \<Rightarrow> int \<times> bool"
  sn_SSL_read :: "int \<Rightarrow> nat \<Rightarrow> nat \<Rightarrow> int \<times> bytes \<times> bool \<times> bool"
  sn_read :: "int \<Rightarrow> nat \<Rightarrow> nat \<Rightarrow> nat \<Rightarrow> bytes option"
  sn_env :: "int \<Rightarrow> nat \<Rightarrow> spdyd_env"
  sn_config :: spdyd_Config

type_synonym 'z spdyd_session = "('z, spdyd_hd option) spdylay_session"

definition hd_used :: "spdyd_hd \<Rightarrow> spdyd_hd" where
  "hd_used hnd = hnd\<lparr>hd_io := Suc (hd_io hnd)\<rparr>"

definition hd_send_callback :: "'z spdyd_net \<Rightarrow> int \<Rightarrow> 'z spdyd_session \<Rightarrow> bytes \<Rightarrow> int \<times> spdyd_hd option \<times> api_call list" where
  "hd_send_callback nt fd s data =
     (case s_user_data s of
        None \<Rightarrow> (SPDYLAY_ERR_CALLBACK_FAILURE, None, [])
      | Some hnd \<Rightarrow>
          (case sn_SSL_write nt fd (hd_io hnd) data of (r, would_block) \<Rightarrow>
             (if r < 0 then if would_block then SPDYLAY_ERR_WOULDBLOCK else SPDYLAY_ERR_CALLBACK_FAILURE else r, Some (hd_used hnd), [])))"

definition hd_recv_callback ::
    "'z spdyd_net \<Rightarrow> int \<Rightarrow> 'z spdyd_session \<Rightarrow> nat \<Rightarrow> (int \<times> bytes) \<times> spdyd_hd option \<times> api_call list" where
  "hd_recv_callback nt fd s len =
     (case s_user_data s of
        None \<Rightarrow> ((SPDYLAY_ERR_CALLBACK_FAILURE, []), None, [])
      | Some hnd \<Rightarrow>
          (case sn_SSL_read nt fd (hd_io hnd) len of (r, bs, would_block, want_write) \<Rightarrow>
             ((if r < 0 then if would_block then SPDYLAY_ERR_WOULDBLOCK else SPDYLAY_ERR_CALLBACK_FAILURE
               else if r = 0 then SPDYLAY_ERR_EOF else r, bs),
              Some ((hd_used hnd)\<lparr>hd_want_write := (r < 0 \<and> want_write)\<rparr>), [])))"

definition hd_read_callback ::
    "'z spdyd_net \<Rightarrow> int \<Rightarrow> 'z spdyd_session \<Rightarrow> i32 \<Rightarrow> nat \<Rightarrow> nat \<Rightarrow> (int \<times> bytes \<times> bool \<times> nat) \<times> spdyd_hd option \<times> api_call list" where
  "hd_read_callback nt fd s stream_id len file =
     (case s_user_data s of
        None \<Rightarrow> ((SPDYLAY_ERR_CALLBACK_FAILURE, [], False, file), None, [])
      | Some hnd \<Rightarrow>
          (case file_read_callback (map_option (take len) (sn_read nt fd (hd_io hnd) file len)) of (r, bs, eof) \<Rightarrow>
             ((r, bs, eof, file), Some (hd_used hnd), [])))"

text \<open>The callbacks that \<open>add_next_handler\<close> registers, apart from those that only print.\<close>

definition hd_answer :: "'z spdyd_net \<Rightarrow> int \<Rightarrow> 'z spdyd_session \<Rightarrow> event \<Rightarrow> spdyd_hd option \<times> api_call list" where
  "hd_answer nt fd s ev =
     (case s_user_data s of
        None \<Rightarrow> (None, [])
      | Some hnd \<Rightarrow>
          (case ev of
             OnStreamClose i c \<Rightarrow> (Some (hnd\<lparr>hd_id2req := remove_stream i (hd_id2req hnd)\<rparr>), [])
           | OnCtrlRecv frame \<Rightarrow> (map_option (\<lambda>rs. hnd\<lparr>hd_id2req := rs\<rparr>) (hd_on_ctrl_recv_callback frame (hd_id2req hnd)), [])
           | OnRequestRecv i \<Rightarrow>
               (case htdocs_on_request_recv_callback (sn_env nt fd (hd_io hnd)) i (hd_id2req hnd) of
                  None \<Rightarrow> (None, [])
                | Some (calls, rs) \<Rightarrow> (Some ((hd_used hnd)\<lparr>hd_id2req := rs\<rparr>), calls))
           | _ \<Rightarrow> (Some hnd, [])))"

definition hd_callbacks :: "'z spdyd_net \<Rightarrow> int \<Rightarrow> ('z, spdyd_hd option) spdylay_session_callbacks" where
  "hd_callbacks nt fd =
     \<lparr>cb_send = hd_send_callback nt fd, cb_recv = hd_recv_callback nt fd, cb_read = hd_read_callback nt fd,
      cb_event = hd_answer nt fd, cb_get_credential_ncerts = None, cb_get_credential_proof = None, cb_get_credential_cert = None\<rparr>"

text \<open>The constructor announces the limit on concurrent streams; its assertions are \<open>None\<close>.\<close>

definition SpdyEventHandler_new :: "'z spdyd_net \<Rightarrow> mem \<Rightarrow> u16 \<Rightarrow> 'z spdyd_session option" where
  "SpdyEventHandler_new nt m version =
     (case spdylay_session_server_new (sn_zlib nt) m version (Some spdyd_hd_new) of
        (Inl e, m1) \<Rightarrow> None
      | (Inr s, m1) \<Rightarrow>
          do {
            (r, s1) \<leftarrow> spdylay_submit_settings s 0 [\<lparr>se_settings_id = of_nat SPDYLAY_SETTINGS_MAX_CONCURRENT_STREAMS, se_flags = 0,
                         se_value = SPDYLAY_INITIAL_MAX_CONCURRENT_STREAMS\<rparr>];
            if r = 0 then Some s1 else None
          })"

section \<open>Event handlers\<close>

datatype 'z handler_kind =
  ListenEventHandler
| SSLAcceptEventHandler (ac_fail: bool) (ac_finish: bool) (ac_want_read: bool) (ac_want_write: bool)
| SpdyEventHandler (sp_session: "'z spdyd_session")

record 'z EventHandler =
  eh_fd :: int
  eh_mark_del :: bool
  eh_kind :: "'z handler_kind"

fun eh_want_read :: "'z handler_kind \<Rightarrow> bool" where
  "eh_want_read ListenEventHandler \<longleftrightarrow> True"
| "eh_want_read (SSLAcceptEventHandler fail fin rd wr) \<longleftrightarrow> rd"
| "eh_want_read (SpdyEventHandler s) \<longleftrightarrow> spdylay_session_want_read s"

fun eh_want_write :: "'z handler_kind \<Rightarrow> bool" where
  "eh_want_write ListenEventHandler \<longleftrightarrow> False"
| "eh_want_write (SSLAcceptEventHandler fail fin rd wr) \<longleftrightarrow> wr"
| "eh_want_write (SpdyEventHandler s) \<longleftrightarrow>
     spdylay_session_want_write s \<or> (case s_user_data s of None \<Rightarrow> False | Some hnd \<Rightarrow> hd_want_write hnd)"

fun eh_finish :: "'z handler_kind \<Rightarrow> bool" where
  "eh_finish ListenEventHandler \<longleftrightarrow> False"
| "eh_finish (SSLAcceptEventHandler fail fin rd wr) \<longleftrightarrow> fin"
| "eh_finish (SpdyEventHandler s) \<longleftrightarrow> \<not> spdylay_session_want_read s \<and> \<not> spdylay_session_want_write s"

text \<open>Whether the destructor closes the descriptor.\<close>

fun eh_closes :: "'z handler_kind \<Rightarrow> bool" where
  "eh_closes ListenEventHandler \<longleftrightarrow> False"
| "eh_closes (SSLAcceptEventHandler fail fin rd wr) \<longleftrightarrow> fail"
| "eh_closes (SpdyEventHandler s) \<longleftrightarrow> True"

section \<open>Sessions\<close>

text \<open>
  The handlers that are alive, the set \<open>handlers_\<close>, the interest list of \<open>epoll\<close>, which has for a
  descriptor the user data and the events waited for, and the descriptors of accepted connections.
\<close>

record 'z Sessions =
  sv_heap :: "nat \<rightharpoonup> 'z EventHandler"
  sv_handlers :: "nat set"
  sv_interest :: "int \<rightharpoonup> nat \<times> bool \<times> bool"
  sv_conns :: "int set"

definition Sessions_new :: "'z Sessions" where
  "Sessions_new = \<lparr>sv_heap = Map.empty, sv_handlers = {}, sv_interest = Map.empty, sv_conns = {}\<rparr>"

datatype spdyd_fault = Deleted_object | Aborted

definition add_handler :: "nat \<Rightarrow> 'z Sessions \<Rightarrow> 'z Sessions" where
  "add_handler p sv = sv\<lparr>sv_handlers := insert p (sv_handlers sv)\<rparr>"

definition remove_handler :: "nat \<Rightarrow> 'z Sessions \<Rightarrow> 'z Sessions" where
  "remove_handler p sv = sv\<lparr>sv_handlers := sv_handlers sv - {p}\<rparr>"

text \<open>\<open>new\<close> for a handler, at the address \<open>p\<close>.\<close>

definition new_handler :: "nat \<Rightarrow> int \<Rightarrow> 'z handler_kind \<Rightarrow> 'z Sessions \<Rightarrow> 'z Sessions" where
  "new_handler p fd k sv = sv\<lparr>sv_heap := (sv_heap sv)(p \<mapsto> \<lparr>eh_fd = fd, eh_mark_del = False, eh_kind = k\<rparr>)\<rparr>"

text \<open>\<open>epoll_ctl\<close> for adding or changing an entry; \<open>ok\<close> is its answer.\<close>

definition update_poll_internal :: "bool \<Rightarrow> nat \<Rightarrow> 'z EventHandler \<Rightarrow> 'z Sessions \<Rightarrow> 'z Sessions" where
  "update_poll_internal ok p h sv =
     (if ok then sv\<lparr>sv_interest := (sv_interest sv)(eh_fd h \<mapsto> (p, eh_want_read (eh_kind h), eh_want_write (eh_kind h)))\<rparr> else sv)"

text \<open>A closed descriptor leaves the interest list.\<close>

definition close_fd :: "int \<Rightarrow> 'z Sessions \<Rightarrow> 'z Sessions" where
  "close_fd fd sv = sv\<lparr>sv_conns := sv_conns sv - {fd}, sv_interest := (sv_interest sv)(fd := None)\<rparr>"

definition delete_handler_object :: "nat \<Rightarrow> 'z Sessions \<Rightarrow> spdyd_fault + 'z Sessions" where
  "delete_handler_object p sv =
     (case sv_heap sv p of
        None \<Rightarrow> Inl Deleted_object
      | Some h \<Rightarrow>
          let sv1 = sv\<lparr>sv_heap := (sv_heap sv)(p := None)\<rparr> in
          Inr (if eh_closes (eh_kind h) then close_fd (eh_fd h) sv1 else sv1))"

definition spdyd_on_close :: "nat \<Rightarrow> 'z Sessions \<Rightarrow> spdyd_fault + 'z Sessions" where
  "spdyd_on_close p sv = delete_handler_object p (remove_handler p sv)"

section \<open>What the handlers do\<close>

text \<open>The outcomes of the calls of the system that one event can need.\<close>

datatype ssl_accept = Accepted "bytes option" | Refused | WantRead | WantWrite | Failed

record spdyd_input =
  in_accept :: "int option"
  in_nonblock :: bool
  in_nodelay :: bool
  in_ssl_new :: bool
  in_ssl_accept :: ssl_accept
  in_address :: nat
  in_mem :: mem
  in_epoll_ctl :: bool
  in_epoll_mod :: bool

definition listen_add_next_handler :: "spdyd_input \<Rightarrow> int \<Rightarrow> 'z Sessions \<Rightarrow> 'z Sessions" where
  "listen_add_next_handler inp cfd sv =
     (if \<not> in_ssl_new inp then close_fd cfd sv
      else
        let k = SSLAcceptEventHandler False False True True; p = in_address inp in
        if \<not> in_epoll_ctl inp then close_fd cfd sv
        else add_handler p (update_poll_internal True p \<lparr>eh_fd = cfd, eh_mark_del = False, eh_kind = k\<rparr> (new_handler p cfd k sv)))"

definition listen_execute :: "'z spdyd_net \<Rightarrow> spdyd_input \<Rightarrow> 'z Sessions \<Rightarrow> int \<times> 'z Sessions" where
  "listen_execute nt inp sv =
     (case in_accept inp of
        None \<Rightarrow> (0, sv)
      | Some cfd \<Rightarrow>
          let sv1 = sv\<lparr>sv_conns := insert cfd (sv_conns sv)\<rparr> in
          if \<not> in_nonblock inp \<or> sc_disable_nagle (sn_config nt) \<and> \<not> in_nodelay inp then (-1, close_fd cfd sv1)
          else (0, listen_add_next_handler inp cfd sv1))"

text \<open>The new handler has the descriptor of the old one; when its registration fails its destructor closes it.\<close>

definition accept_add_next_handler ::
    "'z spdyd_net \<Rightarrow> spdyd_input \<Rightarrow> int \<Rightarrow> u16 \<Rightarrow> 'z Sessions \<Rightarrow> spdyd_fault + 'z Sessions" where
  "accept_add_next_handler nt inp fd version sv =
     (case SpdyEventHandler_new nt (in_mem inp) version of
        None \<Rightarrow> Inl Aborted
      | Some s \<Rightarrow>
          let k = SpdyEventHandler s; p = in_address inp in
          if \<not> in_epoll_ctl inp then delete_handler_object p (new_handler p fd k sv)
          else Inr (add_handler p (update_poll_internal True p \<lparr>eh_fd = fd, eh_mark_del = False, eh_kind = k\<rparr> (new_handler p fd k sv))))"

definition set_kind :: "nat \<Rightarrow> 'z handler_kind \<Rightarrow> 'z Sessions \<Rightarrow> 'z Sessions" where
  "set_kind p k sv = sv\<lparr>sv_heap := (sv_heap sv)(p := map_option (\<lambda>h. h\<lparr>eh_kind := k\<rparr>) (sv_heap sv p))\<rparr>"

definition set_mark_del :: "nat \<Rightarrow> 'z Sessions \<Rightarrow> 'z Sessions" where
  "set_mark_del p sv = sv\<lparr>sv_heap := (sv_heap sv)(p := map_option (\<lambda>h. h\<lparr>eh_mark_del := True\<rparr>) (sv_heap sv p))\<rparr>"

definition accept_execute ::
    "'z spdyd_net \<Rightarrow> spdyd_input \<Rightarrow> nat \<Rightarrow> int \<Rightarrow> bool \<Rightarrow> bool \<Rightarrow> 'z Sessions \<Rightarrow> spdyd_fault + 'z Sessions" where
  "accept_execute nt inp p fd fail fin sv =
     (case in_ssl_accept inp of
        Accepted next_proto \<Rightarrow>
          let version = spdylay_npn_get_version next_proto in
          if next_proto \<noteq> None \<and> version \<noteq> 0
          then accept_add_next_handler nt inp fd version (set_kind p (SSLAcceptEventHandler fail True False False) sv)
          else Inr (set_kind p (SSLAcceptEventHandler True True False False) sv)
      | Refused \<Rightarrow> Inr (set_kind p (SSLAcceptEventHandler True True False False) sv)
      | WantRead \<Rightarrow> Inr (set_kind p (SSLAcceptEventHandler fail fin True False) sv)
      | WantWrite \<Rightarrow> Inr (set_kind p (SSLAcceptEventHandler fail fin False True) sv)
      | Failed \<Rightarrow> Inr (set_kind p (SSLAcceptEventHandler True True False False) sv))"

definition spdy_execute :: "'z spdyd_net \<Rightarrow> int \<Rightarrow> 'z spdyd_session \<Rightarrow> (int \<times> 'z spdyd_session) option" where
  "spdy_execute nt fd s =
     do {
       (r, s1) \<leftarrow> spdylay_session_recv (sn_zlib nt) (hd_callbacks nt fd) s;
       if r = 0 then spdylay_session_send (sn_zlib nt) (hd_callbacks nt fd) s1 else Some (r, s1)
     }"

definition handler_execute ::
    "'z spdyd_net \<Rightarrow> spdyd_input \<Rightarrow> nat \<Rightarrow> 'z EventHandler \<Rightarrow> 'z Sessions \<Rightarrow> spdyd_fault + int \<times> 'z Sessions" where
  "handler_execute nt inp p h sv =
     (case eh_kind h of
        ListenEventHandler \<Rightarrow> Inr (listen_execute nt inp sv)
      | SSLAcceptEventHandler fail fin rd wr \<Rightarrow>
          (case accept_execute nt inp p (eh_fd h) fail fin sv of Inl e \<Rightarrow> Inl e | Inr sv1 \<Rightarrow> Inr (0, sv1))
      | SpdyEventHandler s \<Rightarrow>
          (case spdy_execute nt (eh_fd h) s of
             None \<Rightarrow> Inl Aborted
           | Some (r, s1) \<Rightarrow> if s_user_data s1 = None then Inl Aborted else Inr (r, set_kind p (SpdyEventHandler s1) sv)))"

section \<open>The loop\<close>

text \<open>
  An event that \<open>epoll_wait\<close> reports: the user data, whether the descriptor is ready for reading or
  writing, and whether there is an error or a hang-up.
\<close>

record poll_event =
  pe_user_data :: nat
  pe_ready :: bool
  pe_error :: bool

text \<open>Whether the handler goes on the list of those to be deleted is the second result.\<close>

definition handle_event :: "'z spdyd_net \<Rightarrow> poll_event \<times> spdyd_input \<Rightarrow> 'z Sessions \<Rightarrow> spdyd_fault + 'z Sessions \<times> bool" where
  "handle_event nt e sv =
     (case e of (ev, inp) \<Rightarrow>
        let p = pe_user_data ev in
        case sv_heap sv p of
          None \<Rightarrow> Inl Deleted_object
        | Some h \<Rightarrow>
            if eh_mark_del h then Inr (sv, False)
            else
              (case if pe_ready ev then handler_execute nt inp p h sv
                    else Inr (0, if pe_error ev then set_mark_del p sv else sv) of
                 Inl f \<Rightarrow> Inl f
               | Inr (r, sv1) \<Rightarrow>
                   (case sv_heap sv1 p of
                      None \<Rightarrow> Inl Deleted_object
                    | Some h1 \<Rightarrow>
                        if r \<noteq> 0 \<or> eh_finish (eh_kind h1) then Inr (set_mark_del p sv1, True)
                        else Inr (update_poll_internal (in_epoll_mod inp) p h1 sv1, eh_mark_del h1))))"

fun handle_events ::
    "'z spdyd_net \<Rightarrow> (poll_event \<times> spdyd_input) list \<Rightarrow> nat list \<Rightarrow> 'z Sessions \<Rightarrow> spdyd_fault + 'z Sessions \<times> nat list" where
  "handle_events nt [] del_list sv = Inr (sv, del_list)"
| "handle_events nt (e # es) del_list sv =
     (case handle_event nt e sv of
        Inl f \<Rightarrow> Inl f
      | Inr (sv1, del) \<Rightarrow> handle_events nt es (if del then del_list @ [pe_user_data (fst e)] else del_list) sv1)"

fun close_handlers :: "nat list \<Rightarrow> 'z Sessions \<Rightarrow> spdyd_fault + 'z Sessions" where
  "close_handlers [] sv = Inr sv"
| "close_handlers (p # ps) sv =
     (case spdyd_on_close p sv of Inl f \<Rightarrow> Inl f | Inr sv1 \<Rightarrow> close_handlers ps (remove_handler p sv1))"

definition run_turn :: "'z spdyd_net \<Rightarrow> (poll_event \<times> spdyd_input) list \<Rightarrow> 'z Sessions \<Rightarrow> spdyd_fault + 'z Sessions" where
  "run_turn nt es sv =
     (case handle_events nt es [] sv of Inl f \<Rightarrow> Inl f | Inr (sv1, del_list) \<Rightarrow> close_handlers del_list sv1)"

text \<open>The two listening sockets; a handler that \<open>epoll\<close> refuses is deleted and put into the set nevertheless.\<close>

definition add_listener :: "nat \<times> int \<times> bool \<Rightarrow> 'z Sessions \<Rightarrow> 'z Sessions" where
  "add_listener l sv =
     (case l of (p, sfd, ok) \<Rightarrow>
        add_handler p (if ok
          then update_poll_internal True p \<lparr>eh_fd = sfd, eh_mark_del = False, eh_kind = ListenEventHandler\<rparr>
                 (new_handler p sfd ListenEventHandler sv)
          else sv))"

text \<open>The protocols the server announces, as \<open>run\<close> writes them into its array of 14 bytes.\<close>

definition spdyd_proto_list :: "spdyd_Config \<Rightarrow> bytes" where
  "spdyd_proto_list cf =
     (if sc_spdy3_only cf then [6] @ lit ''spdy/3'' else [6] @ lit ''spdy/3'' @ [6] @ lit ''spdy/2'')"

lemma spdyd_proto_list_encodes:
  "spdyd_proto_list cf = npn_encode (if sc_spdy3_only cf then [name_spdy3] else [name_spdy3, name_spdy2])"
  by (simp add: spdyd_proto_list_def name_spdy3_def name_spdy2_def lit_def)

section \<open>What holds in every turn\<close>

text \<open>
  A handler that owns its descriptor: it is not going to be deleted, or its destructor closes it. \<open>del_list\<close>
  has the marked handlers.
\<close>

definition owner :: "'z EventHandler \<Rightarrow> bool" where
  "owner h \<longleftrightarrow> \<not> eh_mark_del h \<or> eh_closes (eh_kind h)"

definition handler_ok :: "'z EventHandler \<Rightarrow> bool" where
  "handler_ok h \<longleftrightarrow>
     (case eh_kind h of
        ListenEventHandler \<Rightarrow> \<not> eh_mark_del h
      | SSLAcceptEventHandler fail fin rd wr \<Rightarrow> fail \<or> fin \<longrightarrow> eh_mark_del h
      | SpdyEventHandler s \<Rightarrow> session_inv s)"

definition owns :: "'z EventHandler option \<Rightarrow> int \<Rightarrow> bool" where
  "owns x fd \<longleftrightarrow> (case x of None \<Rightarrow> False | Some h \<Rightarrow> owner h \<and> eh_kind h \<noteq> ListenEventHandler \<and> eh_fd h = fd)"

definition owned :: "'z Sessions \<Rightarrow> int \<Rightarrow> bool" where
  "owned sv fd \<longleftrightarrow> (\<exists>p. owns (sv_heap sv p) fd)"

lemma owns_simps [simp]:
  "\<not> owns None fd" "owns (Some h) fd \<longleftrightarrow> owner h \<and> eh_kind h \<noteq> ListenEventHandler \<and> eh_fd h = fd"
  by (simp_all add: owns_def)

definition loop_inv :: "nat list \<Rightarrow> 'z Sessions \<Rightarrow> bool" where
  "loop_inv dels sv \<longleftrightarrow>
     (\<forall>fd p m. sv_interest sv fd = Some (p, m) \<longrightarrow> (\<exists>h. sv_heap sv p = Some h \<and> eh_fd h = fd \<and> owner h)) \<and>
     dom (sv_heap sv) \<subseteq> sv_handlers sv \<and>
     (\<forall>p q h k. sv_heap sv p = Some h \<and> sv_heap sv q = Some k \<and> owner h \<and> owner k \<and> eh_fd h = eh_fd k \<longrightarrow> p = q) \<and>
     (\<forall>fd. fd \<in> sv_conns sv \<longleftrightarrow> owned sv fd) \<and>
     (\<forall>p h. sv_heap sv p = Some h \<longrightarrow> handler_ok h) \<and>
     distinct dels \<and> (\<forall>p. p \<in> set dels \<longleftrightarrow> (\<exists>h. sv_heap sv p = Some h \<and> eh_mark_del h))"

lemma loop_invI:
  assumes "\<And>fd p m. sv_interest sv fd = Some (p, m) \<Longrightarrow> \<exists>h. sv_heap sv p = Some h \<and> eh_fd h = fd \<and> owner h"
    and "dom (sv_heap sv) \<subseteq> sv_handlers sv"
    and "\<And>p q h k. sv_heap sv p = Some h \<Longrightarrow> sv_heap sv q = Some k \<Longrightarrow> owner h \<Longrightarrow> owner k \<Longrightarrow> eh_fd h = eh_fd k \<Longrightarrow> p = q"
    and "\<And>fd. fd \<in> sv_conns sv \<longleftrightarrow> owned sv fd"
    and "\<And>p h. sv_heap sv p = Some h \<Longrightarrow> handler_ok h"
    and "distinct dels" "\<And>p. p \<in> set dels \<longleftrightarrow> (\<exists>h. sv_heap sv p = Some h \<and> eh_mark_del h)"
  shows "loop_inv dels sv"
  unfolding loop_inv_def using assms by blast

lemma loop_invD:
  assumes "loop_inv dels sv"
  shows "sv_interest sv fd = Some (p, m) \<Longrightarrow> \<exists>h. sv_heap sv p = Some h \<and> eh_fd h = fd \<and> owner h"
    and "dom (sv_heap sv) \<subseteq> sv_handlers sv"
    and "sv_heap sv p = Some h \<Longrightarrow> sv_heap sv q = Some k \<Longrightarrow> owner h \<Longrightarrow> owner k \<Longrightarrow> eh_fd h = eh_fd k \<Longrightarrow> p = q"
    and "fd \<in> sv_conns sv \<longleftrightarrow> owned sv fd"
    and "sv_heap sv p = Some h \<Longrightarrow> handler_ok h"
    and "distinct dels" "p \<in> set dels \<longleftrightarrow> (\<exists>h. sv_heap sv p = Some h \<and> eh_mark_del h)"
  using assms unfolding loop_inv_def by blast+

text \<open>A handler that still owns its descriptor afterwards; it may become marked.\<close>

lemma loop_inv_update:
  assumes inv: "loop_inv dels sv" and p: "sv_heap sv p = Some h" "\<not> eh_mark_del h"
    and h': "owner h'" "handler_ok h'" "eh_fd h' = eh_fd h" "eh_kind h' = ListenEventHandler \<longleftrightarrow> eh_kind h = ListenEventHandler"
  shows "loop_inv (if eh_mark_del h' then dels @ [p] else dels) (sv\<lparr>sv_heap := (sv_heap sv)(p \<mapsto> h')\<rparr>)"
proof -
  have o: "owner h" using p(2) by (simp add: owner_def)
  have d: "p \<notin> set dels" using loop_invD(7) [OF inv, of p] p by auto
  have ow: "owned (sv\<lparr>sv_heap := (sv_heap sv)(p \<mapsto> h')\<rparr>) fd \<longleftrightarrow> owned sv fd" for fd
  proof -
    have "owns (((sv_heap sv)(p \<mapsto> h')) q) fd = owns (sv_heap sv q) fd" for q using p(1) o h' by auto
    then show ?thesis by (simp add: owned_def)
  qed
  show ?thesis
  proof (rule loop_invI, goal_cases)
    case (1 fd q m)
    then show ?case using loop_invD(1) [OF inv, of fd q m] p(1) h' by auto
  next
    case 2
    then show ?case using loop_invD(2) [OF inv] p(1) by auto
  next
    case (3 q r k l)
    then show ?case using loop_invD(3) [OF inv] p(1) o h'(1,3) by (auto split: if_splits)
  next
    case (4 fd)
    then show ?case using ow loop_invD(4) [OF inv] by simp
  next
    case (5 q k)
    then show ?case using loop_invD(5) [OF inv] h'(2) by (auto split: if_splits)
  next
    case 6
    then show ?case using loop_invD(6) [OF inv] d by simp
  next
    case (7 q)
    then show ?case using loop_invD(7) [OF inv, of q] p(2) d by auto
  qed
qed

lemma loop_inv_poll:
  assumes inv: "loop_inv dels sv" and p: "sv_heap sv p = Some h" "owner h"
  shows "loop_inv dels (update_poll_internal ok p h sv)"
proof (rule loop_invI, goal_cases)
  case (1 fd q m)
  then show ?case using loop_invD(1) [OF inv, of fd q m] p by (auto simp: update_poll_internal_def split: if_splits)
next
  case (4 fd)
  then show ?case using loop_invD(4) [OF inv] by (simp add: update_poll_internal_def owned_def)
qed (use loop_invD(2,3,5-7) [OF inv] in \<open>auto simp: update_poll_internal_def split: if_splits\<close>)
lemma closed_unused: "cfd \<notin> sv_conns sv \<Longrightarrow> sv_interest sv cfd = None \<Longrightarrow> close_fd cfd (sv\<lparr>sv_conns := insert cfd (sv_conns sv)\<rparr>) = sv"
  by (simp add: close_fd_def fun_upd_idem)

lemma unused_interest:
  assumes "loop_inv dels sv" "\<And>p h. sv_heap sv p = Some h \<Longrightarrow> eh_fd h \<noteq> cfd"
  shows "sv_interest sv cfd = None"
proof (cases "sv_interest sv cfd")
  case (Some x)
  then show ?thesis using loop_invD(1) [OF assms(1), of cfd "fst x" "snd x"] assms(2) by auto
qed

lemma add_handler_poll: "add_handler q (update_poll_internal ok p h sv) = update_poll_internal ok p h (add_handler q sv)"
  by (cases sv) (simp add: add_handler_def update_poll_internal_def)

text \<open>A handler for a descriptor that no handler has.\<close>

lemma loop_inv_new:
  assumes inv: "loop_inv dels sv" and q: "sv_heap sv q = None" and fd: "\<And>p h. sv_heap sv p = Some h \<Longrightarrow> eh_fd h \<noteq> fd"
    and k: "handler_ok \<lparr>eh_fd = fd, eh_mark_del = False, eh_kind = k\<rparr>"
  shows "loop_inv dels (add_handler q (update_poll_internal ok q \<lparr>eh_fd = fd, eh_mark_del = False, eh_kind = k\<rparr>
    (new_handler q fd k (sv\<lparr>sv_conns := if k = ListenEventHandler then sv_conns sv else insert fd (sv_conns sv)\<rparr>))))"
  unfolding add_handler_poll
proof (rule loop_inv_poll)
  define h where "h = \<lparr>eh_fd = fd, eh_mark_del = False, eh_kind = k\<rparr>"
  define sv1 where "sv1 = add_handler q (new_handler q fd k (sv\<lparr>sv_conns := if k = ListenEventHandler then sv_conns sv else insert fd (sv_conns sv)\<rparr>))"
  have sv1: "sv_heap sv1 = (sv_heap sv)(q \<mapsto> h)" "sv_handlers sv1 = insert q (sv_handlers sv)" "sv_interest sv1 = sv_interest sv"
      "sv_conns sv1 = (if k = ListenEventHandler then sv_conns sv else insert fd (sv_conns sv))"
    by (simp_all add: sv1_def add_handler_def new_handler_def h_def)
  have h: "owner h" "eh_fd h = fd" "\<not> eh_mark_del h" "eh_kind h = k" by (simp_all add: h_def owner_def)
  have ow: "owned sv1 x \<longleftrightarrow> owned sv x \<or> k \<noteq> ListenEventHandler \<and> x = fd" for x
  proof -
    have "owns (sv_heap sv1 p) x \<longleftrightarrow> owns (sv_heap sv p) x \<or> p = q \<and> k \<noteq> ListenEventHandler \<and> x = fd" for p
      using q h by (auto simp: sv1)
    then show ?thesis by (auto simp: owned_def)
  qed
  show "sv_heap sv1 q = Some h" "owner h" by (simp_all add: sv1 h)
  show "loop_inv dels sv1"
  proof (rule loop_invI, goal_cases)
    case (1 x p m)
    then show ?case using loop_invD(1) [OF inv, of x p m] q by (auto simp: sv1)
  next
    case 2
    then show ?case using loop_invD(2) [OF inv] by (auto simp: sv1)
  next
    case (3 p r a b)
    then show ?case using loop_invD(3) [OF inv] fd h by (auto simp: sv1 split: if_splits)
  next
    case (4 x)
    then show ?case using ow loop_invD(4) [OF inv] by (auto simp: sv1)
  next
    case (5 p a)
    then show ?case using loop_invD(5) [OF inv] k by (auto simp: sv1 h_def split: if_splits)
  next
    case 6
    then show ?case using loop_invD(6) [OF inv] by simp
  next
    case (7 p)
    then show ?case using loop_invD(7) [OF inv, of p] q h by (auto simp: sv1)
  qed
qed

lemma loop_inv_delete:
  assumes inv: "loop_inv (p # ps) sv"
  shows "\<exists>sv1. spdyd_on_close p sv = Inr sv1 \<and> loop_inv ps (remove_handler p sv1)"
proof -
  obtain h where h: "sv_heap sv p = Some h" "eh_mark_del h" using loop_invD(7) [OF inv, of p] by auto
  define sv1 where "sv1 = remove_handler p
    (if eh_closes (eh_kind h) then close_fd (eh_fd h) (sv\<lparr>sv_handlers := sv_handlers sv - {p}, sv_heap := (sv_heap sv)(p := None)\<rparr>)
     else sv\<lparr>sv_handlers := sv_handlers sv - {p}, sv_heap := (sv_heap sv)(p := None)\<rparr>)"
  have heap: "sv_heap sv1 = (sv_heap sv)(p := None)" and hs: "sv_handlers sv1 = sv_handlers sv - {p}"
    and int: "sv_interest sv1 = (if eh_closes (eh_kind h) then (sv_interest sv)(eh_fd h := None) else sv_interest sv)"
    and conns: "sv_conns sv1 = (if eh_closes (eh_kind h) then sv_conns sv - {eh_fd h} else sv_conns sv)"
    by (auto simp: sv1_def remove_handler_def close_fd_def)
  have gone: "sv_interest sv1 fd \<noteq> Some (p, m)" for fd m
    using loop_invD(1) [OF inv, of fd p m] h by (auto simp: int owner_def)
  have ow: "owned sv1 x \<longleftrightarrow> owned sv x \<and> \<not> (eh_closes (eh_kind h) \<and> x = eh_fd h)" for x
  proof -
    have "owns (sv_heap sv1 q) x \<longleftrightarrow> owns (sv_heap sv q) x \<and> \<not> (eh_closes (eh_kind h) \<and> x = eh_fd h)" for q
    proof (cases "sv_heap sv q")
      case (Some k)
      then show ?thesis
        using loop_invD(3) [OF inv h(1) Some] h loop_invD(5) [OF inv h(1)] by (auto simp: heap owner_def handler_ok_def split: handler_kind.splits)
    qed (simp add: heap)
    then show ?thesis by (simp add: owned_def)
  qed
  have "loop_inv ps sv1"
  proof (rule loop_invI, goal_cases)
    case (1 fd q m)
    then have "sv_interest sv fd = Some (q, m)" "q \<noteq> p" using gone [of fd m] by (auto simp: int split: if_splits)
    then show ?case using loop_invD(1) [OF inv, of fd q m] by (auto simp: heap)
  next
    case 2
    then show ?case using loop_invD(2) [OF inv] by (auto simp: heap hs)
  next
    case (3 q r a b)
    then show ?case using loop_invD(3) [OF inv] by (auto simp: heap split: if_splits)
  next
    case (4 x)
    then show ?case using ow loop_invD(4) [OF inv, of x] by (auto simp: conns)
  next
    case (5 q a)
    then show ?case using loop_invD(5) [OF inv] by (auto simp: heap split: if_splits)
  next
    case 6
    then show ?case using loop_invD(6) [OF inv] by simp
  next
    case (7 q)
    then show ?case using loop_invD(7) [OF inv, of q] loop_invD(6) [OF inv] by (auto simp: heap)
  qed
  then show ?thesis
    using h by (auto simp: spdyd_on_close_def delete_handler_object_def remove_handler_def sv1_def close_fd_def Let_def)
qed

text \<open>A finished handshake: its handler gives the descriptor to a new one, or closes it with that one.\<close>

lemma loop_inv_hand_over:
  assumes inv: "loop_inv dels sv" and p: "sv_heap sv p = Some h" "\<not> eh_mark_del h" "eh_kind h \<noteq> ListenEventHandler"
    and q: "sv_heap sv q = None" and h': "eh_mark_del h'" "\<not> eh_closes (eh_kind h')" "handler_ok h'"
    and k: "eh_fd k = eh_fd h" "\<not> eh_mark_del k" "eh_kind k \<noteq> ListenEventHandler" "handler_ok k"
  shows "loop_inv (dels @ [p]) (sv\<lparr>sv_heap := (sv_heap sv)(q \<mapsto> k, p \<mapsto> h'), sv_handlers := insert q (sv_handlers sv),
    sv_interest := (sv_interest sv)(eh_fd h \<mapsto> (q, m))\<rparr>)" (is "loop_inv _ ?give")
    and "loop_inv (dels @ [p]) (close_fd (eh_fd h) (sv\<lparr>sv_heap := (sv_heap sv)(p \<mapsto> h')\<rparr>))" (is "loop_inv _ ?lose")
proof -
  have o: "owner h" "\<not> owner h'" "owner k" using p(2) h' k by (simp_all add: owner_def)
  have pq: "p \<noteq> q" using p(1) q by auto
  have d: "p \<notin> set dels" using loop_invD(7) [OF inv, of p] p by auto
  have own1: "owns (sv_heap sv r) (eh_fd h) \<longleftrightarrow> r = p" for r
    using loop_invD(3) [OF inv p(1), of r] p(1,3) o(1) by (cases "sv_heap sv r") auto
  have other: "a = eh_fd h \<Longrightarrow> sv_heap sv r = Some l \<Longrightarrow> owner l \<Longrightarrow> eh_fd l = a \<Longrightarrow> r = p" for a r l
    using loop_invD(3) [OF inv p(1), of r l] o(1) by simp
  have conn: "eh_fd h \<in> sv_conns sv" using loop_invD(4) [OF inv] own1 by (auto simp: owned_def)
  have owg: "owns (sv_heap ?give r) x \<longleftrightarrow> (if r = q then x = eh_fd h else r \<noteq> p \<and> owns (sv_heap sv r) x)" for r x
    using o k pq by auto
  have owl: "owns (sv_heap ?lose r) x \<longleftrightarrow> r \<noteq> p \<and> owns (sv_heap sv r) x" for r x
    using o by (simp add: close_fd_def)
  have unp: "owns (sv_heap sv p) x \<longleftrightarrow> x = eh_fd h" for x using p(1,3) o(1) by auto
  have mem: "x \<in> sv_conns sv \<longleftrightarrow> x = eh_fd h \<or> (\<exists>r. r \<noteq> p \<and> owns (sv_heap sv r) x)" for x
    using loop_invD(4) [OF inv, of x] unp [of x] unfolding owned_def by metis
  show "loop_inv (dels @ [p]) ?give"
  proof (rule loop_invI, goal_cases)
    case (1 fd r m')
    then show ?case using loop_invD(1) [OF inv, of fd r m'] p(1) k o pq q by (auto split: if_splits)
  next
    case 2
    then show ?case using loop_invD(2) [OF inv] p(1) by auto
  next
    case (3 r s a b)
    then show ?case using loop_invD(3) [OF inv] other o k pq by (auto split: if_splits)
  next
    case (4 x)
    have "owned ?give x \<longleftrightarrow> x = eh_fd h \<or> (\<exists>r. r \<noteq> q \<and> r \<noteq> p \<and> owns (sv_heap sv r) x)" unfolding owned_def owg by auto
    moreover have "\<not> owns (sv_heap sv q) x" by (simp add: q)
    ultimately show ?case using mem [of x] by simp metis
  next
    case (5 r a)
    then show ?case using loop_invD(5) [OF inv] h' k by (auto split: if_splits)
  next
    case 6
    then show ?case using loop_invD(6) [OF inv] d by simp
  next
    case (7 r)
    then show ?case using loop_invD(7) [OF inv, of r] h' k p(2) q by auto
  qed
  show "loop_inv (dels @ [p]) ?lose"
  proof (rule loop_invI, goal_cases)
    case (1 fd r m')
    then have "sv_interest sv fd = Some (r, m')" "fd \<noteq> eh_fd h" by (auto simp: close_fd_def split: if_splits)
    then show ?case using loop_invD(1) [OF inv, of fd r m'] p(1) by (auto simp: close_fd_def)
  next
    case 2
    then show ?case using loop_invD(2) [OF inv] p(1) by (auto simp: close_fd_def)
  next
    case (3 r s a b)
    then show ?case using loop_invD(3) [OF inv] o by (auto simp: close_fd_def split: if_splits)
  next
    case (4 x)
    have "owned ?lose x \<longleftrightarrow> x \<noteq> eh_fd h \<and> (\<exists>r. r \<noteq> p \<and> owns (sv_heap sv r) x)" unfolding owned_def owl using own1 by auto
    then show ?case using mem [of x] by (auto simp: close_fd_def)
  next
    case (5 r a)
    then show ?case using loop_invD(5) [OF inv] h' by (auto simp: close_fd_def split: if_splits)
  next
    case 6
    then show ?case using loop_invD(6) [OF inv] d by simp
  next
    case (7 r)
    then show ?case using loop_invD(7) [OF inv, of r] h' p(2) by (auto simp: close_fd_def)
  qed
qed
section \<open>Turns of the loop\<close>

text \<open>
  What the system promises: \<open>new\<close> gives an address that is not in use, \<open>accept\<close> a descriptor that is
  not. An event is calm when no listening socket fails and no handshake sees an error alone.
\<close>

definition system_ok :: "spdyd_input \<Rightarrow> 'z Sessions \<Rightarrow> bool" where
  "system_ok inp sv \<longleftrightarrow> sv_heap sv (in_address inp) = None \<and>
     (\<forall>cfd. in_accept inp = Some cfd \<longrightarrow> cfd \<notin> sv_conns sv \<and> (\<forall>p h. sv_heap sv p = Some h \<longrightarrow> eh_fd h \<noteq> cfd))"

definition calm_event :: "'z spdyd_net \<Rightarrow> poll_event \<Rightarrow> spdyd_input \<Rightarrow> 'z handler_kind \<Rightarrow> bool" where
  "calm_event nt ev inp k \<longleftrightarrow>
     (case k of
        ListenEventHandler \<Rightarrow> (pe_error ev \<longrightarrow> pe_ready ev) \<and> in_nonblock inp \<and> (sc_disable_nagle (sn_config nt) \<longrightarrow> in_nodelay inp)
      | SSLAcceptEventHandler fail fin rd wr \<Rightarrow> pe_error ev \<longrightarrow> pe_ready ev
      | SpdyEventHandler s \<Rightarrow> True)"

lemma spdy_new_inv:
  assumes "SpdyEventHandler_new nt m version = Some s"
  shows "session_inv s"
proof -
  obtain s0 m1 where new: "spdylay_session_server_new (sn_zlib nt) m version (Some spdyd_hd_new) = (Inr s0, m1)"
    and s: "\<exists>r. spdylay_submit_settings s0 0 [\<lparr>se_settings_id = of_nat SPDYLAY_SETTINGS_MAX_CONCURRENT_STREAMS, se_flags = 0,
        se_value = SPDYLAY_INITIAL_MAX_CONCURRENT_STREAMS\<rparr>] = Some (r, s)"
    using assms by (auto simp: SpdyEventHandler_new_def bind_eq_Some_conv split: prod.split_asm sum.split_asm if_splits)
  from server_new_inv [OF new] s session.R_exec_api [of s0 "SubmitSettings 0 [\<lparr>se_settings_id = of_nat SPDYLAY_SETTINGS_MAX_CONCURRENT_STREAMS, se_flags = 0,
        se_value = SPDYLAY_INITIAL_MAX_CONCURRENT_STREAMS\<rparr>]" s] show ?thesis by (auto simp: bind_eq_Some_conv)
qed

lemma spdy_execute_inv: "spdy_execute nt fd s = Some (r, s1) \<Longrightarrow> session_inv s \<Longrightarrow> session_inv s1"
  by (auto simp: spdy_execute_def bind_eq_Some_conv split: if_splits dest: session.I_recv session.I_send)

lemma listen_execute_inv:
  assumes inv: "loop_inv dels sv" and sys: "system_ok inp sv" and calm: "calm_event nt ev inp ListenEventHandler"
  shows "\<exists>sv1. listen_execute nt inp sv = (0, sv1) \<and> loop_inv dels sv1 \<and> (\<forall>p h. sv_heap sv p = Some h \<longrightarrow> sv_heap sv1 p = Some h)"
proof (cases "in_accept inp")
  case (Some cfd)
  define k :: "'a handler_kind" where "k = SSLAcceptEventHandler False False True True"
  define sv1 where "sv1 = add_handler (in_address inp) (update_poll_internal True (in_address inp) \<lparr>eh_fd = cfd, eh_mark_del = False, eh_kind = k\<rparr>
    (new_handler (in_address inp) cfd k (sv\<lparr>sv_conns := insert cfd (sv_conns sv)\<rparr>)))"
  have free: "cfd \<notin> sv_conns sv" "\<And>p h. sv_heap sv p = Some h \<Longrightarrow> eh_fd h \<noteq> cfd" "sv_heap sv (in_address inp) = None"
    using sys Some by (auto simp: system_ok_def)
  have closed: "close_fd cfd (sv\<lparr>sv_conns := insert cfd (sv_conns sv)\<rparr>) = sv"
    by (rule closed_unused [OF free(1) unused_interest [OF inv free(2)]])
  have "loop_inv dels sv1"
    using loop_inv_new [OF inv free(3,2), where k = k] by (simp add: k_def handler_ok_def sv1_def)
  moreover have "sv_heap sv1 = (sv_heap sv)(in_address inp \<mapsto> \<lparr>eh_fd = cfd, eh_mark_del = False, eh_kind = k\<rparr>)"
    by (simp add: sv1_def update_poll_internal_def add_handler_def new_handler_def)
  moreover have "listen_execute nt inp sv = (0, if in_ssl_new inp \<and> in_epoll_ctl inp then sv1 else sv)"
    using Some calm closed by (simp add: listen_execute_def listen_add_next_handler_def calm_event_def k_def sv1_def Let_def)
  ultimately show ?thesis using free(3) inv by auto
qed (use assms in \<open>auto simp: listen_execute_def\<close>)
lemma set_mark_del_eq: "sv_heap sv p = Some h \<Longrightarrow> set_mark_del p sv = sv\<lparr>sv_heap := (sv_heap sv)(p \<mapsto> h\<lparr>eh_mark_del := True\<rparr>)\<rparr>"
  by (simp add: set_mark_del_def)

lemma set_kind_eq: "sv_heap sv p = Some h \<Longrightarrow> set_kind p k sv = sv\<lparr>sv_heap := (sv_heap sv)(p \<mapsto> h\<lparr>eh_kind := k\<rparr>)\<rparr>"
  by (simp add: set_kind_def)

lemma loop_inv_mark:
  assumes "loop_inv dels sv" "sv_heap sv p = Some h" "\<not> eh_mark_del h" "eh_closes (eh_kind h)"
  shows "loop_inv (dels @ [p]) (set_mark_del p sv)"
proof -
  have "handler_ok (h\<lparr>eh_mark_del := True\<rparr>)"
    using loop_invD(5) [OF assms(1,2)] assms(4) by (auto simp: handler_ok_def split: handler_kind.split)
  from loop_inv_update [OF assms(1-3) _ this] assms(2,4) show ?thesis
    by (simp add: set_mark_del_eq owner_def)
qed

text \<open>What follows \<open>execute\<close> in a turn.\<close>

lemma loop_inv_settle:
  assumes inv: "loop_inv dels sv" "sv_heap sv p = Some h" "\<not> eh_mark_del h" and fin: "done \<Longrightarrow> eh_closes (eh_kind h)"
  shows "loop_inv (if done then dels @ [p] else dels) (if done then set_mark_del p sv else update_poll_internal ok p h sv)"
  using loop_inv_mark [OF inv] loop_inv_poll [OF inv(1,2)] inv(3) fin by (simp add: owner_def)

abbreviation event_post :: "nat list \<Rightarrow> nat \<Rightarrow> 'z Sessions \<Rightarrow> spdyd_fault + 'z Sessions \<times> bool \<Rightarrow> bool" where
  "event_post dels p sv res \<equiv>
     (case res of
        Inl f \<Rightarrow> f = Aborted
      | Inr (sv1, del) \<Rightarrow> loop_inv (if del then dels @ [p] else dels) sv1 \<and> dom (sv_heap sv) \<subseteq> dom (sv_heap sv1))"

lemma spdy_event:
  assumes inv: "loop_inv dels sv" and p: "sv_heap sv p = Some h" "\<not> eh_mark_del h" "eh_kind h = SpdyEventHandler s" "pe_user_data ev = p"
    and ready: "pe_ready ev"
  shows "event_post dels p sv (handle_event nt (ev, inp) sv)"
proof (cases "spdy_execute nt (eh_fd h) s")
  case (Some x)
  obtain r s1 where x: "x = (r, s1)" by (cases x)
  define h1 where "h1 = h\<lparr>eh_kind := SpdyEventHandler s1\<rparr>"
  define sv1 where "sv1 = sv\<lparr>sv_heap := (sv_heap sv)(p \<mapsto> h1)\<rparr>"
  have "session_inv s" using loop_invD(5) [OF inv p(1)] p(3) by (simp add: handler_ok_def)
  then have "handler_ok h1" using spdy_execute_inv Some x by (auto simp: h1_def handler_ok_def)
  then have inv1: "loop_inv dels sv1"
    using loop_inv_update [OF inv p(1,2), of h1] p(2,3) by (simp add: h1_def sv1_def owner_def)
  have h1: "sv_heap sv1 p = Some h1" "\<not> eh_mark_del h1" "eh_closes (eh_kind h1)" using p(2) by (simp_all add: sv1_def h1_def)
  have d: "dom (sv_heap sv) \<subseteq> dom (sv_heap (if b then set_mark_del p sv1 else update_poll_internal ok p h1 sv1))" for b ok
    using h1(1) by (auto simp: sv1_def set_mark_del_def update_poll_internal_def)
  have e: "handle_event nt (ev, inp) sv = (if s_user_data s1 = None then Inl Aborted
      else let fin = (r \<noteq> 0 \<or> eh_finish (eh_kind h1)) in
        Inr (if fin then set_mark_del p sv1 else update_poll_internal (in_epoll_mod inp) p h1 sv1, fin))"
    using p ready Some x h1(1,2) by (simp add: handle_event_def handler_execute_def set_kind_eq h1_def [symmetric] sv1_def [symmetric] Let_def)
  show ?thesis unfolding e Let_def using loop_inv_settle [OF inv1 h1(1,2)] h1(3) d by simp
qed (use p ready in \<open>simp add: handle_event_def handler_execute_def\<close>)

lemma idle_event:
  assumes inv: "loop_inv dels sv" and p: "sv_heap sv p = Some h" "\<not> eh_mark_del h" "pe_user_data ev = p"
    and idle: "\<not> pe_ready ev" and calm: "calm_event nt ev inp (eh_kind h)"
  shows "event_post dels p sv (handle_event nt (ev, inp) sv)"
proof (cases "pe_error ev")
  case True
  define h1 where "h1 = h\<lparr>eh_mark_del := True\<rparr>"
  have c: "eh_closes (eh_kind h)" using calm True idle by (auto simp: calm_event_def split: handler_kind.splits)
  define sv1 where "sv1 = set_mark_del p sv"
  have inv1: "loop_inv (dels @ [p]) sv1" unfolding sv1_def by (rule loop_inv_mark [OF inv p(1,2) c])
  have h1: "sv_heap sv1 p = Some h1" "owner h1" using c p(1) by (simp_all add: sv1_def set_mark_del_eq h1_def owner_def)
  have "set_mark_del p sv1 = sv1" using p(1) by (simp add: sv1_def set_mark_del_def)
  then have e: "handle_event nt (ev, inp) sv =
      Inr (if eh_finish (eh_kind h) then sv1 else update_poll_internal (in_epoll_mod inp) p h1 sv1, True)"
    using p idle True h1(1) by (simp add: handle_event_def sv1_def [symmetric] h1_def)
  have "dom (sv_heap sv1) = dom (sv_heap sv)" using p(1) by (auto simp: sv1_def set_mark_del_def)
  then show ?thesis unfolding e using inv1 loop_inv_poll [OF inv1 h1] by (simp add: update_poll_internal_def)
next
  case False
  have fin: "eh_closes (eh_kind h)" if "eh_finish (eh_kind h)"
    using that loop_invD(5) [OF inv p(1)] p(2) by (auto simp: handler_ok_def split: handler_kind.splits)
  have e: "handle_event nt (ev, inp) sv = (let fin = eh_finish (eh_kind h) in
      Inr (if fin then set_mark_del p sv else update_poll_internal (in_epoll_mod inp) p h sv, fin))"
    using p idle False by (simp add: handle_event_def Let_def)
  have d: "dom (sv_heap sv) \<subseteq> dom (sv_heap (if b then set_mark_del p sv else update_poll_internal ok p h sv))" for b ok
    using p(1) by (auto simp: set_mark_del_def update_poll_internal_def)
  show ?thesis unfolding e Let_def using loop_inv_settle [OF inv p(1,2) fin] d by simp
qed

lemma listen_event:
  assumes inv: "loop_inv dels sv" and p: "sv_heap sv p = Some h" "\<not> eh_mark_del h" "eh_kind h = ListenEventHandler" "pe_user_data ev = p"
    and ready: "pe_ready ev" and sys: "system_ok inp sv" and calm: "calm_event nt ev inp (eh_kind h)"
  shows "event_post dels p sv (handle_event nt (ev, inp) sv)"
proof -
  obtain sv1 where sv1: "listen_execute nt inp sv = (0, sv1)" "loop_inv dels sv1"
      and keep: "\<And>q k. sv_heap sv q = Some k \<Longrightarrow> sv_heap sv1 q = Some k"
    using listen_execute_inv [OF inv sys calm [unfolded p(3)]] by blast
  have e: "handle_event nt (ev, inp) sv = Inr (update_poll_internal (in_epoll_mod inp) p h sv1, False)"
    using p ready sv1(1) keep [OF p(1)] by (simp add: handle_event_def handler_execute_def)
  have "dom (sv_heap sv) \<subseteq> dom (sv_heap (update_poll_internal (in_epoll_mod inp) p h sv1))"
    using keep by (auto simp: update_poll_internal_def)
  then show ?thesis unfolding e using loop_inv_poll [OF sv1(2) keep [OF p(1)]] p(2) by (simp add: owner_def)
qed
lemma accept_outcome:
  assumes inv: "loop_inv dels sv" and p: "sv_heap sv p = Some h" "\<not> eh_mark_del h" "eh_kind h = SSLAcceptEventHandler False False rd wr" "pe_user_data ev = p"
    and ready: "pe_ready ev" and k: "k = SSLAcceptEventHandler b b rd' wr'" "accept_execute nt inp p (eh_fd h) False False sv = Inr (set_kind p k sv)"
  shows "event_post dels p sv (handle_event nt (ev, inp) sv)"
proof -
  define h1 where "h1 = (if b then h\<lparr>eh_kind := k, eh_mark_del := True\<rparr> else h\<lparr>eh_kind := k\<rparr>)"
  define sv1 where "sv1 = sv\<lparr>sv_heap := (sv_heap sv)(p \<mapsto> h1)\<rparr>"
  have "owner h1" "handler_ok h1" using p(2) by (simp_all add: h1_def k(1) owner_def handler_ok_def)
  from loop_inv_update [OF inv p(1,2) this] have inv1: "loop_inv (if b then dels @ [p] else dels) sv1"
    using p(2,3) k(1) by (cases b) (simp_all add: h1_def sv1_def)
  have "handle_event nt (ev, inp) sv = Inr (if b then sv1 else update_poll_internal (in_epoll_mod inp) p h1 sv1, b)"
    using p ready k by (cases b) (simp_all add: handle_event_def handler_execute_def set_kind_eq set_mark_del_def sv1_def h1_def)
  moreover have "dom (sv_heap sv) \<subseteq> dom (sv_heap sv1)" by (auto simp: sv1_def)
  ultimately show ?thesis
    using inv1 loop_inv_poll [OF inv1, of p h1] \<open>owner h1\<close> by (cases b) (simp_all add: sv1_def update_poll_internal_def)
qed

lemma accept_succeeds:
  assumes inv: "loop_inv dels sv" and p: "sv_heap sv p = Some h" "\<not> eh_mark_del h" "eh_kind h = SSLAcceptEventHandler False False rd wr" "pe_user_data ev = p"
    and ready: "pe_ready ev" and q: "sv_heap sv (in_address inp) = None"
    and acc: "in_ssl_accept inp = Accepted next_proto" "next_proto \<noteq> None" "spdylay_npn_get_version next_proto \<noteq> 0"
  shows "event_post dels p sv (handle_event nt (ev, inp) sv)"
proof (cases "SpdyEventHandler_new nt (in_mem inp) (spdylay_npn_get_version next_proto)")
  case None
  then show ?thesis using p ready acc by (simp add: handle_event_def handler_execute_def accept_execute_def accept_add_next_handler_def Let_def)
next
  case (Some s)
  define q where "q = in_address inp"
  define k where "k = \<lparr>eh_fd = eh_fd h, eh_mark_del = False, eh_kind = SpdyEventHandler s\<rparr>"
  define h1 where "h1 = h\<lparr>eh_kind := SSLAcceptEventHandler False True False False, eh_mark_del := True\<rparr>"
  define m where "m = (eh_want_read (eh_kind k), eh_want_write (eh_kind k))"
  define give where "give = sv\<lparr>sv_heap := (sv_heap sv)(q \<mapsto> k, p \<mapsto> h1), sv_handlers := insert q (sv_handlers sv),
    sv_interest := (sv_interest sv)(eh_fd h \<mapsto> (q, m))\<rparr>"
  define lose where "lose = close_fd (eh_fd h) (sv\<lparr>sv_heap := (sv_heap sv)(p \<mapsto> h1)\<rparr>)"
  have q': "sv_heap sv q = None" and pq: "p \<noteq> q" using assms(7) p(1) by (auto simp: q_def)
  have ok: "handler_ok k" "handler_ok h1" "eh_mark_del h1" "\<not> eh_closes (eh_kind h1)" "eh_fd k = eh_fd h" "\<not> eh_mark_del k"
      "eh_kind k \<noteq> ListenEventHandler" "eh_kind h \<noteq> ListenEventHandler"
    using spdy_new_inv [OF Some] p(3) by (simp_all add: k_def h1_def handler_ok_def)
  note over = loop_inv_hand_over(1) [OF inv p(1,2) ok(8) q' ok(3,4,2,5,6,7,1), of m, folded give_def]
    loop_inv_hand_over(2) [OF inv p(1,2) ok(8) q' ok(3,4,2,5,6,7,1), folded lose_def]
  have e: "handle_event nt (ev, inp) sv = Inr (if in_epoll_ctl inp then give else lose, True)"
  proof (cases "in_epoll_ctl inp")
    case True
    have "set_mark_del p (add_handler q (update_poll_internal True q k (new_handler q (eh_fd h) (SpdyEventHandler s)
        (set_kind p (SSLAcceptEventHandler False True False False) sv)))) = give"
      using p(1) pq by (auto simp: set_mark_del_def add_handler_def update_poll_internal_def new_handler_def set_kind_def give_def k_def h1_def m_def
          fun_eq_iff intro!: Sessions.equality)
    then show ?thesis
      using p ready acc Some True pq
      by (simp add: handle_event_def handler_execute_def accept_execute_def accept_add_next_handler_def q_def [symmetric] k_def [symmetric] Let_def)
        (simp add: add_handler_def update_poll_internal_def new_handler_def set_kind_def)
  next
    case False
    have "set_kind p (SSLAcceptEventHandler False True False False) sv =
        sv\<lparr>sv_heap := (sv_heap sv)(p \<mapsto> h\<lparr>eh_kind := SSLAcceptEventHandler False True False False\<rparr>)\<rparr>" using p(1) by (rule set_kind_eq)
    then show ?thesis
      using p ready acc Some False pq q'
      by (simp add: handle_event_def handler_execute_def accept_execute_def accept_add_next_handler_def q_def [symmetric] Let_def
          delete_handler_object_def new_handler_def close_fd_def set_mark_del_def lose_def h1_def)
        (auto simp: fun_eq_iff intro!: Sessions.equality)
  qed
  have "dom (sv_heap sv) \<subseteq> dom (sv_heap give)" "dom (sv_heap sv) \<subseteq> dom (sv_heap lose)" by (auto simp: give_def lose_def close_fd_def)
  then show ?thesis unfolding e using over by simp
qed

lemma handle_event_inv:
  assumes inv: "loop_inv dels sv" and p: "sv_heap sv (pe_user_data ev) = Some h"
    and sys: "system_ok inp sv" and calm: "calm_event nt ev inp (eh_kind h)"
  shows "event_post dels (pe_user_data ev) sv (handle_event nt (ev, inp) sv)"
proof (cases "eh_mark_del h")
  case True
  then show ?thesis using p inv by (simp add: handle_event_def)
next
  case False
  note unmarked = this
  show ?thesis
  proof (cases "pe_ready ev")
    case True
    show ?thesis
    proof (cases "eh_kind h")
      case ListenEventHandler
      then show ?thesis using listen_event [OF inv p unmarked _ refl True sys calm] by blast
    next
      case (SpdyEventHandler s)
      then show ?thesis using spdy_event [OF inv p unmarked _ refl True] by blast
    next
      case (SSLAcceptEventHandler fail fin rd wr)
      have k: "eh_kind h = SSLAcceptEventHandler False False rd wr"
        using loop_invD(5) [OF inv p] unmarked SSLAcceptEventHandler by (simp add: handler_ok_def)
      note out = accept_outcome [OF inv p unmarked k refl True refl, where nt = nt and inp = inp]
      have free: "sv_heap sv (in_address inp) = None" using sys by (simp add: system_ok_def)
      show ?thesis
      proof (cases "in_ssl_accept inp")
        case (Accepted next_proto)
        show ?thesis
        proof (cases "next_proto \<noteq> None \<and> spdylay_npn_get_version next_proto \<noteq> 0")
          case good: True
          then show ?thesis using accept_succeeds [OF inv p unmarked k refl True free Accepted] by blast
        next
          case False
          then show ?thesis using Accepted by (intro out [of True False False]) (auto simp: accept_execute_def Let_def)
        qed
      next
        case WantRead
        then show ?thesis by (intro out [of False True False]) (simp add: accept_execute_def)
      next
        case WantWrite
        then show ?thesis by (intro out [of False False True]) (simp add: accept_execute_def)
      qed (intro out [of True False False], simp add: accept_execute_def)+
    qed
  next
    case False
    show ?thesis by (rule idle_event [OF inv p unmarked refl False calm])
  qed
qed
text \<open>
  The events of a turn are entries of the interest list; each is handled in the state that those before
  it have left, where the system keeps its promises and the event is calm.
\<close>

definition reported :: "(poll_event \<times> spdyd_input) list \<Rightarrow> 'z Sessions \<Rightarrow> bool" where
  "reported es sv \<longleftrightarrow> (\<forall>e\<in>set es. \<exists>fd m. sv_interest sv fd = Some (pe_user_data (fst e), m))"

fun calm_turn :: "'z spdyd_net \<Rightarrow> (poll_event \<times> spdyd_input) list \<Rightarrow> 'z Sessions \<Rightarrow> bool" where
  "calm_turn nt [] sv \<longleftrightarrow> True"
| "calm_turn nt ((ev, inp) # es) sv \<longleftrightarrow>
     system_ok inp sv \<and> (case sv_heap sv (pe_user_data ev) of None \<Rightarrow> True | Some h \<Rightarrow> calm_event nt ev inp (eh_kind h)) \<and>
     (case handle_event nt (ev, inp) sv of Inl f \<Rightarrow> True | Inr (sv1, del) \<Rightarrow> calm_turn nt es sv1)"

lemma handle_events_inv:
  assumes "loop_inv dels sv" "\<forall>e\<in>set es. pe_user_data (fst e) \<in> dom (sv_heap sv)" "calm_turn nt es sv"
  shows "case handle_events nt es dels sv of Inl f \<Rightarrow> f = Aborted | Inr (sv1, dels1) \<Rightarrow> loop_inv dels1 sv1"
  using assms
proof (induction es arbitrary: dels sv)
  case (Cons e es)
  obtain ev inp where e: "e = (ev, inp)" by (cases e)
  obtain h where h: "sv_heap sv (pe_user_data ev) = Some h" using Cons.prems(2) e by auto
  have post: "event_post dels (pe_user_data ev) sv (handle_event nt (ev, inp) sv)"
    by (rule handle_event_inv [OF Cons.prems(1) h]) (use Cons.prems(3) h in \<open>simp_all add: e\<close>)
  show ?case
  proof (cases "handle_event nt (ev, inp) sv")
    case (Inl f)
    then show ?thesis using post by (simp add: e)
  next
    case (Inr x)
    obtain sv1 del where x: "x = (sv1, del)" by (cases x)
    have *: "loop_inv (if del then dels @ [pe_user_data ev] else dels) sv1" "dom (sv_heap sv) \<subseteq> dom (sv_heap sv1)" using post Inr x by auto
    have "calm_turn nt es sv1" using Cons.prems(3) Inr x by (simp add: e)
    moreover have "\<forall>e\<in>set es. pe_user_data (fst e) \<in> dom (sv_heap sv1)" using Cons.prems(2) *(2) by (meson list.set_intros(2) subsetD)
    ultimately have "case handle_events nt es (if del then dels @ [pe_user_data ev] else dels) sv1 of
        Inl f \<Rightarrow> f = Aborted | Inr (sv2, dels1) \<Rightarrow> loop_inv dels1 sv2"
      using Cons.IH [OF *(1)] by blast
    then show ?thesis using Inr x by (cases del) (simp_all add: e)
  qed
qed simp

lemma close_handlers_inv: "loop_inv dels sv \<Longrightarrow> \<exists>sv1. close_handlers dels sv = Inr sv1 \<and> loop_inv [] sv1"
proof (induction dels arbitrary: sv)
  case (Cons p ps)
  then show ?case using loop_inv_delete [OF Cons.prems] by fastforce
qed simp

lemma run_turn_inv:
  assumes "loop_inv [] sv" "reported es sv" "calm_turn nt es sv"
  shows "case run_turn nt es sv of Inl f \<Rightarrow> f = Aborted | Inr sv1 \<Rightarrow> loop_inv [] sv1"
proof -
  have "\<forall>e\<in>set es. pe_user_data (fst e) \<in> dom (sv_heap sv)"
    using assms(2) loop_invD(1) [OF assms(1)] by (fastforce simp: reported_def)
  from handle_events_inv [OF assms(1) this assms(3)] show ?thesis
    by (auto simp: run_turn_def split: sum.splits dest: close_handlers_inv)
qed

text \<open>The states of the server, from the two listening sockets through calm turns.\<close>

inductive spdyd_reach :: "'z spdyd_net \<Rightarrow> 'z Sessions \<Rightarrow> bool" for nt :: "'z spdyd_net" where
  start: "p \<noteq> q \<Longrightarrow> a \<noteq> b \<Longrightarrow> spdyd_reach nt (add_listener (q, b, ok2) (add_listener (p, a, ok1) Sessions_new))"
| turn: "spdyd_reach nt sv \<Longrightarrow> reported es sv \<Longrightarrow> calm_turn nt es sv \<Longrightarrow> run_turn nt es sv = Inr sv1 \<Longrightarrow> spdyd_reach nt sv1"

lemma add_listener_inv:
  assumes "loop_inv [] sv" "sv_heap sv p = None" "\<And>q h. sv_heap sv q = Some h \<Longrightarrow> eh_fd h \<noteq> a"
  shows "loop_inv [] (add_listener (p, a, ok) sv)"
proof (cases ok)
  case True
  have "sv\<lparr>sv_conns := sv_conns sv\<rparr> = sv" by simp
  with loop_inv_new [OF assms, where k = ListenEventHandler and ok = True] True show ?thesis
    by (simp add: add_listener_def handler_ok_def)
next
  case False
  have "owned (add_handler p sv) fd = owned sv fd" for fd by (simp add: owned_def add_handler_def)
  then show ?thesis using assms(1) False by (auto simp: add_listener_def loop_inv_def add_handler_def)
qed

lemma reach_loop_inv: "spdyd_reach nt sv \<Longrightarrow> loop_inv [] sv"
proof (induction rule: spdyd_reach.induct)
  case (start p q a b ok2 ok1)
  have "loop_inv [] Sessions_new" by (rule loop_invI) (auto simp: Sessions_new_def owned_def)
  then have "loop_inv [] (add_listener (p, a, ok1) Sessions_new)" by (rule add_listener_inv) (simp_all add: Sessions_new_def)
  then show ?case
    by (rule add_listener_inv)
      (use start in \<open>auto simp: add_listener_def add_handler_def update_poll_internal_def new_handler_def Sessions_new_def split: if_splits\<close>)
next
  case (turn sv es sv1)
  then show ?case using run_turn_inv [of sv es nt] by simp
qed

text \<open>
  C24. The loop of the file server, as long as no listening socket fails and no handshake ends in an error
  event alone: whatever events are reported, no turn uses or deletes a handler that was deleted; between
  turns the descriptors that are open are just those of the live connection handlers, each of one handler
  only; and every SPDY session satisfies the invariant of the library.
\<close>

theorem spdyd_loop_safe:
  assumes "spdyd_reach nt sv"
  shows "(\<forall>es. reported es sv \<and> calm_turn nt es sv \<longrightarrow> run_turn nt es sv \<noteq> Inl Deleted_object) \<and>
    (\<forall>fd. fd \<in> sv_conns sv \<longleftrightarrow> (\<exists>p h. sv_heap sv p = Some h \<and> eh_kind h \<noteq> ListenEventHandler \<and> eh_fd h = fd)) \<and>
    (\<forall>p q h k. sv_heap sv p = Some h \<and> sv_heap sv q = Some k \<and> eh_fd h = eh_fd k \<longrightarrow> p = q) \<and>
    (\<forall>p h s. sv_heap sv p = Some h \<and> eh_kind h = SpdyEventHandler s \<longrightarrow> session_inv s)"
proof -
  note inv = reach_loop_inv [OF assms]
  have o: "owner h" if "sv_heap sv p = Some h" for p h using loop_invD(7) [OF inv, of p] that by (auto simp: owner_def)
  have "run_turn nt es sv \<noteq> Inl Deleted_object" if "reported es sv" "calm_turn nt es sv" for es
    using run_turn_inv [OF inv that] by auto
  moreover have "fd \<in> sv_conns sv \<longleftrightarrow> (\<exists>p h. sv_heap sv p = Some h \<and> eh_kind h \<noteq> ListenEventHandler \<and> eh_fd h = fd)" for fd
  proof -
    have "owns (sv_heap sv p) fd \<longleftrightarrow> (\<exists>h. sv_heap sv p = Some h \<and> eh_kind h \<noteq> ListenEventHandler \<and> eh_fd h = fd)" for p
      using o [of p] by (cases "sv_heap sv p") auto
    then show ?thesis unfolding loop_invD(4) [OF inv] owned_def by blast
  qed
  moreover have "p = q" if "sv_heap sv p = Some h" "sv_heap sv q = Some k" "eh_fd h = eh_fd k" for p q h k
    using loop_invD(3) [OF inv that(1,2) o o] that by blast
  moreover have "session_inv s" if "sv_heap sv p = Some h" "eh_kind h = SpdyEventHandler s" for p h s
    using loop_invD(5) [OF inv that(1)] that(2) by (simp add: handler_ok_def)
  ultimately show ?thesis by blast
qed
section \<open>Turns that are not calm\<close>

text \<open>
  A connection that cannot be set up takes the listening socket with it: the handler is deleted, its
  descriptor stays in the interest list, and the next connection is handled through the deleted object.
  The same happens when an error is all that is reported for a handshake, as the destructor closes
  the descriptor of a failed handshake only.
\<close>

definition dangling :: "nat \<Rightarrow> 'z Sessions \<Rightarrow> bool" where
  "dangling p sv \<longleftrightarrow> sv_heap sv p = None \<and> (\<exists>fd m. sv_interest sv fd = Some (p, m))"

lemma danglingI: "sv_heap sv p = None \<Longrightarrow> sv_interest sv fd = Some (p, m) \<Longrightarrow> dangling p sv"
  unfolding dangling_def by blast

lemma dangling_turn: "dangling p sv \<Longrightarrow> run_turn nt [(ev\<lparr>pe_user_data := p\<rparr>, inp)] sv = Inl Deleted_object"
  by (simp add: dangling_def run_turn_def handle_event_def)

lemma failed_connection_deletes_listener:
  assumes "sv_heap sv p = Some h" "eh_kind h = ListenEventHandler" "\<not> eh_mark_del h" "sv_interest sv (eh_fd h) = Some (p, m)"
    and "in_accept inp = Some cfd" "cfd \<noteq> eh_fd h" "\<not> in_nonblock inp" "pe_user_data ev = p" "pe_ready ev"
  shows "\<exists>sv1. run_turn nt [(ev, inp)] sv = Inr sv1 \<and> dangling p sv1"
  using assms
  by (auto simp: run_turn_def handle_event_def handler_execute_def listen_execute_def set_mark_del_def close_fd_def spdyd_on_close_def
      delete_handler_object_def remove_handler_def dangling_def Let_def)

lemma handshake_error_leaks:
  assumes "sv_heap sv p = Some h" "eh_kind h = SSLAcceptEventHandler False False rd wr" "\<not> eh_mark_del h" "sv_interest sv (eh_fd h) = Some (p, m)"
    and "eh_fd h \<in> sv_conns sv" "pe_user_data ev = p" "\<not> pe_ready ev" "pe_error ev"
  shows "\<exists>sv1. run_turn nt [(ev, inp)] sv = Inr sv1 \<and> dangling p sv1 \<and> eh_fd h \<in> sv_conns sv1"
proof -
  have "\<exists>m'. sv_interest (update_poll_internal (in_epoll_mod inp) p (h\<lparr>eh_mark_del := True\<rparr>) sv) (eh_fd h) = Some (p, m')"
    using assms(4) by (simp add: update_poll_internal_def)
  then show ?thesis using assms
    by (auto simp: run_turn_def handle_event_def set_mark_del_def spdyd_on_close_def update_poll_internal_def
        delete_handler_object_def remove_handler_def Let_def intro!: danglingI [where fd = "eh_fd h"])
qed

section \<open>Examples\<close>

definition demo_spdyd_net :: "unit spdyd_net" where
  "demo_spdyd_net = \<lparr>sn_zlib = stored_zlib, sn_SSL_write = (\<lambda>_ _ bs. (int (length bs), False)), sn_SSL_read = (\<lambda>_ _ _. (-1, [], True, False)),
     sn_read = (\<lambda>_ _ _ _. None), sn_env = (\<lambda>_ _. demo_env), sn_config = spdyd_Config_new\<rparr>"

definition demo_listening :: "unit Sessions" where
  "demo_listening = add_listener (2, 4, False) (add_listener (1, 3, True) Sessions_new)"

definition demo_connection :: spdyd_input where
  "demo_connection = \<lparr>in_accept = Some 9, in_nonblock = True, in_nodelay = True, in_ssl_new = True, in_ssl_accept = WantRead,
     in_address = 7, in_mem = good_mem, in_epoll_ctl = True, in_epoll_mod = True\<rparr>"

definition demo_event :: poll_event where
  "demo_event = \<lparr>pe_user_data = 1, pe_ready = True, pe_error = False\<rparr>"

lemmas demo_spdyd_defs = demo_listening_def demo_connection_def demo_event_def demo_spdyd_net_def spdyd_Config_new_def add_listener_def
  add_handler_def update_poll_internal_def new_handler_def Sessions_new_def

theorem spdyd_loop_safe_witness:
  "\<exists>sv. run_turn demo_spdyd_net [(demo_event, demo_connection)] demo_listening = Inr sv \<and> 9 \<in> sv_conns sv \<and>
     (\<exists>p h. sv_heap sv p = Some h \<and> eh_kind h \<noteq> ListenEventHandler \<and> eh_fd h = 9)"
proof -
  have start: "spdyd_reach demo_spdyd_net demo_listening" unfolding demo_listening_def by (rule spdyd_reach.start) simp_all
  have turn: "reported [(demo_event, demo_connection)] demo_listening" "calm_turn demo_spdyd_net [(demo_event, demo_connection)] demo_listening"
    by (auto simp: reported_def system_ok_def calm_event_def demo_spdyd_defs split: sum.split)
  obtain sv where sv: "run_turn demo_spdyd_net [(demo_event, demo_connection)] demo_listening = Inr sv" "9 \<in> sv_conns sv"
    by (simp add: run_turn_def handle_event_def handler_execute_def listen_execute_def listen_add_next_handler_def demo_spdyd_defs)
  from spdyd_loop_safe [OF spdyd_reach.turn [OF start turn sv(1)]] sv show ?thesis by blast
qed
end
