(* ===== verification/Spdycat_Client.thy ===== *)
theory Spdycat_Client
  imports Spdycat_Html Spdy_Gzip Spdy_Lifecycle
begin

text \<open>
  \<open>src/spdycat.cc\<close>: the client spdycat, and \<open>Spdylay::submit_request\<close> of \<open>src/spdylay_ssl.cc\<close>. Its
  callbacks answer with the client after the call and a list of \<open>api_call\<close>, as \<open>Spdy_Submit\<close> has it
  for any application. A request is known by its place in \<open>reqvec\<close>, counted from 1, which is the stream
  user data; 0 is NULL. \<open>None\<close> is a run that does not go on: a failed \<open>assert\<close>, a NULL that is
  dereferenced, an access outside of an array or a loop that never ends. Of the standard output
  \<open>ct_out\<close> has the content, not the messages and the statistics.
\<close>

section \<open>Options\<close>

record cat_Config =
  cf_null_out :: bool
  cf_remote_name :: bool
  cf_verbose :: bool
  cf_get_assets :: bool
  cf_stat :: bool
  cf_use_assoc_list :: bool
  cf_spdy_version :: int
  cf_timeout :: int
  cf_certfile :: bytes
  cf_keyfile :: bytes
  cf_window_bits :: int
  cf_disable_nagle :: bool
  cf_headers :: "(bytes \<times> bytes) list"

definition cat_Config_new :: cat_Config where
  "cat_Config_new =
     \<lparr>cf_null_out = False, cf_remote_name = False, cf_verbose = False, cf_get_assets = False, cf_stat = False,
      cf_use_assoc_list = False, cf_spdy_version = -1, cf_timeout = -1, cf_certfile = [], cf_keyfile = [],
      cf_window_bits = -1, cf_disable_nagle = False, cf_headers = []\<rparr>"

text \<open>A \<open>std::map\<close> is the list of its entries in the order of the keys; \<open>insert\<close> keeps an entry that is there.\<close>

fun std_map_insert :: "bytes \<times> bytes \<Rightarrow> (bytes \<times> bytes) list \<Rightarrow> (bytes \<times> bytes) list" where
  "std_map_insert (k, v) [] = [(k, v)]"
| "std_map_insert (k, v) ((k', v') # m) =
     (if k = k' then (k', v') # m
      else if ord_class.lexordp k k' then (k, v) # (k', v') # m
      else (k', v') # std_map_insert (k, v) m)"

text \<open>\<open>strtoul\<close> is the one of the library's header code.\<close>

definition parse_window_bits :: "cstr \<Rightarrow> int option" where
  "parse_window_bits optarg = (case strtoul10 optarg of (n, err) \<Rightarrow> if \<not> err \<and> n < 31 then Some (int n) else None)"

definition parse_header :: "cstr \<Rightarrow> (bytes \<times> bytes) option" where
  "parse_header optarg =
     (let header = takeWhile (\<lambda>c. c \<noteq> 58) optarg in
      if 58 \<notin> set optarg \<or> header = [] then None
      else let value = dropWhile is_space (tl (dropWhile (\<lambda>c. c \<noteq> 58) optarg)) in
        if value = [] then None else Some (header, value))"

definition atoi :: "cstr \<Rightarrow> int" where
  "atoi s = sint (word_of_int (fst (strtol10 s)) :: i32)"

text \<open>What \<open>getopt_long\<close> reports, with the option's argument.\<close>

datatype cat_option =
  Opt_O | Opt_h | Opt_n | Opt_v | Opt_2 | Opt_3 | Opt_t cstr | Opt_w cstr | Opt_H cstr | Opt_a | Opt_p | Opt_N
| Opt_c | Opt_s | Opt_cert cstr | Opt_key cstr | Opt_unknown

datatype cat_main = Continue cat_Config bool | Exit bool

text \<open>
  One pass through the loop of \<open>main\<close> with libxml2, on the configuration and \<open>ClientCache::enabled\<close>;
  \<open>Exit\<close> says whether it is with success. The product for \<open>-t\<close> has no result when it overflows.
\<close>

fun cat_main_option :: "cat_Config \<Rightarrow> bool \<Rightarrow> cat_option \<Rightarrow> cat_main option" where
  "cat_main_option cf en Opt_O = Some (Continue (cf\<lparr>cf_remote_name := True\<rparr>) en)"
| "cat_main_option cf en Opt_h = Some (Exit True)"
| "cat_main_option cf en Opt_n = Some (Continue (cf\<lparr>cf_null_out := True\<rparr>) en)"
| "cat_main_option cf en Opt_v = Some (Continue (cf\<lparr>cf_verbose := True\<rparr>) en)"
| "cat_main_option cf en Opt_2 = Some (Continue (cf\<lparr>cf_spdy_version := 2\<rparr>) en)"
| "cat_main_option cf en Opt_3 = Some (Continue (cf\<lparr>cf_spdy_version := 3\<rparr>) en)"
| "cat_main_option cf en (Opt_t optarg) =
     (let n = atoi optarg * 1000 in
      if n < - (2 ^ 31) \<or> n \<ge> 2 ^ 31 then None else Some (Continue (cf\<lparr>cf_timeout := n\<rparr>) en))"
| "cat_main_option cf en (Opt_w optarg) =
     (case parse_window_bits optarg of
        None \<Rightarrow> Some (Exit False) | Some n \<Rightarrow> Some (Continue (cf\<lparr>cf_window_bits := n\<rparr>) en))"
| "cat_main_option cf en (Opt_H optarg) =
     (case parse_header optarg of
        None \<Rightarrow> Some (Exit False)
      | Some h \<Rightarrow> Some (Continue (cf\<lparr>cf_headers := std_map_insert h (cf_headers cf)\<rparr>) en))"
| "cat_main_option cf en Opt_a = Some (Continue (cf\<lparr>cf_get_assets := True\<rparr>) en)"
| "cat_main_option cf en Opt_p = Some (Continue (cf\<lparr>cf_use_assoc_list := True\<rparr>) en)"
| "cat_main_option cf en Opt_N = Some (Continue (cf\<lparr>cf_disable_nagle := True\<rparr>) True)"
| "cat_main_option cf en Opt_c = Some (Continue cf True)"
| "cat_main_option cf en Opt_s = Some (Continue (cf\<lparr>cf_stat := True\<rparr>) en)"
| "cat_main_option cf en (Opt_cert optarg) = Some (Continue (cf\<lparr>cf_certfile := optarg\<rparr>) en)"
| "cat_main_option cf en (Opt_key optarg) = Some (Continue (cf\<lparr>cf_keyfile := optarg\<rparr>) en)"
| "cat_main_option cf en Opt_unknown = Some (Exit False)"

fun cat_main_options :: "cat_option list \<Rightarrow> cat_Config \<Rightarrow> bool \<Rightarrow> cat_main option" where
  "cat_main_options [] cf en = Some (Continue cf en)"
| "cat_main_options (opt # opts) cf en =
     (case cat_main_option cf en opt of
        None \<Rightarrow> None | Some (Exit ok) \<Rightarrow> Some (Exit ok) | Some (Continue cf' en') \<Rightarrow> cat_main_options opts cf' en')"

section \<open>The header array of a request\<close>

text \<open>An assignment to an element of the array; outside of it there is no result.\<close>

definition nv_set :: "nat \<Rightarrow> cstr \<Rightarrow> cstr option list \<Rightarrow> cstr option list option" where
  "nv_set i v nv = (if i < length nv then Some (nv[i := Some v]) else None)"

definition POS_HOST :: nat where "POS_HOST = 4"
definition POS_ACCEPT :: nat where "POS_ACCEPT = 5"
definition POS_USERAGENT :: nat where "POS_USERAGENT = 6"

fun header_loop :: "(bytes \<times> bytes) list \<Rightarrow> nat \<Rightarrow> cstr option list \<Rightarrow> (nat \<times> cstr option list) option" where
  "header_loop [] pos nv = Some (pos, nv)"
| "header_loop ((k, v) # hs) pos nv =
     (let key = c_str k; val = c_str v in
      if strieq (Some key) (Some (lit ''accept''))
      then Option.bind (nv_set (POS_ACCEPT * 2 + 1) val nv) (header_loop hs pos)
      else if strieq (Some key) (Some (lit ''user-agent''))
      then Option.bind (nv_set (POS_USERAGENT * 2 + 1) val nv) (header_loop hs pos)
      else if strieq (Some key) (Some (lit ''host''))
      then Option.bind (nv_set (POS_HOST * 2 + 1) val nv) (header_loop hs pos)
      else do { nv1 \<leftarrow> nv_set pos key nv; nv2 \<leftarrow> nv_set (pos + 1) val nv1; header_loop hs (pos + 2) nv2 })"

definition static_nv :: "bytes \<Rightarrow> bytes \<Rightarrow> bytes \<Rightarrow> cstr list" where
  "static_nv version hostport path =
     [lit '':method'', lit ''GET'', lit '':path'', c_str path, lit '':version'', lit ''HTTP/1.1'', lit '':scheme'', lit ''https'',
      lit '':host'', c_str hostport, lit ''accept'', lit ''*/*'', lit ''user-agent'', lit ''spdylay/'' @ version]"

text \<open>
  \<open>new\<close> leaves the rest of the array undefined; the model has NULL there. The last write is the
  NULL to \<open>nv[pos]\<close>. \<open>version\<close> is \<open>SPDYLAY_VERSION\<close>.
\<close>

definition Spdylay_submit_request ::
    "bytes \<Rightarrow> bytes \<Rightarrow> bytes \<Rightarrow> (bytes \<times> bytes) list \<Rightarrow> u8 \<Rightarrow> nat \<Rightarrow> api_call option" where
  "Spdylay_submit_request version hostport path headers pri stream_user_data =
     (let static = static_nv version hostport path;
          total_entry_count = length static + length headers * 2 in
      do {
        (pos, nv) \<leftarrow> header_loop headers (length static)
                      (map Some static @ replicate (total_entry_count + 1 - length static) None);
        if pos < length nv
        then Some (SubmitRequest pri (nv_array (nv[pos := None])) None stream_user_data)
        else None
      })"

section \<open>Requests and sessions\<close>

text \<open>A \<open>timeval\<close> is its seconds and microseconds.\<close>

type_synonym timeval = "int \<times> int"

record ('z, 'p) cat_Request =
  cr_us :: UriStruct
  cr_inflater :: "'z option"
  cr_html_parser :: "'p HtmlParser option"
  cr_level :: int
  cr_on_syn_stream_time :: timeval
  cr_on_syn_reply_time :: timeval
  cr_on_complete_time :: timeval
  cr_status :: bytes

record ('z, 'p) SpdySession =
  sp_reqvec :: "('z, 'p) cat_Request list"
  sp_streams :: "i32 \<rightharpoonup> nat"
  sp_path_cache :: "bytes set"
  sp_complete :: nat
  sp_hostport :: bytes
  sp_on_handshake_time :: timeval

text \<open>
  The client: its session, the cache, its own memory and the content it has written; how often it has
  called the network and \<open>want_write_\<close> of the class \<open>Spdylay\<close>.
\<close>

record ('z, 'p) cat =
  ct_session :: "('z, 'p) SpdySession"
  ct_cache :: ClientCache
  ct_mem :: mem
  ct_out :: bytes
  ct_io :: nat
  ct_want_write :: bool

text \<open>What the client is given: the options, libraries, files, its version and the time of the callback.\<close>

record ('z, 'p) cat_env =
  en_config :: cat_Config
  en_zlib :: "'z zlib"
  en_inflateInit2 :: "nat \<Rightarrow> 'z option"
  en_xml :: "'p libxml"
  en_fs :: html_fs
  en_version :: bytes
  en_now :: timeval

definition cat_Request_new :: "UriStruct \<Rightarrow> int \<Rightarrow> ('z, 'p) cat_Request" where
  "cat_Request_new us level =
     \<lparr>cr_us = us, cr_inflater = None, cr_html_parser = None, cr_level = level, cr_on_syn_stream_time = (-1, -1),
      cr_on_syn_reply_time = (-1, -1), cr_on_complete_time = (-1, -1), cr_status = []\<rparr>"

definition SpdySession_new :: "('z, 'p) SpdySession" where
  "SpdySession_new =
     \<lparr>sp_reqvec = [], sp_streams = Map.empty, sp_path_cache = {}, sp_complete = 0, sp_hostport = [], sp_on_handshake_time = (-1, -1)\<rparr>"

definition all_requests_processed :: "('z, 'p) SpdySession \<Rightarrow> bool" where
  "all_requests_processed sp \<longleftrightarrow> sp_complete sp = length (sp_reqvec sp)"

definition update_hostport :: "('z, 'p) SpdySession \<Rightarrow> ('z, 'p) SpdySession" where
  "update_hostport sp =
     (case sp_reqvec sp of
        [] \<Rightarrow> sp
      | req # _ \<Rightarrow>
          let us = cr_us req in
          sp\<lparr>sp_hostport :=
            (if us_ipv6LiteralAddress us then lit ''['' @ us_host us @ lit '']'' else us_host us) @
            (if us_port us \<noteq> 443 then lit '':'' @ decimal (unat (us_port us)) else [])\<rparr>)"

definition path_key :: "UriStruct \<Rightarrow> bytes" where
  "path_key us = us_dir us @ us_file us @ us_query us"

definition add_request :: "UriStruct \<Rightarrow> int \<Rightarrow> ('z, 'p) SpdySession \<Rightarrow> bool \<times> ('z, 'p) SpdySession" where
  "add_request us level sp =
     (let key = path_key us in
      if key \<in> sp_path_cache sp then (False, sp)
      else (True, sp\<lparr>sp_path_cache := insert key (sp_path_cache sp), sp_reqvec := sp_reqvec sp @ [cat_Request_new us level]\<rparr>))"

definition get_request :: "nat \<Rightarrow> ('z, 'p) cat \<Rightarrow> ('z, 'p) cat_Request option" where
  "get_request r ct = (let rs = sp_reqvec (ct_session ct) in if 0 < r \<and> r \<le> length rs then Some (rs ! (r - 1)) else None)"

definition put_session :: "(('z, 'p) SpdySession \<Rightarrow> ('z, 'p) SpdySession) \<Rightarrow> ('z, 'p) cat \<Rightarrow> ('z, 'p) cat" where
  "put_session f ct = ct\<lparr>ct_session := f (ct_session ct)\<rparr>"

definition put_request :: "nat \<Rightarrow> (('z, 'p) cat_Request \<Rightarrow> ('z, 'p) cat_Request) \<Rightarrow> ('z, 'p) cat \<Rightarrow> ('z, 'p) cat" where
  "put_request r f ct =
     put_session (\<lambda>sp. sp\<lparr>sp_reqvec := (sp_reqvec sp)[r - 1 := f (sp_reqvec sp ! (r - 1))]\<rparr>) ct"

definition write_out :: "('z, 'p) cat_env \<Rightarrow> bytes \<Rightarrow> ('z, 'p) cat \<Rightarrow> ('z, 'p) cat" where
  "write_out env bs ct = (if cf_null_out (en_config env) then ct else ct\<lparr>ct_out := ct_out ct @ bs\<rparr>)"

section \<open>Submitting requests and following links\<close>

text \<open>The \<open>assert\<close> on the return value of the library is \<open>submits_ok\<close> below.\<close>

definition cat_submit_request ::
    "('z, 'p) cat_env \<Rightarrow> nat \<Rightarrow> ('z, 'p) cat \<Rightarrow> (('z, 'p) cat \<times> api_call list) option" where
  "cat_submit_request env r ct =
     do {
       req \<leftarrow> get_request r ct;
       let path = path_key (cr_us req);
       if HasFreshCopy (ct_cache ct) path then Some (ct, [])
       else do {
         call \<leftarrow> Spdylay_submit_request (en_version env) (sp_hostport (ct_session ct)) path (cf_headers (en_config env)) 3 r;
         Some (ct\<lparr>ct_cache := cache_path path (ct_cache ct)\<rparr>, [call])
       }
     }"

text \<open>
  The loop over the links of request \<open>r\<close>. Its body does not touch the parser, so \<open>get_links\<close> gives the same
  links in every turn. \<open>reqvec.back()\<close> is submitted whether or not \<open>add_request\<close> added it.
\<close>

definition same_origin :: "UriStruct \<Rightarrow> UriStruct \<Rightarrow> bool" where
  "same_origin a b \<longleftrightarrow> us_protocol a = us_protocol b \<and> us_host a = us_host b \<and> us_port a = us_port b"

definition follow_link ::
    "('z, 'p) cat_env \<Rightarrow> ('z, 'p) cat_Request \<Rightarrow> bytes \<Rightarrow> ('z, 'p) cat \<Rightarrow> (('z, 'p) cat \<times> api_call list) option" where
  "follow_link env req uri ct =
     do {
       parsed \<leftarrow> parse uri;
       (case parsed of
          None \<Rightarrow> Some (ct, [])
        | Some us \<Rightarrow>
            if same_origin (cr_us req) us
            then let ct1 = put_session (\<lambda>sp. snd (add_request us (cr_level req + 1) sp)) ct in
              cat_submit_request env (length (sp_reqvec (ct_session ct1))) ct1
            else Some (ct, []))
     }"

fun follow_links ::
    "('z, 'p) cat_env \<Rightarrow> ('z, 'p) cat_Request \<Rightarrow> bytes list \<Rightarrow> ('z, 'p) cat \<Rightarrow> (('z, 'p) cat \<times> api_call list) option" where
  "follow_links env req [] ct = Some (ct, [])"
| "follow_links env req (uri # us) ct =
     do {
       (ct1, calls1) \<leftarrow> follow_link env req uri ct;
       (ct2, calls2) \<leftarrow> follow_links env req us ct1;
       Some (ct2, calls1 @ calls2)
     }"

definition update_html_parser ::
    "('z, 'p) cat_env \<Rightarrow> nat \<Rightarrow> bytes \<Rightarrow> bool \<Rightarrow> ('z, 'p) cat \<Rightarrow> (('z, 'p) cat \<times> api_call list) option" where
  "update_html_parser env r data fin ct =
     do {
       req \<leftarrow> get_request r ct;
       (case cr_html_parser req of
          None \<Rightarrow> Some (ct, [])
        | Some hp \<Rightarrow>
            do {
              (rv, hp1) \<leftarrow> parse_chunk (en_xml env) data fin hp;
              (links, hp2) \<leftarrow> get_links hp1;
              (ct1, calls) \<leftarrow> follow_links env req links ct;
              Some (put_request r (\<lambda>q. q\<lparr>cr_html_parser := Some (clear_links hp2)\<rparr>) ct1, calls)
            })
     }"

section \<open>Callbacks of the session\<close>

text \<open>
  A body with gzip goes through the inflater, 4096 bytes of output at a time. The loop goes on until all
  input is consumed: whether it ends depends on zlib.
\<close>

definition SPDYLAY_GOAWAY_OK :: u32 where "SPDYLAY_GOAWAY_OK = 0"

definition MAX_OUTLEN :: nat where "MAX_OUTLEN = 4096"

partial_function (option) inflate_loop ::
    "('z, 'p) cat_env \<Rightarrow> i32 \<Rightarrow> nat \<Rightarrow> bytes \<Rightarrow> ('z, 'p) cat \<Rightarrow> (('z, 'p) cat \<times> api_call list) option" where
  "inflate_loop env stream_id r data ct =
     (if data = [] then Some (ct, [])
      else do {
        req \<leftarrow> get_request r ct;
        z \<leftarrow> cr_inflater req;
        let (rv, outlen, tlen, out, z') = spdylay_gzip_inflate (en_zlib env) z MAX_OUTLEN data;
        let ct1 = put_request r (\<lambda>q. q\<lparr>cr_inflater := Some z'\<rparr>) ct;
        if rv = -1 then Some (ct1, [SubmitRstStream stream_id SPDYLAY_INTERNAL_ERROR])
        else do {
          (ct2, calls1) \<leftarrow> update_html_parser env r out False (write_out env out ct1);
          (ct3, calls2) \<leftarrow> inflate_loop env stream_id r (drop tlen data) ct2;
          Some (ct3, calls1 @ calls2)
        }
      })"

definition cat_on_data_chunk_recv ::
    "('z, 'p) cat_env \<Rightarrow> i32 \<Rightarrow> bytes \<Rightarrow> ('z, 'p) cat \<Rightarrow> (('z, 'p) cat \<times> api_call list) option" where
  "cat_on_data_chunk_recv env stream_id data ct =
     (case sp_streams (ct_session ct) stream_id of
        Some r \<Rightarrow>
          do {
            req \<leftarrow> get_request r ct;
            if cr_inflater req \<noteq> None then inflate_loop env stream_id r data ct
            else update_html_parser env r data False (write_out env data ct)
          }
      | None \<Rightarrow> Some (write_out env data ct, []))"

text \<open>\<open>ud\<close> is what \<open>spdylay_session_get_stream_user_data\<close> gives for a stream.\<close>

definition check_stream_id ::
    "('z, 'p) cat_env \<Rightarrow> (i32 \<Rightarrow> nat) \<Rightarrow> i32 \<Rightarrow> ('z, 'p) cat \<Rightarrow> ('z, 'p) cat option" where
  "check_stream_id env ud stream_id ct =
     do {
       req \<leftarrow> get_request (ud stream_id) ct;
       Some (put_request (ud stream_id) (\<lambda>q. q\<lparr>cr_on_syn_stream_time := en_now env\<rparr>)
               (put_session (\<lambda>sp. sp\<lparr>sp_streams := (sp_streams sp)(stream_id \<mapsto> ud stream_id)\<rparr>) ct))
     }"

definition on_ctrl_send_callback2 ::
    "('z, 'p) cat_env \<Rightarrow> (i32 \<Rightarrow> nat) \<Rightarrow> spdylay_frame \<Rightarrow> ('z, 'p) cat \<Rightarrow> ('z, 'p) cat option" where
  "on_ctrl_send_callback2 env ud frame ct =
     (case frame of FSynStream f \<Rightarrow> check_stream_id env ud (ss_stream_id f) ct | _ \<Rightarrow> Some ct)"

fun scan_response_nv :: "nv \<Rightarrow> bool \<times> bytes \<Rightarrow> bool \<times> bytes" where
  "scan_response_nv [] st = st"
| "scan_response_nv ((k, v) # nv) (gzip, status) =
     scan_response_nv nv
       (if k = lit ''content-encoding'' then (strieq (Some (lit ''gzip'')) (Some v) \<or> strieq (Some (lit ''deflate'')) (Some v), status)
        else if k = lit '':status'' then (gzip, v) else (gzip, status))"

definition init_inflater :: "('z, 'p) cat_env \<Rightarrow> nat \<Rightarrow> ('z, 'p) cat \<Rightarrow> ('z, 'p) cat option" where
  "init_inflater env r ct =
     (case spdylay_gzip_inflate_new (en_inflateInit2 env) (ct_mem ct) of (rv, inflater, m) \<Rightarrow>
        if rv = 0 then Some (put_request r (\<lambda>q. q\<lparr>cr_inflater := inflater\<rparr>) (ct\<lparr>ct_mem := m\<rparr>)) else None)"

definition init_html_parser :: "('z, 'p) cat_env \<Rightarrow> nat \<Rightarrow> ('z, 'p) cat \<Rightarrow> ('z, 'p) cat option" where
  "init_html_parser env r ct =
     do {
       req \<leftarrow> get_request r ct;
       hp \<leftarrow> HtmlParser_new (en_fs env) (construct (cr_us req)) (cf_use_assoc_list (en_config env)) (lit ''../htdocs/'');
       Some (put_request r (\<lambda>q. q\<lparr>cr_html_parser := Some hp\<rparr>) ct)
     }"

definition response_headers :: "('z, 'p) cat_env \<Rightarrow> nat \<Rightarrow> nv \<Rightarrow> ('z, 'p) cat \<Rightarrow> ('z, 'p) cat option" where
  "response_headers env r nv ct =
     do {
       req \<leftarrow> get_request r ct;
       let (gzip, status) = scan_response_nv nv (False, cr_status req);
       let ct1 = put_request r (\<lambda>q. q\<lparr>cr_status := status\<rparr>) ct;
       ct2 \<leftarrow> (if gzip \<and> cr_inflater req = None then init_inflater env r ct1 else Some ct1);
       if (cf_get_assets (en_config env) \<or> cf_use_assoc_list (en_config env)) \<and> cr_level req = 0 \<and> cr_html_parser req = None
       then init_html_parser env r ct2 else Some ct2
     }"

text \<open>Streams pushed by the server have no user data.\<close>

definition check_response_header ::
    "('z, 'p) cat_env \<Rightarrow> (i32 \<Rightarrow> nat) \<Rightarrow> spdylay_frame \<Rightarrow> ('z, 'p) cat \<Rightarrow> ('z, 'p) cat option" where
  "check_response_header env ud frame ct =
     (case frame of
        FSynReply f \<Rightarrow> if ud (sr_stream_id f) = 0 then Some ct
          else Option.bind (sr_nv f) (\<lambda>nv. response_headers env (ud (sr_stream_id f)) nv ct)
      | FHeaders f \<Rightarrow> if ud (hs_stream_id f) = 0 then Some ct
          else Option.bind (hs_nv f) (\<lambda>nv. response_headers env (ud (hs_stream_id f)) nv ct)
      | _ \<Rightarrow> Some ct)"

text \<open>\<open>strncmp\<close> compares five characters, so every name that begins with \<open>:path\<close> counts; the last one wins.\<close>

definition pushed_path :: "nv \<Rightarrow> bytes" where
  "pushed_path nv = foldl (\<lambda>path (k, v). if take 5 k = lit '':path'' then v else path) [] nv"

definition on_ctrl_recv_callback2 ::
    "('z, 'p) cat_env \<Rightarrow> (i32 \<Rightarrow> nat) \<Rightarrow> spdylay_frame \<Rightarrow> ('z, 'p) cat \<Rightarrow> (('z, 'p) cat \<times> api_call list) option" where
  "on_ctrl_recv_callback2 env ud frame ct =
     (case frame of
        FSynReply f \<Rightarrow>
          do {
            req \<leftarrow> get_request (ud (sr_stream_id f)) ct;
            ct1 \<leftarrow> check_response_header env ud frame
                     (put_request (ud (sr_stream_id f)) (\<lambda>q. q\<lparr>cr_on_syn_reply_time := en_now env\<rparr>) ct);
            Some (ct1, [])
          }
      | FSynStream f \<Rightarrow>
          do {
            nv \<leftarrow> ss_nv f;
            if HasFreshCopy (ct_cache ct) (pushed_path nv)
            then Some (ct, [SubmitRstStream (ss_stream_id f) SPDYLAY_REFUSED_STREAM])
            else Some (ct\<lparr>ct_cache := cache_path (pushed_path nv) (ct_cache ct)\<rparr>, [])
          }
      | _ \<Rightarrow> map_option (\<lambda>ct1. (ct1, [])) (check_response_header env ud frame ct))"

definition cat_on_stream_close ::
    "('z, 'p) cat_env \<Rightarrow> i32 \<Rightarrow> ('z, 'p) cat \<Rightarrow> (('z, 'p) cat \<times> api_call list) option" where
  "cat_on_stream_close env stream_id ct =
     (case sp_streams (ct_session ct) stream_id of
        None \<Rightarrow> Some (ct, [])
      | Some r \<Rightarrow>
          do {
            (ct1, calls) \<leftarrow> update_html_parser env r [] True ct;
            let ct2 = put_request r (\<lambda>q. q\<lparr>cr_on_complete_time := en_now env\<rparr>) ct1;
            let ct3 = put_session (\<lambda>sp. sp\<lparr>sp_complete := sp_complete sp + 1\<rparr>) ct2;
            Some (ct3, calls @ (if all_requests_processed (ct_session ct3) then [SubmitGoaway SPDYLAY_GOAWAY_OK] else []))
          })"

text \<open>The callbacks that \<open>run\<close> registers, apart from those that only print.\<close>

definition cat_event ::
    "('z, 'p) cat_env \<Rightarrow> (i32 \<Rightarrow> nat) \<Rightarrow> event \<Rightarrow> ('z, 'p) cat \<Rightarrow> (('z, 'p) cat \<times> api_call list) option" where
  "cat_event env ud ev ct =
     (case ev of
        OnStreamClose i c \<Rightarrow> cat_on_stream_close env i ct
      | OnCtrlRecv frame \<Rightarrow> on_ctrl_recv_callback2 env ud frame ct
      | OnCtrlSend frame \<Rightarrow> map_option (\<lambda>ct1. (ct1, [])) (on_ctrl_send_callback2 env ud frame ct)
      | OnDataChunkRecv fl i data \<Rightarrow> cat_on_data_chunk_recv env i data ct
      | _ \<Rightarrow> Some (ct, []))"

section \<open>The connection\<close>

text \<open>
  The network: connecting with the TLS handshake, which gives what the server offers by next protocol
  negotiation, if it does; \<open>SSL_write\<close> with its return value and whether it would block; \<open>SSL_read\<close> with
  its return value, the bytes, whether it would block and whether it wants to write; \<open>poll\<close> for reading
  and writing, with its return value, whether one of \<open>POLLIN\<close> and \<open>POLLOUT\<close> is set, whether one of
  \<open>POLLHUP\<close> and \<open>POLLERR\<close> is, and the milliseconds it took; the clock. All are given how often the
  network was used before.
\<close>

record cat_net =
  nt_connect :: "bytes \<Rightarrow> u16 \<Rightarrow> bytes option option"
  nt_SSL_write :: "nat \<Rightarrow> bytes \<Rightarrow> int \<times> bool"
  nt_SSL_read :: "nat \<Rightarrow> nat \<Rightarrow> int \<times> bytes \<times> bool \<times> bool"
  nt_poll :: "nat \<Rightarrow> bool \<Rightarrow> bool \<Rightarrow> int \<times> bool \<times> bool \<times> int"
  nt_clock :: "nat \<Rightarrow> timeval"
  nt_mem :: mem

text \<open>The session of the library, with the client as its user data; \<open>None\<close> there is a client that was aborted.\<close>

type_synonym ('z, 'p) cat_session = "('z, ('z, 'p) cat option) spdylay_session"

definition io_done :: "('z, 'p) cat \<Rightarrow> ('z, 'p) cat" where
  "io_done ct = ct\<lparr>ct_io := Suc (ct_io ct)\<rparr>"

definition cat_send_callback ::
    "cat_net \<Rightarrow> ('z, 'p) cat_session \<Rightarrow> bytes \<Rightarrow> int \<times> ('z, 'p) cat option \<times> api_call list" where
  "cat_send_callback nt s data =
     (case s_user_data s of
        None \<Rightarrow> (SPDYLAY_ERR_CALLBACK_FAILURE, None, [])
      | Some ct \<Rightarrow>
          (case nt_SSL_write nt (ct_io ct) data of (r, would_block) \<Rightarrow>
             (if r < 0 then if would_block then SPDYLAY_ERR_WOULDBLOCK else SPDYLAY_ERR_CALLBACK_FAILURE else r,
              Some (io_done ct), [])))"

definition cat_recv_callback ::
    "cat_net \<Rightarrow> ('z, 'p) cat_session \<Rightarrow> nat \<Rightarrow> (int \<times> bytes) \<times> ('z, 'p) cat option \<times> api_call list" where
  "cat_recv_callback nt s len =
     (case s_user_data s of
        None \<Rightarrow> ((SPDYLAY_ERR_CALLBACK_FAILURE, []), None, [])
      | Some ct \<Rightarrow>
          (case nt_SSL_read nt (ct_io ct) len of (r, bs, would_block, want_write) \<Rightarrow>
             ((if r < 0 then if would_block then SPDYLAY_ERR_WOULDBLOCK else SPDYLAY_ERR_CALLBACK_FAILURE
               else if r = 0 then SPDYLAY_ERR_EOF else r, bs),
              Some ((io_done ct)\<lparr>ct_want_write := (r < 0 \<and> want_write)\<rparr>), [])))"

text \<open>Whether all requests of a list of calls are accepted, as the \<open>assert\<close> of \<open>submit_request\<close> wants it.\<close>

fun submits_ok :: "('z, 'u) spdylay_session \<Rightarrow> api_call list \<Rightarrow> bool" where
  "submits_ok s [] \<longleftrightarrow> True"
| "submits_ok s (c # cs) \<longleftrightarrow>
     (case c of SubmitRequest pri nv prd ud \<Rightarrow> fst (spdylay_submit_request s pri nv prd ud) = 0 | _ \<Rightarrow> True) \<and>
     (case exec_api s c of None \<Rightarrow> False | Some s1 \<Rightarrow> submits_ok s1 cs)"

definition cat_answer ::
    "('z, 'p) cat_env \<Rightarrow> cat_net \<Rightarrow> ('z, 'p) cat_session \<Rightarrow> event \<Rightarrow> ('z, 'p) cat option \<times> api_call list" where
  "cat_answer env nt s ev =
     (case s_user_data s of
        None \<Rightarrow> (None, [])
      | Some ct \<Rightarrow>
          (case cat_event (env\<lparr>en_now := nt_clock nt (ct_io ct)\<rparr>) (spdylay_session_get_stream_user_data s) ev ct of
             None \<Rightarrow> (None, [])
           | Some (ct1, calls) \<Rightarrow> if submits_ok s calls then (Some ct1, calls) else (None, [])))"

text \<open>No request has a body, so the read callback is not called.\<close>

definition cat_callbacks :: "('z, 'p) cat_env \<Rightarrow> cat_net \<Rightarrow> ('z, ('z, 'p) cat option) spdylay_session_callbacks" where
  "cat_callbacks env nt =
     \<lparr>cb_send = cat_send_callback nt, cb_recv = cat_recv_callback nt,
      cb_read = (\<lambda>s i len src. ((SPDYLAY_ERR_CALLBACK_FAILURE, [], False, src), s_user_data s, [])),
      cb_event = cat_answer env nt, cb_get_credential_ncerts = None, cb_get_credential_proof = None,
      cb_get_credential_cert = None\<rparr>"

definition byte_at :: "bytes \<Rightarrow> nat \<Rightarrow> u8" where
  "byte_at bs i = (if i < length bs then bs ! i else 0)"

text \<open>\<open>abort\<close> is \<open>None\<close>. The wish is empty unless an option fixes the version.\<close>

definition select_next_proto_cb :: "bytes \<Rightarrow> bytes \<Rightarrow> bytes option" where
  "select_next_proto_cb next_proto offer =
     (if next_proto = []
      then case spdylay_select_next_protocol (byte_at offer) (length offer) of
        (r, out) \<Rightarrow> if r \<le> 0 then None else map_option (\<lambda>(i, n). take n (drop i offer)) out
      else Some next_proto)"

definition wished_proto :: "cat_Config \<Rightarrow> bytes" where
  "wished_proto cf = (if cf_spdy_version cf = 2 then lit ''spdy/2'' else if cf_spdy_version cf = 3 then lit ''spdy/3'' else [])"

definition cat_settings :: "cat_Config \<Rightarrow> spdylay_settings_entry" where
  "cat_settings cf =
     \<lparr>se_settings_id = of_nat SPDYLAY_SETTINGS_INITIAL_WINDOW_SIZE, se_flags = 0,
      se_value = ucast (push_bit (nat (cf_window_bits cf)) 1 :: i32)\<rparr>"

definition submit_settings_option :: "('z, 'p) cat_env \<Rightarrow> u16 \<Rightarrow> ('z, 'p) cat_session \<Rightarrow> ('z, 'p) cat_session option" where
  "submit_settings_option env version s =
     (if version \<ge> SPDYLAY_PROTO_SPDY3 \<and> cf_window_bits (en_config env) \<noteq> -1
      then do {
        (rv, s1) \<leftarrow> spdylay_submit_settings s 0 [cat_settings (en_config env)];
        if rv = 0 then Some s1 else None
      }
      else Some s)"

fun submit_requests :: "('z, 'p) cat_env \<Rightarrow> nat list \<Rightarrow> ('z, 'p) cat_session \<Rightarrow> ('z, 'p) cat_session option" where
  "submit_requests env [] s = Some s"
| "submit_requests env (r # rs) s =
     do {
       ct \<leftarrow> s_user_data s;
       (ct1, calls) \<leftarrow> cat_submit_request env r ct;
       s1 \<leftarrow> (if submits_ok s calls then callback_effect s (Some ct1, calls) else None);
       submit_requests env rs s1
     }"

definition finish :: "('z, 'u) spdylay_session \<Rightarrow> bool" where
  "finish s \<longleftrightarrow> \<not> spdylay_session_want_read s \<and> \<not> spdylay_session_want_write s"

definition recv_send ::
    "'z zlib \<Rightarrow> ('z, 'u) spdylay_session_callbacks \<Rightarrow> ('z, 'u) spdylay_session \<Rightarrow> (int \<times> ('z, 'u) spdylay_session) option" where
  "recv_send zl cb s =
     do { (rv, s1) \<leftarrow> spdylay_session_recv zl cb s; if rv \<noteq> 0 then Some (rv, s1) else spdylay_session_send zl cb s1 }"

text \<open>
  One turn of the loop that runs until the session has finished: \<open>Stop\<close> with the value that
  \<open>communicate\<close> returns, or \<open>Again\<close> with what is left of the time.
\<close>

datatype 's poll_result = Stop int 's | Again int 's

definition poll_verdict :: "('z, 'p) cat_env \<Rightarrow> int \<Rightarrow> bool \<Rightarrow> int \<Rightarrow> int \<Rightarrow> 's \<Rightarrow> 's poll_result" where
  "poll_verdict env timeout hup ms rv s =
     (if rv \<noteq> 0 \<or> hup \<or> cf_timeout (en_config env) \<noteq> -1 \<and> timeout - ms \<le> 0 then Stop (-1) s
      else Again (if cf_timeout (en_config env) \<noteq> -1 then timeout - ms else timeout) s)"

definition poll_step ::
    "('z, 'p) cat_env \<Rightarrow> cat_net \<Rightarrow> int \<Rightarrow> ('z, 'p) cat_session \<Rightarrow> ('z, 'p) cat_session poll_result option" where
  "poll_step env nt timeout s =
     do {
       ct \<leftarrow> s_user_data s;
       if finish s then Some (Stop 0 s)
       else
         let (nfds, ready, hup, ms) = nt_poll nt (ct_io ct) (spdylay_session_want_read s)
               (spdylay_session_want_write s \<or> ct_want_write ct);
             s0 = s\<lparr>s_user_data := Some (io_done ct)\<rparr> in
         if nfds = -1 then Some (Stop (-1) s0)
         else do {
           (rv, s1) \<leftarrow> (if ready then recv_send (en_zlib env) (cat_callbacks env nt) s0 else Some (0, s0));
           Some (poll_verdict env timeout hup ms rv s1)
         }
     }"

partial_function (option) poll_loop ::
    "('z, 'p) cat_env \<Rightarrow> cat_net \<Rightarrow> int \<Rightarrow> ('z, 'p) cat_session \<Rightarrow> (int \<times> ('z, 'p) cat_session) option" where
  "poll_loop env nt timeout s =
     Option.bind (poll_step env nt timeout s) (\<lambda>p.
       case p of Stop rv s1 \<Rightarrow> Some (rv, s1) | Again timeout1 s1 \<Rightarrow> poll_loop env nt timeout1 s1)"

definition talk ::
    "('z, 'p) cat_env \<Rightarrow> cat_net \<Rightarrow> u16 \<Rightarrow> ('z, 'p) cat \<Rightarrow> (int \<times> ('z, 'p) cat_session) option" where
  "talk env nt version ct =
     (case spdylay_session_client_new (en_zlib env) (nt_mem nt) version (Some ct) of
        (Inl e, m) \<Rightarrow> None
      | (Inr s, m) \<Rightarrow>
          do {
            s1 \<leftarrow> submit_settings_option env version s;
            s2 \<leftarrow> submit_requests env [1..<length (sp_reqvec (ct_session ct)) + 1] s1;
            poll_loop env nt (cf_timeout (en_config env)) s2
          })"

definition communicate ::
    "('z, 'p) cat_env \<Rightarrow> cat_net \<Rightarrow> bytes \<Rightarrow> u16 \<Rightarrow> ('z, 'p) cat \<Rightarrow> (int \<times> ('z, 'p) cat) option" where
  "communicate env nt host port ct =
     (case nt_connect nt host port of
        None \<Rightarrow> Some (-1, ct)
      | Some offer \<Rightarrow>
          do {
            let wish = wished_proto (en_config env);
            next_proto \<leftarrow> (case offer of None \<Rightarrow> Some wish | Some bs \<Rightarrow> select_next_proto_cb wish bs);
            let version = spdylay_npn_get_version (Some next_proto);
            let ct1 = put_session (\<lambda>sp. sp\<lparr>sp_on_handshake_time := nt_clock nt (ct_io ct)\<rparr>) ct;
            if version = 0 then Some (-1, ct1)
            else do { (rv, s) \<leftarrow> talk env nt version ct1; ct2 \<leftarrow> s_user_data s; Some (rv, ct2) }
          })"

text \<open>The URIs in their order; a new session begins where the host or the port changes.\<close>

definition flush_session ::
    "('z, 'p) cat_env \<Rightarrow> cat_net \<Rightarrow> bytes \<Rightarrow> u16 \<Rightarrow> nat \<Rightarrow> ('z, 'p) cat \<Rightarrow> (nat \<times> ('z, 'p) cat) option" where
  "flush_session env nt prev_host prev_port failures ct =
     (if sp_reqvec (ct_session ct) = [] then Some (failures, ct)
      else do {
        (rv, ct1) \<leftarrow> communicate env nt prev_host prev_port (put_session update_hostport ct);
        Some (if rv \<noteq> 0 then failures + 1 else failures, put_session (\<lambda>_. SpdySession_new) ct1)
      })"

fun run_uris ::
    "('z, 'p) cat_env \<Rightarrow> cat_net \<Rightarrow> bytes list \<Rightarrow> bytes \<Rightarrow> u16 \<Rightarrow> nat \<Rightarrow> ('z, 'p) cat \<Rightarrow> (nat \<times> ('z, 'p) cat) option" where
  "run_uris env nt [] prev_host prev_port failures ct = flush_session env nt prev_host prev_port failures ct"
| "run_uris env nt (uri # uris) prev_host prev_port failures ct =
     do {
       parsed \<leftarrow> parse uri;
       (case parsed of
          None \<Rightarrow> run_uris env nt uris prev_host prev_port failures ct
        | Some us \<Rightarrow>
            do {
              (failures1, ct1) \<leftarrow> (if prev_host \<noteq> us_host us \<or> prev_port \<noteq> us_port us
                 then flush_session env nt prev_host prev_port failures ct else Some (failures, ct));
              run_uris env nt uris (us_host us) (us_port us) failures1 (put_session (\<lambda>sp. snd (add_request us 0 sp)) ct1)
            })
     }"

definition cat_run :: "('z, 'p) cat_env \<Rightarrow> cat_net \<Rightarrow> bool \<Rightarrow> mem \<Rightarrow> bytes list \<Rightarrow> nat option" where
  "cat_run env nt cache_enabled m uris =
     map_option fst (run_uris env nt uris [] 0 0
       \<lparr>ct_session = SpdySession_new, ct_cache = \<lparr>cc_enabled = cache_enabled, cc_entries = Map.empty\<rparr>, ct_mem = m,
        ct_out = [], ct_io = 0, ct_want_write = False\<rparr>)"

end
