(* ===== verification/Spdycat_Run.thy ===== *)
theory Spdycat_Run
  imports Spdycat_Client
begin

text \<open>
  What holds of the client: the header array of a request fits and is accepted by the library, the
  requests of a session stay with one host and are made once, when the session is told to go away,
  when the inflate loop ends, and that the session of the library is a proper one while the client
  uses it.
\<close>

section \<open>The header array of a request\<close>

definition given_value :: "bytes \<Rightarrow> (bytes \<times> bytes) list \<Rightarrow> cstr \<Rightarrow> cstr" where
  "given_value name hs d = foldl (\<lambda>d (k, v). if strieq (Some (c_str k)) (Some name) then c_str v else d) d hs"

definition own_header :: "bytes \<times> bytes \<Rightarrow> bool" where
  "own_header h \<longleftrightarrow> (\<forall>name\<in>{lit ''accept'', lit ''user-agent'', lit ''host''}. \<not> strieq (Some (c_str (fst h))) (Some name))"

definition own_nv :: "(bytes \<times> bytes) list \<Rightarrow> cstr list" where
  "own_nv hs = concat (map (\<lambda>(k, v). [c_str k, c_str v]) (filter own_header hs))"

definition fixed_nv :: "bytes \<Rightarrow> cstr \<Rightarrow> cstr \<Rightarrow> cstr \<Rightarrow> cstr list" where
  "fixed_nv path host accept agent =
     [lit '':method'', lit ''GET'', lit '':path'', c_str path, lit '':version'', lit ''HTTP/1.1'', lit '':scheme'', lit ''https'',
      lit '':host'', host, lit ''accept'', accept, lit ''user-agent'', agent]"

lemma length_own_nv: "length (own_nv hs) \<le> 2 * length hs"
  by (induction hs) (auto simp: own_nv_def)

lemma strieq_one:
  "strieq (Some k) (Some (lit ''accept'')) \<Longrightarrow> \<not> strieq (Some k) (Some (lit ''user-agent'')) \<and> \<not> strieq (Some k) (Some (lit ''host''))"
  "strieq (Some k) (Some (lit ''user-agent'')) \<Longrightarrow> \<not> strieq (Some k) (Some (lit ''accept'')) \<and> \<not> strieq (Some k) (Some (lit ''host''))"
  "strieq (Some k) (Some (lit ''host'')) \<Longrightarrow> \<not> strieq (Some k) (Some (lit ''accept'')) \<and> \<not> strieq (Some k) (Some (lit ''user-agent''))"
  by (auto simp: strieq_iff lit_def lowcase_def)

lemma given_value_Cons:
  "given_value name ((k, v) # hs) d = given_value name hs (if strieq (Some (c_str k)) (Some name) then c_str v else d)"
  by (simp add: given_value_def)

lemma own_nv_Cons: "own_nv ((k, v) # hs) = (if own_header (k, v) then [c_str k, c_str v] else []) @ own_nv hs"
  by (simp add: own_nv_def)

lemma nv_set_fixed:
  "nv_set 11 v (map Some (fixed_nv p h a u) @ rest) = Some (map Some (fixed_nv p h v u) @ rest)"
  "nv_set 13 v (map Some (fixed_nv p h a u) @ rest) = Some (map Some (fixed_nv p h a v) @ rest)"
  "nv_set 9 v (map Some (fixed_nv p h a u) @ rest) = Some (map Some (fixed_nv p v a u) @ rest)"
  by (simp_all add: nv_set_def fixed_nv_def)

lemma nv_set_next:
  "length xs = i \<Longrightarrow> nv_set i v (map Some xs @ None # rest) = Some (map Some (xs @ [v]) @ rest)"
  by (simp add: nv_set_def list_update_append)

lemma header_loop_fits:
  assumes "2 * length hs < n"
  shows "header_loop hs (14 + length ys) (map Some (fixed_nv p h a u) @ map Some ys @ replicate n None) =
    Some (14 + length ys + length (own_nv hs),
      map Some (fixed_nv p (given_value (lit ''host'') hs h) (given_value (lit ''accept'') hs a) (given_value (lit ''user-agent'') hs u)) @
      map Some (ys @ own_nv hs) @ replicate (n - length (own_nv hs)) None)"
  using assms
proof (induction hs arbitrary: n h a u ys)
  case (Cons kv hs)
  obtain k v where kv: "kv = (k, v)" by (cases kv)
  consider (accept) "strieq (Some (c_str k)) (Some (lit ''accept''))"
    | (agent) "strieq (Some (c_str k)) (Some (lit ''user-agent''))"
    | (host) "strieq (Some (c_str k)) (Some (lit ''host''))" | (own) "own_header kv"
    by (auto simp: own_header_def kv)
  then show ?case
  proof cases
    case own
    obtain m where n: "n = Suc (Suc m)" using Cons.prems by (cases n; cases "n - 1") auto
    have len: "length (fixed_nv p h a u @ ys) = 14 + length ys" by (simp add: fixed_nv_def)
    have "nv_set (14 + length ys) (c_str k) (map Some (fixed_nv p h a u) @ map Some ys @ replicate n None) =
        Some (map Some (fixed_nv p h a u) @ map Some (ys @ [c_str k]) @ replicate (Suc m) None)"
      using nv_set_next [OF len] by (simp add: n)
    moreover have "nv_set (14 + length ys + 1) (c_str v) (map Some (fixed_nv p h a u) @ map Some (ys @ [c_str k]) @ replicate (Suc m) None) =
        Some (map Some (fixed_nv p h a u) @ map Some (ys @ [c_str k, c_str v]) @ replicate m None)"
      using nv_set_next [of "fixed_nv p h a u @ ys @ [c_str k]" "14 + length ys + 1"] by (simp add: fixed_nv_def)
    ultimately show ?thesis
      using own Cons.IH [of m "ys @ [c_str k, c_str v]" h a u] Cons.prems
      by (simp add: kv n Let_def own_header_def given_value_Cons own_nv_Cons)
  next
    case accept
    with strieq_one(1) [OF accept] Cons show ?thesis
      by (simp add: kv Let_def nv_set_fixed POS_ACCEPT_def given_value_Cons own_nv_Cons own_header_def)
  next
    case agent
    with strieq_one(2) [OF agent] Cons show ?thesis
      by (simp add: kv Let_def nv_set_fixed POS_USERAGENT_def given_value_Cons own_nv_Cons own_header_def)
  next
    case host
    with strieq_one(3) [OF host] Cons show ?thesis
      by (simp add: kv Let_def nv_set_fixed POS_HOST_def given_value_Cons own_nv_Cons own_header_def)
  qed
qed (simp add: given_value_def own_nv_def)

lemma nv_array_end: "nv_array (map Some xs @ None # rest) = xs"
  by (induction xs) (auto simp: nv_array_def)

lemma request_nv:
  "Spdylay_submit_request version hostport path hs pri r =
     Some (SubmitRequest pri
       (fixed_nv path (given_value (lit ''host'') hs (c_str hostport)) (given_value (lit ''accept'') hs (lit ''*/*''))
          (given_value (lit ''user-agent'') hs (lit ''spdylay/'' @ version)) @ own_nv hs) None r)"
proof -
  define nv where "nv = fixed_nv path (given_value (lit ''host'') hs (c_str hostport)) (given_value (lit ''accept'') hs (lit ''*/*''))
    (given_value (lit ''user-agent'') hs (lit ''spdylay/'' @ version)) @ own_nv hs"
  define n where "n = 2 * length hs + 1 - length (own_nv hs)"
  obtain m where n: "n = Suc m" using length_own_nv [of hs] by (cases n) (auto simp: n_def)
  have static: "static_nv version hostport path = fixed_nv path (c_str hostport) (lit ''*/*'') (lit ''spdylay/'' @ version)"
    by (simp add: static_nv_def fixed_nv_def)
  have loop: "header_loop hs 14 (map Some (static_nv version hostport path) @ replicate (2 * length hs + 1) None) =
      Some (length nv, map Some nv @ replicate n None)"
    using header_loop_fits [of hs "2 * length hs + 1" "[]"] unfolding static
    by (simp add: nv_def n_def fixed_nv_def)
  have "(map Some nv @ replicate n None)[length nv := None] = map Some nv @ None # replicate m None"
    by (simp add: n list_update_append)
  then have "nv_array ((map Some nv @ replicate n None)[length nv := None]) = nv" using nv_array_end by simp
  moreover have "length (static_nv version hostport path) = 14" by (simp add: static_nv_def)
  ultimately show ?thesis
    using loop by (simp add: Spdylay_submit_request_def Let_def n nv_def mult.commute)
qed

section \<open>What the options leave\<close>

lemma lexordp_cases: "k = k' \<or> ord_class.lexordp k k' \<or> ord_class.lexordp k' (k :: bytes)"
  using lexordp_linear by blast

lemma std_map_insert_keys: "fst ` set (std_map_insert (k, v) m) = insert k (fst ` set m)"
  by (induction "(k, v)" m rule: std_map_insert.induct) auto

lemma std_map_insert_sorted:
  "sorted_wrt ord_class.lexordp (map fst m) \<Longrightarrow> sorted_wrt ord_class.lexordp (map fst (std_map_insert (k, v) m))"
proof (induction "(k, v)" m rule: std_map_insert.induct)
  case (2 k' v' m)
  show ?case
  proof (cases "k = k' \<or> ord_class.lexordp k k'")
    case True
    with 2 show ?thesis by (auto intro: lexordp_trans)
  next
    case False
    then have "ord_class.lexordp k' k" using lexordp_cases by blast
    then have "\<forall>x\<in>fst ` set (std_map_insert (k, v) m). ord_class.lexordp k' x"
      using 2(2) unfolding std_map_insert_keys by simp
    with False 2 show ?thesis by simp
  qed
qed simp

definition cat_config_ok :: "cat_Config \<Rightarrow> bool" where
  "cat_config_ok cf \<longleftrightarrow>
     sorted_wrt ord_class.lexordp (map fst (cf_headers cf)) \<and>
     (\<forall>k\<in>fst ` set (cf_headers cf). k \<noteq> [] \<and> 0 \<notin> set k \<and> 58 \<notin> set k) \<and> cf_window_bits cf \<in> {-1..30}"

lemma parse_header_name:
  assumes "parse_header h = Some (k, v)" "0 \<notin> set h"
  shows "k \<noteq> [] \<and> 0 \<notin> set k \<and> 58 \<notin> set k"
  using assms by (auto simp: parse_header_def Let_def split: if_splits dest: set_takeWhileD)

lemma window_bits_range: "parse_window_bits arg = Some n \<Longrightarrow> 0 \<le> n \<and> n \<le> 30"
  by (auto simp: parse_window_bits_def split: prod.split_asm if_splits)

lemma cat_option_ok:
  assumes "cat_main_option cf en opt = Some (Continue cf' en')" "cat_config_ok cf" "\<And>h. opt = Opt_H h \<Longrightarrow> 0 \<notin> set h"
  shows "cat_config_ok cf'"
proof (cases opt)
  case (Opt_H h)
  then obtain k v where "parse_header h = Some (k, v)" "cf' = cf\<lparr>cf_headers := std_map_insert (k, v) (cf_headers cf)\<rparr>"
    using assms(1) by (auto split: option.splits)
  with Opt_H assms(2,3) parse_header_name show ?thesis
    by (auto simp: cat_config_ok_def std_map_insert_sorted std_map_insert_keys simp flip: image_iff)
next
  case (Opt_w w)
  with assms show ?thesis by (auto simp: cat_config_ok_def dest: window_bits_range split: option.splits)
qed (use assms in \<open>auto simp: cat_config_ok_def Let_def split: if_splits\<close>)

lemma cat_options_ok:
  assumes "cat_main_options opts cf en = Some (Continue cf' en')" "cat_config_ok cf" "\<And>h. Opt_H h \<in> set opts \<Longrightarrow> 0 \<notin> set h"
  shows "cat_config_ok cf'"
  using assms
proof (induction opts arbitrary: cf en)
  case (Cons opt opts)
  then obtain cf1 en1 where "cat_main_option cf en opt = Some (Continue cf1 en1)"
      "cat_main_options opts cf1 en1 = Some (Continue cf' en')"
    by (auto split: option.split_asm cat_main.split_asm)
  with Cons show ?case using cat_option_ok [of cf en opt cf1 en1] by auto
qed auto

lemma config_new_ok: "cat_config_ok cat_Config_new"
  by (simp add: cat_config_ok_def cat_Config_new_def)

text \<open>The window of \<open>-w\<close> is two to that power, without overflow.\<close>

lemma window_setting:
  assumes "cat_config_ok cf" "cf_window_bits cf \<noteq> -1"
  shows "uint (se_value (cat_settings cf)) = 2 ^ nat (cf_window_bits cf)"
proof -
  have "cf_window_bits cf \<in> {0..30}" using assms by (auto simp: cat_config_ok_def)
  then obtain n where n: "cf_window_bits cf = int n" "n \<le> 30" by (metis atLeastAtMost_iff nat_le_iff nonneg_int_cases nat_int of_nat_numeral)
  have "(2 :: int) ^ n < 2 ^ 32" using n(2) by (intro power_strict_increasing) auto
  then have "uint (word_of_int (2 ^ n) :: i32) = 2 ^ n" by (subst uint_word_of_int) (simp add: take_bit_eq_mod)
  then have "uint (push_bit n (1 :: i32)) = 2 ^ n" by (simp add: push_bit_eq_mult)
  then show ?thesis by (simp add: cat_settings_def n(1))
qed

section \<open>Requests are accepted\<close>

lemma own_nv_check:
  assumes "\<forall>k\<in>fst ` set hs. k \<noteq> [] \<and> 0 \<notin> set k"
  shows "spdylay_frame_nv_check_null (own_nv hs)"
  using assms
proof (induction hs)
  case (Cons kv hs)
  then show ?case by (cases kv; cases "fst kv") (auto simp: own_nv_Cons c_str_def)
qed (simp add: own_nv_def)

lemma submit_request_result:
  assumes "s_version s \<in> {SPDYLAY_PROTO_SPDY2, SPDYLAY_PROTO_SPDY3}" "pri \<le> 3" "spdylay_frame_nv_check_null nv"
  shows "fst (spdylay_submit_request s pri nv None ud) \<in> {0, SPDYLAY_ERR_NOMEM}"
proof -
  have "\<not> pri > spdylay_session_get_pri_lowest s"
    using assms(1,2) by (auto simp: spdylay_session_get_pri_lowest_def SPDYLAY_PROTO_SPDY2_def SPDYLAY_PROTO_SPDY3_def word_le_def word_less_def)
  with assms(3) show ?thesis
    by (auto simp: spdylay_submit_request_def spdylay_submit_syn_stream_shared_def copy_data_prd_def Let_def
        spdylay_session_add_frame_def push_ob_ss_pq_def split: prod.splits option.splits dest: pq_push_mset(2))
qed

section \<open>One host, every path once\<close>

text \<open>
  The requests of a session go to one host and port and have different paths, the path cache has
  just these paths, and the streams lead to requests that exist.
\<close>

definition request_uris :: "('z, 'p) cat \<Rightarrow> UriStruct list" where
  "request_uris ct = map cr_us (sp_reqvec (ct_session ct))"

definition cat_inv :: "bytes \<Rightarrow> u16 \<Rightarrow> ('z, 'p) cat \<Rightarrow> bool" where
  "cat_inv host port ct \<longleftrightarrow>
     distinct (map path_key (request_uris ct)) \<and>
     sp_path_cache (ct_session ct) = set (map path_key (request_uris ct)) \<and>
     (\<forall>us\<in>set (request_uris ct). us_host us = host \<and> us_port us = port) \<and>
     (\<forall>i r. sp_streams (ct_session ct) i = Some r \<longrightarrow> 0 < r \<and> r \<le> length (request_uris ct))"

lemma put_request_uris [simp]:
  "(\<And>q. cr_us (f q) = cr_us q) \<Longrightarrow> request_uris (put_request r f ct) = request_uris ct"
  by (cases "r - 1 < length (sp_reqvec (ct_session ct))")
    (auto simp: request_uris_def put_request_def put_session_def map_update list_update_same_conv list_update_beyond)

lemma put_request_keeps [simp]:
  "sp_path_cache (ct_session (put_request r f ct)) = sp_path_cache (ct_session ct)"
  "sp_streams (ct_session (put_request r f ct)) = sp_streams (ct_session ct)"
  "sp_complete (ct_session (put_request r f ct)) = sp_complete (ct_session ct)"
  "length (sp_reqvec (ct_session (put_request r f ct))) = length (sp_reqvec (ct_session ct))"
  by (simp_all add: put_request_def put_session_def)

lemma cat_inv_put_request [simp]:
  "(\<And>q. cr_us (f q) = cr_us q) \<Longrightarrow> cat_inv host port (put_request r f ct) = cat_inv host port ct"
  by (simp add: cat_inv_def)

lemma same_session_inv: "ct_session ct' = ct_session ct \<Longrightarrow> cat_inv host port ct' = cat_inv host port ct"
  by (simp add: cat_inv_def request_uris_def)

lemma write_out_session [simp]: "ct_session (write_out env bs ct) = ct_session ct"
  by (simp add: write_out_def)

lemma get_request_uri: "get_request r ct = Some req \<Longrightarrow> cr_us req \<in> set (request_uris ct)"
  by (auto simp: get_request_def Let_def request_uris_def split: if_splits)

lemma cat_inv_add:
  assumes "cat_inv host port ct" "us_host us = host" "us_port us = port"
  shows "cat_inv host port (put_session (\<lambda>sp. snd (add_request us lv sp)) ct)"
proof (cases "path_key us \<in> sp_path_cache (ct_session ct)")
  case True
  then show ?thesis using assms(1) by (simp add: put_session_def add_request_def Let_def)
next
  case False
  then have "request_uris (put_session (\<lambda>sp. snd (add_request us lv sp)) ct) = request_uris ct @ [us]"
    by (simp add: put_session_def add_request_def Let_def request_uris_def cat_Request_new_def)
  moreover have "sp_path_cache (ct_session (put_session (\<lambda>sp. snd (add_request us lv sp)) ct)) =
      insert (path_key us) (sp_path_cache (ct_session ct))"
    "sp_streams (ct_session (put_session (\<lambda>sp. snd (add_request us lv sp)) ct)) = sp_streams (ct_session ct)"
    using False by (simp_all add: put_session_def add_request_def Let_def)
  ultimately show ?thesis using assms False by (fastforce simp: cat_inv_def)
qed

text \<open>What the functions that read a page do: they keep the invariant, count nothing and submit no GOAWAY.\<close>

definition page_post :: "bytes \<Rightarrow> u16 \<Rightarrow> ('z, 'p) cat \<Rightarrow> ('z, 'p) cat \<times> api_call list \<Rightarrow> bool" where
  "page_post host port ct res \<longleftrightarrow>
     (case res of (ct', calls) \<Rightarrow>
        cat_inv host port ct' \<and> sp_complete (ct_session ct') = sp_complete (ct_session ct) \<and>
        sp_streams (ct_session ct') = sp_streams (ct_session ct) \<and> (\<forall>c. SubmitGoaway c \<notin> set calls))"

lemma page_post_trans:
  "page_post host port ct (ct1, calls1) \<Longrightarrow> page_post host port ct1 (ct2, calls2) \<Longrightarrow>
     page_post host port ct (ct2, calls1 @ calls2)"
  by (auto simp: page_post_def)

lemma submit_request_post:
  assumes "cat_submit_request env r ct = Some res" "cat_inv host port ct"
  shows "page_post host port ct res"
  using assms
  by (auto simp: cat_submit_request_def request_nv page_post_def Let_def bind_eq_Some_conv split: if_splits
      cong: same_session_inv)

lemma follow_link_post:
  assumes "follow_link env req uri ct = Some res" "cat_inv host port ct" "us_host (cr_us req) = host" "us_port (cr_us req) = port"
  shows "page_post host port ct res"
proof -
  obtain parsed where p: "parse uri = Some parsed" using assms(1) by (auto simp: follow_link_def bind_eq_Some_conv)
  show ?thesis
  proof (cases "\<exists>us. parsed = Some us \<and> same_origin (cr_us req) us")
    case True
    then obtain us where us: "parsed = Some us" "same_origin (cr_us req) us" by blast
    define ct1 where "ct1 = put_session (\<lambda>sp. snd (add_request us (cr_level req + 1) sp)) ct"
    have i: "cat_inv host port ct1" unfolding ct1_def
      using us(2) assms(2-4) by (intro cat_inv_add) (auto simp: same_origin_def)
    have "cat_submit_request env (length (sp_reqvec (ct_session ct1))) ct1 = Some res"
      using assms(1) p us by (simp add: follow_link_def Let_def ct1_def)
    from submit_request_post [OF this i] have "page_post host port ct1 res" .
    moreover have "page_post host port ct (ct1, [])"
      using i by (simp add: page_post_def ct1_def put_session_def add_request_def Let_def)
    ultimately show ?thesis using page_post_trans [of host port ct ct1 "[]"] by (cases res) fastforce
  next
    case False
    then show ?thesis using assms p by (auto simp: follow_link_def page_post_def split: option.split_asm if_splits)
  qed
qed

lemma follow_links_post:
  assumes "follow_links env req uris ct = Some res" "cat_inv host port ct" "us_host (cr_us req) = host" "us_port (cr_us req) = port"
  shows "page_post host port ct res"
  using assms
proof (induction uris arbitrary: ct res)
  case Nil
  then show ?case by (auto simp: page_post_def)
next
  case (Cons uri uris)
  then obtain ct1 calls1 ct2 calls2 where f: "follow_link env req uri ct = Some (ct1, calls1)"
      "follow_links env req uris ct1 = Some (ct2, calls2)" "res = (ct2, calls1 @ calls2)"
    by (auto simp: bind_eq_Some_conv)
  have p1: "page_post host port ct (ct1, calls1)" using follow_link_post [OF f(1)] Cons.prems by blast
  then have "cat_inv host port ct1" by (simp add: page_post_def)
  with Cons.IH [OF f(2)] Cons.prems p1 show ?case unfolding f(3) by (blast intro: page_post_trans)
qed

lemma update_html_parser_post:
  assumes "update_html_parser env r data fin ct = Some res" "cat_inv host port ct"
  shows "page_post host port ct res"
proof -
  obtain req where req: "get_request r ct = Some req" using assms(1) by (auto simp: update_html_parser_def bind_eq_Some_conv)
  have hp: "us_host (cr_us req) = host \<and> us_port (cr_us req) = port"
    using get_request_uri [OF req] assms(2) by (auto simp: cat_inv_def)
  show ?thesis
  proof (cases "cr_html_parser req")
    case None
    with req assms show ?thesis by (auto simp: update_html_parser_def page_post_def)
  next
    case (Some parser)
    with req assms(1) obtain links ct1 calls hp2 where f: "follow_links env req links ct = Some (ct1, calls)"
        and res: "res = (put_request r (\<lambda>q. q\<lparr>cr_html_parser := Some (clear_links hp2)\<rparr>) ct1, calls)"
      by (auto simp: update_html_parser_def bind_eq_Some_conv)
    from follow_links_post [OF f assms(2)] hp show ?thesis unfolding res by (simp add: page_post_def)
  qed
qed

lemma inflate_loop_post:
  assumes "inflate_loop env stream_id r data ct = Some res" "cat_inv host port ct"
  shows "page_post host port ct res"
proof (rule inflate_loop.raw_induct [of "\<lambda>env stream_id r data ct res. cat_inv host port ct \<longrightarrow> page_post host port ct res",
      rule_format, OF _ assms], goal_cases)
  case (1 rec env stream_id r data ct res)
  show ?case
  proof (cases "data = []")
    case True
    with 1 show ?thesis by (auto simp: page_post_def)
  next
    case False
    with 1(2) obtain req z where rz: "get_request r ct = Some req" "cr_inflater req = Some z"
      by (auto simp: bind_eq_Some_conv)
    obtain rv outlen tlen out z' where inf: "spdylay_gzip_inflate (en_zlib env) z MAX_OUTLEN data = (rv, outlen, tlen, out, z')"
      by (metis prod_cases5)
    define ct1 where "ct1 = put_request r (\<lambda>q. q\<lparr>cr_inflater := Some z'\<rparr>) ct"
    have p1: "page_post host port ct (ct1, [])" "page_post host port ct (write_out env out ct1, [])"
      using 1(3) by (simp_all add: page_post_def ct1_def cong: same_session_inv)
    show ?thesis
    proof (cases "rv = -1")
      case True
      with False 1(2) rz inf p1(1) show ?thesis by (auto simp: ct1_def page_post_def)
    next
      case rv: False
      with False 1(2) rz inf obtain ct2 calls1 ct3 calls2 where
          u: "update_html_parser env r out False (write_out env out ct1) = Some (ct2, calls1)"
          "rec env stream_id r (drop tlen data) ct2 = Some (ct3, calls2)" "res = (ct3, calls1 @ calls2)"
        by (auto simp: ct1_def bind_eq_Some_conv)
      have p2: "page_post host port (write_out env out ct1) (ct2, calls1)"
        using p1(2) by (intro update_html_parser_post [OF u(1)]) (simp add: page_post_def)
      moreover have "page_post host port ct2 (ct3, calls2)"
        using 1(1) [OF u(2)] p2 by (simp add: page_post_def)
      ultimately show ?thesis
        unfolding u(3) using page_post_trans [OF p1(2)] by (fastforce intro: page_post_trans)
    qed
  qed
qed

lemma data_chunk_post:
  assumes "cat_on_data_chunk_recv env i data ct = Some res" "cat_inv host port ct"
  shows "page_post host port ct res"
proof -
  have w: "cat_inv host port (write_out env data ct)" using assms(2) by (simp cong: same_session_inv)
  show ?thesis
    using assms w inflate_loop_post [of env i _ data ct res] update_html_parser_post [of env _ data False "write_out env data ct" res]
    by (auto simp: cat_on_data_chunk_recv_def bind_eq_Some_conv page_post_def split: option.split_asm if_splits)
qed

lemma check_stream_id_inv:
  assumes "check_stream_id env ud i ct = Some ct'" "cat_inv host port ct"
  shows "cat_inv host port ct'"
proof -
  obtain req where req: "get_request (ud i) ct = Some req" using assms(1) by (auto simp: check_stream_id_def bind_eq_Some_conv)
  then have "0 < ud i \<and> ud i \<le> length (request_uris ct)"
    by (auto simp: get_request_def request_uris_def Let_def split: if_splits)
  then have "cat_inv host port (put_session (\<lambda>sp. sp\<lparr>sp_streams := (sp_streams sp)(i \<mapsto> ud i)\<rparr>) ct)"
    using assms(2) by (auto simp: cat_inv_def put_session_def request_uris_def)
  then show ?thesis using assms(1) req by (auto simp: check_stream_id_def)
qed

lemma response_headers_post:
  assumes "response_headers env r nv ct = Some ct'" "cat_inv host port ct"
  shows "page_post host port ct (ct', [])"
proof -
  obtain req where req: "get_request r ct = Some req" using assms(1) by (auto simp: response_headers_def bind_eq_Some_conv)
  obtain gzip status where sc: "scan_response_nv nv (False, cr_status req) = (gzip, status)" by fastforce
  define ct1 where "ct1 = put_request r (\<lambda>q. q\<lparr>cr_status := status\<rparr>) ct"
  obtain ct2 where ct2: "(if gzip \<and> cr_inflater req = None then init_inflater env r ct1 else Some ct1) = Some ct2"
      and ct': "(if (cf_get_assets (en_config env) \<or> cf_use_assoc_list (en_config env)) \<and> cr_level req = 0 \<and> cr_html_parser req = None
       then init_html_parser env r ct2 else Some ct2) = Some ct'"
    using assms(1) req sc unfolding response_headers_def Let_def ct1_def by (auto simp: bind_eq_Some_conv simp del: if_split_asm)
  have "page_post host port ct (ct1, [])" using assms(2) by (simp add: page_post_def ct1_def)
  then have "page_post host port ct (ct2, [])"
    using ct2 same_session_inv [of "ct1\<lparr>ct_mem := m\<rparr>" ct1 host port for m]
    by (auto simp: page_post_def init_inflater_def split: if_splits prod.split_asm)
  then show ?thesis
    using ct' by (auto simp: page_post_def init_html_parser_def bind_eq_Some_conv split: if_splits)
qed

lemma check_response_post:
  assumes "check_response_header env ud frame ct = Some ct'" "cat_inv host port ct"
  shows "page_post host port ct (ct', [])"
  using assms
  by (cases frame) (auto simp: check_response_header_def page_post_def bind_eq_Some_conv split: if_splits dest!: response_headers_post)

lemma ctrl_recv_post:
  assumes "on_ctrl_recv_callback2 env ud frame ct = Some res" "cat_inv host port ct"
  shows "page_post host port ct res"
proof -
  have syn_reply: "page_post host port ct (ct1, [])"
    if "check_response_header env ud frame (put_request r (\<lambda>q. q\<lparr>cr_on_syn_reply_time := en_now env\<rparr>) ct) = Some ct1" for r ct1
    using check_response_post [OF that, of host port] assms(2) by (simp add: page_post_def)
  show ?thesis
    using assms check_response_post [of env ud frame ct _ host port] syn_reply
    by (cases frame) (auto simp: on_ctrl_recv_callback2_def page_post_def bind_eq_Some_conv split: if_splits cong: same_session_inv)
qed

lemma stream_close_post:
  assumes "cat_on_stream_close env i ct = Some (ct', calls)" "cat_inv host port ct"
  shows "cat_inv host port ct'"
    and "SubmitGoaway c \<in> set calls \<longleftrightarrow> sp_streams (ct_session ct) i \<noteq> None \<and> c = SPDYLAY_GOAWAY_OK \<and>
      sp_complete (ct_session ct) + 1 = length (sp_reqvec (ct_session ct'))"
proof -
  have "cat_inv host port ct' \<and> (SubmitGoaway c \<in> set calls \<longleftrightarrow> sp_streams (ct_session ct) i \<noteq> None \<and> c = SPDYLAY_GOAWAY_OK \<and>
      sp_complete (ct_session ct) + 1 = length (sp_reqvec (ct_session ct')))"
  proof (cases "sp_streams (ct_session ct) i")
    case None
    with assms show ?thesis by (auto simp: cat_on_stream_close_def)
  next
    case (Some r)
    with assms(1) obtain ct1 calls1 where u: "update_html_parser env r [] True ct = Some (ct1, calls1)"
        and ct': "ct' = put_session (\<lambda>sp. sp\<lparr>sp_complete := sp_complete sp + 1\<rparr>)
          (put_request r (\<lambda>q. q\<lparr>cr_on_complete_time := en_now env\<rparr>) ct1)"
        and calls: "calls = calls1 @ (if all_requests_processed (ct_session ct') then [SubmitGoaway SPDYLAY_GOAWAY_OK] else [])"
      by (auto simp: cat_on_stream_close_def Let_def bind_eq_Some_conv)
    have p: "page_post host port ct (ct1, calls1)" using update_html_parser_post [OF u assms(2)] .
    have "cat_inv host port (put_request r (\<lambda>q. q\<lparr>cr_on_complete_time := en_now env\<rparr>) ct1)"
      using p by (simp add: page_post_def)
    then have "cat_inv host port ct'" by (simp add: ct' cat_inv_def put_session_def request_uris_def)
    moreover have "sp_complete (ct_session ct') = sp_complete (ct_session ct) + 1"
      using p by (simp add: ct' page_post_def put_session_def)
    ultimately show ?thesis using p Some by (auto simp: calls page_post_def all_requests_processed_def)
  qed
  then show "cat_inv host port ct'"
    "SubmitGoaway c \<in> set calls \<longleftrightarrow> sp_streams (ct_session ct) i \<noteq> None \<and> c = SPDYLAY_GOAWAY_OK \<and>
      sp_complete (ct_session ct) + 1 = length (sp_reqvec (ct_session ct'))" by blast+
qed

text \<open>
  The path cache and the client cache are both stores of paths in the sense of \<open>visited\<close>: the requests
  that \<open>run\<close> collects are the paths it is given, each once, and a submission is a visit to the cache.
\<close>

interpretation requested: visited "\<lambda>paths p. p \<in> paths" insert "\<lambda>_. True"
  by unfold_locales auto

lemma add_requests_visit:
  "visit_new (\<lambda>paths p. p \<in> paths) insert (map path_key uss) (sp_path_cache sp) =
     (drop (length (sp_reqvec sp)) (map (\<lambda>q. path_key (cr_us q)) (sp_reqvec (foldl (\<lambda>sp us. snd (add_request us 0 sp)) sp uss))),
      sp_path_cache (foldl (\<lambda>sp us. snd (add_request us 0 sp)) sp uss)) \<and>
   take (length (sp_reqvec sp)) (sp_reqvec (foldl (\<lambda>sp us. snd (add_request us 0 sp)) sp uss)) = sp_reqvec sp"
proof (induction uss arbitrary: sp)
  case (Cons us uss)
  show ?case
  proof (cases "path_key us \<in> sp_path_cache sp")
    case True
    with Cons show ?thesis by (simp add: add_request_def)
  next
    case False
    define sp1 where "sp1 = snd (add_request us 0 sp)"
    define qs where "qs = sp_reqvec (foldl (\<lambda>sp us. snd (add_request us 0 sp)) sp1 uss)"
    have sp1: "sp_path_cache sp1 = insert (path_key us) (sp_path_cache sp)" "sp_reqvec sp1 = sp_reqvec sp @ [cat_Request_new us 0]"
      using False by (simp_all add: sp1_def add_request_def Let_def)
    from Cons [of sp1] have pre: "take (length (sp_reqvec sp) + 1) qs = sp_reqvec sp @ [cat_Request_new us 0]"
      by (simp add: sp1(2) qs_def)
    then have "drop (length (sp_reqvec sp)) qs = cat_Request_new us 0 # drop (length (sp_reqvec sp) + 1) qs"
      by (metis (no_types, lifting) append_eq_conv_conj append_take_drop_id append_assoc append_Cons append_Nil)
    moreover have "take (length (sp_reqvec sp)) qs = sp_reqvec sp"
      using arg_cong [OF pre, of "take (length (sp_reqvec sp))"] by (simp add: min_def)
    ultimately show ?thesis
      using False Cons [of sp1] by (simp add: sp1(1) sp1_def [symmetric] qs_def [symmetric] drop_map sp1(2) cat_Request_new_def)
  qed
qed simp

lemma run_requests:
  fixes sp :: "('z, 'p) SpdySession"
  assumes "sp = foldl (\<lambda>sp us. snd (add_request us 0 sp)) SpdySession_new uss"
  shows "distinct (map (\<lambda>q. path_key (cr_us q)) (sp_reqvec sp))"
    and "set (map (\<lambda>q. path_key (cr_us q)) (sp_reqvec sp)) = set (map path_key uss)"
  using requested.visit_new_once [OF add_requests_visit [of uss "SpdySession_new :: ('z, 'p) SpdySession", THEN conjunct1]]
  by (simp_all add: assms SpdySession_new_def)

lemma submit_request_visit:
  assumes "cat_submit_request env r ct = Some (ct', calls)" "get_request r ct = Some req"
  shows "visit_new HasFreshCopy cache_path [path_key (cr_us req)] (ct_cache ct) =
    (if calls = [] then [] else [path_key (cr_us req)], ct_cache ct')"
  using assms by (auto simp: cat_submit_request_def request_nv Let_def split: if_splits)

text \<open>
  The states of a client while it works on one session: the requests that \<open>run\<close> collects for a host,
  then submissions, callbacks and calls of the network in any order. Nothing else assigns to it.
\<close>

inductive cat_reach :: "bytes \<Rightarrow> u16 \<Rightarrow> ('z, 'p) cat \<Rightarrow> bool" for host :: bytes and port :: u16 where
  start: "\<forall>us\<in>set uss. us_host us = host \<and> us_port us = port \<Longrightarrow>
    ct_session ct = update_hostport (foldl (\<lambda>sp us. snd (add_request us 0 sp)) SpdySession_new uss) \<Longrightarrow> cat_reach host port ct"
| submit: "cat_reach host port ct \<Longrightarrow> cat_submit_request env r ct = Some (ct', calls) \<Longrightarrow> cat_reach host port ct'"
| event: "cat_reach host port ct \<Longrightarrow> cat_event env ud ev ct = Some (ct', calls) \<Longrightarrow> cat_reach host port ct'"
| network: "cat_reach host port ct \<Longrightarrow> cat_reach host port
    (ct\<lparr>ct_io := n, ct_want_write := w, ct_session := (ct_session ct)\<lparr>sp_on_handshake_time := t\<rparr>\<rparr>)"

lemma cat_event_post:
  assumes "cat_event env ud ev ct = Some (ct', calls)" "cat_inv host port ct"
  shows "cat_inv host port ct'"
  using assms
  by (cases ev) (auto simp: cat_event_def on_ctrl_send_callback2_def page_post_def split: spdylay_frame.split_asm
      dest: stream_close_post(1) check_stream_id_inv ctrl_recv_post data_chunk_post)

lemma start_inv:
  assumes "\<forall>us\<in>set uss. us_host us = host \<and> us_port us = port"
    and "ct_session ct = foldl (\<lambda>sp us. snd (add_request us 0 sp)) SpdySession_new uss"
  shows "cat_inv host port ct"
  using assms
proof (induction uss arbitrary: ct rule: rev_induct)
  case Nil
  then show ?case by (simp add: cat_inv_def request_uris_def SpdySession_new_def)
next
  case (snoc us uss)
  define ct0 where "ct0 = ct\<lparr>ct_session := foldl (\<lambda>sp us. snd (add_request us 0 sp)) SpdySession_new uss\<rparr>"
  have "cat_inv host port ct0" using snoc by (simp add: ct0_def)
  then have "cat_inv host port (put_session (\<lambda>sp. snd (add_request us 0 sp)) ct0)"
    using snoc.prems(1) by (intro cat_inv_add) auto
  then show ?case using snoc.prems(2) by (subst same_session_inv [of _ "put_session (\<lambda>sp. snd (add_request us 0 sp)) ct0"])
    (simp_all add: ct0_def put_session_def)
qed

lemma cat_reach_inv: "cat_reach host port ct \<Longrightarrow> cat_inv host port ct"
proof (induction rule: cat_reach.induct)
  case (start uss ct)
  define ct0 where "ct0 = ct\<lparr>ct_session := foldl (\<lambda>sp us. snd (add_request us 0 sp)) SpdySession_new uss\<rparr>"
  have "cat_inv host port ct0" using start(1) by (rule start_inv) (simp add: ct0_def)
  then show ?case
    using start(2) by (auto simp: cat_inv_def request_uris_def ct0_def update_hostport_def Let_def split: list.split_asm)
next
  case (submit ct env r ct' calls)
  then show ?case using submit_request_post [of env r ct _ host port] by (force simp: page_post_def)
next
  case (network ct n w t)
  then show ?case by (simp add: cat_inv_def request_uris_def)
qed (rule cat_event_post)

text \<open>
  C31. The requests of a session of the client: whatever the order of callbacks, all go to the host
  and port the session is connected to, also those found as links in a page, no path is requested
  under two entries of \<open>reqvec\<close>, and every stream that is registered leads to an entry that exists.
\<close>

theorem client_requests_inv:
  assumes "cat_reach host port ct"
  shows "distinct (map (\<lambda>q. path_key (cr_us q)) (sp_reqvec (ct_session ct))) \<and>
    (\<forall>q\<in>set (sp_reqvec (ct_session ct)). us_host (cr_us q) = host \<and> us_port (cr_us q) = port) \<and>
    (\<forall>i r. sp_streams (ct_session ct) i = Some r \<longrightarrow> (\<exists>q. get_request r ct = Some q))"
  using cat_reach_inv [OF assms] by (auto simp: cat_inv_def request_uris_def comp_def get_request_def Let_def)


section \<open>Compressed bodies\<close>

text \<open>What zlib makes of a piece of a body when each call is given what the calls before have left.\<close>

inductive inflates :: "'z zlib \<Rightarrow> 'z \<Rightarrow> bytes \<Rightarrow> bytes \<Rightarrow> bool" for zl :: "'z zlib" where
  empty: "inflates zl z [] []"
| more: "data \<noteq> [] \<Longrightarrow> spdylay_gzip_inflate zl z MAX_OUTLEN data = (rv, n, k, out, z') \<Longrightarrow>
    inflates zl z' (drop k data) outs \<Longrightarrow> inflates zl z data (out @ outs)"

inductive_cases inflates_more: "inflates zl z (c # data) out"

lemma gzip_rv: "spdylay_gzip_inflate zl z n data = (rv, m, k, out, z') \<Longrightarrow> rv \<noteq> -1"
  by (auto simp: spdylay_gzip_inflate_def Let_def split: prod.split_asm zret.split_asm)

lemma get_put_request:
  "get_request r ct = Some req \<Longrightarrow> get_request r (put_request r f ct) = Some (f req)"
  by (auto simp: get_request_def put_request_def put_session_def Let_def split: if_splits)

lemma inflate_loop_step:
  assumes "data \<noteq> []" "get_request r ct = Some req" "cr_inflater req = Some z" "cr_html_parser req = None"
    "spdylay_gzip_inflate (en_zlib env) z MAX_OUTLEN data = (rv, n, k, out, z')"
  shows "inflate_loop env i r data ct =
    inflate_loop env i r (drop k data) (write_out env out (put_request r (\<lambda>q. q\<lparr>cr_inflater := Some z'\<rparr>) ct))"
proof -
  have "get_request r (write_out env out (put_request r (\<lambda>q. q\<lparr>cr_inflater := Some z'\<rparr>) ct)) = Some (req\<lparr>cr_inflater := Some z'\<rparr>)"
    using get_put_request [OF assms(2)] by (simp add: get_request_def)
  then have "update_html_parser env r out False (write_out env out (put_request r (\<lambda>q. q\<lparr>cr_inflater := Some z'\<rparr>) ct)) =
      Some (write_out env out (put_request r (\<lambda>q. q\<lparr>cr_inflater := Some z'\<rparr>) ct), [])"
    using assms(4) by (simp add: update_html_parser_def)
  then show ?thesis
    using assms gzip_rv [OF assms(5)] by (subst inflate_loop.simps) (simp add: case_prod_beta)
qed

lemma inflate_loop_delivers:
  assumes "inflates (en_zlib env) z data outs" "get_request r ct = Some req" "cr_inflater req = Some z" "cr_html_parser req = None"
  shows "\<exists>ct'. inflate_loop env i r data ct = Some (ct', []) \<and> ct_out ct' = ct_out (write_out env outs ct)"
  using assms
proof (induction arbitrary: ct req rule: inflates.induct)
  case (empty z)
  then show ?case by (subst inflate_loop.simps) (simp add: write_out_def)
next
  case (more data z rv n k out z' outs)
  define ct1 where "ct1 = write_out env out (put_request r (\<lambda>q. q\<lparr>cr_inflater := Some z'\<rparr>) ct)"
  have "get_request r ct1 = Some (req\<lparr>cr_inflater := Some z'\<rparr>)"
    using get_put_request [OF more.prems(1)] by (simp add: get_request_def ct1_def)
  from more.IH [OF this] more.prems(3) obtain ct' where
      "inflate_loop env i r (drop k data) ct1 = Some (ct', []) \<and> ct_out ct' = ct_out (write_out env outs ct1)" by auto
  with inflate_loop_step [OF more.hyps(1) more.prems more.hyps(2)] show ?case
    by (auto simp: ct1_def write_out_def put_request_def put_session_def)
qed

lemma inflate_loop_returns_only:
  assumes "inflate_loop env i r data ct = Some res"
    "get_request r ct = Some req" "cr_inflater req = Some z" "cr_html_parser req = None"
  shows "\<exists>outs. inflates (en_zlib env) z data outs"
proof (rule inflate_loop.raw_induct [of "\<lambda>env i r data ct res. \<forall>req z. get_request r ct = Some req \<longrightarrow> cr_inflater req = Some z \<longrightarrow>
      cr_html_parser req = None \<longrightarrow> (\<exists>outs. inflates (en_zlib env) z data outs)", rule_format, OF _ assms], goal_cases)
  case (1 rec env i r data ct res req z)
  show ?case
  proof (cases "data = []")
    case True
    then show ?thesis by (auto intro: inflates.empty)
  next
    case False
    obtain rv n k out z' where inf: "spdylay_gzip_inflate (en_zlib env) z MAX_OUTLEN data = (rv, n, k, out, z')"
      by (metis prod_cases5)
    define ct1 where "ct1 = write_out env out (put_request r (\<lambda>q. q\<lparr>cr_inflater := Some z'\<rparr>) ct)"
    have g: "get_request r ct1 = Some (req\<lparr>cr_inflater := Some z'\<rparr>)"
      using get_put_request [OF 1(3)] by (simp add: get_request_def ct1_def)
    then have "update_html_parser env r out False ct1 = Some (ct1, [])"
      using 1(5) by (simp add: update_html_parser_def)
    with False 1(2-4) inf gzip_rv [OF inf] obtain res' where "rec env i r (drop k data) ct1 = Some res'"
      by (auto simp: ct1_def bind_eq_Some_conv)
    from 1(1) [OF this g] 1(5) obtain outs where "inflates (en_zlib env) z' (drop k data) outs" by auto
    with inflates.more [OF False inf] show ?thesis by blast
  qed
qed


lemma inflates_stuck:
  assumes "spdylay_gzip_inflate zl z MAX_OUTLEN data = (rv, n, 0, out, z)" "data \<noteq> []"
  shows "\<not> inflates zl z data outs"
proof
  assume "inflates zl z data outs"
  then show False using assms by (induction z data outs rule: inflates.induct) auto
qed

text \<open>
  A damaged compressed body: when zlib has found an error it keeps answering it and consumes
  nothing. The library reports \<open>SPDYLAY_ERR_GZIP\<close>, the client looks for -1 and so never leaves the loop.
\<close>

theorem damaged_body_never_ends:
  assumes "get_request r ct = Some req" "cr_inflater req = Some z" "cr_html_parser req = None" "data \<noteq> []"
    and "z_inflate (en_zlib env) z data MAX_OUTLEN = (Z_DATA_ERROR, 0, [], z)"
  shows "inflate_loop env i r data ct = None"
proof -
  have "spdylay_gzip_inflate (en_zlib env) z MAX_OUTLEN data = (SPDYLAY_ERR_GZIP, 0, 0, [], z)"
    using assms(5) by (simp add: spdylay_gzip_inflate_def Let_def)
  from inflates_stuck [OF this assms(4)] inflate_loop_returns_only [OF _ assms(1-3), of env i data] show ?thesis
    by (cases "inflate_loop env i r data ct") blast+
qed

section \<open>The client as a user of the library\<close>

lemma take_bytes: "n \<le> length offer - (i + 1) \<Longrightarrow> take n (drop (i + 1) offer) = map (\<lambda>k. byte_at offer (i + 1 + k)) [0..<n]"
  by (rule nth_equalityI) (auto simp: byte_at_def)

lemma npn_name_inside:
  assumes "spdy_version (npn_name (byte_at offer) i) = Some v"
  shows "take (unat (byte_at offer i)) (drop (i + 1) offer) = npn_name (byte_at offer) i"
proof -
  have nz: "0 \<notin> set (npn_name (byte_at offer) i)"
    using assms by (auto simp: spdy_version_def name_spdy2_def name_spdy3_def split: if_splits)
  have "i + 1 + k < length offer" if "k < unat (byte_at offer i)" for k
  proof (rule ccontr)
    assume "\<not> i + 1 + k < length offer"
    then have "byte_at offer (i + 1 + k) = 0" by (simp add: byte_at_def)
    moreover have "byte_at offer (i + 1 + k) \<in> set (npn_name (byte_at offer) i)" using that by (force simp: npn_name_def)
    ultimately show False using nz by simp
  qed
  then have "unat (byte_at offer i) \<le> length offer - (i + 1)" by (cases "unat (byte_at offer i)") fastforce+
  then show ?thesis unfolding npn_name_def by (rule take_bytes)
qed

lemma npn_scan_version:
  assumes "npn_scan (byte_at offer) (length offer) i sel = (r, out)" "r > 0"
  shows "\<exists>j n v. out = Some (j, n) \<and> spdy_version (take n (drop j offer)) = Some v"
  using assms
proof (induction "length offer - i" arbitrary: i sel rule: less_induct)
  case less
  note scan = less.prems(1) [unfolded npn_scan.simps [of "byte_at offer" "length offer" i]]
  have lt: "i < length offer" using scan less.prems(2) by (auto split: if_splits)
  show ?case
  proof (cases "spdy_version (npn_name (byte_at offer) i)")
    case (Some v)
    with scan lt have "out = Some (i + 1, unat (byte_at offer i))" by (simp add: npn_match_version)
    with npn_name_inside [OF Some] Some show ?thesis by auto
  next
    case None
    with scan lt obtain sel' where "npn_scan (byte_at offer) (length offer) (i + (unat (byte_at offer i) + 1)) sel' = (r, out)"
      by (simp add: npn_match_version)
    with less.hyps [of "i + (unat (byte_at offer i) + 1)" sel'] lt less.prems(2) show ?thesis by auto
  qed
qed

lemma version_known: "spdy_version p = Some v \<Longrightarrow> spdylay_npn_get_version (Some p) = v \<and> v \<in> {SPDYLAY_PROTO_SPDY2, SPDYLAY_PROTO_SPDY3}"
  by (auto simp: spdy_version_def spdylay_npn_get_version_def name_spdy2_def name_spdy3_def split: if_splits)

lemma wished_version: "wished_proto cf \<noteq> [] \<Longrightarrow> spdy_version (wished_proto cf) \<noteq> None"
  by (auto simp: wished_proto_def spdy_version_def name_spdy2_def name_spdy3_def lit_def split: if_splits)

text \<open>
  Whatever a server offers, a protocol that the client selects is one whose version the library
  then knows: \<open>communicate\<close> does not give up after the negotiation.
\<close>

theorem selected_version:
  assumes "select_next_proto_cb (wished_proto cf) offer = Some next_proto"
  shows "spdylay_npn_get_version (Some next_proto) \<in> {SPDYLAY_PROTO_SPDY2, SPDYLAY_PROTO_SPDY3}"
proof (cases "wished_proto cf = []")
  case True
  with assms obtain r j n where "npn_scan (byte_at offer) (length offer) 0 None = (r, Some (j, n))"
      "r > 0" "next_proto = take n (drop j offer)"
    by (auto simp: select_next_proto_cb_def spdylay_select_next_protocol_def split: prod.split_asm if_splits)
  with npn_scan_version version_known show ?thesis by blast
next
  case False
  with assms wished_version [OF False] version_known show ?thesis by (auto simp: select_next_proto_cb_def)
qed

lemma submit_requests_inv: "submit_requests env rs s = Some s' \<Longrightarrow> session_inv s \<Longrightarrow> session_inv s'"
proof (induction rs arbitrary: s)
  case (Cons r rs)
  then show ?case by (auto simp: bind_eq_Some_conv split: if_splits dest: session.I_callback)
qed auto

lemma recv_send_inv: "recv_send zl cb s = Some (rv, s') \<Longrightarrow> session_inv s \<Longrightarrow> session_inv s'"
  by (auto simp: recv_send_def bind_eq_Some_conv split: if_splits dest: session.I_recv session.I_send)

lemma poll_step_inv:
  assumes "poll_step env nt timeout s = Some p" "session_inv s"
  shows "case p of Stop rv s' \<Rightarrow> session_inv s' \<and> (rv = 0 \<longrightarrow> finish s') | Again t s' \<Rightarrow> session_inv s'"
proof -
  obtain ct where ct: "s_user_data s = Some ct" using assms(1) by (auto simp: poll_step_def bind_eq_Some_conv)
  define s0 where "s0 = s\<lparr>s_user_data := Some (io_done ct)\<rparr>"
  obtain nfds ready hup ms where poll: "nt_poll nt (ct_io ct) (spdylay_session_want_read s)
      (spdylay_session_want_write s \<or> ct_want_write ct) = (nfds, ready, hup, ms)" by (metis prod_cases4)
  have s0: "session_inv s0" unfolding s0_def by (rule session.R_user [rule_format, OF assms(2)])
  show ?thesis
  proof (cases "finish s \<or> nfds = -1")
    case True
    then show ?thesis using assms s0 by (auto simp: poll_step_def Let_def ct poll s0_def [symmetric] split: if_splits)
  next
    case False
    with assms(1) ct poll obtain rv s1 where s1: "(if ready then recv_send (en_zlib env) (cat_callbacks env nt) s0 else Some (0, s0)) = Some (rv, s1)"
        and p: "p = poll_verdict env timeout hup ms rv s1"
      by (auto simp: poll_step_def Let_def s0_def [symmetric] bind_eq_Some_conv)
    have "session_inv s1" using s1 s0 recv_send_inv by (cases ready) auto
    with p show ?thesis by (simp add: poll_verdict_def)
  qed
qed

lemma poll_loop_inv:
  assumes "poll_loop env nt timeout s = Some (rv, s')" "session_inv s"
  shows "session_inv s' \<and> (rv = 0 \<longrightarrow> finish s')"
proof -
  have "session_inv (snd res) \<and> (fst res = 0 \<longrightarrow> finish (snd res))" if "poll_loop env nt timeout s = Some res" for res
  proof (rule poll_loop.raw_induct [of "\<lambda>env nt timeout s res. session_inv s \<longrightarrow> session_inv (snd res) \<and> (fst res = 0 \<longrightarrow> finish (snd res))",
        rule_format, OF _ that assms(2)], goal_cases)
    case (1 rec env nt timeout s res)
    obtain p where p: "poll_step env nt timeout s = Some p" using 1(2) by (auto simp: bind_eq_Some_conv)
    from poll_step_inv [OF p 1(3)] 1(1,2) p show ?case by (cases p) auto
  qed
  with assms(1) show ?thesis by force
qed


text \<open>
  C33. A request of the client, whatever its options: the array of headers is never left, it has the
  fixed headers with the values of \<open>-H\<close> for host, accept and user-agent, then the other headers
  of \<open>-H\<close>, and the library accepts it unless there is no memory, so the \<open>assert\<close> holds.
\<close>

theorem client_request_accepted:
  assumes "cat_main_options opts cat_Config_new en = Some (Continue cf en')" "\<And>h. Opt_H h \<in> set opts \<Longrightarrow> 0 \<notin> set h"
    and "s_version s \<in> {SPDYLAY_PROTO_SPDY2, SPDYLAY_PROTO_SPDY3}"
  shows "\<exists>nv. Spdylay_submit_request version hostport path (cf_headers cf) 3 r = Some (SubmitRequest 3 nv None r) \<and>
    nv = fixed_nv path (given_value (lit ''host'') (cf_headers cf) (c_str hostport))
      (given_value (lit ''accept'') (cf_headers cf) (lit ''*/*''))
      (given_value (lit ''user-agent'') (cf_headers cf) (lit ''spdylay/'' @ version)) @ own_nv (cf_headers cf) \<and>
    fst (spdylay_submit_request s 3 nv None r) \<in> {0, SPDYLAY_ERR_NOMEM}"
proof -
  have "cat_config_ok cf" using cat_options_ok [OF assms(1) config_new_ok] assms(2) by blast
  then have "spdylay_frame_nv_check_null (own_nv (cf_headers cf))" by (intro own_nv_check) (auto simp: cat_config_ok_def)
  then have "spdylay_frame_nv_check_null (fixed_nv path h a u @ own_nv (cf_headers cf))" for h a u
    by (simp add: fixed_nv_def lit_def)
  then show ?thesis using submit_request_result [OF assms(3), of 3] by (simp add: request_nv)
qed

section \<open>Links that are not fetched\<close>

text \<open>
  A link whose path is in the cache makes the list of requests longer without a stream that could
  complete, so it is never counted. A link that was requested before
  makes the client submit the last request of the list again.
\<close>

lemma cached_link:
  assumes "parse uri = Some (Some us)" "same_origin (cr_us req) us" "path_key us \<notin> sp_path_cache (ct_session ct)"
    and "HasFreshCopy (ct_cache ct) (path_key us)"
  shows "\<exists>ct'. follow_link env req uri ct = Some (ct', []) \<and>
    length (sp_reqvec (ct_session ct')) = length (sp_reqvec (ct_session ct)) + 1 \<and>
    sp_complete (ct_session ct') = sp_complete (ct_session ct)"
  using assms
  by (auto simp: follow_link_def Let_def put_session_def add_request_def cat_submit_request_def get_request_def cat_Request_new_def nth_append)

lemma repeated_link:
  assumes "parse uri = Some (Some us)" "same_origin (cr_us req) us" "path_key us \<in> sp_path_cache (ct_session ct)"
    and "sp_reqvec (ct_session ct) = qs @ [q]" "\<not> HasFreshCopy (ct_cache ct) (path_key (cr_us q))"
  shows "\<exists>ct' nv. follow_link env req uri ct = Some (ct', [SubmitRequest 3 nv None (length qs + 1)])"
  using assms
  by (auto simp: follow_link_def Let_def put_session_def add_request_def cat_submit_request_def get_request_def request_nv nth_append)

section \<open>Examples\<close>

definition demo_page :: UriStruct where
  "demo_page = UriStruct_new\<lparr>us_protocol := lit ''https'', us_host := lit ''h'', us_port := 443, us_dir := lit ''/''\<rparr>"

definition demo_cat :: "(unit, unit) cat" where
  "demo_cat = \<lparr>ct_session = update_hostport (snd (add_request demo_page 0 SpdySession_new)),
     ct_cache = \<lparr>cc_enabled = False, cc_entries = Map.empty\<rparr>, ct_mem = good_mem, ct_out = [], ct_io = 0, ct_want_write = False\<rparr>"

definition demo_cat_env :: "unit zlib \<Rightarrow> (unit, unit) cat_env" where
  "demo_cat_env zl = \<lparr>en_config = cat_Config_new, en_zlib = zl, en_inflateInit2 = (\<lambda>_. Some ()),
     en_xml = \<lparr>htmlCreatePushParserCtxt = (\<lambda>_ _. Some ((), [])), htmlParseChunk = (\<lambda>_ _ _. (0, (), []))\<rparr>,
     en_fs = \<lparr>fs_readdir = (\<lambda>_. None), fs_is_dir = (\<lambda>_. False), fs_getlines = (\<lambda>_. [])\<rparr>, en_version = lit ''1'', en_now = (7, 0)\<rparr>"

definition demo_net :: cat_net where
  "demo_net = \<lparr>nt_connect = (\<lambda>_ _. Some None), nt_SSL_write = (\<lambda>_ bs. (int (length bs), False)),
     nt_SSL_read = (\<lambda>_ _. (-1, [], True, False)), nt_poll = (\<lambda>_ _ _. (-1, False, False, 0)), nt_clock = (\<lambda>_. (7, 0)), nt_mem = good_mem\<rparr>"

lemma demo_cat_reach: "cat_reach (lit ''h'') 443 demo_cat"
  by (rule cat_reach.start [of "[demo_page]"]) (simp_all add: demo_cat_def demo_page_def)

theorem client_requests_inv_witness:
  "cat_reach (lit ''h'') 443 demo_cat \<and> length (sp_reqvec (ct_session demo_cat)) = 1 \<and>
     us_host (cr_us (hd (sp_reqvec (ct_session demo_cat)))) = lit ''h'' \<and>
     distinct (map (\<lambda>q. path_key (cr_us q)) (sp_reqvec (ct_session demo_cat)))"
  using client_requests_inv [OF demo_cat_reach] demo_cat_reach
  by (simp add: demo_cat_def add_request_def SpdySession_new_def update_hostport_def Let_def)

lemma demo_cat_request: "get_request 1 demo_cat = Some (cat_Request_new demo_page 0)"
  by (simp add: demo_cat_def get_request_def add_request_def SpdySession_new_def update_hostport_def Let_def)

text \<open>The request of the page was sent on stream 1, which then closes.\<close>

definition demo_cat_sent :: "(unit, unit) cat" where
  "demo_cat_sent = put_request 1 (\<lambda>q. q\<lparr>cr_on_syn_stream_time := (7, 0)\<rparr>)
     (put_session (\<lambda>sp. sp\<lparr>sp_streams := (sp_streams sp)(1 \<mapsto> 1)\<rparr>) demo_cat)"

lemma demo_cat_sent_reach: "cat_reach (lit ''h'') 443 demo_cat_sent"
proof (rule cat_reach.event [OF demo_cat_reach])
  show "cat_event (demo_cat_env stored_zlib) (\<lambda>_. 1)
      (OnCtrlSend (FSynStream (spdylay_frame_syn_stream_init 3 0 1 0 3 []))) demo_cat = Some (demo_cat_sent, [])"
    by (simp add: cat_event_def on_ctrl_send_callback2_def check_stream_id_def demo_cat_request [unfolded One_nat_def] demo_cat_sent_def
        spdylay_frame_syn_stream_init_def demo_cat_env_def)
qed


definition demo_cat_gzip :: "(unit, unit) cat" where
  "demo_cat_gzip = put_request 1 (\<lambda>q. q\<lparr>cr_inflater := Some ()\<rparr>) demo_cat"

lemma demo_cat_gzip_request: "get_request 1 demo_cat_gzip = Some ((cat_Request_new demo_page 0)\<lparr>cr_inflater := Some ()\<rparr>)"
  unfolding demo_cat_gzip_def by (rule get_put_request [OF demo_cat_request])


theorem damaged_body_never_ends_witness:
  "inflate_loop (demo_cat_env (stored_zlib\<lparr>z_inflate := (\<lambda>z inp n. (Z_DATA_ERROR, 0, [], z))\<rparr>)) 1 1 [1] demo_cat_gzip = None"
  by (rule damaged_body_never_ends [OF demo_cat_gzip_request, of "()"]) (simp_all add: cat_Request_new_def demo_cat_env_def stored_zlib_def)

theorem selected_version_witness:
  "select_next_proto_cb (wished_proto cat_Config_new) (npn_encode [name_http11, name_spdy2]) = Some name_spdy2 \<and>
     spdylay_npn_get_version (Some name_spdy2) \<in> {SPDYLAY_PROTO_SPDY2, SPDYLAY_PROTO_SPDY3}"
proof -
  have "select_next_proto_cb (wished_proto cat_Config_new) (npn_encode [name_http11, name_spdy2]) = Some name_spdy2" by code_simp
  then show ?thesis using selected_version by blast
qed

theorem client_request_accepted_witness:
  "\<exists>cf nv. cat_main_options [Opt_H (lit ''Host: x''), Opt_3] cat_Config_new False = Some (Continue cf False) \<and>
     Spdylay_submit_request (lit ''1'') (lit ''h'') (lit ''/'') (cf_headers cf) 3 1 = Some (SubmitRequest 3 nv None 1) \<and>
     fst (spdylay_submit_request demo_client 3 nv None 1) \<in> {0, SPDYLAY_ERR_NOMEM}"
proof -
  obtain cf where o: "cat_main_options [Opt_H (lit ''Host: x''), Opt_3] cat_Config_new False = Some (Continue cf False)"
    by (simp add: parse_header_def lit_def is_space_def)
  have n: "0 \<notin> set h" if "Opt_H h \<in> set [Opt_H (lit ''Host: x''), Opt_3]" for h using that by (auto simp: lit_def)
  have v: "s_version demo_client \<in> {SPDYLAY_PROTO_SPDY2, SPDYLAY_PROTO_SPDY3}"
    by (simp add: demo_client_def spdylay_session_client_new_def new_session_eval Let_def)
  from client_request_accepted [OF o n v, of "lit ''1''" "lit ''h''" "lit ''/''" 1] o show ?thesis by blast
qed


end
