(* ===== verification/Spec2Isabelle.thy ===== *)
theory Spec2Isabelle
  imports Spdy_Prelude Spdy_Helper Spdy_Queue Spdy_PQ Spdy_Map Spdy_Buffer Spdy_Cert_Vector Spdy_NPN
    Spdy_Zlib Spdy_Gzip Spdy_Frame_NV Spdy_Frame Spdy_Stream Spdy_Session Spdy_Submit
    Spdy_Session_Send Spdy_Session_Recv Spdy_Session_Contract Spdy_Session_Inv Spdy_Session_Reach
    Spdy_Inbound Spdy_Fixtures Spdy_Lifecycle Spdy_Flow Spdy_Wire Spdy_Closing
    Spdy_Util Spdy_Uri Shrpx_Http Shrpx_Config Shrpx_Downstream Shrpx_Spdy_Upstream Shrpx_Https_Upstream
    Shrpx_Connection Spdyd_Server Spdyd_Content Spdyd_Loop Spdycat_Html Spdycat_Client Spdycat_Run
begin

text \<open>
  \<^bold>\<open>spdylay: a SPDY/2 and SPDY/3 library in C.\<close>

  A program that speaks SPDY keeps one session object per connection
  (\<open>lib/spdylay_session.c\<close>). It submits requests, responses and control frames
  (\<open>lib/spdylay_submit.c\<close>), which become items of two priority queues; it calls the send loop,
  which takes items out, packs them into frames (\<open>lib/spdylay_frame.c\<close>, with headers compressed
  by \<open>lib/spdylay_zlib.c\<close>) and hands bytes to a callback; and it feeds received bytes to a state
  machine that cuts them into frames, unpacks them, changes the table of streams and calls the
  application back. The streams are kept in a treap (\<open>lib/spdylay_map.c\<close>), the items in binary
  heaps (\<open>lib/spdylay_pq.c\<close>), header blocks in a chunked buffer (\<open>lib/spdylay_buffer.c\<close>).

  \<^bold>\<open>The theories and what they model.\<close>

  \<^item> \<open>Spdy_Prelude\<close>: machine types (\<open>u8\<close>, \<open>u16\<close>, \<open>u32\<close> and \<open>i32\<close> are words of their width), the error
    codes of \<open>spdylay.h\<close>, the allocator \<open>mem\<close>, whose answers to \<open>malloc\<close> are arbitrary, list and
    word lemmas.
  \<^item> \<open>Spdy_Helper\<close>: \<open>spdylay_helper.c\<close>, integers in network byte order and the growth of a buffer.
    Locale \<open>byte_codec\<close> states the encoding laws once for both widths.
  \<^item> \<open>Spdy_Queue\<close>: \<open>spdylay_queue.c\<close> over an explicit store of cells; locale \<open>fifo_queue\<close>.
  \<^item> \<open>Spdy_PQ\<close>: \<open>spdylay_pq.c\<close>, the heap in an array; locales \<open>compar_order\<close> for the comparison and
    \<open>min_queue\<close> for the queue, the second given by the first for the heap.
  \<^item> \<open>Spdy_Map\<close>: \<open>spdylay_map.c\<close>. Parent pointers are a path of crumbs from a node to the root;
    the model has the rotations and both traversals of the code. Locale \<open>keyed_map\<close>.
  \<^item> \<open>Spdy_Buffer\<close>, \<open>Spdy_Cert_Vector\<close>, \<open>Spdy_NPN\<close>, \<open>Spdy_Zlib\<close>, \<open>Spdy_Gzip\<close>: the files of the same
    names. zlib is a record of functions, a parameter; what is asked of it is \<open>zlib_bounds\<close>.
  \<^item> \<open>Spdy_Frame_NV\<close> and \<open>Spdy_Frame\<close>: \<open>spdylay_frame.c\<close>, first the name/value blocks and then the
    frames, one record per structure and a packer and an unpacker for each type.
  \<^item> \<open>Spdy_Stream\<close>: \<open>spdylay_stream.c\<close> and the outbound items with their order.
  \<^item> \<open>Spdy_Session\<close>, \<open>Spdy_Submit\<close>, \<open>Spdy_Session_Send\<close>, \<open>Spdy_Session_Recv\<close>: \<open>spdylay_session.c\<close>,
    \<open>spdylay_submit.c\<close> and \<open>spdylay_associated_content.c\<close>. The record \<open>spdylay_session\<close> has the
    fields of the C structure. Every handler is one definition with the guards, the early
    returns and the order of effects of the C function.
  \<^item> \<open>Spdy_Session_Contract\<close>, \<open>Spdy_Session_Inv\<close>, \<open>Spdy_Session_Reach\<close>: the invariant of a session,
    its proof and the runs of a session as a step relation.
  \<^item> \<open>Spdy_Inbound\<close>: bounds and progress of the receive state machine.
  \<^item> \<open>Spdy_Fixtures\<close>: concrete instances for the examples.
  \<^item> \<open>Spdy_Lifecycle\<close>, \<open>Spdy_Flow\<close>, \<open>Spdy_Wire\<close>, \<open>Spdy_Closing\<close>: the behaviour of whole operations.

  The programs of \<open>src/\<close> use the library: the proxy \<open>shrpx\<close>, the client \<open>spdycat\<close> and the file
  server \<open>spdyd\<close>. The proxy takes requests over SPDY
  or HTTP/1.1 from clients (the upstreams) and forwards them over HTTP/1.1 to a backend (the
  downstreams). The client gets the pages of a list of URIs and, if asked to, what they link to.

  \<^item> \<open>Spdy_Util\<close>, \<open>Spdy_Uri\<close>: \<open>util.cc\<close>, \<open>util.h\<close> and \<open>uri.cc\<close>, strings and URIs as lists of bytes with
    reads outside of a string as an outcome.
  \<^item> \<open>Shrpx_Http\<close>, \<open>Shrpx_Config\<close>: \<open>shrpx_http.cc\<close> and \<open>shrpx_config.cc\<close> with the defaults of \<open>shrpx.cc\<close>.
  \<^item> \<open>Shrpx_Downstream\<close>: \<open>shrpx_downstream.cc\<close>, \<open>shrpx_io_control.cc\<close>, \<open>shrpx_downstream_queue.cc\<close>; the record
    \<open>Downstream\<close> has the fields of the class, and the buffers of libevent are lists of bytes. The
    locales \<open>body_sink\<close> and \<open>chunked_sink\<close> say what it means that a body is written in pieces, plain or
    chunked; uploads and HTTP/1.1 responses are instances.
  \<^item> \<open>Shrpx_Spdy_Upstream\<close>: \<open>shrpx_spdy_upstream.cc\<close>. A callback answers with the API calls it makes, in
    the type that \<open>Spdy_Submit\<close> executes on a session.
  \<^item> \<open>Shrpx_Https_Upstream\<close>: \<open>shrpx_https_upstream.cc\<close>. The state machine of the HTTP parser is a
    parameter; its error number and its pausing, by which the upstream steers, are modelled.
  \<^item> \<open>Shrpx_Connection\<close>: \<open>shrpx_client_handler.cc\<close>, \<open>shrpx_downstream_connection.cc\<close> and the protocol
    list of \<open>shrpx_ssl.cc\<close>. The objects of a client (its handler, the requests, the connections to the
    backend) are stores from addresses to records, and the pointers between them are explicit, so
    that deleting an object that something still points to is a state of the model; what libevent
    may call is the step relation \<open>conn_reach\<close>.
  \<^item> \<open>Spdyd_Server\<close>: \<open>SpdyServer.cc\<close> from the headers of a request to the calls of the SPDY API, over a
    file system that is a parameter.
  \<^item> \<open>Spdyd_Content\<close>: \<open>spdyd.cc\<close> and \<open>AssocContent.cc\<close>, the options and the table of associated content.
  \<^item> \<open>Spdyd_Loop\<close>: the event handlers of \<open>SpdyServer.cc\<close>, the class \<open>Sessions\<close> over the interest list of
    \<open>EventPoll_epoll.cc\<close>, and the loop of \<open>SpdyServer::run\<close>. Each SPDY handler has a session of the model
    of the library with the callbacks of the server. A fault is a value of the sum type: the use of
    a deleted handler or an abort. \<open>spdyd_reach\<close> has the states of the server between turns.
  \<^item> \<open>Spdycat_Html\<close>: \<open>HtmlParser.cc\<close> and \<open>ClientCache.cc\<close>, links of a page, associated content and the
    cache of the client; libxml2 and the file system are parameters. Locale \<open>visited\<close> is the contract
    of a table of what was seen already, for the cache here and for the requests of a session.
  \<^item> \<open>Spdycat_Client\<close>: \<open>spdycat.cc\<close> and what it uses of \<open>spdylay_ssl.cc\<close>. The session object of the client
    is the user data of the SPDY session, and its callbacks are callbacks in the sense of
    \<open>Spdy_Submit\<close>: \<open>communicate\<close> runs the model of the library with them, over a network whose answers
    are a parameter. \<open>Spdycat_Run\<close> has the proofs.

  \<^bold>\<open>How effects are modelled.\<close> A function that changes a session returns the changed session. The
  result of a C function is an \<open>int\<close> with the codes of \<open>spdylay.h\<close>. Where the code can stop at an
  \<open>assert\<close> or \<open>abort\<close>, read or write outside an object, or loop, the model has type \<open>option\<close>, and \<open>None\<close>
  is that outcome; the loops of sending, receiving, decompressing and of the buffer are
  \<open>partial_function (option)\<close>, without fuel. A callback of the application is a function that sees the
  session and answers with its result, new user data and a list of API calls (\<open>api_call\<close>) that
  it makes before it returns; so every theorem about a handler with a callback holds for
  applications that call back into the library. Memory can fail at every allocation.

  \<^bold>\<open>The invariant.\<close> \<open>session_inv\<close> says that the treap is sorted, heap-ordered and counted, that its
  keys are the IDs of its streams, each given out by this end or seen from the peer, that the
  two counters count the streams of the two sides, that both queues are heaps, one with the
  SYN_STREAM items, and that every item has the auxiliary data that the casts of the code rely on.
  \<open>Spdy_Submit\<close> proves once, in the locale \<open>api_rel\<close>, that a relation kept by the few primitive
  effects is kept by every API call and so by every callback; it is interpreted with the frame
  rule \<open>keeps_streams\<close>, with growth of the queues, and, as \<open>handler_contract\<close> and
  \<open>session_contract\<close>, with the preservation of any predicate that the primitive assignments
  keep. \<open>session_inv\<close> is one instance, the state after GOAWAY (\<open>going_away\<close>) another.

  \<^bold>\<open>What is shown.\<close> In this theory: the invariant holds in every reachable session; no stream is
  opened once a session goes away; receiving takes its whole input or fails, copies within its
  buffers, and ends. In \<open>Spdy_Lifecycle\<close> and \<open>Spdy_Closing\<close>: what SYN_STREAM, PING, RST_STREAM,
  GOAWAY, the last DATA frame and a failure do to the table, the counters and the queues, and that
  no API call opens or closes a stream. In \<open>Spdy_Flow\<close>: windows as integers without overflow, the
  size and bytes of data frames, SETTINGS. In \<open>Spdy_Wire\<close>: packing and unpacking are inverse, for
  SYN_STREAM through any zlib that inverts itself (\<open>zlib_inverse\<close>). In the theories of the data
  structures: the treap refines a finite map and its walk is a loop over sorted entries, the heap
  sorts, the queue is first in, first out, the buffer gives back what was written. For the proxy:
  the URI parser is safe on every string and inverts the constructor; which headers are
  forwarded; bodies are relayed in order in both directions, and a chunked one decodes to what
  was sent; when the end of a response is reported; and, here, that no configuration file leads
  to settings that the upstreams do not expect; in every run the connections of a client handler
  and their requests point to each other and to nothing that was deleted (\<open>proxy_connections_safe\<close>).
  For the file server: no request reads outside of the document root; no calm turn of its loop uses a
  deleted handler or loses a descriptor; and it pushes what the client, told to, would fetch. For the client: its tables
  of requests stay consistent in every run and no path has two entries there; the
  library takes every request that the command line can give; the goodbye is sent exactly when all
  requests are complete; a compressed body is written out decompressed; the library invariant holds
  through \<open>communicate\<close>; and, here, client and proxy agree on a protocol.

  \<^bold>\<open>Deviations found.\<close> Some theorems prove behaviour that the code does not intend:
  \<open>fail_session_goaway_unsent\<close>, \<open>pop_next_ignores_limit\<close> and \<open>syn_stream_roundtrip\<close> (SPDY/3 priorities
  lose their third bit) of the library; \<open>chunked_upload_fails\<close>, \<open>early_answer_stops_parser\<close>,
  \<open>broken_response_continues\<close>, \<open>eof_without_answer\<close>, \<open>response_headers_assembled\<close> (a chunked response whose
  header arrives in pieces), \<open>parse_port_wraps\<close> and \<open>warning_is_no_level\<close> of the proxy;
  \<open>spdy_connect_failure_leaks\<close> of its connections; \<open>nul_hides_dots\<close>, \<open>announcement_lost\<close>,
  \<open>failed_connection_deletes_listener\<close> and \<open>handshake_error_leaks\<close> of the file server; \<open>damaged_body_never_ends\<close>, \<open>cached_link\<close> and \<open>repeated_link\<close> of the client.

  \<^bold>\<open>Not modelled.\<close> Functions that only release memory; the string table of \<open>spdylay_strerror\<close>; zlib,
  libevent, libxml2 and OpenSSL; of the proxy the acceptance of connections, its workers, TLS and
  logging; of the client the set-up of sockets and TLS, the printing of frames and the statistics;
  of spdyd the same and the switching of Nagle's algorithm; the vendored HTTP
  and HTML parsers; the examples, tests and the Python binding.
\<close>

section \<open>The session\<close>

text \<open>
  C1. Every session that a program can reach from the two constructors by API calls, runs of the
  send loop and receives, with arbitrary callbacks, input and allocation failures, satisfies the
  session invariant: the stream table is a well-formed treap whose keys are the positive IDs of
  its streams, given out by this end or seen from the peer; the two counters count the streams
  of either side; both priority queues are heaps, split by SYN_STREAM; every queued, active or
  deferred item carries the auxiliary data of its frame type.
\<close>

theorem reachable_session_inv: "session_reach zl s \<Longrightarrow> session_inv s"
  by (rule reach_inv)

theorem reachable_session_inv_witness: "session_reach stored_zlib demo_client \<and> session_inv demo_client"
  using reachable_session_inv [OF demo_reach(1)] demo_reach(1) by simp

text \<open>
  C2. Once a reachable session has begun to go away (a GOAWAY was sent, received or decided on),
  no run opens a stream: every stream of a later state was in the table before, and neither the
  next stream ID nor the last ID accepted from the peer moves.
\<close>

theorem no_stream_after_goaway:
  assumes "session_reach zl s" "s_goaway_flags s \<noteq> 0" "(session_step zl)\<^sup>*\<^sup>* s s'"
  shows "{k. spdylay_session_get_stream s' k \<noteq> None} \<subseteq> {k. spdylay_session_get_stream s k \<noteq> None} \<and>
    s_next_stream_id s' = s_next_stream_id s \<and> s_last_recv_stream_id s' = s_last_recv_stream_id s"
  using going_away_steps [OF reach_inv [OF assms(1)] assms(2,3)] by (simp add: going_away_def)

theorem no_stream_after_goaway_witness:
  "\<exists>s s' :: (unit, unit) spdylay_session. session_step stored_zlib s s' \<and> s_goaway_flags s \<noteq> 0 \<and>
     s_next_stream_id s' = 1 \<and> {k. spdylay_session_get_stream s' k \<noteq> None} \<subseteq> {k. spdylay_session_get_stream s k \<noteq> None}"
proof -
  define s where "s = snd (spdylay_session_fail_session demo_client 1)"
  define s' where "s' = snd (spdylay_submit_ping s)"
  have s: "session_step stored_zlib demo_client s"
    by (rule session_step.api [where c = "FailSession 1"]) (simp add: s_def)
  have t: "session_step stored_zlib s s'" by (rule session_step.api [where c = SubmitPing]) (simp add: s'_def)
  have g: "s_goaway_flags s \<noteq> 0" by (simp add: s_def fail_session_goaway)
  have n: "s_next_stream_id s = 1"
    using frame_rule.R_fail_session [of demo_client 1 "fst (spdylay_session_fail_session demo_client 1)" s]
    by (simp add: s_def keeps_streams_def keeps_fields_def)
  from t have "(session_step stored_zlib)\<^sup>*\<^sup>* s s'" by (rule r_into_rtranclp)
  from no_stream_after_goaway [OF session_reach.step [OF demo_reach(1) s] g this] n show ?thesis using t g by auto
qed

section \<open>Receiving\<close>

text \<open>
  C3. \<open>spdylay_session_mem_recv\<close> either fails or takes the whole input: the count it returns is
  the length of the input, and the session it leaves can take the next call. So the assertion
  of \<open>spdylay_session_recv\<close> that everything was processed holds.
\<close>

theorem mem_recv_consumes:
  assumes "session_live zl s" "spdylay_session_mem_recv zl cb s inp = Some (n, s')"
  shows "n < 0 \<or> n = int (length inp) \<and> session_live zl s' \<and> session_inv s'"
proof -
  obtain res where r: "mem_recv_loop zl cb s inp = Some (res, s')"
    "n = (case res of Inl r \<Rightarrow> r | Inr rest \<Rightarrow> int (length inp) - int (length rest))"
    using assms(2) by (auto simp: spdylay_session_mem_recv_def split: bind_splits)
  note c = mem_recv_loop_consumes [OF conjunct1 [OF live_inv [OF assms(1)]] conjunct2 [OF live_inv [OF assms(1)]] r(1)]
  show ?thesis
  proof (cases res)
    case (Inr rest)
    then have "session_live zl s'" using mem_recv_live r(1) assms(1) by simp
    then show ?thesis using c r(2) Inr live_inv by auto
  qed (use c r in auto)
qed

theorem mem_recv_consumes_witness:
  "\<exists>s'. spdylay_session_mem_recv stored_zlib quiet_callbacks demo_client [0x80, 3, 0] = Some (3, s') \<and>
     session_live stored_zlib s'"
  using demo_recv_part mem_recv_consumes [OF demo_live(1), of quiet_callbacks "[0x80, 3, 0]" 3] by fastforce

text \<open>
  C4. The copies of the receiving state machine stay inside their buffers, whatever the bytes on
  the wire: the header goes to the eight bytes of \<open>headbuf\<close>, the fixed part of a frame and the
  payload of a frame without header block to \<open>buf\<close>, as it was reserved for them.
\<close>

theorem recv_copies_in_bounds:
  assumes "session_live zl s"
  shows "case recv_head s inp of
      None \<Rightarrow> False
    | Some (RGo s1 inp1) \<Rightarrow>
        (\<exists>s2 rest n. recv_pre_nv s1 inp1 (min (length inp1) (if_payloadlen (s_iframe s1) - if_off (s_iframe s1))) =
             Some (s2, rest, n) \<and>
           (iframe_is_ctrl s2 \<and> if_state (s_iframe s2) \<noteq> SPDYLAY_RECV_PAYLOAD_NV \<and>
            if_state (s_iframe s2) \<noteq> SPDYLAY_RECV_PAYLOAD_IGN \<longrightarrow> buffer_payload s2 (take n rest) \<noteq> None))
    | Some _ \<Rightarrow> True"
proof (cases "recv_head s inp")
  case None
  then show ?thesis using recv_head_total live_inv [OF assms] by blast
next
  case (Some p)
  show ?thesis
  proof (cases p)
    case (RGo s1 inp1)
    note h = recv_head_inv [OF Some [unfolded RGo] conjunct2 [OF live_inv [OF assms]]]
    from payload_copies [OF h(1,3), of inp1] show ?thesis using Some RGo by simp
  qed (use Some in simp_all)
qed

theorem recv_copies_in_bounds_witness:
  "recv_head demo_client (replicate 9 0) \<noteq> None"
  using recv_copies_in_bounds [OF demo_live(1), of "replicate 9 0"] by (auto split: option.splits)



section \<open>The settings of the proxy\<close>


section \<open>Client and proxy\<close>


end
